(* ===== verification/Go_Prelude.thy ===== *)
theory Go_Prelude
  imports Main "HOL-Library.Word" "HOL-Library.AList"
begin

text \<open>
  What the development uses of the Go language and of its standard library: strings as byte
  lists with the functions of package \<^verbatim>\<open>strings\<close>, decimal conversion of package
  \<^verbatim>\<open>strconv\<close>, maps as association lists, results of code that may fail or panic, and
  the three ways a piece of code over a shared state can end (it returns, it panics, it
  blocks).  A value \<open>-1\<close> that Go functions return for \<^emph>\<open>not found\<close> is read as
  \<^const>\<open>None\<close>.  Letter case and white space are the ASCII ones: on text outside ASCII,
  Go's tables for Unicode are not modelled.
\<close>

named_theorems go_simps \<open>evaluation rules of the Go library model\<close>

type_synonym bytes = "char list"

section \<open>Results\<close>

text \<open>
  The result of code without side effects: a value, an error value, or a run-time panic
  (a slice bound, an index or a nil pointer).
\<close>

datatype ('e, 'a) res = Ok 'a | Err 'e | Crash

fun res_bind :: "('e, 'a) res \<Rightarrow> ('a \<Rightarrow> ('e, 'b) res) \<Rightarrow> ('e, 'b) res" where
  "res_bind (Ok a) f = f a"
| "res_bind (Err e) f = Err e"
| "res_bind Crash f = Crash"

lemma res_bind_Ok_iff [simp]: "res_bind r f = Ok b \<longleftrightarrow> (\<exists>a. r = Ok a \<and> f a = Ok b)"
  by (cases r) auto

lemma res_bind_Crash_iff: "res_bind r f = Crash \<longleftrightarrow> r = Crash \<or> (\<exists>a. r = Ok a \<and> f a = Crash)"
  by (cases r) auto

section \<open>Package strings\<close>

definition ws_chars :: bytes where
  "ws_chars = map char_of [9, 10, 11, 12, 13, 32 :: nat]"

definition is_space :: "char \<Rightarrow> bool" where
  "is_space c \<longleftrightarrow> c \<in> set ws_chars"

definition lower_char :: "char \<Rightarrow> char" where
  "lower_char c = (if 65 \<le> (of_char c :: nat) \<and> (of_char c :: nat) \<le> 90
     then char_of ((of_char c :: nat) + 32) else c)"

definition upper_char :: "char \<Rightarrow> char" where
  "upper_char c = (if 97 \<le> (of_char c :: nat) \<and> (of_char c :: nat) \<le> 122
     then char_of ((of_char c :: nat) - 32) else c)"

definition strings_ToLower :: "bytes \<Rightarrow> bytes" where
  "strings_ToLower s = map lower_char s"

definition strings_ToUpper :: "bytes \<Rightarrow> bytes" where
  "strings_ToUpper s = map upper_char s"

definition strings_HasPrefix :: "bytes \<Rightarrow> bytes \<Rightarrow> bool" where
  "strings_HasPrefix s p \<longleftrightarrow> take (length p) s = p"

definition strings_TrimPrefix :: "bytes \<Rightarrow> bytes \<Rightarrow> bytes" where
  "strings_TrimPrefix s p = (if strings_HasPrefix s p then drop (length p) s else s)"

fun strings_Index :: "bytes \<Rightarrow> bytes \<Rightarrow> nat option" where
  "strings_Index [] sub = (if sub = [] then Some 0 else None)"
| "strings_Index (c # cs) sub =
     (if strings_HasPrefix (c # cs) sub then Some 0
      else map_option Suc (strings_Index cs sub))"

fun strings_LastIndex :: "bytes \<Rightarrow> bytes \<Rightarrow> nat option" where
  "strings_LastIndex [] sub = (if sub = [] then Some 0 else None)"
| "strings_LastIndex (c # cs) sub =
     (case strings_LastIndex cs sub of
        Some i \<Rightarrow> Some (Suc i)
      | None \<Rightarrow> if strings_HasPrefix (c # cs) sub then Some 0 else None)"

fun strings_IndexAny :: "bytes \<Rightarrow> bytes \<Rightarrow> nat option" where
  "strings_IndexAny [] chars = None"
| "strings_IndexAny (c # cs) chars =
     (if c \<in> set chars then Some 0 else map_option Suc (strings_IndexAny cs chars))"

definition strings_Contains :: "bytes \<Rightarrow> bytes \<Rightarrow> bool" where
  "strings_Contains s sub \<longleftrightarrow> strings_Index s sub \<noteq> None"

definition strings_ContainsAny :: "bytes \<Rightarrow> bytes \<Rightarrow> bool" where
  "strings_ContainsAny s chars \<longleftrightarrow> (\<exists>c \<in> set s. c \<in> set chars)"

definition strings_TrimLeft :: "bytes \<Rightarrow> bytes \<Rightarrow> bytes" where
  "strings_TrimLeft s cutset = dropWhile (\<lambda>c. c \<in> set cutset) s"

definition strings_TrimSpace :: "bytes \<Rightarrow> bytes" where
  "strings_TrimSpace s = rev (dropWhile is_space (rev (dropWhile is_space s)))"

fun strings_Join :: "bytes list \<Rightarrow> bytes \<Rightarrow> bytes" where
  "strings_Join [] sep = []"
| "strings_Join [s] sep = s"
| "strings_Join (s # t # ss) sep = s @ sep @ strings_Join (t # ss) sep"

lemma strings_Index_less: "strings_Index s sub = Some i \<Longrightarrow> i + length sub \<le> length s"
  by (induction s arbitrary: i)
     (auto simp: strings_HasPrefix_def split: if_splits dest: arg_cong [where f = length])

text \<open>
  \<^verbatim>\<open>strings.Split\<close> for a separator that is not empty, the only way the code calls it.
\<close>

function strings_Split :: "bytes \<Rightarrow> bytes \<Rightarrow> bytes list" where
  "strings_Split s sep =
     (if sep = [] then map (\<lambda>c. [c]) s
      else case strings_Index s sep of
        None \<Rightarrow> [s]
      | Some i \<Rightarrow> take i s # strings_Split (drop (i + length sep) s) sep)"
  by pat_completeness auto
termination
proof (relation "measure (\<lambda>(s, sep). length s)")
  fix s sep :: bytes and i
  assume "sep \<noteq> []" and "strings_Index s sep = Some i"
  then have "0 < length sep" and "i + length sep \<le> length s"
    by (auto dest: strings_Index_less)
  then have "length s - (i + length sep) < length s" by linarith
  then show "((drop (i + length sep) s, sep), s, sep) \<in> measure (\<lambda>(s, sep). length s)"
    by simp
qed simp

declare strings_Split.simps [simp del]

definition strings_Count :: "bytes \<Rightarrow> bytes \<Rightarrow> nat" where
  "strings_Count s sub = length (strings_Split s sub) - 1"

definition strings_ReplaceAll :: "bytes \<Rightarrow> bytes \<Rightarrow> bytes \<Rightarrow> bytes" where
  "strings_ReplaceAll s old new = strings_Join (strings_Split s old) new"


section \<open>Package strconv\<close>

datatype num_error = ErrSyntax | ErrRange

definition is_digit :: "char \<Rightarrow> bool" where
  "is_digit c \<longleftrightarrow> 48 \<le> (of_char c :: nat) \<and> (of_char c :: nat) \<le> 57"

definition digit_val :: "char \<Rightarrow> nat" where
  "digit_val c = of_char c - 48"

text \<open>The loop of \<^verbatim>\<open>strconv.ParseUint\<close> in base 10: it stops at the first byte that is
  not a digit, and as soon as the value passes the maximum.\<close>

fun parse_uint_loop :: "nat \<Rightarrow> nat \<Rightarrow> bytes \<Rightarrow> nat \<times> num_error option" where
  "parse_uint_loop m acc [] = (acc, None)"
| "parse_uint_loop m acc (c # cs) =
     (if \<not> is_digit c then (0, Some ErrSyntax)
      else if m < acc * 10 + digit_val c then (m, Some ErrRange)
      else parse_uint_loop m (acc * 10 + digit_val c) cs)"

definition strconv_ParseUint :: "bytes \<Rightarrow> nat \<Rightarrow> nat \<times> num_error option" where
  "strconv_ParseUint s bits =
     (if s = [] then (0, Some ErrSyntax) else parse_uint_loop (2 ^ bits - 1) 0 s)"

text \<open>\<^verbatim>\<open>strconv.Atoi\<close>: an optional sign and a 64-bit integer.\<close>

definition strconv_Atoi :: "bytes \<Rightarrow> int \<times> num_error option" where
  "strconv_Atoi s =
     (let neg = (s \<noteq> [] \<and> hd s = CHR ''-'');
          t = (if s \<noteq> [] \<and> (hd s = CHR ''-'' \<or> hd s = CHR ''+'') then tl s else s);
          (n, e) = strconv_ParseUint t 64
      in case e of
           Some ErrSyntax \<Rightarrow> (0, Some ErrSyntax)
         | _ \<Rightarrow> (if \<not> neg \<and> 2 ^ 63 \<le> n then (2 ^ 63 - 1, Some ErrRange)
                else if neg \<and> 2 ^ 63 < n then (- (2 ^ 63), Some ErrRange)
                else (if neg then - int n else int n, None)))"

definition digit_char :: "nat \<Rightarrow> char" where
  "digit_char n = char_of (48 + n)"

text \<open>The verb \<^verbatim>\<open>%d\<close> on unsigned integers.\<close>

fun fmt_d :: "nat \<Rightarrow> bytes" where
  "fmt_d n = (if n < 10 then [digit_char n] else fmt_d (n div 10) @ [digit_char (n mod 10)])"

declare fmt_d.simps [simp del]

lemma of_char_digit_char [simp]: "n < 10 \<Longrightarrow> (of_char (digit_char n) :: nat) = 48 + n"
  by (simp add: digit_char_def)

lemma is_digit_digit_char [simp]: "n < 10 \<Longrightarrow> is_digit (digit_char n)"
  by (simp add: is_digit_def)

lemma digit_val_digit_char [simp]: "n < 10 \<Longrightarrow> digit_val (digit_char n) = n"
  by (simp add: digit_val_def)

lemma fmt_d_nonempty [simp]: "fmt_d n \<noteq> []"
  by (subst fmt_d.simps) simp

lemma fmt_d_digits: "c \<in> set (fmt_d n) \<Longrightarrow> is_digit c"
proof (induction n rule: fmt_d.induct)
  case (1 n)
  then show ?case
    by (cases "n < 10") (auto simp: fmt_d.simps [of n])
qed

lemma parse_uint_loop_append:
  "parse_uint_loop m a xs = (v, None) \<Longrightarrow>
   parse_uint_loop m a (xs @ ys) = parse_uint_loop m v ys"
  by (induction xs arbitrary: a) (auto split: if_splits)

lemma parse_uint_loop_fmt_d: "n \<le> m \<Longrightarrow> parse_uint_loop m 0 (fmt_d n) = (n, None)"
proof (induction n rule: fmt_d.induct)
  case (1 n)
  show ?case
  proof (cases "n < 10")
    case True
    with "1.prems" show ?thesis by (simp add: fmt_d.simps [of n])
  next
    case False
    with "1.prems" have "n div 10 \<le> m" by linarith
    with False "1.IH" have "parse_uint_loop m 0 (fmt_d (n div 10)) = (n div 10, None)"
      by simp
    with False "1.prems" show ?thesis
      by (simp add: fmt_d.simps [of n] parse_uint_loop_append)
  qed
qed

lemma ParseUint_fmt_d: "n < 2 ^ bits \<Longrightarrow> strconv_ParseUint (fmt_d n) bits = (n, None)"
  by (simp add: strconv_ParseUint_def parse_uint_loop_fmt_d)

lemma fmt_d_inject [simp]: "fmt_d m = fmt_d n \<longleftrightarrow> m = n"
proof
  assume eq: "fmt_d m = fmt_d n"
  have "parse_uint_loop (max m n) 0 (fmt_d m) = (m, None)"
    and "parse_uint_loop (max m n) 0 (fmt_d n) = (n, None)"
    by (simp_all add: parse_uint_loop_fmt_d)
  with eq show "m = n" by (metis fst_conv)
qed simp

lemma parse_uint_loop_bound: "a \<le> m \<Longrightarrow> fst (parse_uint_loop m a s) \<le> m"
  by (induction s arbitrary: a) auto

lemma ParseUint_bound: "fst (strconv_ParseUint s bits) < 2 ^ bits"
proof -
  have "fst (parse_uint_loop (2 ^ bits - 1) 0 s) \<le> 2 ^ bits - 1"
    by (rule parse_uint_loop_bound) simp
  moreover have "(0::nat) < 2 ^ bits" by simp
  ultimately have "fst (parse_uint_loop (2 ^ bits - 1) 0 s) < 2 ^ bits" by linarith
  then show ?thesis by (simp add: strconv_ParseUint_def)
qed

section \<open>Laws of package strings\<close>

lemma strings_HasPrefix_append [simp]: "strings_HasPrefix (p @ s) p"
  by (simp add: strings_HasPrefix_def)

lemma strings_HasPrefix_iff: "strings_HasPrefix s p \<longleftrightarrow> (\<exists>t. s = p @ t)"
  by (metis append_eq_conv_conj append_take_drop_id strings_HasPrefix_def)

lemma strings_HasPrefix_Nil [simp]: "strings_HasPrefix s []"
  by (simp add: strings_HasPrefix_def)

lemma strings_TrimPrefix_append [simp]: "strings_TrimPrefix (p @ s) p = s"
  by (simp add: strings_TrimPrefix_def)

lemma strings_Index_Some:
  "strings_Index s sub = Some i \<Longrightarrow> strings_HasPrefix (drop i s) sub"
  by (induction s arbitrary: i) (auto split: if_splits)

lemma strings_Index_first:
  "strings_Index s sub = Some i \<Longrightarrow> j < i \<Longrightarrow> \<not> strings_HasPrefix (drop j s) sub"
proof (induction s arbitrary: i j)
  case (Cons c s)
  then show ?case
    by (cases j) (auto split: if_splits)
qed (auto split: if_splits)

lemma strings_Index_None:
  "strings_Index s sub = None \<Longrightarrow> \<not> strings_HasPrefix (drop j s) sub"
proof (induction s arbitrary: j)
  case Nil
  then show ?case by (auto simp: strings_HasPrefix_def split: if_splits)
next
  case (Cons c s)
  then show ?case
    by (cases j) (auto split: if_splits)
qed

text \<open>A one-byte separator is the case the parsers use most.\<close>

lemma strings_HasPrefix_single: "strings_HasPrefix s [c] \<longleftrightarrow> s \<noteq> [] \<and> hd s = c"
  by (cases s) (auto simp: strings_HasPrefix_def)

lemma strings_Index_single_None: "strings_Index s [c] = None \<longleftrightarrow> c \<notin> set s"
  by (induction s) (auto simp: strings_HasPrefix_single)

lemma strings_Index_single_append: "c \<notin> set s \<Longrightarrow> strings_Index (s @ c # t) [c] = Some (length s)"
  by (induction s) (auto simp: strings_HasPrefix_single)

lemma strings_Index_single_Some:
  "strings_Index s [c] = Some i \<longleftrightarrow> i < length s \<and> s ! i = c \<and> c \<notin> set (take i s)"
proof (induction s arbitrary: i)
  case (Cons a s)
  then show ?case
    by (cases i) (auto simp: strings_HasPrefix_single)
qed simp

lemma strings_Split_nonempty: "sep \<noteq> [] \<Longrightarrow> strings_Split s sep \<noteq> []"
  by (subst strings_Split.simps) (simp split: option.splits)

lemma strings_Join_Cons:
  "ss \<noteq> [] \<Longrightarrow> strings_Join (s # ss) sep = s @ sep @ strings_Join ss sep"
  by (cases ss) auto

lemma strings_Join_Split:
  assumes "sep \<noteq> []"
  shows "strings_Join (strings_Split s sep) sep = s"
  using assms
proof (induction s sep rule: strings_Split.induct)
  case (1 s sep)
  show ?case
  proof (cases "strings_Index s sep")
    case None
    with "1.prems" show ?thesis by (simp add: strings_Split.simps [of s])
  next
    case (Some i)
    have "sep @ drop (i + length sep) s = drop i s"
      using strings_Index_Some [OF Some]
      by (metis add.commute append_eq_conv_conj drop_drop strings_HasPrefix_iff)
    with 1 Some show ?thesis
      by (simp add: strings_Split.simps [of s] strings_Join_Cons strings_Split_nonempty)
  qed
qed

lemma strings_Split_none: "sep \<noteq> [] \<Longrightarrow> strings_Index s sep = None \<Longrightarrow> strings_Split s sep = [s]"
  by (simp add: strings_Split.simps [of s])

lemma strings_Split_single:
  "c \<notin> set s \<Longrightarrow> strings_Split (s @ c # t) [c] = s # strings_Split t [c]"
  by (simp add: strings_Split.simps [of "s @ c # t"] strings_Index_single_append)

lemma length_strings_ToLower [simp]: "length (strings_ToLower s) = length s"
  by (simp add: strings_ToLower_def)

lemma lower_char_idem [simp]: "lower_char (lower_char c) = lower_char c"
  by (auto simp: lower_char_def)

lemma strings_ToLower_idem [simp]: "strings_ToLower (strings_ToLower s) = strings_ToLower s"
  by (simp add: strings_ToLower_def)

lemma upper_char_idem [simp]: "upper_char (upper_char c) = upper_char c"
  by (auto simp: upper_char_def)

lemma strings_ToUpper_idem [simp]: "strings_ToUpper (strings_ToUpper s) = strings_ToUpper s"
  by (simp add: strings_ToUpper_def)

section \<open>Maps\<close>

text \<open>A Go map is an association list whose keys are distinct: \<^verbatim>\<open>m[k] = v\<close> is
  \<^const>\<open>AList.update\<close>, \<^verbatim>\<open>delete(m, k)\<close> is \<^const>\<open>AList.delete\<close>, and
  \<^verbatim>\<open>v, ok := m[k]\<close> is \<^const>\<open>map_of\<close>.\<close>

lemma keys_update: "set (map fst (AList.update k v al)) = insert k (set (map fst al))"
  by (simp add: dom_update)

lemma keys_delete: "set (map fst (AList.delete k al)) = set (map fst al) - {k}"
  by (simp only: delete_keys set_removeAll)

lemma map_of_Some_key: "map_of al k = Some v \<Longrightarrow> k \<in> set (map fst al)"
  by (metis map_of_eq_None_iff option.distinct(1) set_map)

lemma map_of_None_key: "map_of al k = None \<longleftrightarrow> k \<notin> set (map fst al)"
  by (simp add: map_of_eq_None_iff)

lemma map_of_update [simp]: "map_of (AList.update k v al) j = (if j = k then Some v else map_of al j)"
  by (simp add: update_conv')

lemma map_of_delete_if [simp]: "map_of (AList.delete k al) j = (if j = k then None else map_of al j)"
  by (simp add: delete_conv')

lemma pred_option_code [code]: "pred_option P None \<longleftrightarrow> True" "pred_option P (Some x) \<longleftrightarrow> P x"
  by simp_all

end
