(* ===== verification/Escape.thy ===== *)
theory Escape
  imports Go_Prelude
begin

text \<open>
  Percent encoding of the parts of a SIP URI (\<^verbatim>\<open>sip/escape.go\<close>): the classification of
  bytes \<open>shouldEscape\<close>, the two passes of \<open>Unescape\<close> and the buffer that
  \<open>Escape\<close> fills by index.  The lemmas give \<open>Escape\<close> as a plain map over the
  input (the buffer has exactly the right size and no write is out of range) and the round
  trips of the two functions.
\<close>

datatype encoding = EncodeUserPassword | EncodeHost | EncodeZone | EncodeQueryComponent

datatype escape_error = EscapeError bytes | InvalidHostError bytes

abbreviation byte :: "char \<Rightarrow> nat" where
  "byte c \<equiv> of_char c"

definition ishex :: "char \<Rightarrow> bool" where
  "ishex c \<longleftrightarrow>
     (48 \<le> byte c \<and> byte c \<le> 57) \<or> (97 \<le> byte c \<and> byte c \<le> 102) \<or> (65 \<le> byte c \<and> byte c \<le> 70)"

definition unhex :: "char \<Rightarrow> nat" where
  "unhex c =
     (if 48 \<le> byte c \<and> byte c \<le> 57 then byte c - 48
      else if 97 \<le> byte c \<and> byte c \<le> 102 then byte c - 97 + 10
      else if 65 \<le> byte c \<and> byte c \<le> 70 then byte c - 65 + 10
      else 0)"

definition is_alnum :: "char \<Rightarrow> bool" where
  "is_alnum c \<longleftrightarrow>
     (97 \<le> byte c \<and> byte c \<le> 122) \<or> (65 \<le> byte c \<and> byte c \<le> 90) \<or> (48 \<le> byte c \<and> byte c \<le> 57)"

definition shouldEscape :: "char \<Rightarrow> encoding \<Rightarrow> bool" where
  "shouldEscape c mode =
     (if is_alnum c then False
      else if (mode = EncodeHost \<or> mode = EncodeZone)
           \<and> (c \<in> set ''!$&()*+,;=:[]<>'' \<or> byte c = 39 \<or> byte c = 34) then False
      else if c \<in> set ''-_.~!*()'' \<or> byte c = 39 then False
      else if c \<in> set ''$&+,/:;=?@[]'' \<and> mode = EncodeUserPassword
           then c \<in> set ''@/?:''
      else if c \<in> set ''$&+,/:;=?@[]'' \<and> mode = EncodeQueryComponent
           then c \<in> set ''&;''
      else True)"

definition hexpair :: "char \<Rightarrow> char \<Rightarrow> char" where
  "hexpair h l = char_of (unhex h * 16 + unhex l)"

section \<open>Unescape\<close>

text \<open>The first loop: it counts the escapes and rejects the malformed ones.\<close>

fun unescape_check :: "encoding \<Rightarrow> bytes \<Rightarrow> nat \<Rightarrow> bool \<Rightarrow> (escape_error, nat \<times> bool) res" where
  "unescape_check mode [] n hasPlus = Ok (n, hasPlus)"
| "unescape_check mode (c # cs) n hasPlus =
     (if c = CHR ''%'' then
        (case cs of
           h # l # rest \<Rightarrow>
             if \<not> ishex h \<or> \<not> ishex l then Err (EscapeError (take 3 (c # cs)))
             else if mode = EncodeHost \<and> unhex h < 8 \<and> [c, h, l] \<noteq> ''%25''
               then Err (EscapeError [c, h, l])
             else if mode = EncodeZone \<and> [c, h, l] \<noteq> ''%25'' \<and> hexpair h l \<noteq> CHR '' ''
                  \<and> shouldEscape (hexpair h l) EncodeHost
               then Err (EscapeError [c, h, l])
             else unescape_check mode rest (Suc n) hasPlus
         | _ \<Rightarrow> Err (EscapeError (take 3 (c # cs))))
      else if c = CHR ''+'' then unescape_check mode cs n (mode = EncodeQueryComponent)
      else if (mode = EncodeHost \<or> mode = EncodeZone) \<and> byte c < 128 \<and> shouldEscape c mode
        then Err (InvalidHostError [c])
      else unescape_check mode cs n hasPlus)"

text \<open>The second loop: it writes the decoded bytes; reading past the end would panic.\<close>

fun unescape_build :: "bytes \<Rightarrow> (escape_error, bytes) res" where
  "unescape_build [] = Ok []"
| "unescape_build (c # cs) =
     (if c = CHR ''%'' then
        (case cs of
           h # l # rest \<Rightarrow> res_bind (unescape_build rest) (\<lambda>t. Ok (hexpair h l # t))
         | _ \<Rightarrow> Crash)
      else res_bind (unescape_build cs) (\<lambda>t. Ok (c # t)))"

definition Unescape :: "bytes \<Rightarrow> encoding \<Rightarrow> (escape_error, bytes) res" where
  "Unescape s mode =
     (case unescape_check mode s 0 False of
        Ok (n, hasPlus) \<Rightarrow> if n = 0 \<and> \<not> hasPlus then Ok s else unescape_build s
      | Err e \<Rightarrow> Err e
      | Crash \<Rightarrow> Crash)"

section \<open>Escape\<close>

definition upperhex :: bytes where
  "upperhex = ''0123456789ABCDEF''"

fun escape_count :: "encoding \<Rightarrow> bytes \<Rightarrow> nat \<Rightarrow> nat \<Rightarrow> nat \<times> nat" where
  "escape_count mode [] spaceCount hexCount = (spaceCount, hexCount)"
| "escape_count mode (c # cs) spaceCount hexCount =
     (if shouldEscape c mode then
        if c = CHR '' '' \<and> mode = EncodeQueryComponent
        then escape_count mode cs (Suc spaceCount) hexCount
        else escape_count mode cs spaceCount (Suc hexCount)
      else escape_count mode cs spaceCount hexCount)"

text \<open>The loop that fills the buffer \<open>t\<close> from index \<open>j\<close>; a write past its end panics.\<close>

fun escape_fill :: "encoding \<Rightarrow> bytes \<Rightarrow> bytes \<Rightarrow> nat \<Rightarrow> (escape_error, bytes) res" where
  "escape_fill mode [] t j = Ok t"
| "escape_fill mode (c # cs) t j =
     (if c = CHR '' '' \<and> mode = EncodeQueryComponent then
        (if j < length t then escape_fill mode cs (t[j := c]) (j + 1) else Crash)
      else if shouldEscape c mode then
        (if j + 2 < length t then
           escape_fill mode cs
             (t[j := CHR ''%'', j + 1 := upperhex ! (byte c div 16), j + 2 := upperhex ! (byte c mod 16)])
             (j + 3)
         else Crash)
      else (if j < length t then escape_fill mode cs (t[j := c]) (j + 1) else Crash))"

definition Escape :: "bytes \<Rightarrow> encoding \<Rightarrow> (escape_error, bytes) res" where
  "Escape s mode =
     (let (spaceCount, hexCount) = escape_count mode s 0 0 in
      if spaceCount = 0 \<and> hexCount = 0 then Ok s
      else let t = replicate (length s + 2 * hexCount) (char_of (0::nat)) in
        if hexCount = 0 then Ok (s @ drop (length s) t)
        else escape_fill mode s t 0)"

text \<open>The reference: each byte that must be escaped becomes its three-byte escape.\<close>

definition esc_char :: "encoding \<Rightarrow> char \<Rightarrow> bytes" where
  "esc_char mode c =
     (if shouldEscape c mode \<and> \<not> (c = CHR '' '' \<and> mode = EncodeQueryComponent)
      then [CHR ''%'', upperhex ! (byte c div 16), upperhex ! (byte c mod 16)] else [c])"

definition esc :: "encoding \<Rightarrow> bytes \<Rightarrow> bytes" where
  "esc mode s = concat (map (esc_char mode) s)"

section \<open>Escape computes the reference\<close>

lemma esc_simps [simp]: "esc mode [] = []" "esc mode (c # cs) = esc_char mode c @ esc mode cs"
  by (simp_all add: esc_def)

lemma esc_append: "esc mode (s @ t) = esc mode s @ esc mode t"
  by (simp add: esc_def)

definition hex_needed :: "encoding \<Rightarrow> char \<Rightarrow> bool" where
  "hex_needed mode c \<longleftrightarrow> shouldEscape c mode \<and> \<not> (c = CHR '' '' \<and> mode = EncodeQueryComponent)"

lemma snd_escape_count:
  "snd (escape_count mode s a b) = b + length (filter (hex_needed mode) s)"
  by (induction s arbitrary: a b) (auto simp: hex_needed_def)

lemma esc_char_cases:
  "esc_char mode c =
     (if hex_needed mode c then [CHR ''%'', upperhex ! (byte c div 16), upperhex ! (byte c mod 16)]
      else [c])"
  by (simp add: esc_char_def hex_needed_def)

lemma length_esc: "length (esc mode s) = length s + 2 * length (filter (hex_needed mode) s)"
  by (induction s) (auto simp: esc_char_cases)

lemma esc_id: "filter (hex_needed mode) s = [] \<Longrightarrow> esc mode s = s"
  by (induction s) (auto simp: esc_char_cases split: if_splits)

lemma update_at_1: "(pre @ x # xs)[length pre := a] = (pre @ [a]) @ xs"
  by simp

lemma update_at_3:
  "(pre @ x # y # z # xs)[length pre := a, length pre + 1 := b, length pre + 2 := c] =
   (pre @ [a, b, c]) @ xs"
  by (simp add: list_update_append)

lemma escape_fill_step:
  "escape_fill mode (c # cs) t j =
     (if hex_needed mode c then
        (if j + 2 < length t then
           escape_fill mode cs
             (t[j := CHR ''%'', j + 1 := upperhex ! (byte c div 16), j + 2 := upperhex ! (byte c mod 16)])
             (j + 3)
         else Crash)
      else if j < length t then escape_fill mode cs (t[j := c]) (j + 1) else Crash)"
  by (simp add: hex_needed_def)

lemma escape_fill_esc:
  "escape_fill mode s (pre @ replicate (length (esc mode s)) z) (length pre) = Ok (pre @ esc mode s)"
proof (induction s arbitrary: pre)
  case Nil
  show ?case by simp
next
  case (Cons c s)
  let ?h = "upperhex ! (byte c div 16)" and ?l = "upperhex ! (byte c mod 16)"
  let ?r = "replicate (length (esc mode s)) z"
  show ?case
  proof (cases "hex_needed mode c")
    case False
    then have e: "esc mode (c # s) = c # esc mode s" by (simp add: esc_char_cases)
    have r: "replicate (length (esc mode (c # s))) z = z # ?r" by (simp only: e length_Cons replicate_Suc)
    have "escape_fill mode (c # s) (pre @ z # ?r) (length pre) =
        escape_fill mode s ((pre @ [c]) @ ?r) (length (pre @ [c]))"
      unfolding escape_fill_step update_at_1 using False by simp
    also have "\<dots> = Ok ((pre @ [c]) @ esc mode s)" by (rule Cons.IH)
    finally show ?thesis unfolding r unfolding e by simp
  next
    case True
    then have e: "esc mode (c # s) = CHR ''%'' # ?h # ?l # esc mode s" by (simp add: esc_char_cases)
    have r: "replicate (length (esc mode (c # s))) z = z # z # z # ?r"
      by (simp only: e length_Cons replicate_Suc)
    have "escape_fill mode (c # s) (pre @ z # z # z # ?r) (length pre) =
        escape_fill mode s ((pre @ [CHR ''%'', ?h, ?l]) @ ?r) (length (pre @ [CHR ''%'', ?h, ?l]))"
      unfolding escape_fill_step update_at_3 using True by (simp add: numeral_3_eq_3 del: escape_fill.simps)
    also have "\<dots> = Ok ((pre @ [CHR ''%'', ?h, ?l]) @ esc mode s)" by (rule Cons.IH)
    finally show ?thesis unfolding r unfolding e by simp
  qed
qed

lemma Escape_eq: "Escape s mode = Ok (esc mode s)"
proof -
  obtain sp hx where cnt: "escape_count mode s 0 0 = (sp, hx)" by force
  have hx: "hx = length (filter (hex_needed mode) s)"
    using snd_escape_count [of mode s 0 0] cnt by simp
  show ?thesis
  proof (cases "hx = 0")
    case True
    with hx have "esc mode s = s" by (simp add: esc_id)
    with True cnt show ?thesis by (simp add: Escape_def Let_def)
  next
    case False
    then show ?thesis
      using escape_fill_esc [of mode s "[]" "char_of (0::nat)"] cnt hx
      by (simp add: Escape_def Let_def length_esc)
  qed
qed

section \<open>Round trips\<close>

lemma upperhex_digit:
  assumes "n < 16"
  shows "ishex (upperhex ! n)" and "unhex (upperhex ! n) = n"
proof -
  have "\<forall>n \<in> set [0..<16]. ishex (upperhex ! n) \<and> unhex (upperhex ! n) = n"
    by code_simp
  with assms show "ishex (upperhex ! n)" and "unhex (upperhex ! n) = n" by auto
qed

lemma hex_of_byte:
  "ishex (upperhex ! (byte c div 16))" "ishex (upperhex ! (byte c mod 16))"
  "unhex (upperhex ! (byte c div 16)) = byte c div 16"
  "hexpair (upperhex ! (byte c div 16)) (upperhex ! (byte c mod 16)) = c"
proof -
  have "byte c div 16 < 16" using nat_of_char_less_256 [of c] by linarith
  then show "ishex (upperhex ! (byte c div 16))" "ishex (upperhex ! (byte c mod 16))"
    "unhex (upperhex ! (byte c div 16)) = byte c div 16"
    "hexpair (upperhex ! (byte c div 16)) (upperhex ! (byte c mod 16)) = c"
    by (simp_all add: upperhex_digit hexpair_def)
qed

lemma hex_needed_percent: "hex_needed mode CHR ''%''"
  by (cases mode) (simp_all add: hex_needed_def shouldEscape_def is_alnum_def)

lemma unescape_build_esc: "unescape_build (esc mode s) = Ok s"
proof (induction s)
  case (Cons c s)
  show ?case
  proof (cases "hex_needed mode c")
    case True
    with Cons show ?thesis by (simp add: esc_char_cases hex_of_byte)
  next
    case False
    then have "c \<noteq> CHR ''%''" using hex_needed_percent by auto
    with False Cons show ?thesis by (simp add: esc_char_cases)
  qed
qed simp

lemma Unescape_build:
  assumes "unescape_check mode (esc mode s) 0 False = Ok (n, p)" and "n = 0 \<Longrightarrow> esc mode s = s"
  shows "Unescape (esc mode s) mode = Ok s"
  using assms by (auto simp: Unescape_def unescape_build_esc)

lemma unescape_check_esc:
  assumes "mode = EncodeUserPassword \<or> mode = EncodeQueryComponent"
  shows "\<exists>p'. unescape_check mode (esc mode s) n p = Ok (n + length (filter (hex_needed mode) s), p')"
proof (induction s arbitrary: n p)
  case (Cons c s)
  show ?case
  proof (cases "hex_needed mode c")
    case True
    with Cons [of "Suc n"] assms show ?thesis by (auto simp: esc_char_cases hex_of_byte)
  next
    case False
    then have "c \<noteq> CHR ''%''" using hex_needed_percent by auto
    with False Cons [of n] assms show ?thesis by (auto simp: esc_char_cases)
  qed
qed simp

lemma Unescape_esc:
  assumes "mode = EncodeUserPassword \<or> mode = EncodeQueryComponent"
  shows "Unescape (esc mode s) mode = Ok s"
proof -
  obtain p where "unescape_check mode (esc mode s) 0 False = Ok (length (filter (hex_needed mode) s), p)"
    using unescape_check_esc [OF assms, of s 0 False] by auto
  then show ?thesis by (rule Unescape_build) (simp add: esc_id)
qed

text \<open>In host mode only bytes outside ASCII and the percent sign may be written as escapes.\<close>

definition host_byte :: "char \<Rightarrow> bool" where
  "host_byte c \<longleftrightarrow> 128 \<le> byte c \<or> c = CHR ''%'' \<or> \<not> shouldEscape c EncodeHost"

lemma percent_escape:
  "[CHR ''%'', upperhex ! (byte c div 16), upperhex ! (byte c mod 16)] = ''%25'' \<longleftrightarrow> c = CHR ''%''"
proof
  assume "[CHR ''%'', upperhex ! (byte c div 16), upperhex ! (byte c mod 16)] = ''%25''"
  then have "hexpair (upperhex ! (byte c div 16)) (upperhex ! (byte c mod 16)) = hexpair CHR ''2'' CHR ''5''"
    by simp
  moreover have "hexpair CHR ''2'' CHR ''5'' = CHR ''%''" by code_simp
  ultimately show "c = CHR ''%''" by (simp add: hex_of_byte)
qed (simp add: upperhex_def)

lemma unescape_check_host:
  "(\<exists>p'. unescape_check EncodeHost (esc EncodeHost s) n p =
      Ok (n + length (filter (hex_needed EncodeHost) s), p')) \<longleftrightarrow> list_all host_byte s"
  "\<not> list_all host_byte s \<Longrightarrow> \<exists>e. unescape_check EncodeHost (esc EncodeHost s) n p = Err e"
proof (induction s arbitrary: n p)
  case (Cons c s)
  have hx: "byte c div 16 < 8 \<longleftrightarrow> byte c < 128" by linarith
  {
    case 1
    show ?case
    proof (cases "hex_needed EncodeHost c")
      case True
      with Cons(1) [of "Suc n" p] percent_escape [of c] hx show ?thesis
        by (auto simp: esc_char_cases hex_of_byte host_byte_def hex_needed_def)
    next
      case False
      then have "c \<noteq> CHR ''%''" using hex_needed_percent by auto
      with False Cons(1) show ?thesis
        by (auto simp: esc_char_cases host_byte_def hex_needed_def)
    qed
  next
    case 2
    show ?case
    proof (cases "hex_needed EncodeHost c")
      case True
      with 2 Cons(2) [of "Suc n" p] percent_escape [of c] hx show ?thesis
        by (auto simp: esc_char_cases hex_of_byte host_byte_def hex_needed_def)
    next
      case False
      then have "c \<noteq> CHR ''%''" using hex_needed_percent by auto
      with False 2 Cons(2) show ?thesis
        by (auto simp: esc_char_cases host_byte_def hex_needed_def)
    qed
  }
qed simp_all

lemma Unescape_esc_host: "Unescape (esc EncodeHost s) EncodeHost = Ok s \<longleftrightarrow> list_all host_byte s"
proof (cases "list_all host_byte s")
  case True
  then obtain p where
    "unescape_check EncodeHost (esc EncodeHost s) 0 False = Ok (length (filter (hex_needed EncodeHost) s), p)"
    using unescape_check_host(1) [of s 0 False] by auto
  then have "Unescape (esc EncodeHost s) EncodeHost = Ok s"
    by (rule Unescape_build) (simp add: esc_id)
  with True show ?thesis by simp
next
  case False
  then show ?thesis
    using unescape_check_host(2) [of s 0 False] by (auto simp: Unescape_def)
qed

section \<open>No panic\<close>

lemma unescape_build_checked:
  "unescape_check mode s n p = Ok r \<Longrightarrow> \<exists>t. unescape_build s = Ok t"
  by (induction mode s n p arbitrary: r rule: unescape_check.induct)
     (auto split: if_splits list.splits)

lemma unescape_check_no_crash: "unescape_check mode s n p \<noteq> Crash"
  by (induction mode s n p rule: unescape_check.induct) (auto split: list.splits)

lemma Unescape_no_crash: "Unescape s mode \<noteq> Crash"
  using unescape_build_checked [of mode s 0 False] unescape_check_no_crash [of mode s 0 False]
  by (auto simp: Unescape_def split: res.splits)

section \<open>Properties\<close>

text \<open>C40: Escaping user names, passwords and query components is reversible: \<open>Escape\<close> always returns,
  its result is the text with every byte that needs it replaced by a percent sign and two hex digits,
  and \<open>Unescape\<close> in the same mode gives back the original.\<close>

theorem Escape_Unescape:
  assumes "mode \<in> {EncodeUserPassword, EncodeQueryComponent}"
  shows "\<exists>t. Escape s mode = Ok t \<and> t = esc mode s \<and> Unescape t mode = Ok s"
  using assms by (auto simp: Escape_eq Unescape_esc)

theorem Escape_Unescape_witness:
  "\<exists>t. Escape ''a@b c'' EncodeUserPassword = Ok t \<and> t = ''a%40b%20c'' \<and> Unescape t EncodeUserPassword = Ok ''a@b c''"
proof -
  have "esc EncodeUserPassword ''a@b c'' = ''a%40b%20c''" by code_simp
  then show ?thesis using Escape_Unescape [of EncodeUserPassword "''a@b c''"] by simp
qed

text \<open>An escaped host can be unescaped exactly when every byte of it is allowed in a host, is a percent
  sign, or is not ASCII; \<open>Unescape\<close> rejects the other ones, and never panics.\<close>

theorem Escape_Unescape_host:
  "\<exists>t. Escape s EncodeHost = Ok t \<and> (Unescape t EncodeHost = Ok s \<longleftrightarrow> list_all host_byte s) \<and>
     Unescape t mode \<noteq> Crash"
  by (simp add: Escape_eq Unescape_esc_host Unescape_no_crash)

end
