(* ===== verification/Params.thy ===== *)
theory Params
  imports Escape
begin

text \<open>
  Parameters of URIs and headers (\<^verbatim>\<open>headerParams\<close> of \<^verbatim>\<open>sip/headers.go\<close>): a map
  with the order in which its keys were added.  A \<^verbatim>\<open>MaybeString\<close> is \<^const>\<open>None\<close> for
  nil and \<^const>\<open>Some\<close> for a \<^verbatim>\<open>String\<close>.  The Go map is an association list without
  duplicate keys.  The locale \<open>ordered_dict\<close> states what users of such a dictionary rely
  on; its interpretation on \<open>headerParams\<close> gives the lemmas about copying.
\<close>

type_synonym maybe_string = "bytes option"

definition abnfWs :: bytes where
  "abnfWs = [CHR '' '', char_of (9::nat)]"

section \<open>An ordered dictionary\<close>

locale ordered_dict =
  fixes empty :: 'd
    and add :: "'k \<Rightarrow> 'v \<Rightarrow> 'd \<Rightarrow> 'd"
    and remove :: "'k \<Rightarrow> 'd \<Rightarrow> 'd"
    and get :: "'d \<Rightarrow> 'k \<Rightarrow> 'v option"
    and keys :: "'d \<Rightarrow> 'k list"
    and invar :: "'d \<Rightarrow> bool"
  assumes invar_empty: "invar empty"
    and invar_add: "invar d \<Longrightarrow> invar (add k v d)"
    and invar_remove: "invar d \<Longrightarrow> invar (remove k d)"
    and get_empty: "get empty k = None"
    and get_add: "invar d \<Longrightarrow> get (add k v d) j = (if j = k then Some v else get d j)"
    and get_remove: "invar d \<Longrightarrow> get (remove k d) j = (if j = k then None else get d j)"
    and keys_empty: "keys empty = []"
    and keys_add: "invar d \<Longrightarrow> keys (add k v d) = (if get d k = None then keys d @ [k] else keys d)"
    and keys_remove: "invar d \<Longrightarrow> keys (remove k d) = remove1 k (keys d)"
    and distinct_keys: "invar d \<Longrightarrow> distinct (keys d)"
    and set_keys: "invar d \<Longrightarrow> k \<in> set (keys d) \<longleftrightarrow> get d k \<noteq> None"
begin

text \<open>Adding the entries of one dictionary, in its order, to another one.\<close>

definition add_all :: "'d \<Rightarrow> 'k list \<Rightarrow> 'd \<Rightarrow> 'd" where
  "add_all src ks d =
     fold (\<lambda>k d. case get src k of Some v \<Rightarrow> add k v d | None \<Rightarrow> d) ks d"

lemma add_all_simps [simp]:
  "add_all src [] d = d"
  "add_all src (k # ks) d = add_all src ks (case get src k of Some v \<Rightarrow> add k v d | None \<Rightarrow> d)"
  by (simp_all add: add_all_def)

lemma add_all_correct:
  "invar d \<Longrightarrow> distinct ks \<Longrightarrow> (\<And>k. k \<in> set ks \<Longrightarrow> get src k \<noteq> None \<and> get d k = None) \<Longrightarrow>
   invar (add_all src ks d) \<and> keys (add_all src ks d) = keys d @ ks \<and>
   get (add_all src ks d) j = (if j \<in> set ks then get src j else get d j)"
proof (induction ks arbitrary: d)
  case (Cons k ks)
  then obtain v where v: "get src k = Some v" by fastforce
  have new: "get d k = None" using Cons.prems(3) by simp
  have d': "invar (add k v d)" "keys (add k v d) = keys d @ [k]"
    using Cons.prems(1) new by (simp_all add: invar_add keys_add)
  have "invar (add_all src ks (add k v d)) \<and>
      keys (add_all src ks (add k v d)) = keys (add k v d) @ ks \<and>
      get (add_all src ks (add k v d)) j = (if j \<in> set ks then get src j else get (add k v d) j)"
    using Cons.prems d'(1) by (intro Cons.IH) (auto simp: get_add)
  then show ?case using v d' Cons.prems by (auto simp: get_add)
qed simp

lemma copy_correct:
  assumes "invar d"
  shows "invar (add_all d (keys d) empty)" and "keys (add_all d (keys d) empty) = keys d"
    and "get (add_all d (keys d) empty) = get d"
proof -
  have *: "invar (add_all d (keys d) empty) \<and> keys (add_all d (keys d) empty) = keys empty @ keys d \<and>
      get (add_all d (keys d) empty) j = (if j \<in> set (keys d) then get d j else get empty j)" for j
    using assms by (intro add_all_correct) (auto simp: invar_empty get_empty set_keys distinct_keys)
  then show "invar (add_all d (keys d) empty)" and "keys (add_all d (keys d) empty) = keys d"
    by (simp_all add: keys_empty)
  show "get (add_all d (keys d) empty) = get d"
    using * assms by (auto simp: fun_eq_iff get_empty set_keys)
qed

lemma remove_add_new:
  assumes "invar d" and "get d k = None"
  shows "keys (remove k (add k v d)) = keys d" and "get (remove k (add k v d)) = get d"
proof -
  have "k \<notin> set (keys d)" using assms by (simp add: set_keys)
  then show "keys (remove k (add k v d)) = keys d"
    using assms by (simp add: keys_remove keys_add invar_add remove1_append)
  show "get (remove k (add k v d)) = get d"
    using assms by (auto simp: fun_eq_iff get_remove get_add invar_add)
qed

end

section \<open>headerParams\<close>

record headerParams =
  params :: "(bytes \<times> maybe_string) list"
  paramOrder :: "bytes list"

definition NewParams :: headerParams where
  "NewParams = \<lparr>params = [], paramOrder = []\<rparr>"

definition params_Items :: "headerParams \<Rightarrow> (bytes \<times> maybe_string) list" where
  "params_Items ps = params ps"

definition params_Keys :: "headerParams \<Rightarrow> bytes list" where
  "params_Keys ps = paramOrder ps"

definition params_Get :: "headerParams \<Rightarrow> bytes \<Rightarrow> maybe_string option" where
  "params_Get ps key = map_of (params ps) key"

definition params_Add :: "bytes \<Rightarrow> maybe_string \<Rightarrow> headerParams \<Rightarrow> headerParams" where
  "params_Add key val ps =
     (let ps' = (case map_of (params ps) key of
                   None \<Rightarrow> ps\<lparr>paramOrder := paramOrder ps @ [key]\<rparr>
                 | Some _ \<Rightarrow> ps)
      in ps'\<lparr>params := AList.update key val (params ps')\<rparr>)"

definition params_Remove :: "bytes \<Rightarrow> headerParams \<Rightarrow> headerParams" where
  "params_Remove key ps =
     (case map_of (params ps) key of
        Some _ \<Rightarrow> ps\<lparr>paramOrder := remove1 key (paramOrder ps), params := AList.delete key (params ps)\<rparr>
      | None \<Rightarrow> ps)"

definition params_Has :: "headerParams \<Rightarrow> bytes \<Rightarrow> bool" where
  "params_Has ps key \<longleftrightarrow> map_of (params ps) key \<noteq> None"

definition params_Length :: "headerParams \<Rightarrow> nat" where
  "params_Length ps = length (params ps)"

fun params_clone_loop :: "headerParams \<Rightarrow> bytes list \<Rightarrow> headerParams \<Rightarrow> headerParams" where
  "params_clone_loop ps [] dup = dup"
| "params_clone_loop ps (key # keys) dup =
     (case params_Get ps key of
        Some val \<Rightarrow> params_clone_loop ps keys (params_Add key val dup)
      | None \<Rightarrow> params_clone_loop ps keys dup)"

definition params_Clone :: "headerParams \<Rightarrow> headerParams" where
  "params_Clone ps = params_clone_loop ps (params_Keys ps) NewParams"

text \<open>\<open>Escape\<close> returns on every input (lemma \<open>Escape_eq\<close>), so its result is a string.\<close>

definition escaped :: "bytes \<Rightarrow> encoding \<Rightarrow> bytes" where
  "escaped s mode = (case Escape s mode of Ok t \<Rightarrow> t | _ \<Rightarrow> [])"

definition quote :: char where
  "quote = char_of (34::nat)"

definition param_value_string :: "maybe_string \<Rightarrow> bytes" where
  "param_value_string val =
     (case val of
        None \<Rightarrow> []
      | Some valStr \<Rightarrow>
          if valStr \<noteq> [] \<and> hd valStr = quote \<and> last valStr = quote then ''='' @ valStr
          else if strings_ContainsAny valStr abnfWs then
            ''='' @ [quote]
              @ strings_ReplaceAll (escaped valStr EncodeQueryComponent) [quote] [CHR 0x5C, quote]
              @ [quote]
          else ''='' @ escaped valStr EncodeQueryComponent)"

fun params_to_string_loop :: "headerParams \<Rightarrow> char \<Rightarrow> bool \<Rightarrow> bytes list \<Rightarrow> bytes" where
  "params_to_string_loop ps sep first [] = []"
| "params_to_string_loop ps sep first (key # keys) =
     (case params_Get ps key of
        None \<Rightarrow> params_to_string_loop ps sep first keys
      | Some val \<Rightarrow>
          (if first then [] else [sep]) @ escaped key EncodeQueryComponent
            @ param_value_string val @ params_to_string_loop ps sep False keys)"

definition params_ToString :: "headerParams \<Rightarrow> char \<Rightarrow> bytes" where
  "params_ToString ps sep = params_to_string_loop ps sep True (params_Keys ps)"

text \<open>\<open>Equals\<close> on two parameter sets that are not nil; the other argument is an interface
  value, \<^const>\<open>None\<close> when it is nil.\<close>

definition params_Equals :: "headerParams \<Rightarrow> headerParams option \<Rightarrow> bool" where
  "params_Equals ps other =
     (case other of
        None \<Rightarrow> False
      | Some q \<Rightarrow>
          if params_Length ps = 0 \<and> params_Length q = 0 then True
          else if params_Length ps \<noteq> params_Length q then False
          else list_all (\<lambda>(key, pVal). params_Get q key = Some pVal) (params_Items ps))"

definition cloneWithNil :: "headerParams option \<Rightarrow> headerParams" where
  "cloneWithNil ps = (case ps of None \<Rightarrow> NewParams | Some p \<Rightarrow> params_Clone p)"

section \<open>The invariant and the interpretation\<close>

text \<open>
  The association list that stands for the Go map is kept in the order of \<open>paramOrder\<close>;
  the map itself has no order.
\<close>

definition params_wf :: "headerParams \<Rightarrow> bool" where
  "params_wf ps \<longleftrightarrow> distinct (paramOrder ps) \<and> map fst (params ps) = paramOrder ps"

lemmas params_defs = NewParams_def params_Items_def params_Keys_def params_Get_def params_Add_def
  params_Remove_def params_Has_def params_Length_def params_wf_def

lemma params_wf_Add: "params_wf ps \<Longrightarrow> params_wf (params_Add k v ps)"
  by (auto simp: params_defs Let_def update_keys map_of_None_key simp del: set_map map_of_eq_Some_iff
      split: option.splits dest: map_of_Some_key)

lemma params_wf_Remove: "params_wf ps \<Longrightarrow> params_wf (params_Remove k ps)"
  by (auto simp: params_defs delete_keys distinct_remove1_removeAll distinct_removeAll split: option.splits)

interpretation pd: ordered_dict NewParams params_Add params_Remove params_Get params_Keys params_wf
proof
  show "params_wf NewParams" by (simp add: params_defs)
  show "params_wf (params_Add k v d)" if "params_wf d" for k v d
    using that by (rule params_wf_Add)
  show "params_wf (params_Remove k d)" if "params_wf d" for k d
    using that by (rule params_wf_Remove)
  show "params_Get NewParams k = None" for k by (simp add: params_defs)
  show "params_Get (params_Add k v d) j = (if j = k then Some v else params_Get d j)"
    if "params_wf d" for d k v j
    by (auto simp: params_defs Let_def split: option.splits)
  show "params_Get (params_Remove k d) j = (if j = k then None else params_Get d j)"
    if "params_wf d" for d k j
    by (auto simp: params_defs split: option.splits)
  show "params_Keys NewParams = []" by (simp add: params_defs)
  show "params_Keys (params_Add k v d) =
      (if params_Get d k = None then params_Keys d @ [k] else params_Keys d)" if "params_wf d" for d k v
    by (auto simp: params_defs Let_def split: option.splits)
  show "params_Keys (params_Remove k d) = remove1 k (params_Keys d)" if "params_wf d" for d k
    using that by (auto simp: params_defs remove1_idem map_of_None_key simp del: set_map split: option.splits)
  show "distinct (params_Keys d)" if "params_wf d" for d
    using that by (simp add: params_defs)
  show "k \<in> set (params_Keys d) \<longleftrightarrow> params_Get d k \<noteq> None" if "params_wf d" for d k
    using that by (simp add: params_defs map_of_None_key del: set_map)
qed

lemma params_wf_NewParams [simp]: "params_wf NewParams"
  by (rule pd.invar_empty)

lemma params_ext:
  assumes "params_wf p" and "params_wf q" and "params_Keys p = params_Keys q"
    and "params_Get p = params_Get q"
  shows "p = q"
proof -
  have "map fst (params p) = map fst (params q)" and "distinct (map fst (params p))"
    and "distinct (map fst (params q))"
    using assms by (simp_all add: params_defs)
  moreover have "set (params p) = set (params q)"
    using assms calculation by (simp add: params_Get_def fun_eq_iff flip: map_of_inject_set)
  ultimately have "params p = params q"
    by (metis distinct_map inj_on_Un_image_eq_iff map_inj_on sup_idem)
  with assms show ?thesis by (simp add: params_defs)
qed

lemma params_clone_loop_eq: "params_clone_loop ps ks dup = pd.add_all ps ks dup"
  by (induction ks arbitrary: dup) (auto split: option.splits)

lemma params_Clone_id [simp]: "params_wf ps \<Longrightarrow> params_Clone ps = ps"
  unfolding params_Clone_def params_clone_loop_eq
  by (rule params_ext) (simp_all add: pd.copy_correct)

text \<open>\<open>Equals\<close> decides that the two sets map the same keys to the same values.\<close>

lemma params_Equals_iff:
  assumes "params_wf p" and "params_wf q"
  shows "params_Equals p (Some q) \<longleftrightarrow> params_Get p = params_Get q"
proof -
  have d: "distinct (map fst (params p))" "distinct (map fst (params q))"
    using assms by (simp_all add: params_defs)
  then have ds: "distinct (params p)" "distinct (params q)"
    by (simp_all add: distinct_map)
  have get: "params_Get p = params_Get q \<longleftrightarrow> set (params p) = set (params q)"
    unfolding params_Get_def using map_of_inject_set [OF d] by (simp add: fun_eq_iff)
  have "list_all (\<lambda>(key, pVal). params_Get q key = Some pVal) (params_Items p) \<longleftrightarrow>
      set (params p) \<subseteq> set (params q)"
    using d by (auto simp: list_all_iff params_Get_def params_Items_def)
  moreover have "set (params p) = set (params q) \<longleftrightarrow>
      set (params p) \<subseteq> set (params q) \<and> length (params p) = length (params q)"
    using ds by (metis List.finite_set card_subset_eq distinct_card subset_refl)
  ultimately show ?thesis
    unfolding get by (auto simp: params_Equals_def params_Length_def)
qed

section \<open>Properties\<close>

text \<open>C39: Parameter sets are dictionaries that keep the order in which keys were first added: adding and
  removing keep the invariant, change the value of that key only, and add or remove it in the order.\<close>

theorem params_dictionary:
  assumes "params_wf ps"
  shows "params_wf (params_Add k v ps) \<and> params_wf (params_Remove k ps) \<and>
    params_Get (params_Add k v ps) j = (if j = k then Some v else params_Get ps j) \<and>
    params_Get (params_Remove k ps) j = (if j = k then None else params_Get ps j) \<and>
    params_Keys (params_Add k v ps) = (if params_Has ps k then params_Keys ps else params_Keys ps @ [k]) \<and>
    params_Keys (params_Remove k ps) = remove1 k (params_Keys ps) \<and>
    (params_Get ps k = None \<longrightarrow> params_Remove k (params_Add k v ps) = ps)"
proof -
  have "params_Remove k (params_Add k v ps) = ps" if "params_Get ps k = None"
    using assms that pd.remove_add_new [OF assms that, of v]
    by (intro params_ext) (simp_all add: pd.invar_add pd.invar_remove)
  moreover have "params_Has ps k \<longleftrightarrow> params_Get ps k \<noteq> None" by (simp add: params_Has_def params_Get_def)
  ultimately show ?thesis
    using assms by (auto simp: pd.invar_add pd.invar_remove pd.get_add pd.get_remove pd.keys_add pd.keys_remove)
qed

theorem params_dictionary_witness:
  "params_Keys (params_Add ''b'' None (params_Add ''a'' (Some ''1'') NewParams)) = [''a'', ''b'']"
  using params_dictionary [of "params_Add ''a'' (Some ''1'') NewParams" "''b''" None]
  by (simp add: params_wf_Add) (simp add: params_defs)

text \<open>A clone of a parameter set is the set itself, and \<open>Equals\<close> decides that two sets have the
  same keys with the same values, in whatever order.\<close>

theorem params_Clone_Equals:
  assumes "params_wf p" and "params_wf q"
  shows "params_Clone p = p \<and> (params_Equals p (Some q) \<longleftrightarrow> params_Get p = params_Get q)"
  using assms by (simp add: params_Equals_iff)

theorem params_Clone_Equals_witness:
  "params_Equals (params_Add ''b'' None (params_Add ''a'' None NewParams))
     (Some (params_Add ''a'' None (params_Add ''b'' None NewParams)))"
  using params_Clone_Equals [of "params_Add ''b'' None (params_Add ''a'' None NewParams)"
    "params_Add ''a'' None (params_Add ''b'' None NewParams)"]
  by (simp add: params_wf_Add pd.get_add fun_eq_iff)

end
