(* ===== verification/Headers.thy ===== *)
theory Headers
  imports Params
begin

text \<open>
  URIs and the typed headers of \<^verbatim>\<open>sip/headers.go\<close>, with their methods \<open>Name\<close>,
  \<open>Value\<close>, \<open>String\<close>, \<open>Clone\<close> and \<open>Equals\<close>, one definition per type and
  method, and the dispatch that the interface \<^verbatim>\<open>Header\<close> does.  A nil interface value is
  \<^const>\<open>None\<close>.  The two dynamic types of a wildcard URI (the struct and a pointer to it)
  are two constructors, because the code tells them apart.  Nil pointers inside an interface,
  and a \<^verbatim>\<open>ContactHeader\<close> without an address, are outside the model.
\<close>

type_synonym port = "16 word"

definition fmt_port :: "port \<Rightarrow> bytes" where
  "fmt_port p = fmt_d (unat p)"

definition fmt_u32 :: "32 word \<Rightarrow> bytes" where
  "fmt_u32 n = fmt_d (unat n)"

text \<open>\<^verbatim>\<open>Uint16PtrEq\<close>: both nil, or equal numbers.\<close>

definition Uint16PtrEq :: "port option \<Rightarrow> port option \<Rightarrow> bool" where
  "Uint16PtrEq a b = (case (a, b) of (Some x, Some y) \<Rightarrow> x = y | (None, None) \<Rightarrow> True | _ \<Rightarrow> False)"

definition Port_Clone :: "port option \<Rightarrow> port option" where
  "Port_Clone p = (case p of None \<Rightarrow> None | Some n \<Rightarrow> Some n)"

section \<open>URIs\<close>

record sip_uri =
  FIsEncrypted :: bool
  FUser :: maybe_string
  FPassword :: maybe_string
  FHost :: bytes
  FPort :: "port option"
  FUriParams :: "headerParams option"
  FHeaders :: "headerParams option"

datatype uri = SipUri sip_uri | WildcardUri | WildcardUriPtr

text \<open>The comparison of two parameter interfaces that \<open>SipUri.Equals\<close> does: pointers first,
  then, for a nil receiver, that the other side is not nil.\<close>

definition uri_params_Equals :: "headerParams option \<Rightarrow> headerParams option \<Rightarrow> bool" where
  "uri_params_Equals p q =
     (case p of
        None \<Rightarrow> (if q = None then True else q \<noteq> None)
      | Some ps \<Rightarrow> params_Equals ps q)"

definition SipUri_Equals :: "sip_uri \<Rightarrow> uri option \<Rightarrow> bool" where
  "SipUri_Equals u val =
     (case val of
        Some (SipUri other) \<Rightarrow>
          if FIsEncrypted u = FIsEncrypted other \<and> FUser u = FUser other
             \<and> FPassword u = FPassword other \<and> FHost u = FHost other
             \<and> Uint16PtrEq (FPort u) (FPort other)
          then uri_params_Equals (FUriParams u) (FUriParams other)
               \<and> uri_params_Equals (FHeaders u) (FHeaders other)
          else False
      | _ \<Rightarrow> False)"

definition params_section :: "bytes \<Rightarrow> headerParams option \<Rightarrow> char \<Rightarrow> bytes" where
  "params_section intro ps sep =
     (case ps of
        None \<Rightarrow> []
      | Some p \<Rightarrow> if 0 < params_Length p then intro @ params_ToString p sep else [])"

definition SipUri_String :: "sip_uri \<Rightarrow> bytes" where
  "SipUri_String u =
     (if FIsEncrypted u then ''sips'' @ '':'' else ''sip'' @ '':'')
     @ (case FUser u of
          Some user \<Rightarrow>
            if user \<noteq> [] then
              escaped user EncodeUserPassword
              @ (case FPassword u of
                   Some pass \<Rightarrow> if pass \<noteq> [] then '':'' @ escaped pass EncodeUserPassword else []
                 | None \<Rightarrow> [])
              @ ''@''
            else []
        | None \<Rightarrow> [])
     @ escaped (FHost u) EncodeHost
     @ (case FPort u of Some p \<Rightarrow> '':'' @ fmt_port p | None \<Rightarrow> [])
     @ params_section '';'' (FUriParams u) CHR '';''
     @ params_section ''?'' (FHeaders u) CHR ''&''"

definition SipUri_Clone :: "sip_uri \<Rightarrow> sip_uri" where
  "SipUri_Clone u =
     \<lparr>FIsEncrypted = FIsEncrypted u, FUser = FUser u, FPassword = FPassword u, FHost = FHost u,
      FPort = Port_Clone (FPort u), FUriParams = Some (cloneWithNil (FUriParams u)),
      FHeaders = Some (cloneWithNil (FHeaders u))\<rparr>"

fun WildcardUri_Equals :: "uri option \<Rightarrow> bool" where
  "WildcardUri_Equals (Some WildcardUri) = True"
| "WildcardUri_Equals _ = False"

fun uri_IsEncrypted :: "uri \<Rightarrow> bool" where
  "uri_IsEncrypted (SipUri u) = FIsEncrypted u"
| "uri_IsEncrypted _ = False"

fun uri_UriParams :: "uri \<Rightarrow> headerParams option" where
  "uri_UriParams (SipUri u) = FUriParams u"
| "uri_UriParams _ = None"

fun uri_IsWildcard :: "uri \<Rightarrow> bool" where
  "uri_IsWildcard (SipUri u) = False"
| "uri_IsWildcard _ = True"

fun uri_String :: "uri \<Rightarrow> bytes" where
  "uri_String (SipUri u) = SipUri_String u"
| "uri_String _ = ''*''"

fun uri_Clone :: "uri \<Rightarrow> uri" where
  "uri_Clone (SipUri u) = SipUri (SipUri_Clone u)"
| "uri_Clone _ = WildcardUriPtr"

fun uri_Equals :: "uri \<Rightarrow> uri option \<Rightarrow> bool" where
  "uri_Equals (SipUri u) val = SipUri_Equals u val"
| "uri_Equals _ val = WildcardUri_Equals val"

section \<open>Header structs\<close>

record addr_header =
  DisplayName :: maybe_string
  Address :: "uri option"
  Params :: "headerParams option"

record contact_header =
  CDisplayName :: maybe_string
  CAddress :: uri
  CParams :: "headerParams option"

record cseq =
  SeqNo :: "32 word"
  MethodName :: bytes

record via_hop =
  ProtocolName :: bytes
  ProtocolVersion :: bytes
  Transport :: bytes
  Host :: bytes
  Port :: "port option"
  HParams :: "headerParams option"

text \<open>\<^verbatim>\<open>%s\<close> on an interface that may be nil.\<close>

definition fmt_uri :: "uri option \<Rightarrow> bytes" where
  "fmt_uri a = (case a of None \<Rightarrow> ''%!s(<nil>)'' | Some u \<Rightarrow> uri_String u)"

definition display_prefix :: "maybe_string \<Rightarrow> bytes" where
  "display_prefix name =
     (case name of
        Some n \<Rightarrow> if n \<noteq> [] then [quote] @ n @ [quote] @ '' '' else []
      | None \<Rightarrow> [])"

text \<open>The comparison of two optional parts: same value, or the left one's \<open>Equals\<close>.\<close>

definition maybe_string_Equals :: "maybe_string \<Rightarrow> maybe_string \<Rightarrow> bool" where
  "maybe_string_Equals a b = (case a of None \<Rightarrow> b = None | Some s \<Rightarrow> b = Some s)"

definition address_Equals :: "uri option \<Rightarrow> uri option \<Rightarrow> bool" where
  "address_Equals a b =
     (case a of
        None \<Rightarrow> b = None
      | Some u \<Rightarrow> (u = WildcardUri \<and> b = Some WildcardUri) \<or> uri_Equals u b)"

definition opt_params_Equals :: "headerParams option \<Rightarrow> headerParams option \<Rightarrow> bool" where
  "opt_params_Equals p q = (case p of None \<Rightarrow> q = None | Some ps \<Rightarrow> params_Equals ps q)"

definition ToHeader_Value :: "addr_header \<Rightarrow> bytes" where
  "ToHeader_Value h = display_prefix (DisplayName h) @ ''<'' @ fmt_uri (Address h) @ ''>''
     @ params_section '';'' (Params h) CHR '';''"

definition ToHeader_Clone :: "addr_header \<Rightarrow> addr_header" where
  "ToHeader_Clone h =
     \<lparr>DisplayName = DisplayName h, Address = map_option uri_Clone (Address h),
      Params = map_option params_Clone (Params h)\<rparr>"

definition ToHeader_Equals :: "addr_header \<Rightarrow> addr_header \<Rightarrow> bool" where
  "ToHeader_Equals a b \<longleftrightarrow> maybe_string_Equals (DisplayName a) (DisplayName b)
     \<and> address_Equals (Address a) (Address b) \<and> opt_params_Equals (Params a) (Params b)"

definition FromHeader_Value :: "addr_header \<Rightarrow> bytes" where
  "FromHeader_Value h = display_prefix (DisplayName h) @ ''<'' @ fmt_uri (Address h) @ ''>''
     @ params_section '';'' (Params h) CHR '';''"

definition FromHeader_Clone :: "addr_header \<Rightarrow> addr_header" where
  "FromHeader_Clone h =
     \<lparr>DisplayName = DisplayName h, Address = map_option uri_Clone (Address h),
      Params = map_option params_Clone (Params h)\<rparr>"

definition FromHeader_Equals :: "addr_header \<Rightarrow> addr_header \<Rightarrow> bool" where
  "FromHeader_Equals a b \<longleftrightarrow> maybe_string_Equals (DisplayName a) (DisplayName b)
     \<and> address_Equals (Address a) (Address b) \<and> opt_params_Equals (Params a) (Params b)"

text \<open>Only a pointer to a wildcard is printed without angle brackets.\<close>

definition ContactHeader_Value :: "contact_header \<Rightarrow> bytes" where
  "ContactHeader_Value h = display_prefix (CDisplayName h)
     @ (case CAddress h of WildcardUriPtr \<Rightarrow> ''*'' | a \<Rightarrow> ''<'' @ uri_String a @ ''>'')
     @ params_section '';'' (CParams h) CHR '';''"

definition ContactHeader_Clone :: "contact_header \<Rightarrow> contact_header" where
  "ContactHeader_Clone h =
     \<lparr>CDisplayName = CDisplayName h, CAddress = uri_Clone (CAddress h),
      CParams = map_option params_Clone (CParams h)\<rparr>"

definition ContactHeader_Equals :: "contact_header \<Rightarrow> contact_header \<Rightarrow> bool" where
  "ContactHeader_Equals a b \<longleftrightarrow> maybe_string_Equals (CDisplayName a) (CDisplayName b)
     \<and> address_Equals (Some (CAddress a)) (Some (CAddress b))
     \<and> opt_params_Equals (CParams a) (CParams b)"

definition CSeq_Value :: "cseq \<Rightarrow> bytes" where
  "CSeq_Value c = fmt_u32 (SeqNo c) @ '' '' @ MethodName c"

definition CSeq_Clone :: "cseq \<Rightarrow> cseq" where
  "CSeq_Clone c = \<lparr>SeqNo = SeqNo c, MethodName = MethodName c\<rparr>"

definition CSeq_Equals :: "cseq \<Rightarrow> cseq \<Rightarrow> bool" where
  "CSeq_Equals a b \<longleftrightarrow> SeqNo a = SeqNo b \<and> MethodName a = MethodName b"

section \<open>Via\<close>

definition ViaHop_SentBy :: "via_hop \<Rightarrow> bytes" where
  "ViaHop_SentBy hop =
     Host hop @ (case Port hop of Some p \<Rightarrow> '':'' @ fmt_port p | None \<Rightarrow> [])"

definition ViaHop_String :: "via_hop \<Rightarrow> bytes" where
  "ViaHop_String hop =
     ProtocolName hop @ ''/'' @ ProtocolVersion hop @ ''/'' @ Transport hop @ '' '' @ Host hop
     @ (case Port hop of Some p \<Rightarrow> '':'' @ fmt_port p | None \<Rightarrow> [])
     @ params_section '';'' (HParams hop) CHR '';''"

definition ViaHop_Clone :: "via_hop \<Rightarrow> via_hop" where
  "ViaHop_Clone hop =
     \<lparr>ProtocolName = ProtocolName hop, ProtocolVersion = ProtocolVersion hop,
      Transport = Transport hop, Host = Host hop, Port = Port_Clone (Port hop),
      HParams = map_option params_Clone (HParams hop)\<rparr>"

definition ViaHop_Equals :: "via_hop \<Rightarrow> via_hop \<Rightarrow> bool" where
  "ViaHop_Equals a b \<longleftrightarrow> ProtocolName a = ProtocolName b \<and> ProtocolVersion a = ProtocolVersion b
     \<and> Transport a = Transport b \<and> Host a = Host b \<and> Uint16PtrEq (Port a) (Port b)
     \<and> opt_params_Equals (HParams a) (HParams b)"

fun ViaHeader_Value :: "via_hop list \<Rightarrow> bytes" where
  "ViaHeader_Value [] = []"
| "ViaHeader_Value (hop # hops) =
     ViaHop_String hop @ (if hops \<noteq> [] then '', '' else []) @ ViaHeader_Value hops"

fun ViaHeader_Clone :: "via_hop list \<Rightarrow> via_hop list" where
  "ViaHeader_Clone [] = []"
| "ViaHeader_Clone (hop # hops) = ViaHop_Clone hop # ViaHeader_Clone hops"

fun hops_equal :: "via_hop list \<Rightarrow> via_hop list \<Rightarrow> bool" where
  "hops_equal (a # as) (b # bs) = (ViaHop_Equals a b \<and> hops_equal as bs)"
| "hops_equal _ _ = True"

definition ViaHeader_Equals :: "via_hop list \<Rightarrow> via_hop list \<Rightarrow> bool" where
  "ViaHeader_Equals a b = (if length a \<noteq> length b then False else hops_equal a b)"

section \<open>Option lists\<close>

fun options_equal :: "bytes list \<Rightarrow> bytes list \<Rightarrow> bool" where
  "options_equal (a # as) (b # bs) = (a = b \<and> options_equal as bs)"
| "options_equal _ _ = True"

definition RequireHeader_Value :: "bytes list \<Rightarrow> bytes" where
  "RequireHeader_Value opts = strings_Join opts '', ''"

definition RequireHeader_Clone :: "bytes list \<Rightarrow> bytes list" where
  "RequireHeader_Clone opts = map (\<lambda>opt. opt) opts"

definition RequireHeader_Equals :: "bytes list \<Rightarrow> bytes list \<Rightarrow> bool" where
  "RequireHeader_Equals a b = (if length a \<noteq> length b then False else options_equal a b)"

definition SupportedHeader_Value :: "bytes list \<Rightarrow> bytes" where
  "SupportedHeader_Value opts = strings_Join opts '', ''"

definition SupportedHeader_Clone :: "bytes list \<Rightarrow> bytes list" where
  "SupportedHeader_Clone opts = map (\<lambda>opt. opt) opts"

definition SupportedHeader_Equals :: "bytes list \<Rightarrow> bytes list \<Rightarrow> bool" where
  "SupportedHeader_Equals a b = (if length a \<noteq> length b then False else options_equal a b)"

definition ProxyRequireHeader_Value :: "bytes list \<Rightarrow> bytes" where
  "ProxyRequireHeader_Value opts = strings_Join opts '', ''"

definition ProxyRequireHeader_Clone :: "bytes list \<Rightarrow> bytes list" where
  "ProxyRequireHeader_Clone opts = map (\<lambda>opt. opt) opts"

definition ProxyRequireHeader_Equals :: "bytes list \<Rightarrow> bytes list \<Rightarrow> bool" where
  "ProxyRequireHeader_Equals a b = (if length a \<noteq> length b then False else options_equal a b)"

definition UnsupportedHeader_Value :: "bytes list \<Rightarrow> bytes" where
  "UnsupportedHeader_Value opts = strings_Join opts '', ''"

definition UnsupportedHeader_Clone :: "bytes list \<Rightarrow> bytes list" where
  "UnsupportedHeader_Clone opts = map (\<lambda>opt. opt) opts"

definition UnsupportedHeader_Equals :: "bytes list \<Rightarrow> bytes list \<Rightarrow> bool" where
  "UnsupportedHeader_Equals a b = (if length a \<noteq> length b then False else options_equal a b)"

definition AllowHeader_Value :: "bytes list \<Rightarrow> bytes" where
  "AllowHeader_Value opts = strings_Join opts '', ''"

definition AllowHeader_Clone :: "bytes list \<Rightarrow> bytes list" where
  "AllowHeader_Clone opts = map (\<lambda>opt. opt) opts"

definition AllowHeader_Equals :: "bytes list \<Rightarrow> bytes list \<Rightarrow> bool" where
  "AllowHeader_Equals a b = (if length a \<noteq> length b then False else options_equal a b)"

section \<open>Routes\<close>

text \<open>The loop of \<open>Equals\<close> runs over the receiver's addresses and indexes the other list,
  which panics where that list is shorter.\<close>

fun routes_equal :: "uri list \<Rightarrow> uri list \<Rightarrow> (unit, bool) res" where
  "routes_equal [] other = Ok True"
| "routes_equal (u # us) [] = Crash"
| "routes_equal (u # us) (v # vs) = (if uri_Equals u (Some v) then routes_equal us vs else Ok False)"

definition RouteHeader_Value :: "uri list \<Rightarrow> bytes" where
  "RouteHeader_Value addrs = strings_Join (map (\<lambda>u. ''<'' @ uri_String u @ ''>'') addrs) '', ''"

definition RouteHeader_Clone :: "uri list \<Rightarrow> uri list" where
  "RouteHeader_Clone addrs = map uri_Clone addrs"

definition RouteHeader_Equals :: "uri list \<Rightarrow> uri list \<Rightarrow> (unit, bool) res" where
  "RouteHeader_Equals a b = routes_equal a b"

definition RecordRouteHeader_Value :: "uri list \<Rightarrow> bytes" where
  "RecordRouteHeader_Value addrs = strings_Join (map (\<lambda>u. ''<'' @ uri_String u @ ''>'') addrs) '', ''"

definition RecordRouteHeader_Clone :: "uri list \<Rightarrow> uri list" where
  "RecordRouteHeader_Clone addrs = map uri_Clone addrs"

definition RecordRouteHeader_Equals :: "uri list \<Rightarrow> uri list \<Rightarrow> (unit, bool) res" where
  "RecordRouteHeader_Equals a b = routes_equal a b"

section \<open>Headers made of one string or number\<close>

definition CallID_Value :: "bytes \<Rightarrow> bytes" where
  "CallID_Value v = v"

definition CallID_Equals :: "bytes \<Rightarrow> bytes \<Rightarrow> bool" where
  "CallID_Equals a b \<longleftrightarrow> a = b"

definition UserAgentHeader_Value :: "bytes \<Rightarrow> bytes" where
  "UserAgentHeader_Value v = v"

definition UserAgentHeader_Equals :: "bytes \<Rightarrow> bytes \<Rightarrow> bool" where
  "UserAgentHeader_Equals a b \<longleftrightarrow> a = b"

definition ServerHeader_Value :: "bytes \<Rightarrow> bytes" where
  "ServerHeader_Value v = v"

definition ServerHeader_Equals :: "bytes \<Rightarrow> bytes \<Rightarrow> bool" where
  "ServerHeader_Equals a b \<longleftrightarrow> a = b"

definition ContentType_Value :: "bytes \<Rightarrow> bytes" where
  "ContentType_Value v = v"

definition ContentType_Equals :: "bytes \<Rightarrow> bytes \<Rightarrow> bool" where
  "ContentType_Equals a b \<longleftrightarrow> a = b"

definition Authenticate_Value :: "bytes \<Rightarrow> bytes" where
  "Authenticate_Value v = v"

definition Authenticate_Equals :: "bytes \<Rightarrow> bytes \<Rightarrow> bool" where
  "Authenticate_Equals a b \<longleftrightarrow> a = b"

definition Accept_Value :: "bytes \<Rightarrow> bytes" where
  "Accept_Value v = v"

definition Accept_Equals :: "bytes \<Rightarrow> bytes \<Rightarrow> bool" where
  "Accept_Equals a b \<longleftrightarrow> a = b"

definition Event_Value :: "bytes \<Rightarrow> bytes" where
  "Event_Value v = v"

definition Event_Equals :: "bytes \<Rightarrow> bytes \<Rightarrow> bool" where
  "Event_Equals a b \<longleftrightarrow> a = b"

definition MaxForwards_Value :: "32 word \<Rightarrow> bytes" where
  "MaxForwards_Value v = fmt_u32 v"

definition MaxForwards_Equals :: "32 word \<Rightarrow> 32 word \<Rightarrow> bool" where
  "MaxForwards_Equals a b \<longleftrightarrow> a = b"

definition Expires_Value :: "32 word \<Rightarrow> bytes" where
  "Expires_Value v = fmt_u32 v"

definition Expires_Equals :: "32 word \<Rightarrow> 32 word \<Rightarrow> bool" where
  "Expires_Equals a b \<longleftrightarrow> a = b"

definition ContentLength_Value :: "32 word \<Rightarrow> bytes" where
  "ContentLength_Value v = fmt_u32 v"

definition ContentLength_Equals :: "32 word \<Rightarrow> 32 word \<Rightarrow> bool" where
  "ContentLength_Equals a b \<longleftrightarrow> a = b"

record generic_header =
  HeaderName :: bytes
  Contents :: bytes

definition GenericHeader_Clone :: "generic_header \<Rightarrow> generic_header" where
  "GenericHeader_Clone h = \<lparr>HeaderName = HeaderName h, Contents = Contents h\<rparr>"

definition GenericHeader_Equals :: "generic_header \<Rightarrow> generic_header \<Rightarrow> bool" where
  "GenericHeader_Equals a b \<longleftrightarrow> HeaderName a = HeaderName b \<and> Contents a = Contents b"

section \<open>The interface Header\<close>

datatype header =
    GenericHeader generic_header
  | ToHeader addr_header
  | FromHeader addr_header
  | ContactHeader contact_header
  | CallID bytes
  | CSeq cseq
  | MaxForwards "32 word"
  | Expires "32 word"
  | ContentLength "32 word"
  | ViaHeader "via_hop list"
  | RequireHeader "bytes list"
  | SupportedHeader "bytes list"
  | ProxyRequireHeader "bytes list"
  | UnsupportedHeader "bytes list"
  | UserAgentHeader bytes
  | ServerHeader bytes
  | AllowHeader "bytes list"
  | ContentType bytes
  | Authenticate bytes
  | Accept bytes
  | RouteHeader "uri list"
  | RecordRouteHeader "uri list"
  | Event bytes

fun header_Name :: "header \<Rightarrow> bytes" where
  "header_Name (GenericHeader h) = HeaderName h"
| "header_Name (ToHeader h) = ''To''"
| "header_Name (FromHeader h) = ''From''"
| "header_Name (ContactHeader h) = ''Contact''"
| "header_Name (CallID h) = ''Call-ID''"
| "header_Name (CSeq h) = ''CSeq''"
| "header_Name (MaxForwards h) = ''Max-Forwards''"
| "header_Name (Expires h) = ''Expires''"
| "header_Name (ContentLength h) = ''Content-Length''"
| "header_Name (ViaHeader h) = ''Via''"
| "header_Name (RequireHeader h) = ''Require''"
| "header_Name (SupportedHeader h) = ''Supported''"
| "header_Name (ProxyRequireHeader h) = ''Proxy-Require''"
| "header_Name (UnsupportedHeader h) = ''Unsupported''"
| "header_Name (UserAgentHeader h) = ''User-Agent''"
| "header_Name (ServerHeader h) = ''Server''"
| "header_Name (AllowHeader h) = ''Allow''"
| "header_Name (ContentType h) = ''Content-Type''"
| "header_Name (Authenticate h) = ''WWW-Authenticate''"
| "header_Name (Accept h) = ''Accept''"
| "header_Name (RouteHeader h) = ''Route''"
| "header_Name (RecordRouteHeader h) = ''Record-Route''"
| "header_Name (Event h) = ''Event''"

fun header_Value :: "header \<Rightarrow> bytes" where
  "header_Value (GenericHeader h) = Contents h"
| "header_Value (ToHeader h) = ToHeader_Value h"
| "header_Value (FromHeader h) = FromHeader_Value h"
| "header_Value (ContactHeader h) = ContactHeader_Value h"
| "header_Value (CallID h) = CallID_Value h"
| "header_Value (CSeq h) = CSeq_Value h"
| "header_Value (MaxForwards h) = MaxForwards_Value h"
| "header_Value (Expires h) = Expires_Value h"
| "header_Value (ContentLength h) = ContentLength_Value h"
| "header_Value (ViaHeader h) = ViaHeader_Value h"
| "header_Value (RequireHeader h) = RequireHeader_Value h"
| "header_Value (SupportedHeader h) = SupportedHeader_Value h"
| "header_Value (ProxyRequireHeader h) = ProxyRequireHeader_Value h"
| "header_Value (UnsupportedHeader h) = UnsupportedHeader_Value h"
| "header_Value (UserAgentHeader h) = UserAgentHeader_Value h"
| "header_Value (ServerHeader h) = ServerHeader_Value h"
| "header_Value (AllowHeader h) = AllowHeader_Value h"
| "header_Value (ContentType h) = ContentType_Value h"
| "header_Value (Authenticate h) = Authenticate_Value h"
| "header_Value (Accept h) = Accept_Value h"
| "header_Value (RouteHeader h) = RouteHeader_Value h"
| "header_Value (RecordRouteHeader h) = RecordRouteHeader_Value h"
| "header_Value (Event h) = Event_Value h"

text \<open>Every type formats its header line as name, colon, value.\<close>

definition header_String :: "header \<Rightarrow> bytes" where
  "header_String h = header_Name h @ '': '' @ header_Value h"

fun header_Clone :: "header \<Rightarrow> header" where
  "header_Clone (GenericHeader h) = GenericHeader (GenericHeader_Clone h)"
| "header_Clone (ToHeader h) = ToHeader (ToHeader_Clone h)"
| "header_Clone (FromHeader h) = FromHeader (FromHeader_Clone h)"
| "header_Clone (ContactHeader h) = ContactHeader (ContactHeader_Clone h)"
| "header_Clone (CallID h) = CallID h"
| "header_Clone (CSeq h) = CSeq (CSeq_Clone h)"
| "header_Clone (MaxForwards h) = MaxForwards h"
| "header_Clone (Expires h) = Expires h"
| "header_Clone (ContentLength h) = ContentLength h"
| "header_Clone (ViaHeader h) = ViaHeader (ViaHeader_Clone h)"
| "header_Clone (RequireHeader h) = RequireHeader (RequireHeader_Clone h)"
| "header_Clone (SupportedHeader h) = SupportedHeader (SupportedHeader_Clone h)"
| "header_Clone (ProxyRequireHeader h) = ProxyRequireHeader (ProxyRequireHeader_Clone h)"
| "header_Clone (UnsupportedHeader h) = UnsupportedHeader (UnsupportedHeader_Clone h)"
| "header_Clone (UserAgentHeader h) = UserAgentHeader h"
| "header_Clone (ServerHeader h) = ServerHeader h"
| "header_Clone (AllowHeader h) = AllowHeader (AllowHeader_Clone h)"
| "header_Clone (ContentType h) = ContentType h"
| "header_Clone (Authenticate h) = Authenticate h"
| "header_Clone (Accept h) = Accept h"
| "header_Clone (RouteHeader h) = RouteHeader (RouteHeader_Clone h)"
| "header_Clone (RecordRouteHeader h) = RecordRouteHeader (RecordRouteHeader_Clone h)"
| "header_Clone (Event h) = Event h"

definition header_Equals :: "header \<Rightarrow> header \<Rightarrow> (unit, bool) res" where
  "header_Equals x y =
     (case x of
        GenericHeader a \<Rightarrow> (case y of GenericHeader b \<Rightarrow> Ok (GenericHeader_Equals a b) | _ \<Rightarrow> Ok False)
      | ToHeader a \<Rightarrow> (case y of ToHeader b \<Rightarrow> Ok (ToHeader_Equals a b) | _ \<Rightarrow> Ok False)
      | FromHeader a \<Rightarrow> (case y of FromHeader b \<Rightarrow> Ok (FromHeader_Equals a b) | _ \<Rightarrow> Ok False)
      | ContactHeader a \<Rightarrow> (case y of ContactHeader b \<Rightarrow> Ok (ContactHeader_Equals a b) | _ \<Rightarrow> Ok False)
      | CallID a \<Rightarrow> (case y of CallID b \<Rightarrow> Ok (CallID_Equals a b) | _ \<Rightarrow> Ok False)
      | CSeq a \<Rightarrow> (case y of CSeq b \<Rightarrow> Ok (CSeq_Equals a b) | _ \<Rightarrow> Ok False)
      | MaxForwards a \<Rightarrow> (case y of MaxForwards b \<Rightarrow> Ok (MaxForwards_Equals a b) | _ \<Rightarrow> Ok False)
      | Expires a \<Rightarrow> (case y of Expires b \<Rightarrow> Ok (Expires_Equals a b) | _ \<Rightarrow> Ok False)
      | ContentLength a \<Rightarrow> (case y of ContentLength b \<Rightarrow> Ok (ContentLength_Equals a b) | _ \<Rightarrow> Ok False)
      | ViaHeader a \<Rightarrow> (case y of ViaHeader b \<Rightarrow> Ok (ViaHeader_Equals a b) | _ \<Rightarrow> Ok False)
      | RequireHeader a \<Rightarrow> (case y of RequireHeader b \<Rightarrow> Ok (RequireHeader_Equals a b) | _ \<Rightarrow> Ok False)
      | SupportedHeader a \<Rightarrow> (case y of SupportedHeader b \<Rightarrow> Ok (SupportedHeader_Equals a b) | _ \<Rightarrow> Ok False)
      | ProxyRequireHeader a \<Rightarrow> (case y of ProxyRequireHeader b \<Rightarrow> Ok (ProxyRequireHeader_Equals a b) | _ \<Rightarrow> Ok False)
      | UnsupportedHeader a \<Rightarrow> (case y of UnsupportedHeader b \<Rightarrow> Ok (UnsupportedHeader_Equals a b) | _ \<Rightarrow> Ok False)
      | UserAgentHeader a \<Rightarrow> (case y of UserAgentHeader b \<Rightarrow> Ok (UserAgentHeader_Equals a b) | _ \<Rightarrow> Ok False)
      | ServerHeader a \<Rightarrow> (case y of ServerHeader b \<Rightarrow> Ok (ServerHeader_Equals a b) | _ \<Rightarrow> Ok False)
      | AllowHeader a \<Rightarrow> (case y of AllowHeader b \<Rightarrow> Ok (AllowHeader_Equals a b) | _ \<Rightarrow> Ok False)
      | ContentType a \<Rightarrow> (case y of ContentType b \<Rightarrow> Ok (ContentType_Equals a b) | _ \<Rightarrow> Ok False)
      | Authenticate a \<Rightarrow> (case y of Authenticate b \<Rightarrow> Ok (Authenticate_Equals a b) | _ \<Rightarrow> Ok False)
      | Accept a \<Rightarrow> (case y of Accept b \<Rightarrow> Ok (Accept_Equals a b) | _ \<Rightarrow> Ok False)
      | RouteHeader a \<Rightarrow> (case y of RouteHeader b \<Rightarrow> RouteHeader_Equals a b | _ \<Rightarrow> Ok False)
      | RecordRouteHeader a \<Rightarrow> (case y of RecordRouteHeader b \<Rightarrow> RecordRouteHeader_Equals a b | _ \<Rightarrow> Ok False)
      | Event a \<Rightarrow> (case y of Event b \<Rightarrow> Ok (Event_Equals a b) | _ \<Rightarrow> Ok False))"

section \<open>Well-formed values\<close>

text \<open>Every parameter set of the value has the invariant of \<^const>\<open>params_wf\<close>.\<close>

fun uri_wf :: "uri \<Rightarrow> bool" where
  "uri_wf (SipUri u) \<longleftrightarrow> pred_option params_wf (FUriParams u) \<and> pred_option params_wf (FHeaders u)"
| "uri_wf _ \<longleftrightarrow> True"

definition hop_wf :: "via_hop \<Rightarrow> bool" where
  "hop_wf hop \<longleftrightarrow> pred_option params_wf (HParams hop)"

definition addr_header_wf :: "addr_header \<Rightarrow> bool" where
  "addr_header_wf h \<longleftrightarrow> pred_option uri_wf (Address h) \<and> pred_option params_wf (Params h)"

fun header_wf :: "header \<Rightarrow> bool" where
  "header_wf (ToHeader h) \<longleftrightarrow> addr_header_wf h"
| "header_wf (FromHeader h) \<longleftrightarrow> addr_header_wf h"
| "header_wf (ContactHeader h) \<longleftrightarrow> uri_wf (CAddress h) \<and> pred_option params_wf (CParams h)"
| "header_wf (ViaHeader hops) \<longleftrightarrow> list_all hop_wf hops"
| "header_wf (RouteHeader us) \<longleftrightarrow> list_all uri_wf us"
| "header_wf (RecordRouteHeader us) \<longleftrightarrow> list_all uri_wf us"
| "header_wf _ \<longleftrightarrow> True"

text \<open>The wildcard address of a header, where there is one.\<close>

fun header_uris :: "header \<Rightarrow> uri list" where
  "header_uris (ToHeader h) = (case Address h of Some u \<Rightarrow> [u] | None \<Rightarrow> [])"
| "header_uris (FromHeader h) = (case Address h of Some u \<Rightarrow> [u] | None \<Rightarrow> [])"
| "header_uris (ContactHeader h) = [CAddress h]"
| "header_uris (RouteHeader us) = us"
| "header_uris (RecordRouteHeader us) = us"
| "header_uris _ = []"

lemmas header_value_defs = ToHeader_Value_def FromHeader_Value_def ContactHeader_Value_def
  RouteHeader_Value_def RecordRouteHeader_Value_def CSeq_Value_def RequireHeader_Value_def
  SupportedHeader_Value_def ProxyRequireHeader_Value_def UnsupportedHeader_Value_def
  AllowHeader_Value_def

lemmas header_clone_defs = ToHeader_Clone_def FromHeader_Clone_def ContactHeader_Clone_def
  CSeq_Clone_def RequireHeader_Clone_def SupportedHeader_Clone_def ProxyRequireHeader_Clone_def
  UnsupportedHeader_Clone_def AllowHeader_Clone_def RouteHeader_Clone_def
  RecordRouteHeader_Clone_def GenericHeader_Clone_def

lemmas header_equals_defs = ToHeader_Equals_def FromHeader_Equals_def ContactHeader_Equals_def
  CSeq_Equals_def RequireHeader_Equals_def SupportedHeader_Equals_def ProxyRequireHeader_Equals_def
  UnsupportedHeader_Equals_def AllowHeader_Equals_def RouteHeader_Equals_def
  RecordRouteHeader_Equals_def GenericHeader_Equals_def ViaHeader_Equals_def CallID_Equals_def
  UserAgentHeader_Equals_def ServerHeader_Equals_def ContentType_Equals_def Authenticate_Equals_def
  Accept_Equals_def Event_Equals_def MaxForwards_Equals_def Expires_Equals_def
  ContentLength_Equals_def

section \<open>Clone\<close>

lemma Port_Clone_id [simp]: "Port_Clone p = p"
  by (cases p) (simp_all add: Port_Clone_def)

lemma Uint16PtrEq_iff [simp]: "Uint16PtrEq a b \<longleftrightarrow> a = b"
  by (auto simp: Uint16PtrEq_def split: option.splits)

lemma map_params_Clone [simp]: "pred_option params_wf ps \<Longrightarrow> map_option params_Clone ps = ps"
  by (cases ps) simp_all

lemma params_section_cloneWithNil [simp]:
  "pred_option params_wf ps \<Longrightarrow> params_section intro (Some (cloneWithNil ps)) s = params_section intro ps s"
  by (cases ps) (simp_all add: cloneWithNil_def params_section_def params_Length_def NewParams_def)

lemma cloneWithNil_wf [simp]: "pred_option params_wf ps \<Longrightarrow> params_wf (cloneWithNil ps)"
  by (cases ps) (simp_all add: cloneWithNil_def)

lemma cloneWithNil_idem [simp]:
  "pred_option params_wf ps \<Longrightarrow> cloneWithNil (Some (cloneWithNil ps)) = cloneWithNil ps"
  by (simp add: cloneWithNil_def [of "Some _"])

lemma uri_Clone_wf [simp]: "uri_wf u \<Longrightarrow> uri_wf (uri_Clone u)"
  by (cases u) (simp_all add: SipUri_Clone_def)

lemma uri_Clone_idem [simp]: "uri_wf u \<Longrightarrow> uri_Clone (uri_Clone u) = uri_Clone u"
  by (cases u) (simp_all add: SipUri_Clone_def)

lemma uri_String_Clone [simp]: "uri_wf u \<Longrightarrow> uri_String (uri_Clone u) = uri_String u"
  by (cases u) (simp_all add: SipUri_Clone_def SipUri_String_def split: option.split)

lemma ViaHop_Clone_id [simp]: "hop_wf hop \<Longrightarrow> ViaHop_Clone hop = hop"
  by (simp add: ViaHop_Clone_def hop_wf_def)

lemma ViaHeader_Clone_map: "ViaHeader_Clone hops = map ViaHop_Clone hops"
  by (induction hops) simp_all

lemma ViaHeader_Clone_id [simp]: "list_all hop_wf hops \<Longrightarrow> ViaHeader_Clone hops = hops"
  by (induction hops) simp_all

lemma header_Name_Clone [simp]: "header_Name (header_Clone h) = header_Name h"
  by (cases h) (simp_all add: GenericHeader_Clone_def)

lemma header_wf_Clone [simp]: "header_wf h \<Longrightarrow> header_wf (header_Clone h)"
  by (cases h) (auto simp: header_clone_defs addr_header_wf_def list_all_iff option.pred_map
      simp flip: o_def elim: option.pred_mono_strong split: option.splits)

lemma fmt_uri_Clone [simp]: "pred_option uri_wf a \<Longrightarrow> fmt_uri (map_option uri_Clone a) = fmt_uri a"
  by (cases a) (simp_all add: fmt_uri_def)

lemma routes_String_Clone:
  "list_all uri_wf us \<Longrightarrow>
   map (\<lambda>u. ''<'' @ uri_String u @ ''>'') (map uri_Clone us) = map (\<lambda>u. ''<'' @ uri_String u @ ''>'') us"
  by (induction us) simp_all

lemma ContactHeader_Value_Clone:
  "uri_wf (CAddress h) \<Longrightarrow> pred_option params_wf (CParams h) \<Longrightarrow> CAddress h \<noteq> WildcardUri \<Longrightarrow>
   ContactHeader_Value (ContactHeader_Clone h) = ContactHeader_Value h"
  using uri_String_Clone [of "CAddress h"]
  by (cases "CAddress h") (simp_all add: ContactHeader_Value_def ContactHeader_Clone_def)

lemma header_Value_Clone:
  assumes "header_wf h" and "WildcardUri \<notin> set (header_uris h)"
  shows "header_Value (header_Clone h) = header_Value h"
proof (cases h)
  case (ContactHeader c)
  with assms show ?thesis by (auto intro: ContactHeader_Value_Clone)
next
  case (RouteHeader us)
  with assms show ?thesis
    using routes_String_Clone [of us] by (simp add: RouteHeader_Value_def RouteHeader_Clone_def del: map_map)
next
  case (RecordRouteHeader us)
  with assms show ?thesis
    using routes_String_Clone [of us]
    by (simp add: RecordRouteHeader_Value_def RecordRouteHeader_Clone_def del: map_map)
qed (use assms in \<open>auto simp: header_clone_defs addr_header_wf_def ToHeader_Value_def FromHeader_Value_def
  CSeq_Value_def\<close>)

section \<open>Equals\<close>

lemma uri_params_Equals_Clone [simp]:
  "pred_option params_wf ps \<Longrightarrow> uri_params_Equals ps (Some (cloneWithNil ps))"
  by (cases ps) (simp_all add: uri_params_Equals_def cloneWithNil_def params_Equals_iff)

lemma opt_params_Equals_refl [simp]: "pred_option params_wf ps \<Longrightarrow> opt_params_Equals ps ps"
  by (cases ps) (simp_all add: opt_params_Equals_def params_Equals_iff)

lemma maybe_string_Equals_iff [simp]: "maybe_string_Equals a b \<longleftrightarrow> a = b"
  by (auto simp: maybe_string_Equals_def split: option.splits)

lemma uri_Equals_Clone:
  "uri_wf u \<Longrightarrow> \<not> uri_IsWildcard u \<Longrightarrow> uri_Equals u (Some (uri_Clone u))"
  by (cases u) (simp_all add: SipUri_Equals_def SipUri_Clone_def)

lemma address_Equals_Clone:
  "pred_option uri_wf a \<Longrightarrow> pred_option (Not \<circ> uri_IsWildcard) a \<Longrightarrow>
   address_Equals a (map_option uri_Clone a)"
  by (cases a) (simp_all add: address_Equals_def uri_Equals_Clone)

lemma ViaHop_Equals_refl [simp]: "hop_wf hop \<Longrightarrow> ViaHop_Equals hop hop"
  by (simp add: ViaHop_Equals_def hop_wf_def)

lemma hops_equal_refl [simp]: "list_all hop_wf hops \<Longrightarrow> hops_equal hops hops"
  by (induction hops) simp_all

lemma options_equal_refl [simp]: "options_equal opts opts"
  by (induction opts) simp_all

lemma routes_equal_Clone:
  "list_all uri_wf us \<Longrightarrow> list_all (Not \<circ> uri_IsWildcard) us \<Longrightarrow> routes_equal us (map uri_Clone us) = Ok True"
  by (induction us) (simp_all add: uri_Equals_Clone)

text \<open>What \<open>Equals\<close> of two route headers of equal length decides, and that it panics when
  the receiver is longer and the addresses agree up to there.\<close>

lemma routes_equal_prefix_crash:
  "list_all uri_wf us \<Longrightarrow> list_all (Not \<circ> uri_IsWildcard) us \<Longrightarrow> routes_equal (us @ v # vs) (map uri_Clone us) = Crash"
  by (induction us) (simp_all add: uri_Equals_Clone)

lemma header_Clone_idem [simp]: "header_wf h \<Longrightarrow> header_Clone (header_Clone h) = header_Clone h"
  by (cases h) (auto simp: header_clone_defs addr_header_wf_def list_all_iff option.map_comp
      intro!: option.map_cong0 elim: option.pred_mono_strong split: option.splits)

lemma header_Equals_Clone:
  assumes "header_wf h" and "list_all (Not \<circ> uri_IsWildcard) (header_uris h)"
  shows "header_Equals h (header_Clone h) = Ok True"
proof (cases h)
  case (ContactHeader c)
  with assms show ?thesis
    using address_Equals_Clone [of "Some (CAddress c)"]
    by (simp add: header_Equals_def header_equals_defs header_clone_defs)
qed (use assms in \<open>auto simp: header_Equals_def header_equals_defs header_clone_defs addr_header_wf_def
  routes_equal_Clone address_Equals_def uri_Equals_Clone split: option.splits\<close>)

text \<open>A Contact with the value \<open>WildcardUri{}\<close> as its address, and its copy.\<close>

lemma Contact_wildcard_Clone:
  assumes "header_wf (ContactHeader c)" and "CAddress c = WildcardUri"
  shows "header_Value (ContactHeader c) = display_prefix (CDisplayName c) @ ''<*>'' @ params_section '';'' (CParams c) CHR '';''"
    and "header_Value (header_Clone (ContactHeader c)) =
      display_prefix (CDisplayName c) @ ''*'' @ params_section '';'' (CParams c) CHR '';''"
    and "header_Equals (ContactHeader c) (header_Clone (ContactHeader c)) = Ok False"
  using assms
  by (simp_all add: ContactHeader_Value_def header_clone_defs header_Equals_def header_equals_defs address_Equals_def)

section \<open>Properties\<close>

text \<open>C38: \<open>Clone\<close> of a header of any type, with well-formed parameter sets: copying a copy changes
  nothing more; the copy prints the same text unless the header has the address \<open>WildcardUri{}\<close>,
  the value that the parser makes of \<open>*\<close>; the header is \<open>Equals\<close> to the copy when it has no wildcard
  address.  A Contact with \<open>WildcardUri{}\<close> is the exception: its copy has a pointer to a wildcard
  instead, prints \<open>*\<close> where the header prints \<open><*>\<close>, and the header is not \<open>Equals\<close> to it.\<close>

theorem header_Clone_correct:
  assumes "header_wf h"
  shows "header_Clone (header_Clone h) = header_Clone h \<and>
    (WildcardUri \<notin> set (header_uris h) \<longrightarrow> header_String (header_Clone h) = header_String h) \<and>
    (list_all (Not \<circ> uri_IsWildcard) (header_uris h) \<longrightarrow> header_Equals h (header_Clone h) = Ok True) \<and>
    (\<forall>c. h = ContactHeader c \<and> CAddress c = WildcardUri \<longrightarrow>
      header_Value h = display_prefix (CDisplayName c) @ ''<*>'' @ params_section '';'' (CParams c) CHR '';'' \<and>
      header_Value (header_Clone h) = display_prefix (CDisplayName c) @ ''*'' @ params_section '';'' (CParams c) CHR '';'' \<and>
      header_Equals h (header_Clone h) = Ok False)"
  using assms Contact_wildcard_Clone by (auto simp: header_String_def header_Value_Clone header_Equals_Clone)

theorem header_Clone_correct_witness:
  "header_Equals (RouteHeader [SipUri \<lparr>FIsEncrypted = False, FUser = None, FPassword = None, FHost = ''h'',
      FPort = Some 5060, FUriParams = None, FHeaders = None\<rparr>])
     (header_Clone (RouteHeader [SipUri \<lparr>FIsEncrypted = False, FUser = None, FPassword = None, FHost = ''h'',
      FPort = Some 5060, FUriParams = None, FHeaders = None\<rparr>])) = Ok True \<and>
   header_Value (header_Clone (ContactHeader \<lparr>CDisplayName = None, CAddress = WildcardUri, CParams = None\<rparr>)) = ''*''"
  using header_Clone_correct [of "RouteHeader [SipUri \<lparr>FIsEncrypted = False, FUser = None, FPassword = None,
      FHost = ''h'', FPort = Some 5060, FUriParams = None, FHeaders = None\<rparr>]"]
    header_Clone_correct [of "ContactHeader \<lparr>CDisplayName = None, CAddress = WildcardUri, CParams = None\<rparr>"]
  by (simp add: display_prefix_def params_section_def)

text \<open>\<open>Equals\<close> of URIs is not symmetric: a URI without parameters equals the same URI with any
  parameters, which does not equal it.\<close>

theorem SipUri_Equals_asymmetric:
  assumes "FUriParams u = None" and "FHeaders u = None"
  shows "SipUri_Equals u (Some (SipUri (u\<lparr>FUriParams := Some ps\<rparr>))) \<and>
    \<not> SipUri_Equals (u\<lparr>FUriParams := Some ps\<rparr>) (Some (SipUri u))"
  using assms by (simp add: SipUri_Equals_def uri_params_Equals_def params_Equals_def)

theorem SipUri_Equals_asymmetric_witness:
  "\<exists>u v. SipUri_Equals u (Some (SipUri v)) \<and> \<not> SipUri_Equals v (Some (SipUri u))"
  using SipUri_Equals_asymmetric [of "\<lparr>FIsEncrypted = False, FUser = None, FPassword = None, FHost = ''h'',
    FPort = None, FUriParams = None, FHeaders = None\<rparr>" "params_Add ''transport'' (Some ''tcp'') NewParams"]
  by auto

text \<open>\<open>Equals\<close> of Route headers panics when the receiver has more addresses than the other header
  and its first ones are equal to the other's, and ignores addresses the other has in addition.\<close>

theorem RouteHeader_Equals_lengths:
  assumes "list_all uri_wf us" and "list_all (Not \<circ> uri_IsWildcard) us"
  shows "header_Equals (RouteHeader (us @ [v])) (RouteHeader (map uri_Clone us)) = Crash \<and>
    header_Equals (RouteHeader us) (RouteHeader (map uri_Clone us @ [v])) = Ok True"
proof -
  have "routes_equal us (map uri_Clone us @ [v]) = Ok True"
    using assms by (induction us) (simp_all add: uri_Equals_Clone)
  with routes_equal_prefix_crash [OF assms, of v "[]"] show ?thesis
    by (simp add: header_Equals_def RouteHeader_Equals_def)
qed

theorem RouteHeader_Equals_lengths_witness: "header_Equals (RouteHeader [WildcardUri]) (RouteHeader []) = Crash"
  using RouteHeader_Equals_lengths [of "[]" WildcardUri] by simp

end
