(* ===== verification/Message.thy ===== *)
theory Message
  imports Headers
begin

text \<open>
  SIP messages: the header collection \<^verbatim>\<open>headers\<close> and the struct \<^verbatim>\<open>message\<close> of
  \<^verbatim>\<open>sip/message.go\<close>, requests (\<^verbatim>\<open>sip/request.go\<close>) and responses
  (\<^verbatim>\<open>sip/response.go\<close>) with the constructors of the messages that the transaction layer
  creates itself (ACK, CANCEL, a response to a request).  Code that can panic on a nil value
  returns a \<open>may_panic\<close> result.  Random values (message ids, branches) are arguments.
  Log fields, and the list of previous responses that a response carries, are not modelled.
\<close>

type_synonym 'a may_panic = "(unit, 'a) res"

section \<open>The header collection\<close>

record headers =
  hdr_map :: "(bytes \<times> header list) list"
  headerOrder :: "bytes list"

definition AppendHeader :: "header \<Rightarrow> headers \<Rightarrow> headers" where
  "AppendHeader h hs =
     (let name = strings_ToLower (header_Name h) in
      case map_of (hdr_map hs) name of
        Some l \<Rightarrow> hs\<lparr>hdr_map := AList.update name (l @ [h]) (hdr_map hs)\<rparr>
      | None \<Rightarrow> hs\<lparr>hdr_map := AList.update name [h] (hdr_map hs),
                  headerOrder := headerOrder hs @ [name]\<rparr>)"

definition no_headers :: headers where
  "no_headers = \<lparr>hdr_map = [], headerOrder = []\<rparr>"

definition newHeaders :: "header list \<Rightarrow> headers" where
  "newHeaders hdrs = fold AppendHeader hdrs no_headers"

definition PrependHeader :: "header \<Rightarrow> headers \<Rightarrow> headers" where
  "PrependHeader h hs =
     (let name = strings_ToLower (header_Name h) in
      case map_of (hdr_map hs) name of
        Some l \<Rightarrow> hs\<lparr>hdr_map := AList.update name (h # l) (hdr_map hs)\<rparr>
      | None \<Rightarrow> hs\<lparr>hdr_map := AList.update name [h] (hdr_map hs),
                  headerOrder := name # headerOrder hs\<rparr>)"

text \<open>The scan of \<open>PrependHeaderAfter\<close>: the last index of a name, \<^const>\<open>None\<close> for \<open>-1\<close>.\<close>

fun last_index :: "bytes \<Rightarrow> bytes list \<Rightarrow> nat option" where
  "last_index x [] = None"
| "last_index x (y # ys) =
     (case last_index x ys of
        Some i \<Rightarrow> Some (Suc i)
      | None \<Rightarrow> if x = y then Some 0 else None)"

definition slice :: "'a list \<Rightarrow> nat \<Rightarrow> nat \<Rightarrow> 'a list" where
  "slice xs i j = drop i (take j xs)"

definition PrependHeaderAfter :: "header \<Rightarrow> bytes \<Rightarrow> headers \<Rightarrow> headers" where
  "PrependHeaderAfter h afterName hs =
     (let headerName = strings_ToLower (header_Name h);
          after = strings_ToLower afterName;
          order = headerOrder hs
      in case map_of (hdr_map hs) after of
        None \<Rightarrow> PrependHeader h hs
      | Some _ \<Rightarrow>
          let a = (case last_index after order of None \<Rightarrow> 0 | Some i \<Rightarrow> i + 1) in
          case last_index headerName order of
            None \<Rightarrow>
              hs\<lparr>hdr_map := AList.update headerName [h] (hdr_map hs),
                 headerOrder := take a order @ [headerName] @ drop a order\<rparr>
          | Some i \<Rightarrow>
              let l = (case map_of (hdr_map hs) headerName of None \<Rightarrow> [] | Some l \<Rightarrow> l) in
              hs\<lparr>hdr_map := AList.update headerName (h # l) (hdr_map hs),
                 headerOrder :=
                   (if a \<le> i
                    then take a order @ [headerName] @ slice order a i @ drop (i + 1) order
                    else take i order @ slice order (i + 1) a @ [headerName] @ drop a order)\<rparr>)"

definition ReplaceHeaders :: "bytes \<Rightarrow> header list \<Rightarrow> headers \<Rightarrow> headers" where
  "ReplaceHeaders name l hs =
     (let n = strings_ToLower name in
      case map_of (hdr_map hs) n of
        Some _ \<Rightarrow> hs\<lparr>hdr_map := AList.update n l (hdr_map hs)\<rparr>
      | None \<Rightarrow> hs)"

definition GetHeaders :: "bytes \<Rightarrow> headers \<Rightarrow> header list" where
  "GetHeaders name hs =
     (case map_of (hdr_map hs) (strings_ToLower name) of Some l \<Rightarrow> l | None \<Rightarrow> [])"

definition headers_at :: "headers \<Rightarrow> bytes \<Rightarrow> header list" where
  "headers_at hs key = (case map_of (hdr_map hs) key of Some l \<Rightarrow> l | None \<Rightarrow> [])"

definition Headers_all :: "headers \<Rightarrow> header list" where
  "Headers_all hs = concat (map (headers_at hs) (headerOrder hs))"

definition RemoveHeader :: "bytes \<Rightarrow> headers \<Rightarrow> headers" where
  "RemoveHeader name hs =
     (let n = strings_ToLower name in
      hs\<lparr>hdr_map := AList.delete n (hdr_map hs), headerOrder := remove1 n (headerOrder hs)\<rparr>)"

definition crlf :: bytes where
  "crlf = [char_of (13::nat), char_of (10::nat)]"

definition headers_String :: "headers \<Rightarrow> bytes" where
  "headers_String hs = concat (map (\<lambda>h. header_String h @ crlf) (Headers_all hs))"

definition cloneHeaders :: "headers \<Rightarrow> header list" where
  "cloneHeaders hs = map header_Clone (Headers_all hs)"

definition hs_CallID :: "headers \<Rightarrow> bytes option" where
  "hs_CallID hs = (case GetHeaders ''Call-ID'' hs of CallID v # _ \<Rightarrow> Some v | _ \<Rightarrow> None)"

definition hs_Via :: "headers \<Rightarrow> via_hop list option" where
  "hs_Via hs = (case GetHeaders ''Via'' hs of ViaHeader v # _ \<Rightarrow> Some v | _ \<Rightarrow> None)"

definition hs_ViaHop :: "headers \<Rightarrow> via_hop option" where
  "hs_ViaHop hs = (case hs_Via hs of Some (hop # _) \<Rightarrow> Some hop | _ \<Rightarrow> None)"

definition hs_From :: "headers \<Rightarrow> addr_header option" where
  "hs_From hs = (case GetHeaders ''From'' hs of FromHeader v # _ \<Rightarrow> Some v | _ \<Rightarrow> None)"

definition hs_To :: "headers \<Rightarrow> addr_header option" where
  "hs_To hs = (case GetHeaders ''To'' hs of ToHeader v # _ \<Rightarrow> Some v | _ \<Rightarrow> None)"

definition hs_CSeq :: "headers \<Rightarrow> cseq option" where
  "hs_CSeq hs = (case GetHeaders ''CSeq'' hs of CSeq v # _ \<Rightarrow> Some v | _ \<Rightarrow> None)"

definition hs_ContentLength :: "headers \<Rightarrow> 32 word option" where
  "hs_ContentLength hs =
     (case GetHeaders ''Content-Length'' hs of ContentLength v # _ \<Rightarrow> Some v | _ \<Rightarrow> None)"

definition hs_ContentType :: "headers \<Rightarrow> bytes option" where
  "hs_ContentType hs =
     (case GetHeaders ''Content-Type'' hs of ContentType v # _ \<Rightarrow> Some v | _ \<Rightarrow> None)"

definition hs_Contact :: "headers \<Rightarrow> contact_header option" where
  "hs_Contact hs = (case GetHeaders ''Contact'' hs of ContactHeader v # _ \<Rightarrow> Some v | _ \<Rightarrow> None)"

text \<open>The getters return pointers into the collection; writing through them changes the first
  header of the name.\<close>

definition map_first_hop :: "(via_hop \<Rightarrow> via_hop) \<Rightarrow> headers \<Rightarrow> headers" where
  "map_first_hop f hs =
     (case map_of (hdr_map hs) ''via'' of
        Some (ViaHeader (hop # hops) # l) \<Rightarrow>
          hs\<lparr>hdr_map := AList.update ''via'' (ViaHeader (f hop # hops) # l) (hdr_map hs)\<rparr>
      | _ \<Rightarrow> hs)"

definition map_first_cseq :: "(cseq \<Rightarrow> cseq) \<Rightarrow> headers \<Rightarrow> headers" where
  "map_first_cseq f hs =
     (case map_of (hdr_map hs) ''cseq'' of
        Some (CSeq c # l) \<Rightarrow> hs\<lparr>hdr_map := AList.update ''cseq'' (CSeq (f c) # l) (hdr_map hs)\<rparr>
      | _ \<Rightarrow> hs)"

section \<open>Messages\<close>

definition INVITE :: bytes where "INVITE = ''INVITE''"
definition ACK :: bytes where "ACK = ''ACK''"
definition CANCEL :: bytes where "CANCEL = ''CANCEL''"

record message =
  hdrs :: headers
  messID :: bytes
  sipVersion :: bytes
  body :: bytes
  tp :: bytes
  src :: bytes
  dest :: bytes

definition SetBody :: "bytes \<Rightarrow> bool \<Rightarrow> 'a message_scheme \<Rightarrow> 'a message_scheme" where
  "SetBody b setContentLength m =
     (let m' = m\<lparr>body := b\<rparr>; len = ContentLength (of_nat (length b)) in
      if setContentLength then
        if GetHeaders ''Content-Length'' (hdrs m') = []
        then m'\<lparr>hdrs := AppendHeader len (hdrs m')\<rparr>
        else m'\<lparr>hdrs := ReplaceHeaders ''Content-Length'' [len] (hdrs m')\<rparr>
      else m')"

definition SetTransport :: "bytes \<Rightarrow> 'a message_scheme \<Rightarrow> 'a message_scheme" where
  "SetTransport t m = m\<lparr>tp := strings_ToUpper t\<rparr>"

definition SetSource :: "bytes \<Rightarrow> 'a message_scheme \<Rightarrow> 'a message_scheme" where
  "SetSource s m = m\<lparr>src := s\<rparr>"

definition SetDestination :: "bytes \<Rightarrow> 'a message_scheme \<Rightarrow> 'a message_scheme" where
  "SetDestination d m = m\<lparr>dest := d\<rparr>"

definition CopyHeaders :: "bytes \<Rightarrow> headers \<Rightarrow> headers \<Rightarrow> headers" where
  "CopyHeaders name from to =
     fold (\<lambda>h. AppendHeader (header_Clone h)) (GetHeaders (strings_ToLower name) from) to"

definition PrependCopyHeaders :: "bytes \<Rightarrow> headers \<Rightarrow> headers \<Rightarrow> headers" where
  "PrependCopyHeaders name from to =
     fold (\<lambda>h. PrependHeader (header_Clone h)) (GetHeaders (strings_ToLower name) from) to"

section \<open>Defaults\<close>

definition DefaultProtocol :: bytes where "DefaultProtocol = ''UDP''"

definition DefaultPort :: "bytes \<Rightarrow> port" where
  "DefaultPort protocol =
     (let p = strings_ToLower protocol in
      if p = ''tls'' then 5061
      else if p = ''tcp'' then 5060
      else if p = ''udp'' then 5060
      else if p = ''ws'' then 80
      else if p = ''wss'' then 443
      else 5060)"

definition RFC3261BranchMagicCookie :: bytes where
  "RFC3261BranchMagicCookie = ''z9hG4bK''"

text \<open>\<open>GenerateBranch\<close> joins the magic cookie with a random string.\<close>

definition GenerateBranch :: "bytes \<Rightarrow> bytes" where
  "GenerateBranch rand = strings_Join [RFC3261BranchMagicCookie, rand] ''.''"

definition MTU :: nat where "MTU = 1500"

section \<open>A multimap with ordered names\<close>

text \<open>The contract of a header collection: the headers stored under a name, in order, and the
  names in the order in which they are printed.\<close>

locale header_multimap =
  fixes empty :: 'd
    and append :: "'h \<Rightarrow> 'd \<Rightarrow> 'd"
    and prepend :: "'h \<Rightarrow> 'd \<Rightarrow> 'd"
    and remove :: "'n \<Rightarrow> 'd \<Rightarrow> 'd"
    and norm :: "'n \<Rightarrow> 'k"
    and get :: "'d \<Rightarrow> 'k \<Rightarrow> 'h list"
    and names :: "'d \<Rightarrow> 'k list"
    and nm :: "'h \<Rightarrow> 'k"
    and invar :: "'d \<Rightarrow> bool"
  assumes invar_empty: "invar empty"
    and invar_append: "invar d \<Longrightarrow> invar (append h d)"
    and invar_prepend: "invar d \<Longrightarrow> invar (prepend h d)"
    and invar_remove: "invar d \<Longrightarrow> invar (remove n d)"
    and get_empty: "get empty k = []"
    and get_append: "invar d \<Longrightarrow> get (append h d) k = get d k @ (if k = nm h then [h] else [])"
    and get_prepend: "invar d \<Longrightarrow> get (prepend h d) k = (if k = nm h then [h] else []) @ get d k"
    and get_remove: "invar d \<Longrightarrow> get (remove n d) k = (if k = norm n then [] else get d k)"
    and names_empty: "names empty = []"
    and names_append: "invar d \<Longrightarrow> names (append h d) = (if get d (nm h) = [] then names d @ [nm h] else names d)"
    and names_prepend: "invar d \<Longrightarrow> names (prepend h d) = (if get d (nm h) = [] then nm h # names d else names d)"
    and names_remove: "invar d \<Longrightarrow> names (remove n d) = remove1 (norm n) (names d)"
    and distinct_names: "invar d \<Longrightarrow> distinct (names d)"
    and set_names: "invar d \<Longrightarrow> k \<in> set (names d) \<longleftrightarrow> get d k \<noteq> []"
    and get_nm: "invar d \<Longrightarrow> h \<in> set (get d k) \<Longrightarrow> nm h = k"
begin

definition all_headers :: "'d \<Rightarrow> 'h list" where
  "all_headers d = concat (map (get d) (names d))"

lemma invar_append_all: "invar d \<Longrightarrow> invar (fold append hs d)"
  by (induction hs arbitrary: d) (simp_all add: invar_append)

lemma get_append_all:
  "invar d \<Longrightarrow> get (fold append hs d) k = get d k @ filter (\<lambda>h. nm h = k) hs"
  by (induction hs arbitrary: d) (simp_all add: invar_append get_append)

lemma names_append_all:
  "invar d \<Longrightarrow> \<forall>h\<in>set hs. nm h = k \<Longrightarrow>
   names (fold append hs d) = (if hs \<noteq> [] \<and> get d k = [] then names d @ [k] else names d)"
  by (induction hs arbitrary: d) (simp_all add: invar_append get_append names_append)

lemma filter_all_headers:
  assumes "invar d"
  shows "filter (\<lambda>h. nm h = k) (all_headers d) = get d k"
proof -
  have "filter (\<lambda>h. nm h = k) (concat (map (get d) ks)) = (if k \<in> set ks then get d k else [])"
    if "distinct ks" for ks
    using that
  proof (induction ks)
    case (Cons j ks)
    have "filter (\<lambda>h. nm h = k) (get d j) = (if j = k then get d k else [])"
      using assms by (auto simp: filter_id_conv filter_empty_conv dest: get_nm)
    with Cons show ?case by auto
  qed simp
  with assms show ?thesis
    unfolding all_headers_def by (simp add: distinct_names set_names)
qed

text \<open>Appending all headers of a collection to an empty one gives the same collection.\<close>

lemma names_append_groups:
  "invar d \<Longrightarrow> invar e \<Longrightarrow> distinct ks \<Longrightarrow> set ks \<subseteq> set (names d) \<Longrightarrow> \<forall>k\<in>set ks. get e k = [] \<Longrightarrow>
   names (fold append (concat (map (get d) ks)) e) = names e @ ks"
proof (induction ks arbitrary: e)
  case (Cons k ks)
  have nm: "\<forall>h\<in>set (get d k). nm h = k" and ne: "get d k \<noteq> []"
    using Cons.prems by (auto simp: get_nm set_names)
  have "names (fold append (get d k) e) = names e @ [k]"
    using names_append_all [OF Cons.prems(2) nm] ne Cons.prems(5) by simp
  moreover have "\<forall>j\<in>set ks. get (fold append (get d k) e) j = []"
    using Cons.prems nm by (auto simp: get_append_all filter_empty_conv)
  ultimately show ?case
    using Cons.IH [of "fold append (get d k) e"] Cons.prems by (simp add: invar_append_all)
qed simp

lemma rebuild:
  assumes "invar d"
  shows "get (fold append (all_headers d) empty) k = get d k"
    and "names (fold append (all_headers d) empty) = names d"
  using assms names_append_groups [of d empty "names d"]
  by (simp_all add: get_append_all invar_empty get_empty filter_all_headers distinct_names names_empty
      flip: all_headers_def)

end

section \<open>The collection of the code\<close>

definition header_key :: "header \<Rightarrow> bytes" where
  "header_key h = strings_ToLower (header_Name h)"

definition headers_wf :: "headers \<Rightarrow> bool" where
  "headers_wf hs \<longleftrightarrow> distinct (map fst (hdr_map hs)) \<and> distinct (headerOrder hs)
     \<and> set (headerOrder hs) = set (map fst (hdr_map hs))
     \<and> (\<forall>(k, l)\<in>set (hdr_map hs). l \<noteq> [] \<and> (\<forall>h\<in>set l. header_key h = k))"

lemma headers_wf_group:
  "headers_wf hs \<Longrightarrow> map_of (hdr_map hs) k = Some l \<Longrightarrow> l \<noteq> []"
  "headers_wf hs \<Longrightarrow> map_of (hdr_map hs) k = Some l \<Longrightarrow> h \<in> set l \<Longrightarrow> header_key h = k"
  "headers_wf hs \<Longrightarrow> map_of (hdr_map hs) k = Some (g # l) \<Longrightarrow> h \<in> set l \<Longrightarrow> header_key h = k"
  by (fastforce simp: headers_wf_def dest: map_of_SomeD)+

lemma update_group:
  assumes "headers_wf hs" and "l \<noteq> []" and "\<forall>h\<in>set l. header_key h = k"
  shows "\<forall>(j, l)\<in>set (AList.update k l (hdr_map hs)). l \<noteq> [] \<and> (\<forall>h\<in>set l. header_key h = j)"
proof -
  have "distinct (map fst (AList.update k l (hdr_map hs)))"
    using assms(1) by (simp add: headers_wf_def distinct_update)
  then have "(j, m) \<in> set (AList.update k l (hdr_map hs)) \<longleftrightarrow>
      map_of (AList.update k l (hdr_map hs)) j = Some m" for j m
    by (rule map_of_eq_Some_iff [symmetric])
  with assms headers_wf_group [OF assms(1)] show ?thesis by (fastforce split: if_splits)
qed

text \<open>Storing a group under a name that is there, or under a new name placed anywhere.\<close>

lemma headers_wf_update_old:
  assumes "headers_wf hs" and "map_of (hdr_map hs) k = Some l'" and "l \<noteq> []"
    and "\<forall>h\<in>set l. header_key h = k"
  shows "headers_wf (hs\<lparr>hdr_map := AList.update k l (hdr_map hs)\<rparr>)"
  using assms update_group [OF assms(1,3,4)] map_of_Some_key [OF assms(2)]
  by (auto simp: headers_wf_def keys_update distinct_update insert_absorb simp del: set_map)

lemma headers_wf_update_new:
  assumes "headers_wf hs" and "map_of (hdr_map hs) k = None" and "l \<noteq> []"
    and "\<forall>h\<in>set l. header_key h = k" and "distinct order" and "set order = insert k (set (headerOrder hs))"
  shows "headers_wf (hs\<lparr>hdr_map := AList.update k l (hdr_map hs), headerOrder := order\<rparr>)"
  using assms update_group [OF assms(1,3,4)]
  by (auto simp: headers_wf_def keys_update distinct_update simp del: set_map)

lemma headers_wf_order:
  "headers_wf hs \<Longrightarrow> k \<in> set (headerOrder hs) \<longleftrightarrow> map_of (hdr_map hs) k \<noteq> None"
  "headers_wf hs \<Longrightarrow> distinct (headerOrder hs)"
  by (simp_all add: headers_wf_def map_of_None_key del: set_map)

lemma headers_wf_empty: "headers_wf no_headers"
  by (simp add: headers_wf_def no_headers_def)

lemma headers_wf_Append: "headers_wf hs \<Longrightarrow> headers_wf (AppendHeader h hs)"
  unfolding AppendHeader_def Let_def header_key_def [symmetric]
  by (auto simp: headers_wf_order dest: headers_wf_group
      intro!: headers_wf_update_old headers_wf_update_new split: option.split)

lemma headers_wf_Prepend: "headers_wf hs \<Longrightarrow> headers_wf (PrependHeader h hs)"
  unfolding PrependHeader_def Let_def header_key_def [symmetric]
  by (auto simp: headers_wf_order dest: headers_wf_group
      intro!: headers_wf_update_old headers_wf_update_new split: option.split)

lemma headers_wf_Remove:
  assumes "headers_wf hs"
  shows "headers_wf (RemoveHeader n hs)"
proof -
  have sub: "x \<in> set (AList.delete k al) \<Longrightarrow> x \<in> set al" for k x and al :: "(bytes \<times> header list) list"
    by (auto simp: AList.delete_eq)
  from assms show ?thesis
    unfolding headers_wf_def RemoveHeader_def Let_def
    by (auto simp: keys_delete distinct_delete simp del: set_map dest!: sub)
qed

interpretation hm: header_multimap no_headers AppendHeader PrependHeader RemoveHeader strings_ToLower
  headers_at headerOrder header_key headers_wf
proof
  show "headers_wf no_headers" by (rule headers_wf_empty)
  fix d h k n
  show "headers_at no_headers k = []" by (simp add: headers_at_def no_headers_def)
  show "headerOrder no_headers = []" by (simp add: no_headers_def)
  assume wf: "headers_wf d"
  show "headers_wf (AppendHeader h d)" and "headers_wf (PrependHeader h d)"
    and "headers_wf (RemoveHeader n d)"
    using wf by (rule headers_wf_Append headers_wf_Prepend headers_wf_Remove)+
  show "headers_at (AppendHeader h d) k = headers_at d k @ (if k = header_key h then [h] else [])"
    and "headers_at (PrependHeader h d) k = (if k = header_key h then [h] else []) @ headers_at d k"
    and "headers_at (RemoveHeader n d) k = (if k = strings_ToLower n then [] else headers_at d k)"
    by (auto simp: headers_at_def AppendHeader_def PrependHeader_def RemoveHeader_def header_key_def
        Let_def split: option.splits)
  show "headerOrder (AppendHeader h d) =
      (if headers_at d (header_key h) = [] then headerOrder d @ [header_key h] else headerOrder d)"
    and "headerOrder (PrependHeader h d) =
      (if headers_at d (header_key h) = [] then header_key h # headerOrder d else headerOrder d)"
    using headers_wf_group(1) [OF wf]
    by (auto simp: headers_at_def AppendHeader_def PrependHeader_def header_key_def Let_def
        split: option.splits)
  show "headerOrder (RemoveHeader n d) = remove1 (strings_ToLower n) (headerOrder d)"
    by (simp add: RemoveHeader_def Let_def)
  show "distinct (headerOrder d)" using wf by (rule headers_wf_order)
  show "k \<in> set (headerOrder d) \<longleftrightarrow> headers_at d k \<noteq> []"
    using headers_wf_group(1) [OF wf] wf by (auto simp: headers_at_def headers_wf_order split: option.splits)
  show "header_key h = k" if "h \<in> set (headers_at d k)"
    using that headers_wf_group(2) [OF wf] by (cases "map_of (hdr_map d) k") (simp_all add: headers_at_def)
qed

lemma GetHeaders_at: "GetHeaders n hs = headers_at hs (strings_ToLower n)"
  by (simp add: GetHeaders_def headers_at_def)

lemma Headers_all_eq: "Headers_all hs = hm.all_headers hs"
  by (simp add: Headers_all_def hm.all_headers_def)

lemma newHeaders_wf [simp]: "headers_wf (newHeaders l)"
  unfolding newHeaders_def by (rule hm.invar_append_all) (rule hm.invar_empty)

lemma GetHeaders_newHeaders: "GetHeaders n (newHeaders l) = filter (\<lambda>h. header_key h = strings_ToLower n) l"
  by (simp add: GetHeaders_at newHeaders_def hm.get_append_all hm.invar_empty hm.get_empty)

text \<open>Copying the headers of a name appends their clones under that name and nowhere else.\<close>

lemma CopyHeaders_fold:
  "CopyHeaders n from to = fold AppendHeader (map header_Clone (GetHeaders n from)) to"
  by (simp add: CopyHeaders_def fold_map comp_def GetHeaders_at)

lemma header_key_Clone [simp]: "header_key (header_Clone h) = header_key h"
  by (simp add: header_key_def)

lemma CopyHeaders_wf [simp]: "headers_wf to \<Longrightarrow> headers_wf (CopyHeaders n from to)"
  unfolding CopyHeaders_fold by (rule hm.invar_append_all)

lemma GetHeaders_Copy:
  assumes "headers_wf from" and "headers_wf to"
  shows "GetHeaders m (CopyHeaders n from to) = GetHeaders m to @
    (if strings_ToLower m = strings_ToLower n then map header_Clone (GetHeaders n from) else [])"
proof -
  have "\<forall>h\<in>set (headers_at from (strings_ToLower n)). header_key h = strings_ToLower n"
    using assms(1) hm.get_nm by blast
  then show ?thesis
    using assms by (auto simp: CopyHeaders_fold GetHeaders_at hm.get_append_all filter_map comp_def
        filter_empty_conv filter_id_conv)
qed

section \<open>Placing a header after another one\<close>

lemma last_index_None: "last_index x ys = None \<longleftrightarrow> x \<notin> set ys"
  by (induction ys) (auto split: option.splits)

lemma last_index_distinct:
  "distinct (xs @ x # ys) \<Longrightarrow> last_index x (xs @ x # ys) = Some (length xs)"
  by (induction xs) (auto simp: last_index_None split: option.splits)

text \<open>The new order keeps the other names where they are and has the name right after \<open>after\<close>.\<close>

definition placed_after :: "bytes \<Rightarrow> bytes \<Rightarrow> bytes list \<Rightarrow> bytes list \<Rightarrow> bool" where
  "placed_after name after order order' \<longleftrightarrow>
     (if name = after then order' = order
      else \<exists>xs ys. order' = xs @ [after, name] @ ys \<and> xs @ [after] @ ys = removeAll name order)"

definition order_after :: "bytes \<Rightarrow> bytes \<Rightarrow> bytes list \<Rightarrow> bytes list" where
  "order_after name after order =
     (let a = (case last_index after order of None \<Rightarrow> 0 | Some i \<Rightarrow> i + 1) in
      case last_index name order of
        None \<Rightarrow> take a order @ [name] @ drop a order
      | Some i \<Rightarrow>
          if a \<le> i then take a order @ [name] @ slice order a i @ drop (i + 1) order
          else take i order @ slice order (i + 1) a @ [name] @ drop a order)"

lemma placed_afterI:
  "name \<noteq> after \<Longrightarrow> xs @ [after] @ ys = removeAll name order \<Longrightarrow>
   placed_after name after order (xs @ [after, name] @ ys)"
  by (auto simp: placed_after_def)

lemma order_after_placed:
  assumes d: "distinct order" and after: "after \<in> set order"
  shows "placed_after name after order (order_after name after order)"
proof -
  obtain xs ys where o: "order = xs @ after # ys" using after by (meson split_list)
  then have a: "last_index after order = Some (length xs)" using d last_index_distinct by simp
  consider (absent) "name \<notin> set order" | (same) "name = after" | (before) us vs where "xs = us @ name # vs"
    | (behind) us vs where "ys = us @ name # vs"
    using o by (auto dest!: split_list)
  then show ?thesis
  proof cases
    case absent
    with o a placed_afterI [of name after xs ys order] show ?thesis
      by (simp add: order_after_def last_index_None [THEN iffD2])
  next
    case same
    with o a show ?thesis by (simp add: order_after_def placed_after_def slice_def)
  next
    case before
    with o d have i: "last_index name order = Some (length us)"
      using last_index_distinct [of us name "vs @ after # ys"] by simp
    have "placed_after name after order ((us @ vs) @ [after, name] @ ys)"
      using o d before by (intro placed_afterI) auto
    with o a i before show ?thesis by (simp add: order_after_def slice_def)
  next
    case behind
    with o d have i: "last_index name order = Some (length (xs @ after # us))"
      using last_index_distinct [of "xs @ after # us" name vs] by simp
    have "placed_after name after order (xs @ [after, name] @ us @ vs)"
      using o d behind by (intro placed_afterI) auto
    with o a i behind show ?thesis by (simp add: order_after_def slice_def)
  qed
qed

lemma placed_after_distinct:
  assumes "placed_after name after order order'" and "distinct order" and "after \<in> set order"
  shows "distinct order' \<and> set order' = insert name (set order)"
proof (cases "name = after")
  case False
  with assms(1) obtain xs ys where *: "order' = xs @ [after, name] @ ys"
    "xs @ [after] @ ys = removeAll name order" by (auto simp: placed_after_def)
  have "distinct (xs @ [after] @ ys)" and "set (xs @ [after] @ ys) = set order - {name}"
    unfolding *(2) using assms(2) by (simp_all add: distinct_removeAll)
  with False show ?thesis unfolding *(1) by auto
qed (use assms in \<open>auto simp: placed_after_def\<close>)

lemma PrependHeaderAfter_absent:
  "map_of (hdr_map hs) (strings_ToLower n) = None \<Longrightarrow> PrependHeaderAfter h n hs = PrependHeader h hs"
  by (simp add: PrependHeaderAfter_def Let_def)

lemma PrependHeaderAfter_present:
  assumes "headers_wf hs" and "map_of (hdr_map hs) (strings_ToLower n) \<noteq> None"
  shows "PrependHeaderAfter h n hs =
    hs\<lparr>hdr_map := AList.update (header_key h) (h # headers_at hs (header_key h)) (hdr_map hs),
       headerOrder := order_after (header_key h) (strings_ToLower n) (headerOrder hs)\<rparr>"
proof -
  have "last_index (header_key h) (headerOrder hs) = None \<longleftrightarrow> map_of (hdr_map hs) (header_key h) = None"
    using assms(1) by (simp add: last_index_None headers_wf_order)
  with assms show ?thesis
    by (auto simp: PrependHeaderAfter_def order_after_def headers_at_def Let_def
        simp flip: header_key_def split: option.splits)
qed

lemma PrependHeaderAfter_wf:
  assumes "headers_wf hs"
  shows "headers_wf (PrependHeaderAfter h n hs)"
proof (cases "map_of (hdr_map hs) (strings_ToLower n)")
  case None
  with assms show ?thesis by (simp add: PrependHeaderAfter_absent headers_wf_Prepend)
next
  case (Some l)
  let ?order = "order_after (header_key h) (strings_ToLower n) (headerOrder hs)"
  have "distinct ?order \<and> set ?order = insert (header_key h) (set (headerOrder hs))"
    using assms Some placed_after_distinct [OF order_after_placed [of "headerOrder hs" "strings_ToLower n"]]
    by (simp add: headers_wf_order)
  moreover have "\<forall>(k, l)\<in>set (AList.update (header_key h) (h # headers_at hs (header_key h)) (hdr_map hs)).
      l \<noteq> [] \<and> (\<forall>g\<in>set l. header_key g = k)"
    using assms by (intro update_group) (auto dest: hm.get_nm)
  ultimately show ?thesis
    using assms Some
    by (simp add: PrependHeaderAfter_present headers_wf_def keys_update distinct_update del: set_map)
qed

lemma GetHeaders_PrependHeaderAfter:
  assumes "headers_wf hs"
  shows "GetHeaders m (PrependHeaderAfter h n hs) =
    (if strings_ToLower m = header_key h then [h] else []) @ GetHeaders m hs"
proof (cases "map_of (hdr_map hs) (strings_ToLower n)")
  case None
  with assms show ?thesis by (simp add: PrependHeaderAfter_absent GetHeaders_at hm.get_prepend)
next
  case (Some l)
  with assms show ?thesis by (simp add: PrependHeaderAfter_present GetHeaders_at headers_at_def)
qed

section \<open>Writing to headers in place\<close>

lemma lower_names [simp]:
  "strings_ToLower ''From'' = ''from''" "strings_ToLower ''To'' = ''to''"
  "strings_ToLower ''Via'' = ''via''" "strings_ToLower ''Call-ID'' = ''call-id''"
  "strings_ToLower ''CSeq'' = ''cseq''" "strings_ToLower ''Contact'' = ''contact''"
  "strings_ToLower ''Route'' = ''route''" "strings_ToLower ''Record-Route'' = ''record-route''"
  "strings_ToLower ''Timestamp'' = ''timestamp''" "strings_ToLower ''Content-Length'' = ''content-length''"
  "strings_ToLower ''Max-Forwards'' = ''max-forwards''"
  by code_simp+

lemma header_key_simps [simp]:
  "header_key (ViaHeader hops) = ''via''" "header_key (CSeq c) = ''cseq''"
  "header_key (MaxForwards n) = ''max-forwards''" "header_key (ContentLength n) = ''content-length''"
  "header_key (RouteHeader us) = ''route''" "header_key (FromHeader f) = ''from''"
  "header_key (ToHeader t) = ''to''" "header_key (CallID i) = ''call-id''"
  "header_key (RecordRouteHeader us) = ''record-route''"
  by (simp_all add: header_key_def)

lemma map_first_hop_wf [simp]: "headers_wf hs \<Longrightarrow> headers_wf (map_first_hop f hs)"
  unfolding map_first_hop_def
  by (auto intro!: headers_wf_update_old intro: headers_wf_group(3) split: option.split list.split header.split)

lemma map_first_cseq_wf [simp]: "headers_wf hs \<Longrightarrow> headers_wf (map_first_cseq f hs)"
  unfolding map_first_cseq_def
  by (auto intro!: headers_wf_update_old intro: headers_wf_group(3) split: option.split list.split header.split)

lemma GetHeaders_map_first_hop:
  "strings_ToLower n \<noteq> ''via'' \<Longrightarrow> GetHeaders n (map_first_hop f hs) = GetHeaders n hs"
  by (auto simp: GetHeaders_def map_first_hop_def split: option.splits list.splits header.splits)

lemma hs_ViaHop_map_first_hop [simp]: "hs_ViaHop (map_first_hop f hs) = map_option f (hs_ViaHop hs)"
  by (auto simp: hs_ViaHop_def hs_Via_def GetHeaders_def map_first_hop_def
      split: option.splits list.splits header.splits)

lemma map_first_hop_id: "hs_ViaHop hs = Some hop \<Longrightarrow> f hop = hop \<Longrightarrow> map_first_hop f hs = hs"
  by (auto simp: hs_ViaHop_def hs_Via_def GetHeaders_def map_first_hop_def update_triv
      split: option.splits list.splits header.splits)

lemma GetHeaders_map_first_cseq:
  "strings_ToLower n \<noteq> ''cseq'' \<Longrightarrow> GetHeaders n (map_first_cseq f hs) = GetHeaders n hs"
  by (auto simp: GetHeaders_def map_first_cseq_def split: option.splits list.splits header.splits)

lemma hs_CSeq_map_first_cseq [simp]: "hs_CSeq (map_first_cseq f hs) = map_option f (hs_CSeq hs)"
  by (auto simp: hs_CSeq_def GetHeaders_def map_first_cseq_def
      split: option.splits list.splits header.splits)

lemma SetBody_wf [simp]: "headers_wf (hdrs m) \<Longrightarrow> headers_wf (hdrs (SetBody b c m))"
  by (auto simp: SetBody_def Let_def ReplaceHeaders_def headers_wf_Append
      intro!: headers_wf_update_old split: option.split)

lemma GetHeaders_SetBody:
  assumes "headers_wf (hdrs m)" and "strings_ToLower n \<noteq> ''content-length''"
  shows "GetHeaders n (hdrs (SetBody b c m)) = GetHeaders n (hdrs m)"
  using assms
  by (auto simp: SetBody_def Let_def GetHeaders_at hm.get_append)
     (auto simp: headers_at_def ReplaceHeaders_def split: option.splits)

lemma GetHeaders_ContentLength_SetBody:
  assumes "headers_wf (hdrs m)"
  shows "GetHeaders ''Content-Length'' (hdrs (SetBody b True m)) = [ContentLength (of_nat (length b))]"
  using assms
  by (auto simp: SetBody_def Let_def GetHeaders_at hm.get_append)
     (auto simp: headers_at_def ReplaceHeaders_def split: option.splits)

lemma SetBody_fields [simp]:
  "body (SetBody b c m) = b" "tp (SetBody b c m) = tp m" "src (SetBody b c m) = src m"
  "dest (SetBody b c m) = dest m" "sipVersion (SetBody b c m) = sipVersion m"
  by (simp_all add: SetBody_def Let_def)

lemma rebuild_collection:
  assumes "headers_wf hs"
  shows "headers_at (newHeaders (Headers_all hs)) = headers_at hs"
    and "headerOrder (newHeaders (Headers_all hs)) = headerOrder hs"
    and "Headers_all (newHeaders (Headers_all hs)) = Headers_all hs"
proof -
  show at: "headers_at (newHeaders (Headers_all hs)) = headers_at hs"
    and order: "headerOrder (newHeaders (Headers_all hs)) = headerOrder hs"
    using assms by (simp_all add: fun_eq_iff newHeaders_def Headers_all_eq hm.rebuild)
  show "Headers_all (newHeaders (Headers_all hs)) = Headers_all hs"
    unfolding Headers_all_def [of "newHeaders (Headers_all hs)"] at order
    by (rule Headers_all_def [symmetric])
qed

section \<open>Properties\<close>

text \<open>C37: A well-formed collection is determined by the list \<open>Headers()\<close> returns: building a new
  collection from that list gives the same headers under every name, the same order of names and
  the same printed text; and the list has, for every name, the headers stored under it in order.\<close>

theorem Headers_rebuild:
  assumes "headers_wf hs"
  shows "GetHeaders n (newHeaders (Headers_all hs)) = GetHeaders n hs \<and>
    headerOrder (newHeaders (Headers_all hs)) = headerOrder hs \<and>
    headers_String (newHeaders (Headers_all hs)) = headers_String hs \<and>
    filter (\<lambda>h. header_key h = strings_ToLower n) (Headers_all hs) = GetHeaders n hs"
  using rebuild_collection [OF assms] assms
  by (simp add: GetHeaders_at headers_String_def) (simp add: Headers_all_eq hm.filter_all_headers)

theorem Headers_rebuild_witness:
  "headers_wf (newHeaders [CallID ''a'', MaxForwards 70, CallID ''b'']) \<and>
   GetHeaders ''CALL-ID'' (newHeaders (Headers_all (newHeaders [CallID ''a'', MaxForwards 70, CallID ''b'']))) =
     [CallID ''a'', CallID ''b'']"
proof -
  have "strings_ToLower ''CALL-ID'' = ''call-id''" by code_simp
  then show ?thesis
    using Headers_rebuild [OF newHeaders_wf, of "''CALL-ID''" "[CallID ''a'', MaxForwards 70, CallID ''b'']"]
    by (simp add: GetHeaders_newHeaders [of _ "[CallID ''a'', MaxForwards 70, CallID ''b'']"])
qed

text \<open>\<open>PrependHeaderAfter\<close> keeps the collection well-formed, puts the header in front of those
  of its name, leaves the other names alone, and, when the other name is present, places the
  header's name directly behind it and keeps the order of the rest.\<close>

theorem PrependHeaderAfter_correct:
  assumes "headers_wf hs"
  shows "headers_wf (PrependHeaderAfter h n hs) \<and>
    GetHeaders m (PrependHeaderAfter h n hs) =
      (if strings_ToLower m = strings_ToLower (header_Name h) then [h] else []) @ GetHeaders m hs \<and>
    (if GetHeaders n hs = []
     then PrependHeaderAfter h n hs = PrependHeader h hs
     else placed_after (strings_ToLower (header_Name h)) (strings_ToLower n) (headerOrder hs)
            (headerOrder (PrependHeaderAfter h n hs)))"
proof -
  have "GetHeaders n hs = [] \<longleftrightarrow> map_of (hdr_map hs) (strings_ToLower n) = None"
    using headers_wf_group(1) [OF assms] by (auto simp: GetHeaders_def split: option.splits)
  moreover have "placed_after (header_key h) (strings_ToLower n) (headerOrder hs)
      (headerOrder (PrependHeaderAfter h n hs))" if "map_of (hdr_map hs) (strings_ToLower n) \<noteq> None"
    using assms that by (simp add: PrependHeaderAfter_present order_after_placed headers_wf_order)
  ultimately show ?thesis
    using assms PrependHeaderAfter_absent
    by (auto simp: PrependHeaderAfter_wf GetHeaders_PrependHeaderAfter simp flip: header_key_def)
qed

theorem PrependHeaderAfter_correct_witness:
  "headers_wf (newHeaders [CallID ''a'']) \<and>
   GetHeaders ''Call-ID'' (PrependHeaderAfter (CallID ''b'') ''Via'' (newHeaders [CallID ''a''])) = [CallID ''b'', CallID ''a'']"
  using PrependHeaderAfter_correct [OF newHeaders_wf [of "[CallID ''a'']"], where h = "CallID ''b''" and n = "''Via''" and m = "''Call-ID''",
      THEN conjunct2, THEN conjunct1]
  by (simp add: GetHeaders_newHeaders)

end
