(* ===== verification/Request_Response.thy ===== *)
theory Request_Response
  imports Message
begin

text \<open>
  Requests and responses (\<^verbatim>\<open>sip/request.go\<close>, \<^verbatim>\<open>sip/response.go\<close>): the transport,
  source and destination that a message computes from its headers, and the messages derived
  from other messages.
\<close>

record request = message +
  rmethod :: bytes
  recipient :: "uri option"

record response = message +
  rstatus :: "16 word"
  reason :: bytes

datatype sip_msg = Req request | Res response

section \<open>Requests\<close>

text \<open>\<open>NewRequest\<close>: an empty id is replaced by a fresh one.\<close>

definition NewRequest :: "bytes \<Rightarrow> bytes \<Rightarrow> bytes \<Rightarrow> uri option \<Rightarrow> bytes \<Rightarrow> header list \<Rightarrow> bytes \<Rightarrow> request" where
  "NewRequest freshID mid m r version hl b =
     \<lparr>hdrs = newHeaders hl, messID = (if mid = [] then freshID else mid), sipVersion = version,
      body = b, tp = [], src = [], dest = [], rmethod = m, recipient = r\<rparr>"

definition request_StartLine :: "request \<Rightarrow> bytes" where
  "request_StartLine req = rmethod req @ '' '' @ fmt_uri (recipient req) @ '' '' @ sipVersion req"

definition message_String :: "bytes \<Rightarrow> 'a message_scheme \<Rightarrow> bytes" where
  "message_String startLine m = startLine @ crlf @ headers_String (hdrs m) @ crlf @ body m"

definition request_String :: "request \<Rightarrow> bytes" where
  "request_String req = message_String (request_StartLine req) req"

definition IsInvite :: "request \<Rightarrow> bool" where
  "IsInvite req \<longleftrightarrow> rmethod req = INVITE"

definition request_IsAck :: "request \<Rightarrow> bool" where
  "request_IsAck req \<longleftrightarrow> rmethod req = ACK"

definition request_IsCancel :: "request \<Rightarrow> bool" where
  "request_IsCancel req \<longleftrightarrow> rmethod req = CANCEL"

text \<open>The transport named by the top Via hop.\<close>

definition via_transport :: "headers \<Rightarrow> bytes" where
  "via_transport hs =
     (case hs_ViaHop hs of
        Some hop \<Rightarrow> if Transport hop \<noteq> [] then Transport hop else DefaultProtocol
      | None \<Rightarrow> DefaultProtocol)"

text \<open>A parameter \<open>transport\<close> without a value is a nil interface, on which the code calls
  a method.\<close>

definition uri_transport :: "bytes \<Rightarrow> uri \<Rightarrow> bytes may_panic" where
  "uri_transport t u =
     res_bind
       (case uri_UriParams u of
          None \<Rightarrow> Ok t
        | Some ps \<Rightarrow>
            (case params_Get ps ''transport'' of
               None \<Rightarrow> Ok t
             | Some None \<Rightarrow> Crash
             | Some (Some v) \<Rightarrow> Ok (if v \<noteq> [] then strings_ToUpper v else t)))
       (\<lambda>t1. Ok (if uri_IsEncrypted u then
                   if t1 = ''TCP'' then ''TLS'' else if t1 = ''WS'' then ''WSS'' else t1
                 else t1))"

definition request_Transport :: "request \<Rightarrow> bytes may_panic" where
  "request_Transport req =
     (if tp req \<noteq> [] then Ok (strings_ToUpper (tp req))
      else
        let t0 = via_transport (hdrs req);
            u = (case GetHeaders ''Route'' (hdrs req) of
                   RouteHeader (a # _) # _ \<Rightarrow> Some a
                 | _ \<Rightarrow> recipient req)
        in res_bind (case u of None \<Rightarrow> Ok t0 | Some uri \<Rightarrow> uri_transport t0 uri)
             (\<lambda>t. Ok (if t = ''UDP'' \<and> MTU - 200 < length (request_String req) then ''TCP'' else t)))"

definition host_port :: "bytes \<Rightarrow> port \<Rightarrow> bytes" where
  "host_port host p = host @ '':'' @ fmt_port p"

text \<open>The address that the parameters \<open>received\<close> and \<open>rport\<close> of a Via hop give.\<close>

definition via_received :: "headerParams option \<Rightarrow> bytes \<Rightarrow> port \<Rightarrow> (bytes \<times> port) may_panic" where
  "via_received ps host p =
     (case ps of
        None \<Rightarrow> Ok (host, p)
      | Some q \<Rightarrow>
          res_bind
            (case params_Get q ''received'' of
               None \<Rightarrow> Ok host
             | Some None \<Rightarrow> Crash
             | Some (Some r) \<Rightarrow> Ok (if r \<noteq> [] then r else host))
            (\<lambda>h. Ok (h,
               case params_Get q ''rport'' of
                 Some (Some r) \<Rightarrow>
                   if r \<noteq> [] then
                     (case strconv_Atoi r of (n, None) \<Rightarrow> word_of_int n | _ \<Rightarrow> p)
                   else p
               | _ \<Rightarrow> p)))"

definition request_Source :: "request \<Rightarrow> bytes may_panic" where
  "request_Source req =
     (if src req \<noteq> [] then Ok (src req)
      else case hs_ViaHop (hdrs req) of
        None \<Rightarrow> Ok []
      | Some hop \<Rightarrow>
          res_bind (case Port hop of
                      Some p \<Rightarrow> Ok p
                    | None \<Rightarrow> res_bind (request_Transport req) (\<lambda>t. Ok (DefaultPort t)))
            (\<lambda>p. res_bind (via_received (HParams hop) (Host hop) p)
              (\<lambda>(h, q). Ok (host_port h q))))"

definition request_Destination :: "request \<Rightarrow> bytes may_panic" where
  "request_Destination req =
     (if dest req \<noteq> [] then Ok (dest req)
      else
        res_bind
          (case GetHeaders ''Route'' (hdrs req) of
             RouteHeader (a # _) # _ \<Rightarrow> (case a of SipUri u \<Rightarrow> Ok (Some u) | _ \<Rightarrow> Crash)
           | _ \<Rightarrow> Ok (case recipient req of Some (SipUri u) \<Rightarrow> Some u | _ \<Rightarrow> None))
          (\<lambda>ou. case ou of
             None \<Rightarrow> Ok []
           | Some u \<Rightarrow>
               res_bind (case FPort u of
                           Some p \<Rightarrow> Ok p
                         | None \<Rightarrow> res_bind (request_Transport req) (\<lambda>t. Ok (DefaultPort t)))
                 (\<lambda>p. Ok (host_port (FHost u) p))))"

text \<open>The last step of every derived message: transport, source and destination are taken from
  the given values.\<close>

definition set_route :: "bytes \<Rightarrow> bytes \<Rightarrow> bytes \<Rightarrow> 'a message_scheme \<Rightarrow> 'a message_scheme" where
  "set_route t s d m = SetDestination d (SetSource s (SetTransport t m))"

definition set_branch :: "bytes \<Rightarrow> via_hop \<Rightarrow> via_hop" where
  "set_branch b hop = hop\<lparr>HParams := map_option (params_Add ''branch'' (Some b)) (HParams hop)\<rparr>"

section \<open>Responses\<close>

definition NewResponse :: "bytes \<Rightarrow> bytes \<Rightarrow> bytes \<Rightarrow> 16 word \<Rightarrow> bytes \<Rightarrow> header list \<Rightarrow> bytes \<Rightarrow> response" where
  "NewResponse freshID mid version code why hl b =
     \<lparr>hdrs = newHeaders hl, messID = (if mid = [] then freshID else mid), sipVersion = version,
      body = b, tp = [], src = [], dest = [], rstatus = code, reason = why\<rparr>"

definition response_StartLine :: "response \<Rightarrow> bytes" where
  "response_StartLine res = sipVersion res @ '' '' @ fmt_d (unat (rstatus res)) @ '' '' @ reason res"

definition response_String :: "response \<Rightarrow> bytes" where
  "response_String res = message_String (response_StartLine res) res"

definition IsProvisional :: "response \<Rightarrow> bool" where
  "IsProvisional res \<longleftrightarrow> rstatus res < 200"

definition IsSuccess :: "response \<Rightarrow> bool" where
  "IsSuccess res \<longleftrightarrow> 200 \<le> rstatus res \<and> rstatus res < 300"

definition IsRedirection :: "response \<Rightarrow> bool" where
  "IsRedirection res \<longleftrightarrow> 300 \<le> rstatus res \<and> rstatus res < 400"

definition IsClientError :: "response \<Rightarrow> bool" where
  "IsClientError res \<longleftrightarrow> 400 \<le> rstatus res \<and> rstatus res < 500"

definition IsServerError :: "response \<Rightarrow> bool" where
  "IsServerError res \<longleftrightarrow> 500 \<le> rstatus res \<and> rstatus res < 600"

definition IsGlobalError :: "response \<Rightarrow> bool" where
  "IsGlobalError res \<longleftrightarrow> 600 \<le> rstatus res"

definition response_IsAck :: "response \<Rightarrow> bool" where
  "response_IsAck res = (case hs_CSeq (hdrs res) of Some c \<Rightarrow> MethodName c = ACK | None \<Rightarrow> False)"

definition response_IsCancel :: "response \<Rightarrow> bool" where
  "response_IsCancel res = (case hs_CSeq (hdrs res) of Some c \<Rightarrow> MethodName c = CANCEL | None \<Rightarrow> False)"

definition response_Transport :: "response \<Rightarrow> bytes" where
  "response_Transport res =
     (if tp res \<noteq> [] then strings_ToUpper (tp res) else via_transport (hdrs res))"

definition response_Destination :: "response \<Rightarrow> bytes may_panic" where
  "response_Destination res =
     (if dest res \<noteq> [] then Ok (dest res)
      else case hs_ViaHop (hdrs res) of
        None \<Rightarrow> Ok []
      | Some hop \<Rightarrow>
          res_bind (via_received (HParams hop) (Host hop)
              (case Port hop of Some p \<Rightarrow> p | None \<Rightarrow> DefaultPort (response_Transport res)))
            (\<lambda>(h, q). Ok (host_port h q)))"

section \<open>Derived messages\<close>

definition NewResponseFromRequest ::
  "bytes \<Rightarrow> bytes \<Rightarrow> request \<Rightarrow> 16 word \<Rightarrow> bytes \<Rightarrow> bytes \<Rightarrow> response may_panic" where
  "NewResponseFromRequest freshID resID req code why b =
     (let res0 = NewResponse freshID resID (sipVersion req) code why [] [];
          copy = (\<lambda>name. CopyHeaders name (hdrs req));
          hs1 = copy ''CSeq'' (copy ''Call-ID'' (copy ''To'' (copy ''From'' (copy ''Via''
                  (copy ''Record-Route'' (hdrs res0))))));
          hs2 = (if code = 100 then copy ''Timestamp'' hs1 else hs1);
          res1 = SetBody b True (res0\<lparr>hdrs := hs2\<rparr>)
      in res_bind (request_Transport req) (\<lambda>t.
         res_bind (request_Destination req) (\<lambda>d.
         res_bind (request_Source req) (\<lambda>s.
           Ok (set_route t d s res1)))))"

text \<open>The routes of an ACK without a Route header of its own: the Record-Route headers of the
  response, reversed; a header of another type under that name makes the code panic.\<close>

fun record_routes :: "header list \<Rightarrow> header list may_panic" where
  "record_routes [] = Ok []"
| "record_routes (h # hl) =
     res_bind (record_routes hl) (\<lambda>l.
       case h of
         RecordRouteHeader addrs \<Rightarrow> Ok (l @ [RouteHeader (map uri_Clone (rev addrs))])
       | _ \<Rightarrow> Crash)"

text \<open>Writing to a field of a header the message must have: the code reads it without a check.\<close>

definition set_cseq_method :: "bytes \<Rightarrow> headers \<Rightarrow> headers may_panic" where
  "set_cseq_method m hs =
     (case hs_CSeq hs of
        None \<Rightarrow> Crash
      | Some _ \<Rightarrow> Ok (map_first_cseq (\<lambda>c. c\<lparr>MethodName := m\<rparr>) hs))"

definition new_branch :: "bytes \<Rightarrow> headers \<Rightarrow> headers may_panic" where
  "new_branch b hs =
     (case hs_ViaHop hs of
        None \<Rightarrow> Crash
      | Some hop \<Rightarrow> if HParams hop = None then Crash else Ok (map_first_hop (set_branch b) hs))"

definition NewAckRequest ::
  "bytes \<Rightarrow> bytes \<Rightarrow> bytes \<Rightarrow> request \<Rightarrow> response \<Rightarrow> bytes \<Rightarrow> request may_panic" where
  "NewAckRequest freshID branch ackID inviteRequest inviteResponse b =
     res_bind
       (case hs_Contact (hdrs inviteResponse) of
          None \<Rightarrow> Ok (recipient inviteRequest)
        | Some contact \<Rightarrow>
            (case recipient inviteRequest of
               None \<Rightarrow> Crash
             | Some u \<Rightarrow>
                 if strings_Index (strings_ToLower (uri_String u)) ''transport=ws'' = None
                 then Ok (Some (CAddress contact)) else Ok (Some u)))
       (\<lambda>rcpt.
        let ack0 = NewRequest freshID ackID ACK rcpt (sipVersion inviteRequest) [] b;
            hs1 = CopyHeaders ''Via'' (hdrs inviteRequest) (hdrs ack0)
        in res_bind (if IsSuccess inviteResponse then new_branch branch hs1 else Ok hs1) (\<lambda>hs2.
           res_bind
             (if GetHeaders ''Route'' (hdrs inviteRequest) \<noteq> []
              then Ok (CopyHeaders ''Route'' (hdrs inviteRequest) hs2)
              else res_bind (record_routes (GetHeaders ''Record-Route'' (hdrs inviteResponse)))
                     (\<lambda>routes. Ok (fold AppendHeader routes hs2)))
             (\<lambda>hs3.
              let hs4 = CopyHeaders ''CSeq'' (hdrs inviteRequest)
                    (CopyHeaders ''Call-ID'' (hdrs inviteRequest)
                    (CopyHeaders ''To'' (hdrs inviteResponse)
                    (CopyHeaders ''From'' (hdrs inviteRequest)
                    (AppendHeader (MaxForwards 70) hs3))))
              in res_bind (set_cseq_method ACK hs4) (\<lambda>hs5.
                 let ack1 = SetBody [] True (ack0\<lparr>hdrs := hs5\<rparr>) in
                 res_bind (request_Transport inviteRequest) (\<lambda>t.
                 res_bind (request_Source inviteRequest) (\<lambda>s.
                 res_bind (request_Destination inviteRequest) (\<lambda>d.
                   Ok (set_route t s d ack1)))))))) "

definition NewCancelRequest :: "bytes \<Rightarrow> bytes \<Rightarrow> request \<Rightarrow> request may_panic" where
  "NewCancelRequest freshID cancelID req =
     (let cancel0 = NewRequest freshID cancelID CANCEL (recipient req) (sipVersion req) [] [] in
      case hs_ViaHop (hdrs req) of
        None \<Rightarrow> Crash
      | Some hop \<Rightarrow>
          let hs1 = AppendHeader (ViaHeader [ViaHop_Clone hop]) (hdrs cancel0);
              hs2 = CopyHeaders ''CSeq'' (hdrs req)
                    (CopyHeaders ''Call-ID'' (hdrs req)
                    (CopyHeaders ''To'' (hdrs req)
                    (CopyHeaders ''From'' (hdrs req)
                    (AppendHeader (MaxForwards 70)
                    (CopyHeaders ''Route'' (hdrs req) hs1)))))
          in res_bind (set_cseq_method CANCEL hs2) (\<lambda>hs3.
             let cancel1 = SetBody [] True (cancel0\<lparr>hdrs := hs3\<rparr>) in
             res_bind (request_Transport req) (\<lambda>t.
             res_bind (request_Source req) (\<lambda>s.
             res_bind (request_Destination req) (\<lambda>d.
               Ok (set_route t s d cancel1))))))"

text \<open>\<open>ViaHop_Clone\<close> of a nil hop stays nil and is stored, so a CANCEL for a request without
  Via only panics when its Via is used; the model panics at once.\<close>

definition cloneRequest :: "bytes \<Rightarrow> bytes \<Rightarrow> request \<Rightarrow> request may_panic" where
  "cloneRequest freshID mid req =
     (case recipient req of
        None \<Rightarrow> Crash
      | Some u \<Rightarrow>
          let r = NewRequest freshID mid (rmethod req) (Some (uri_Clone u)) (sipVersion req)
                    (cloneHeaders (hdrs req)) (body req)
          in res_bind (request_Transport req) (\<lambda>t.
             res_bind (request_Source req) (\<lambda>s.
             res_bind (request_Destination req) (\<lambda>d. Ok (set_route t s d r)))))"

definition cloneResponse :: "bytes \<Rightarrow> bytes \<Rightarrow> response \<Rightarrow> response may_panic" where
  "cloneResponse freshID mid res =
     (let r = NewResponse freshID mid (sipVersion res) (rstatus res) (reason res)
                (cloneHeaders (hdrs res)) (body res)
      in res_bind (response_Destination res)
           (\<lambda>d. Ok (set_route (response_Transport res) (src res) d r)))"

section \<open>Headers of derived messages\<close>

lemma set_route_fields [simp]:
  "hdrs (set_route t s d m) = hdrs m" "body (set_route t s d m) = body m"
  "tp (set_route t s d m) = strings_ToUpper t" "src (set_route t s d m) = s" "dest (set_route t s d m) = d"
  "sipVersion (set_route t s d m) = sipVersion m"
  by (simp_all add: set_route_def SetTransport_def SetSource_def SetDestination_def)

lemma request_route_fields [simp]:
  "rmethod (set_route t s d (m :: request)) = rmethod m"
  "recipient (set_route t s d (m :: request)) = recipient m"
  "rstatus (set_route t s d (r :: response)) = rstatus r"
  "reason (set_route t s d (r :: response)) = reason r"
  "rmethod (SetBody b c (m :: request)) = rmethod m"
  "recipient (SetBody b c (m :: request)) = recipient m"
  "rstatus (SetBody b c (r :: response)) = rstatus r"
  "reason (SetBody b c (r :: response)) = reason r"
  by (simp_all add: set_route_def SetTransport_def SetSource_def SetDestination_def SetBody_def Let_def)

lemmas derive_defs = NewRequest_def NewResponse_def newHeaders_def hm.invar_empty GetHeaders_SetBody
  GetHeaders_ContentLength_SetBody GetHeaders_Copy headers_wf_Append hm.get_append hm.get_empty

lemma GetHeaders_empty [simp]: "GetHeaders n no_headers = []"
  by (simp add: GetHeaders_at hm.get_empty)

lemma GetHeaders_Append:
  "headers_wf hs \<Longrightarrow> GetHeaders n (AppendHeader h hs) = GetHeaders n hs @ (if strings_ToLower n = header_key h then [h] else [])"
  by (simp add: GetHeaders_at hm.get_append)

text \<open>The names whose headers a response takes from its request.\<close>

definition response_names :: "bytes list" where
  "response_names = [''Record-Route'', ''Via'', ''From'', ''To'', ''Call-ID'', ''CSeq'']"

lemma NewResponseFromRequest_headers:
  assumes "headers_wf (hdrs req)" and "NewResponseFromRequest fid rid req code why b = Ok res"
  shows "headers_wf (hdrs res)"
    and "n \<in> set response_names \<Longrightarrow> GetHeaders n (hdrs res) = map header_Clone (GetHeaders n (hdrs req))"
    and "GetHeaders ''Content-Length'' (hdrs res) = [ContentLength (of_nat (length b))]"
    and "rstatus res = code" "reason res = why" "body res = b" "sipVersion res = sipVersion req"
  using assms
  by (auto simp: NewResponseFromRequest_def Let_def derive_defs response_names_def)

lemma NewResponseFromRequest_route:
  assumes "NewResponseFromRequest fid rid req code why b = Ok res"
  shows "Ok (src res) = request_Destination req" "Ok (dest res) = request_Source req"
    "\<exists>t. request_Transport req = Ok t \<and> tp res = strings_ToUpper t"
  using assms by (auto simp: NewResponseFromRequest_def Let_def)

text \<open>What a header of a copied name is, for the typed getters.\<close>

lemma hs_ViaHop_clone:
  assumes "GetHeaders ''Via'' hs = map header_Clone (GetHeaders ''Via'' hs')"
  shows "hs_ViaHop hs = map_option ViaHop_Clone (hs_ViaHop hs')"
proof (cases "GetHeaders ''Via'' hs'")
  case (Cons h l)
  with assms show ?thesis
    by (cases h) (auto simp: hs_ViaHop_def hs_Via_def ViaHeader_Clone_map split: list.splits)
qed (use assms in \<open>simp add: hs_ViaHop_def hs_Via_def\<close>)

lemma hs_CSeq_clone:
  assumes "GetHeaders ''CSeq'' hs = map header_Clone (GetHeaders ''CSeq'' hs')"
  shows "hs_CSeq hs = hs_CSeq hs'"
proof (cases "GetHeaders ''CSeq'' hs'")
  case (Cons h l)
  with assms show ?thesis by (cases h) (auto simp: hs_CSeq_def CSeq_Clone_def)
qed (use assms in \<open>simp add: hs_CSeq_def\<close>)

lemma hs_CallID_clone:
  assumes "GetHeaders ''Call-ID'' hs = map header_Clone (GetHeaders ''Call-ID'' hs')"
  shows "hs_CallID hs = hs_CallID hs'"
proof (cases "GetHeaders ''Call-ID'' hs'")
  case (Cons h l)
  with assms show ?thesis by (cases h) (auto simp: hs_CallID_def)
qed (use assms in \<open>simp add: hs_CallID_def\<close>)

lemma hs_From_clone:
  assumes "GetHeaders ''From'' hs = map header_Clone (GetHeaders ''From'' hs')"
  shows "hs_From hs = map_option FromHeader_Clone (hs_From hs')"
proof (cases "GetHeaders ''From'' hs'")
  case (Cons h l)
  with assms show ?thesis by (cases h) (auto simp: hs_From_def)
qed (use assms in \<open>simp add: hs_From_def\<close>)

section \<open>CANCEL and ACK\<close>

text \<open>What a request needs so that no step of \<open>NewCancelRequest\<close> or \<open>NewAckRequest\<close>
  goes through a nil value.\<close>

definition request_ready :: "request \<Rightarrow> bool" where
  "request_ready req \<longleftrightarrow> headers_wf (hdrs req) \<and> recipient req \<noteq> None \<and> hs_CSeq (hdrs req) \<noteq> None
     \<and> (case hs_ViaHop (hdrs req) of None \<Rightarrow> False | Some hop \<Rightarrow> HParams hop \<noteq> None)
     \<and> request_Transport req \<noteq> Crash \<and> request_Source req \<noteq> Crash \<and> request_Destination req \<noteq> Crash"

definition record_routes_typed :: "header list \<Rightarrow> bool" where
  "record_routes_typed hl \<longleftrightarrow> list_all (\<lambda>h. case h of RecordRouteHeader _ \<Rightarrow> True | _ \<Rightarrow> False) hl"

definition response_ready :: "response \<Rightarrow> bool" where
  "response_ready res \<longleftrightarrow> headers_wf (hdrs res) \<and>
     record_routes_typed (GetHeaders ''Record-Route'' (hdrs res))"

lemma may_panic_Ok: "(r :: 'a may_panic) \<noteq> Crash \<Longrightarrow> (\<And>e. r \<noteq> Err e) \<Longrightarrow> \<exists>a. r = Ok a"
  by (cases r) auto

lemma uri_transport_no_Err [simp]: "uri_transport t u \<noteq> Err e"
  by (auto simp: uri_transport_def split: option.splits)

lemma request_Transport_no_Err [simp]: "request_Transport req \<noteq> Err e"
proof -
  have "res_bind (uri_transport t u) (\<lambda>x. Ok (f x)) \<noteq> Err e" for t u and f :: "bytes \<Rightarrow> bytes"
    using uri_transport_no_Err [of t u] by (cases "uri_transport t u") auto
  then show ?thesis by (auto simp: request_Transport_def Let_def split: option.splits)
qed

lemma request_Source_no_Err [simp]: "request_Source req \<noteq> Err e"
  using request_Transport_no_Err [of req]
  by (cases "request_Transport req")
     (auto simp: request_Source_def via_received_def split: option.splits)

lemma request_Destination_no_Err [simp]: "request_Destination req \<noteq> Err e"
  using request_Transport_no_Err [of req]
  by (cases "request_Transport req")
     (auto simp: request_Destination_def split: option.splits list.splits header.splits uri.splits)

lemma request_ready_route:
  assumes "request_ready req"
  obtains t s d where "request_Transport req = Ok t" "request_Source req = Ok s"
    "request_Destination req = Ok d"
  using assms may_panic_Ok [of "request_Transport req"] may_panic_Ok [of "request_Source req"]
    may_panic_Ok [of "request_Destination req"]
  by (auto simp: request_ready_def)

lemma NewResponseFromRequest_total:
  assumes "request_ready req"
  shows "\<exists>res. NewResponseFromRequest fid rid req code why b = Ok res"
proof -
  obtain t d src' where "request_Transport req = Ok t" "request_Destination req = Ok d" "request_Source req = Ok src'"
    using request_ready_route [OF assms] by blast
  then show ?thesis by (simp add: NewResponseFromRequest_def Let_def)
qed

lemma record_routes_Ok: "record_routes_typed hl \<Longrightarrow> \<exists>l. record_routes hl = Ok l"
  by (induction hl) (auto simp: record_routes_typed_def split: header.splits)

lemma record_routes_key: "record_routes hl = Ok l \<Longrightarrow> h \<in> set l \<Longrightarrow> header_key h = ''route''"
proof (induction hl arbitrary: l)
  case (Cons g hl)
  then show ?case by (cases g) auto
qed simp

lemma GetHeaders_append_routes:
  assumes "headers_wf hs" and "record_routes hl = Ok l" and "strings_ToLower n \<noteq> ''route''"
  shows "GetHeaders n (fold AppendHeader l hs) = GetHeaders n hs"
  using assms record_routes_key [OF assms(2)]
  by (auto simp: GetHeaders_at hm.get_append_all filter_empty_conv)

lemma set_cseq_method_Ok:
  "set_cseq_method m hs = Ok hs' \<longleftrightarrow>
   hs_CSeq hs \<noteq> None \<and> hs' = map_first_cseq (\<lambda>c. c\<lparr>MethodName := m\<rparr>) hs"
  by (auto simp: set_cseq_method_def split: option.splits)

lemma set_cseq_method_ready: "hs_CSeq hs \<noteq> None \<Longrightarrow> \<exists>hs'. set_cseq_method m hs = Ok hs'"
  by (simp add: set_cseq_method_Ok)

lemma new_branch_Ok:
  "new_branch b hs = Ok hs' \<longleftrightarrow>
   (\<exists>hop. hs_ViaHop hs = Some hop \<and> HParams hop \<noteq> None) \<and> hs' = map_first_hop (set_branch b) hs"
  by (auto simp: new_branch_def split: option.splits)

lemma hs_getters_cong:
  "GetHeaders ''Via'' hs = GetHeaders ''Via'' hs' \<Longrightarrow> hs_ViaHop hs = hs_ViaHop hs'"
  "GetHeaders ''CSeq'' hs = GetHeaders ''CSeq'' hs' \<Longrightarrow> hs_CSeq hs = hs_CSeq hs'"
  by (simp_all add: hs_ViaHop_def hs_Via_def hs_CSeq_def)

lemmas derive_msg = NewRequest_def newHeaders_def hm.invar_empty GetHeaders_SetBody
  GetHeaders_ContentLength_SetBody GetHeaders_Copy headers_wf_Append GetHeaders_Append
  GetHeaders_map_first_cseq GetHeaders_map_first_hop

text \<open>What the statements on derived requests use: the transport and the two addresses of a request
  are those of the request it was made from; the first Via hop of a list of headers is changed; and
  the recipient of an ACK is the Contact of the response, unless the request goes to a web
  socket.\<close>

definition same_route :: "request \<Rightarrow> request \<Rightarrow> bool" where
  "same_route req r \<longleftrightarrow> (\<exists>t. request_Transport req = Ok t \<and> tp r = strings_ToUpper t) \<and>
     request_Source req = Ok (src r) \<and> request_Destination req = Ok (dest r)"

lemma route_fields:
  "tp (set_route t s d m) = strings_ToUpper t" "src (set_route t s d m) = s" "dest (set_route t s d m) = d"
  by (simp_all add: set_route_def SetDestination_def SetSource_def SetTransport_def)

definition option_list :: "'a option \<Rightarrow> 'a list" where
  "option_list x = (case x of None \<Rightarrow> [] | Some a \<Rightarrow> [a])"

lemma option_list_simps [simp]: "option_list None = []" "option_list (Some a) = [a]"
  by (simp_all add: option_list_def)

fun map_top_hop :: "(via_hop \<Rightarrow> via_hop) \<Rightarrow> header list \<Rightarrow> header list" where
  "map_top_hop f (ViaHeader (hop # hops) # hl) = ViaHeader (f hop # hops) # hl"
| "map_top_hop f hl = hl"

lemma GetHeaders_Via_map_first_hop: "GetHeaders ''Via'' (map_first_hop f hs) = map_top_hop f (GetHeaders ''Via'' hs)"
  by (auto simp: GetHeaders_def map_first_hop_def split: option.splits list.splits header.splits)

definition ack_recipient :: "request \<Rightarrow> response \<Rightarrow> uri option may_panic" where
  "ack_recipient req res =
     (case hs_Contact (hdrs res) of
        None \<Rightarrow> Ok (recipient req)
      | Some contact \<Rightarrow>
          (case recipient req of
             None \<Rightarrow> Crash
           | Some u \<Rightarrow>
               if strings_Index (strings_ToLower (uri_String u)) ''transport=ws'' = None
               then Ok (Some (CAddress contact)) else Ok (Some u)))"

text \<open>The part of a CANCEL and of an ACK that is built the same way: the headers before the method
  of the CSeq is written.\<close>

lemma NewCancelRequest_headers:
  assumes wf: "headers_wf (hdrs req)" and ok: "NewCancelRequest fid cid req = Ok c"
  shows "headers_wf (hdrs c)"
    and "hs_ViaHop (hdrs c) = map_option ViaHop_Clone (hs_ViaHop (hdrs req))"
    and "hs_CSeq (hdrs c) = map_option (\<lambda>x. x\<lparr>MethodName := CANCEL\<rparr>) (hs_CSeq (hdrs req))"
    and "n \<in> {''Route'', ''From'', ''To'', ''Call-ID''} \<Longrightarrow>
      GetHeaders n (hdrs c) = map header_Clone (GetHeaders n (hdrs req))"
    and "rmethod c = CANCEL" "recipient c = recipient req" "body c = []"
    and "GetHeaders ''Via'' (hdrs c) = map (\<lambda>hop. ViaHeader [ViaHop_Clone hop]) (option_list (hs_ViaHop (hdrs req)))"
    and "GetHeaders ''Max-Forwards'' (hdrs c) = [MaxForwards 70]"
    and "GetHeaders ''Content-Length'' (hdrs c) = [ContentLength 0]"
    and "same_route req c"
proof -
  from ok obtain hop where hop: "hs_ViaHop (hdrs req) = Some hop"
    by (cases "hs_ViaHop (hdrs req)") (auto simp: NewCancelRequest_def)
  let ?hs1 = "AppendHeader (ViaHeader [ViaHop_Clone hop]) no_headers"
  let ?hs2 = "CopyHeaders ''CSeq'' (hdrs req) (CopyHeaders ''Call-ID'' (hdrs req)
    (CopyHeaders ''To'' (hdrs req) (CopyHeaders ''From'' (hdrs req)
    (AppendHeader (MaxForwards 70) (CopyHeaders ''Route'' (hdrs req) ?hs1)))))"
  let ?hs3 = "map_first_cseq (\<lambda>c. c\<lparr>MethodName := CANCEL\<rparr>) ?hs2"
  have wf2: "headers_wf ?hs2" using wf by (simp add: headers_wf_Append hm.invar_empty)
  have eq: "hdrs c = hdrs (SetBody [] True (NewRequest fid cid CANCEL (recipient req) (sipVersion req) [] []\<lparr>hdrs := ?hs3\<rparr>))"
    and fields: "rmethod c = CANCEL" "recipient c = recipient req" "body c = []" and route: "same_route req c"
    using ok hop
    by (auto simp: NewCancelRequest_def Let_def NewRequest_def newHeaders_def set_cseq_method_Ok same_route_def route_fields)
  have get: "GetHeaders n (hdrs c) = GetHeaders n ?hs3" if "strings_ToLower n \<noteq> ''content-length''" for n
    unfolding eq using wf2 that by (simp add: GetHeaders_SetBody)
  show "headers_wf (hdrs c)" unfolding eq using wf2 by simp
  have "GetHeaders ''CSeq'' ?hs2 = map header_Clone (GetHeaders ''CSeq'' (hdrs req))"
    using wf by (simp add: derive_msg)
  then show "hs_CSeq (hdrs c) = map_option (\<lambda>x. x\<lparr>MethodName := CANCEL\<rparr>) (hs_CSeq (hdrs req))"
    using hs_getters_cong(2) [OF get] hs_CSeq_clone by simp
  have via: "GetHeaders ''Via'' (hdrs c) = [ViaHeader [ViaHop_Clone hop]]"
    using wf by (simp add: get derive_msg)
  then show "GetHeaders ''Via'' (hdrs c) = map (\<lambda>hop. ViaHeader [ViaHop_Clone hop]) (option_list (hs_ViaHop (hdrs req)))"
    unfolding hop by simp
  show "GetHeaders ''Max-Forwards'' (hdrs c) = [MaxForwards 70]" using wf by (simp add: get derive_msg)
  show "GetHeaders ''Content-Length'' (hdrs c) = [ContentLength 0]"
    unfolding eq using wf2 by (simp add: GetHeaders_ContentLength_SetBody)
  show "same_route req c" by (rule route)
  from via show "hs_ViaHop (hdrs c) = map_option ViaHop_Clone (hs_ViaHop (hdrs req))"
    unfolding hop by (simp add: hs_ViaHop_def hs_Via_def)
  show "GetHeaders n (hdrs c) = map header_Clone (GetHeaders n (hdrs req))"
    if "n \<in> {''Route'', ''From'', ''To'', ''Call-ID''}"
    using wf that by (auto simp: get derive_msg)
  show "rmethod c = CANCEL" "recipient c = recipient req" "body c = []" by (rule fields)+
qed

lemma NewCancelRequest_total:
  assumes "request_ready req"
  shows "\<exists>c. NewCancelRequest fid cid req = Ok c"
proof -
  obtain t s d where r: "request_Transport req = Ok t" "request_Source req = Ok s"
    "request_Destination req = Ok d"
    using assms by (rule request_ready_route)
  obtain hop where hop: "hs_ViaHop (hdrs req) = Some hop"
    using assms by (auto simp: request_ready_def split: option.splits)
  have wf: "headers_wf (hdrs req)" using assms by (simp add: request_ready_def)
  let ?hs2 = "CopyHeaders ''CSeq'' (hdrs req) (CopyHeaders ''Call-ID'' (hdrs req)
    (CopyHeaders ''To'' (hdrs req) (CopyHeaders ''From'' (hdrs req)
    (AppendHeader (MaxForwards 70) (CopyHeaders ''Route'' (hdrs req)
    (AppendHeader (ViaHeader [ViaHop_Clone hop]) no_headers))))))"
  have "GetHeaders ''CSeq'' ?hs2 = map header_Clone (GetHeaders ''CSeq'' (hdrs req))"
    using wf by (simp add: derive_msg)
  then have "hs_CSeq ?hs2 \<noteq> None"
    using assms hs_CSeq_clone by (simp add: request_ready_def)
  then show ?thesis
    by (auto simp: NewCancelRequest_def Let_def NewRequest_def newHeaders_def hop r set_cseq_method_Ok)
qed

lemma NewAckRequest_headers:
  assumes wf: "headers_wf (hdrs req)" and wf': "headers_wf (hdrs res)"
    and ok: "NewAckRequest fid br aid req res b = Ok a"
  shows "headers_wf (hdrs a)"
    and "hs_ViaHop (hdrs a) = map_option (\<lambda>hop. if IsSuccess res then set_branch br (ViaHop_Clone hop)
      else ViaHop_Clone hop) (hs_ViaHop (hdrs req))"
    and "hs_CSeq (hdrs a) = map_option (\<lambda>x. x\<lparr>MethodName := ACK\<rparr>) (hs_CSeq (hdrs req))"
    and "n \<in> {''From'', ''Call-ID''} \<Longrightarrow> GetHeaders n (hdrs a) = map header_Clone (GetHeaders n (hdrs req))"
    and "GetHeaders ''To'' (hdrs a) = map header_Clone (GetHeaders ''To'' (hdrs res))"
    and "rmethod a = ACK" and "hs_CSeq (hdrs req) \<noteq> None"
    and "IsSuccess res \<Longrightarrow> \<exists>hop. hs_ViaHop (hdrs req) = Some hop \<and> HParams hop \<noteq> None"
    and "GetHeaders ''Via'' (hdrs a) = (if IsSuccess res then map_top_hop (set_branch br) else id)
      (map header_Clone (GetHeaders ''Via'' (hdrs req)))"
    and "(if GetHeaders ''Route'' (hdrs req) \<noteq> [] then Ok (map header_Clone (GetHeaders ''Route'' (hdrs req)))
      else record_routes (GetHeaders ''Record-Route'' (hdrs res))) = Ok (GetHeaders ''Route'' (hdrs a))"
    and "GetHeaders ''Max-Forwards'' (hdrs a) = [MaxForwards 70]"
    and "GetHeaders ''Content-Length'' (hdrs a) = [ContentLength 0]"
    and "same_route req a" "body a = []" "ack_recipient req res = Ok (recipient a)"
proof -
  let ?hs1 = "CopyHeaders ''Via'' (hdrs req) no_headers"
  let ?hs4 = "\<lambda>hs3. CopyHeaders ''CSeq'' (hdrs req) (CopyHeaders ''Call-ID'' (hdrs req)
    (CopyHeaders ''To'' (hdrs res) (CopyHeaders ''From'' (hdrs req) (AppendHeader (MaxForwards 70) hs3))))"
  let ?hs5 = "\<lambda>hs3. map_first_cseq (\<lambda>c. c\<lparr>MethodName := ACK\<rparr>) (?hs4 hs3)"
  from ok obtain hs2 hs3 rcpt where
    hs2: "(if IsSuccess res then new_branch br ?hs1 else Ok ?hs1) = Ok hs2"
    and hs3: "(if GetHeaders ''Route'' (hdrs req) \<noteq> [] then Ok (CopyHeaders ''Route'' (hdrs req) hs2)
      else res_bind (record_routes (GetHeaders ''Record-Route'' (hdrs res)))
        (\<lambda>routes. Ok (fold AppendHeader routes hs2))) = Ok hs3"
    and eq: "hdrs a = hdrs (SetBody [] True (NewRequest fid aid ACK rcpt (sipVersion req) [] b\<lparr>hdrs := ?hs5 hs3\<rparr>))"
    and m: "rmethod a = ACK" and cseq: "hs_CSeq (?hs4 hs3) \<noteq> None"
    and fields: "same_route req a" "body a = []" "ack_recipient req res = Ok (recipient a)"
    unfolding NewAckRequest_def Let_def ack_recipient_def [symmetric]
    by (simp only: res_bind_Ok_iff set_cseq_method_Ok)
       (elim exE conjE, rule that, auto simp: NewRequest_def newHeaders_def same_route_def route_fields)
  have wf1: "headers_wf hs2" "headers_wf hs3"
    using hs2 hs3 wf by (auto simp: new_branch_Ok hm.invar_empty hm.invar_append_all split: if_splits)
  then have wf4: "headers_wf (?hs4 hs3)" by (simp add: headers_wf_Append)
  have get: "GetHeaders n (hdrs a) = GetHeaders n (?hs5 hs3)" if "strings_ToLower n \<noteq> ''content-length''" for n
    unfolding eq using wf4 that by (simp add: GetHeaders_SetBody)
  have get2: "GetHeaders n hs2 = []" if "strings_ToLower n \<noteq> ''via''" for n
    using hs2 that wf by (auto simp: new_branch_Ok derive_msg split: if_splits)
  have get3: "GetHeaders n hs3 = GetHeaders n hs2" if "strings_ToLower n \<noteq> ''route''" for n
    using hs3 wf wf1 that by (auto simp: derive_msg GetHeaders_append_routes split: if_splits)
  show "headers_wf (hdrs a)" unfolding eq using wf4 by simp
  show "rmethod a = ACK" by (rule m)
  have "GetHeaders ''CSeq'' (?hs4 hs3) = map header_Clone (GetHeaders ''CSeq'' (hdrs req))"
    using wf wf' wf1 by (simp add: derive_msg get2 get3)
  then show "hs_CSeq (hdrs a) = map_option (\<lambda>x. x\<lparr>MethodName := ACK\<rparr>) (hs_CSeq (hdrs req))"
    and "hs_CSeq (hdrs req) \<noteq> None"
    using hs_getters_cong(2) [OF get] hs_CSeq_clone cseq by simp_all
  have Via: "GetHeaders ''Via'' (hdrs a) = GetHeaders ''Via'' hs2"
    using wf wf' wf1 by (simp add: get derive_msg get3)
  have "GetHeaders ''Via'' ?hs1 = map header_Clone (GetHeaders ''Via'' (hdrs req))"
    using wf by (simp add: derive_msg)
  with Via hs2 show "GetHeaders ''Via'' (hdrs a) = (if IsSuccess res then map_top_hop (set_branch br) else id)
      (map header_Clone (GetHeaders ''Via'' (hdrs req)))"
    by (auto simp: new_branch_Ok GetHeaders_Via_map_first_hop split: if_splits)
  have "GetHeaders ''Route'' (hdrs a) = GetHeaders ''Route'' hs3"
    using wf wf' wf1 by (simp add: get derive_msg)
  moreover have "record_routes (GetHeaders ''Record-Route'' (hdrs res)) = Ok (GetHeaders ''Route'' (fold AppendHeader l hs2))"
    if "record_routes (GetHeaders ''Record-Route'' (hdrs res)) = Ok l" for l
    using that wf1(1) get2 [of "''Route''"] record_routes_key [OF that]
    by (simp add: GetHeaders_at hm.get_append_all)
  ultimately show "(if GetHeaders ''Route'' (hdrs req) \<noteq> [] then Ok (map header_Clone (GetHeaders ''Route'' (hdrs req)))
      else record_routes (GetHeaders ''Record-Route'' (hdrs res))) = Ok (GetHeaders ''Route'' (hdrs a))"
    using hs3 wf wf1 get2 [of "''Route''"] by (auto simp: derive_msg split: if_splits)
  show "GetHeaders ''Max-Forwards'' (hdrs a) = [MaxForwards 70]"
    using wf wf' wf1 by (simp add: get derive_msg get2 get3)
  show "GetHeaders ''Content-Length'' (hdrs a) = [ContentLength 0]"
    unfolding eq using wf4 by (simp add: GetHeaders_ContentLength_SetBody)
  show "same_route req a" "body a = []" "ack_recipient req res = Ok (recipient a)" by (rule fields)+
  from Via have "hs_ViaHop (hdrs a) = hs_ViaHop hs2" by (rule hs_getters_cong)
  moreover have via: "hs_ViaHop ?hs1 = map_option ViaHop_Clone (hs_ViaHop (hdrs req))"
    using wf by (intro hs_ViaHop_clone) (simp add: derive_msg)
  ultimately show "hs_ViaHop (hdrs a) = map_option (\<lambda>hop. if IsSuccess res then set_branch br (ViaHop_Clone hop)
      else ViaHop_Clone hop) (hs_ViaHop (hdrs req))"
    using hs2 by (auto simp: new_branch_Ok option.map_comp comp_def split: if_splits)
  show "GetHeaders n (hdrs a) = map header_Clone (GetHeaders n (hdrs req))" if "n \<in> {''From'', ''Call-ID''}"
    using wf wf' wf1 that by (auto simp: get derive_msg get2 get3)
  show "\<exists>hop. hs_ViaHop (hdrs req) = Some hop \<and> HParams hop \<noteq> None" if "IsSuccess res"
    using hs2 via that by (auto simp: new_branch_Ok ViaHop_Clone_def)
  show "GetHeaders ''To'' (hdrs a) = map header_Clone (GetHeaders ''To'' (hdrs res))"
    using wf wf' wf1 by (simp add: get derive_msg get2 get3)
qed

lemma NewRequest_hdrs: "hdrs (NewRequest fid mid m r v [] b) = no_headers"
  by (simp add: NewRequest_def newHeaders_def)

lemma new_branch_ready:
  assumes "headers_wf (hdrs req)" and "hs_ViaHop (hdrs req) = Some hop" and "HParams hop \<noteq> None"
  shows "\<exists>hs'. new_branch br (CopyHeaders ''Via'' (hdrs req) no_headers) = Ok hs'"
proof -
  have "hs_ViaHop (CopyHeaders ''Via'' (hdrs req) no_headers) = map_option ViaHop_Clone (hs_ViaHop (hdrs req))"
    using assms(1) by (intro hs_ViaHop_clone) (simp add: derive_msg)
  with assms show ?thesis by (simp add: new_branch_Ok ViaHop_Clone_def)
qed

lemma NewAckRequest_total:
  assumes "request_ready req" and "response_ready res"
  shows "\<exists>a. NewAckRequest fid br aid req res b = Ok a"
proof -
  obtain t s d where r: "request_Transport req = Ok t" "request_Source req = Ok s"
    "request_Destination req = Ok d"
    using assms(1) by (rule request_ready_route)
  have wf: "headers_wf (hdrs req)" "headers_wf (hdrs res)"
    using assms by (simp_all add: request_ready_def response_ready_def)
  let ?hs1 = "CopyHeaders ''Via'' (hdrs req) no_headers"
  obtain hop where hop: "hs_ViaHop (hdrs req) = Some hop" "HParams hop \<noteq> None"
    using assms(1) by (auto simp: request_ready_def split: option.splits)
  obtain hs2 where hs2: "(if IsSuccess res then new_branch br ?hs1 else Ok ?hs1) = Ok hs2"
    using new_branch_ready [OF wf(1) hop] by (cases "IsSuccess res") auto
  then have wf2: "headers_wf hs2" and get2: "GetHeaders ''CSeq'' hs2 = []"
    using wf by (auto simp: new_branch_Ok derive_msg split: if_splits)
  obtain l where l: "record_routes (GetHeaders ''Record-Route'' (hdrs res)) = Ok l"
    using record_routes_Ok assms(2) by (auto simp: response_ready_def)
  define hs3 where "hs3 = (if GetHeaders ''Route'' (hdrs req) \<noteq> [] then CopyHeaders ''Route'' (hdrs req) hs2
    else fold AppendHeader l hs2)"
  have wf3: "headers_wf hs3" and get3: "GetHeaders ''CSeq'' hs3 = []"
    using wf wf2 get2 l by (auto simp: hs3_def hm.invar_append_all derive_msg GetHeaders_append_routes)
  let ?hs4 = "CopyHeaders ''CSeq'' (hdrs req) (CopyHeaders ''Call-ID'' (hdrs req)
    (CopyHeaders ''To'' (hdrs res) (CopyHeaders ''From'' (hdrs req) (AppendHeader (MaxForwards 70) hs3))))"
  have "GetHeaders ''CSeq'' ?hs4 = map header_Clone (GetHeaders ''CSeq'' (hdrs req))"
    using wf wf3 get3 by (simp add: derive_msg)
  then have "hs_CSeq ?hs4 \<noteq> None"
    using assms hs_CSeq_clone by (simp add: request_ready_def)
  then obtain hs5 where hs5: "set_cseq_method ACK ?hs4 = Ok hs5" using set_cseq_method_ready by blast
  have hs3_eq: "(if GetHeaders ''Route'' (hdrs req) \<noteq> [] then Ok (CopyHeaders ''Route'' (hdrs req) hs2)
      else res_bind (record_routes (GetHeaders ''Record-Route'' (hdrs res)))
        (\<lambda>routes. Ok (fold AppendHeader routes hs2))) = Ok hs3"
    using l by (simp add: hs3_def)
  obtain rcpt where rcpt: "(case hs_Contact (hdrs res) of
          None \<Rightarrow> Ok (recipient req)
        | Some contact \<Rightarrow>
            (case recipient req of
               None \<Rightarrow> Crash
             | Some u \<Rightarrow>
                 if strings_Index (strings_ToLower (uri_String u)) ''transport=ws'' = None
                 then Ok (Some (CAddress contact)) else Ok (Some u))) = (Ok rcpt :: uri option may_panic)"
    using assms(1) by (cases "hs_Contact (hdrs res)"; cases "recipient req")
      (simp_all add: request_ready_def, metis)
  show ?thesis
    unfolding NewAckRequest_def Let_def NewRequest_hdrs
    by (simp add: rcpt hs2 hs3_eq hs5 r del: res_bind_Ok_iff split del: if_split)
qed

section \<open>Example messages\<close>

definition ex_uri :: sip_uri where
  "ex_uri = \<lparr>FIsEncrypted = False, FUser = Some ''bob'', FPassword = None, FHost = ''b.example'',
     FPort = None, FUriParams = None, FHeaders = None\<rparr>"

definition ex_addr :: "bytes \<Rightarrow> addr_header" where
  "ex_addr tag = \<lparr>DisplayName = None, Address = Some (SipUri ex_uri),
     Params = Some (params_Add ''tag'' (Some tag) NewParams)\<rparr>"

definition ex_hop :: via_hop where
  "ex_hop = \<lparr>ProtocolName = ''SIP'', ProtocolVersion = ''2.0'', Transport = ''UDP'', Host = ''a.example'',
     Port = Some 5060, HParams = Some (params_Add ''branch'' (Some ''z9hG4bK.1'') NewParams)\<rparr>"

definition ex_headers :: "bytes \<Rightarrow> header list" where
  "ex_headers m = [ViaHeader [ex_hop], FromHeader (ex_addr ''1''), ToHeader (ex_addr ''2''), CallID ''c'',
     CSeq \<lparr>SeqNo = 1, MethodName = m\<rparr>]"

definition ex_request :: "bytes \<Rightarrow> request" where
  "ex_request m = set_route ''UDP'' ''a.example:5060'' ''b.example:5060''
     (NewRequest [] ''1'' m (Some (SipUri ex_uri)) ''SIP/2.0'' (ex_headers m) [])"

definition ex_response :: "bytes \<Rightarrow> 16 word \<Rightarrow> response" where
  "ex_response m code = NewResponse [] ''2'' ''SIP/2.0'' code ''reason'' (ex_headers m) []"

lemma ex_getters [simp]:
  "hs_ViaHop (newHeaders (ex_headers m)) = Some ex_hop"
  "hs_CSeq (newHeaders (ex_headers m)) = Some \<lparr>SeqNo = 1, MethodName = m\<rparr>"
  "hs_From (newHeaders (ex_headers m)) = Some (ex_addr ''1'')"
  "GetHeaders ''Record-Route'' (newHeaders (ex_headers m)) = []"
  by (simp_all add: hs_ViaHop_def hs_Via_def hs_CSeq_def hs_From_def GetHeaders_newHeaders ex_headers_def)

lemma ex_ready [simp]: "request_ready (ex_request m)" "response_ready (ex_response m code)"
  by (simp_all add: request_ready_def response_ready_def record_routes_typed_def ex_request_def ex_response_def
      strings_ToUpper_def NewRequest_def NewResponse_def request_Transport_def request_Source_def request_Destination_def ex_hop_def)

lemma ex_response_exists: "\<exists>res. NewResponseFromRequest fid rid (ex_request m) code why b = Ok res"
proof -
  obtain t s d where "request_Transport (ex_request m) = Ok t" "request_Source (ex_request m) = Ok s"
    "request_Destination (ex_request m) = Ok d"
    using ex_ready(1) by (rule request_ready_route)
  then show ?thesis by (simp add: NewResponseFromRequest_def Let_def)
qed

section \<open>Properties\<close>

text \<open>A response made from a request has the given status, reason and body, carries copies of the
  request's Record-Route, Via, From, To, Call-ID and CSeq headers and one Content-Length with the
  length of the body, and goes back the way the request came: its source is the request's
  destination and its destination the request's source.\<close>

theorem NewResponseFromRequest_correct:
  assumes "headers_wf (hdrs req)" and "NewResponseFromRequest fid rid req code why b = Ok res"
  shows "rstatus res = code \<and> reason res = why \<and> body res = b \<and> headers_wf (hdrs res) \<and>
    (\<forall>n\<in>set response_names. GetHeaders n (hdrs res) = map header_Clone (GetHeaders n (hdrs req))) \<and>
    GetHeaders ''Content-Length'' (hdrs res) = [ContentLength (of_nat (length b))] \<and>
    request_Destination req = Ok (src res) \<and> request_Source req = Ok (dest res)"
  using NewResponseFromRequest_headers [OF assms] NewResponseFromRequest_route [OF assms(2)] by simp

theorem NewResponseFromRequest_correct_witness:
  "\<exists>res. NewResponseFromRequest [] [] (ex_request INVITE) 180 ''Ringing'' ''x'' = Ok res \<and> rstatus res = 180 \<and>
     GetHeaders ''Content-Length'' (hdrs res) = [ContentLength 1]"
proof -
  obtain res where res: "NewResponseFromRequest [] [] (ex_request INVITE) 180 ''Ringing'' ''x'' = Ok res"
    using ex_response_exists by blast
  have "headers_wf (hdrs (ex_request INVITE))" using ex_ready(1) by (simp add: request_ready_def)
  from NewResponseFromRequest_correct [OF this res] res show ?thesis by simp
qed

text \<open>A request \<open>c\<close> that cancels \<open>req\<close>, and a request \<open>a\<close> that acknowledges the response \<open>res\<close> to
  \<open>req\<close>: all headers that the code sets, with their values.\<close>

definition cancels :: "request \<Rightarrow> request \<Rightarrow> bool" where
  "cancels req c \<longleftrightarrow> rmethod c = CANCEL \<and> recipient c = recipient req \<and> body c = [] \<and> same_route req c \<and>
     GetHeaders ''Via'' (hdrs c) = map (\<lambda>hop. ViaHeader [ViaHop_Clone hop]) (option_list (hs_ViaHop (hdrs req))) \<and>
     hs_CSeq (hdrs c) = map_option (\<lambda>x. x\<lparr>MethodName := CANCEL\<rparr>) (hs_CSeq (hdrs req)) \<and>
     (\<forall>n\<in>{''Route'', ''From'', ''To'', ''Call-ID''}. GetHeaders n (hdrs c) = map header_Clone (GetHeaders n (hdrs req))) \<and>
     GetHeaders ''Max-Forwards'' (hdrs c) = [MaxForwards 70] \<and>
     GetHeaders ''Content-Length'' (hdrs c) = [ContentLength 0]"

definition acknowledges :: "bytes \<Rightarrow> request \<Rightarrow> response \<Rightarrow> request \<Rightarrow> bool" where
  "acknowledges br req res a \<longleftrightarrow> rmethod a = ACK \<and> ack_recipient req res = Ok (recipient a) \<and> body a = [] \<and>
     same_route req a \<and>
     GetHeaders ''Via'' (hdrs a) = (if IsSuccess res then map_top_hop (set_branch br) else id)
       (map header_Clone (GetHeaders ''Via'' (hdrs req))) \<and>
     hs_CSeq (hdrs a) = map_option (\<lambda>x. x\<lparr>MethodName := ACK\<rparr>) (hs_CSeq (hdrs req)) \<and>
     (\<forall>n\<in>{''From'', ''Call-ID''}. GetHeaders n (hdrs a) = map header_Clone (GetHeaders n (hdrs req))) \<and>
     GetHeaders ''To'' (hdrs a) = map header_Clone (GetHeaders ''To'' (hdrs res)) \<and>
     (if GetHeaders ''Route'' (hdrs req) \<noteq> [] then Ok (map header_Clone (GetHeaders ''Route'' (hdrs req)))
      else record_routes (GetHeaders ''Record-Route'' (hdrs res))) = Ok (GetHeaders ''Route'' (hdrs a)) \<and>
     GetHeaders ''Max-Forwards'' (hdrs a) = [MaxForwards 70] \<and>
     GetHeaders ''Content-Length'' (hdrs a) = [ContentLength 0]"

text \<open>C36: For a request that is ready (its Via with parameters, CSeq, URI, transport and addresses are
  there) and a response whose Record-Route headers have their type, the CANCEL and the ACK exist.
  The CANCEL has the request's URI, exactly its top Via hop, its Route, From, To and Call-ID headers,
  and its CSeq number.  The ACK has the Contact of the response as its URI, if there is one and the
  request does not go to a web socket, all Via headers of the request (with a new branch in the top
  hop for a 2xx response), its From and Call-ID headers and CSeq number, the To of the response, and
  the Route headers of the request or, if it has none, the Record-Route of the response reversed.
  Both have \<open>Max-Forwards: 70\<close>, an empty body (the ACK also when it was given one) with
  \<open>Content-Length: 0\<close>, and the transport and addresses of the request.\<close>

theorem NewCancelRequest_NewAckRequest_correct:
  assumes "request_ready req" and "response_ready res"
  shows "\<exists>c a. NewCancelRequest fid cid req = Ok c \<and> NewAckRequest fid' br aid req res b = Ok a \<and>
    cancels req c \<and> acknowledges br req res a"
proof -
  obtain c a where c: "NewCancelRequest fid cid req = Ok c" and a: "NewAckRequest fid' br aid req res b = Ok a"
    using NewCancelRequest_total [OF assms(1)] NewAckRequest_total [OF assms] by blast
  have wf: "headers_wf (hdrs req)" "headers_wf (hdrs res)"
    using assms by (simp_all add: request_ready_def response_ready_def)
  note cs = NewCancelRequest_headers [OF wf(1) c] and as = NewAckRequest_headers [OF wf a]
  have "cancels req c" unfolding cancels_def using cs(3-) by blast
  moreover have "acknowledges br req res a" unfolding acknowledges_def using as(3-6,9-15) by blast
  ultimately show ?thesis using c a by blast
qed

theorem NewCancelRequest_NewAckRequest_witness:
  "request_ready (ex_request INVITE) \<and> response_ready (ex_response INVITE 486) \<and>
   (\<exists>c a. NewCancelRequest [] [] (ex_request INVITE) = Ok c \<and> GetHeaders ''Max-Forwards'' (hdrs c) = [MaxForwards 70] \<and>
     NewAckRequest [] [] [] (ex_request INVITE) (ex_response INVITE 486) ''x'' = Ok a \<and> body a = [])"
  using NewCancelRequest_NewAckRequest_correct [OF ex_ready(1) ex_ready(2), of "[]" "[]" INVITE "[]" "[]" "[]" INVITE 486 "''x''"]
    ex_ready unfolding cancels_def acknowledges_def by blast

end
