(* ===== verification/TxKey.thy ===== *)
theory TxKey
  imports Request_Response
begin

text \<open>
  The keys that match messages to transactions (\<^verbatim>\<open>MakeServerTxKey\<close> and
  \<^verbatim>\<open>MakeClientTxKey\<close> of \<^verbatim>\<open>transaction/transaction.go\<close>, RFC 3261 sections 17.1.3
  and 17.2.3), the errors of transactions and the values of their timers, in nanoseconds.
\<close>

section \<open>Timer values\<close>

type_synonym duration = int

definition Millisecond :: duration where "Millisecond = 1000000"
definition Second :: duration where "Second = 1000 * Millisecond"
definition T1 :: duration where "T1 = 500 * Millisecond"
definition T2 :: duration where "T2 = 4 * Second"
definition T4 :: duration where "T4 = 5 * Second"
definition Timer_A :: duration where "Timer_A = T1"
definition Timer_B :: duration where "Timer_B = 64 * T1"
definition Timer_D :: duration where "Timer_D = 32 * Second"
definition Timer_G :: duration where "Timer_G = T1"
definition Timer_H :: duration where "Timer_H = 64 * T1"
definition Timer_I :: duration where "Timer_I = T4"
definition Timer_J :: duration where "Timer_J = 64 * T1"
definition Timer_1xx :: duration where "Timer_1xx = 200 * Millisecond"
definition Timer_L :: duration where "Timer_L = 64 * T1"
definition Timer_M :: duration where "Timer_M = 64 * T1"

lemmas timer_values = Millisecond_def Second_def T1_def T2_def T4_def Timer_A_def Timer_B_def
  Timer_D_def Timer_G_def Timer_H_def Timer_I_def Timer_J_def Timer_1xx_def Timer_L_def Timer_M_def

section \<open>Errors\<close>

type_synonym txkey = bytes

datatype tx_error =
    TxTerminatedError txkey
  | TxTimeoutError txkey
  | TxTransportError txkey "bytes option"

fun tx_error_Key :: "tx_error \<Rightarrow> txkey" where
  "tx_error_Key (TxTerminatedError k) = k"
| "tx_error_Key (TxTimeoutError k) = k"
| "tx_error_Key (TxTransportError k e) = k"

fun tx_error_Timeout :: "tx_error \<Rightarrow> bool" where
  "tx_error_Timeout (TxTimeoutError k) = True"
| "tx_error_Timeout _ = False"

fun tx_error_Transport :: "tx_error \<Rightarrow> bool" where
  "tx_error_Transport (TxTransportError k e) = True"
| "tx_error_Transport _ = False"

section \<open>Keys\<close>

datatype key_error = NoVia | NoCSeq | NoFrom | NoFromTag | NoCallID | NoBranch

definition sep :: bytes where "sep = ''__''"

text \<open>ACK and CANCEL are matched to the INVITE they belong to.\<close>

definition key_method :: "cseq \<Rightarrow> bytes" where
  "key_method c = (if MethodName c = ACK \<or> MethodName c = CANCEL then INVITE else MethodName c)"

text \<open>Reading the branch: a hop without parameters is a nil interface, and so is the value of a
  parameter without value.\<close>

definition get_branch :: "via_hop \<Rightarrow> (key_error, bytes option) res" where
  "get_branch hop =
     (case HParams hop of
        None \<Rightarrow> Crash
      | Some ps \<Rightarrow>
          (case params_Get ps ''branch'' of
             None \<Rightarrow> Ok None
           | Some None \<Rightarrow> Crash
           | Some (Some b) \<Rightarrow> Ok (Some b)))"

definition is_rfc3261_branch :: "bytes \<Rightarrow> bool" where
  "is_rfc3261_branch b \<longleftrightarrow> b \<noteq> [] \<and> strings_HasPrefix b RFC3261BranchMagicCookie
     \<and> strings_TrimPrefix b RFC3261BranchMagicCookie \<noteq> []"

text \<open>The key of RFC 2543, from the From tag, Call-ID, CSeq and the whole top Via hop.\<close>

definition rfc2543_key :: "headers \<Rightarrow> cseq \<Rightarrow> via_hop \<Rightarrow> (key_error, txkey) res" where
  "rfc2543_key hs c hop =
     (case hs_From hs of
        None \<Rightarrow> Err NoFrom
      | Some from \<Rightarrow>
          (case Params from of
             None \<Rightarrow> Crash
           | Some ps \<Rightarrow>
               (case params_Get ps ''tag'' of
                  None \<Rightarrow> Err NoFromTag
                | Some tag \<Rightarrow>
                    (case hs_CallID hs of
                       None \<Rightarrow> Err NoCallID
                     | Some callId \<Rightarrow>
                         (case tag of
                            None \<Rightarrow> Crash
                          | Some fromTag \<Rightarrow>
                              Ok (strings_Join
                                [fromTag, header_String (CallID callId), key_method c,
                                 fmt_u32 (SeqNo c), ViaHop_String hop] sep))))))"

definition MakeServerTxKey :: "headers \<Rightarrow> (key_error, txkey) res" where
  "MakeServerTxKey hs =
     (case hs_ViaHop hs of
        None \<Rightarrow> Err NoVia
      | Some hop \<Rightarrow>
          (case hs_CSeq hs of
             None \<Rightarrow> Err NoCSeq
           | Some c \<Rightarrow>
               res_bind (get_branch hop) (\<lambda>ob.
                 case ob of
                   Some b \<Rightarrow>
                     if is_rfc3261_branch b then
                       let p = (case Port hop of None \<Rightarrow> DefaultPort (Transport hop) | Some p \<Rightarrow> p)
                       in Ok (strings_Join [b, Host hop, fmt_port p, key_method c] sep)
                     else rfc2543_key hs c hop
                 | None \<Rightarrow> rfc2543_key hs c hop)))"

definition MakeClientTxKey :: "headers \<Rightarrow> (key_error, txkey) res" where
  "MakeClientTxKey hs =
     (case hs_CSeq hs of
        None \<Rightarrow> Err NoCSeq
      | Some c \<Rightarrow>
          (case hs_ViaHop hs of
             None \<Rightarrow> Err NoVia
           | Some hop \<Rightarrow>
               res_bind (get_branch hop) (\<lambda>ob.
                 case ob of
                   None \<Rightarrow> Err NoBranch
                 | Some b \<Rightarrow>
                     if is_rfc3261_branch b then Ok (strings_Join [b, key_method c] sep)
                     else Err NoBranch)))"

section \<open>Matching\<close>

text \<open>What a key is computed from.\<close>

definition key_parts :: "headers \<Rightarrow> via_hop option \<times> (32 word \<times> bytes) option \<times> headerParams option option \<times> bytes option" where
  "key_parts hs = (hs_ViaHop hs, map_option (\<lambda>c. (SeqNo c, key_method c)) (hs_CSeq hs),
     map_option Params (hs_From hs), hs_CallID hs)"

lemma rfc2543_key_cong:
  assumes "map_option Params (hs_From hs) = map_option Params (hs_From hs')" "hs_CallID hs = hs_CallID hs'"
    and "SeqNo c = SeqNo c'" "key_method c = key_method c'"
  shows "rfc2543_key hs c hop = rfc2543_key hs' c' hop"
  using assms(1) unfolding rfc2543_key_def assms(2-4)
  by (cases "hs_From hs"; cases "hs_From hs'") simp_all

lemma tx_keys_cong:
  assumes "key_parts hs = key_parts hs'"
  shows "MakeServerTxKey hs = MakeServerTxKey hs'" and "MakeClientTxKey hs = MakeClientTxKey hs'"
proof -
  have hop: "hs_ViaHop hs = hs_ViaHop hs'" using assms by (simp add: key_parts_def)
  show "MakeServerTxKey hs = MakeServerTxKey hs'" and "MakeClientTxKey hs = MakeClientTxKey hs'"
  proof (atomize (full), cases "hs_CSeq hs")
    case None
    moreover from this have "hs_CSeq hs' = None" using assms by (simp add: key_parts_def)
    ultimately show "MakeServerTxKey hs = MakeServerTxKey hs' \<and> MakeClientTxKey hs = MakeClientTxKey hs'"
      by (simp add: MakeServerTxKey_def MakeClientTxKey_def hop cong: option.case_cong if_cong)
  next
    case (Some c)
    then obtain c' where c': "hs_CSeq hs' = Some c'" "SeqNo c = SeqNo c'" "key_method c = key_method c'"
      using assms by (cases "hs_CSeq hs'") (simp_all add: key_parts_def)
    then have rfc: "rfc2543_key hs c h = rfc2543_key hs' c' h" for h
      using assms by (intro rfc2543_key_cong) (simp_all add: key_parts_def)
    show "MakeServerTxKey hs = MakeServerTxKey hs' \<and> MakeClientTxKey hs = MakeClientTxKey hs'"
      unfolding MakeServerTxKey_def MakeClientTxKey_def hop Some c'(1) option.case c'(3) rfc
      by (intro conjI refl)
  qed
qed

text \<open>Copies of the headers have the same parts, when their parameter sets are well-formed.\<close>

definition key_wf :: "headers \<Rightarrow> bool" where
  "key_wf hs \<longleftrightarrow> headers_wf hs \<and> pred_option hop_wf (hs_ViaHop hs) \<and> pred_option addr_header_wf (hs_From hs)"

lemma key_parts_clone:
  assumes "key_wf hs'" and "hs_ViaHop hs = map_option ViaHop_Clone (hs_ViaHop hs')"
    and "map_option (\<lambda>c. (SeqNo c, key_method c)) (hs_CSeq hs) =
      map_option (\<lambda>c. (SeqNo c, key_method c)) (hs_CSeq hs')"
    and "GetHeaders ''From'' hs = map header_Clone (GetHeaders ''From'' hs')"
    and "GetHeaders ''Call-ID'' hs = map header_Clone (GetHeaders ''Call-ID'' hs')"
  shows "key_parts hs = key_parts hs'"
proof -
  have "map_option ViaHop_Clone (hs_ViaHop hs') = hs_ViaHop hs'"
    using assms(1) by (cases "hs_ViaHop hs'") (simp_all add: key_wf_def)
  moreover have "map_option Params (map_option FromHeader_Clone (hs_From hs')) = map_option Params (hs_From hs')"
    using assms(1) by (cases "hs_From hs'") (simp_all add: key_wf_def addr_header_wf_def FromHeader_Clone_def)
  ultimately show ?thesis
    using assms hs_From_clone [OF assms(4)] hs_CallID_clone [OF assms(5)] by (simp add: key_parts_def)
qed

lemma response_key_parts:
  assumes "key_wf (hdrs req)" and "NewResponseFromRequest fid rid req code why b = Ok res"
  shows "key_parts (hdrs res) = key_parts (hdrs req)"
proof -
  have wf: "headers_wf (hdrs req)" using assms(1) by (simp add: key_wf_def)
  have get: "n \<in> set response_names \<Longrightarrow> GetHeaders n (hdrs res) = map header_Clone (GetHeaders n (hdrs req))" for n
    using NewResponseFromRequest_headers(2) [OF wf assms(2)] .
  show ?thesis
    using assms(1) hs_CSeq_clone [OF get] hs_ViaHop_clone [OF get]
    by (intro key_parts_clone) (simp_all add: get response_names_def)
qed

lemma invite_method_key:
  assumes "\<forall>c. hs_CSeq hs = Some c \<longrightarrow> MethodName c = INVITE" and "m \<in> {CANCEL, ACK}"
  shows "map_option (\<lambda>c. (SeqNo c, key_method c)) (map_option (\<lambda>x. x\<lparr>MethodName := m\<rparr>) (hs_CSeq hs)) =
    map_option (\<lambda>c. (SeqNo c, key_method c)) (hs_CSeq hs)"
  using assms by (cases "hs_CSeq hs") (auto simp: key_method_def)

lemma cancel_key_parts:
  assumes "key_wf (hdrs req)" and "\<forall>c. hs_CSeq (hdrs req) = Some c \<longrightarrow> MethodName c = INVITE"
    and "NewCancelRequest fid cid req = Ok c"
  shows "key_parts (hdrs c) = key_parts (hdrs req)"
proof -
  have wf: "headers_wf (hdrs req)" using assms(1) by (simp add: key_wf_def)
  note cancel = NewCancelRequest_headers [OF wf assms(3)]
  show ?thesis
    using assms(1) invite_method_key [OF assms(2), of CANCEL] cancel by (intro key_parts_clone) simp_all
qed

lemma ex_key_wf: "key_wf (hdrs (ex_request m))"
  by (simp add: key_wf_def ex_request_def NewRequest_def ex_hop_def ex_addr_def hop_wf_def addr_header_wf_def
      ex_uri_def params_wf_Add)

section \<open>Properties\<close>

text \<open>C34: A response made from a request has the request's server key and the request's client key, so
  both ends find the transaction it belongs to.\<close>

theorem response_key:
  assumes "key_wf (hdrs req)" and "NewResponseFromRequest fid rid req code why b = Ok res"
  shows "MakeServerTxKey (hdrs res) = MakeServerTxKey (hdrs req) \<and>
    MakeClientTxKey (hdrs res) = MakeClientTxKey (hdrs req)"
  using tx_keys_cong [OF response_key_parts [OF assms]] by blast

theorem response_key_witness:
  "\<exists>res. NewResponseFromRequest [] [] (ex_request INVITE) 180 ''Ringing'' [] = Ok res \<and>
     MakeClientTxKey (hdrs res) = MakeClientTxKey (hdrs (ex_request INVITE))"
proof -
  obtain res where "NewResponseFromRequest [] [] (ex_request INVITE) 180 ''Ringing'' [] = Ok res"
    using ex_response_exists by blast
  with response_key [OF ex_key_wf this] show ?thesis by blast
qed

text \<open>C35: The CANCEL of an INVITE, and the ACK of a response to it that is not a 2xx, have the server
  key and the client key of the INVITE; the ACK of a 2xx has the client key of its new branch.\<close>

theorem cancel_ack_key:
  assumes "key_wf (hdrs req)" and "headers_wf (hdrs res)"
    and "\<forall>c. hs_CSeq (hdrs req) = Some c \<longrightarrow> MethodName c = INVITE"
    and "NewCancelRequest fid cid req = Ok c" and "NewAckRequest fid' br aid req res b = Ok a"
    and "is_rfc3261_branch br"
  shows "MakeServerTxKey (hdrs c) = MakeServerTxKey (hdrs req) \<and>
    MakeClientTxKey (hdrs c) = MakeClientTxKey (hdrs req) \<and>
    (if IsSuccess res then MakeClientTxKey (hdrs a) = Ok (strings_Join [br, INVITE] sep)
     else MakeServerTxKey (hdrs a) = MakeServerTxKey (hdrs req) \<and>
       MakeClientTxKey (hdrs a) = MakeClientTxKey (hdrs req))"
proof -
  have wf: "headers_wf (hdrs req)" using assms(1) by (simp add: key_wf_def)
  note ack = NewAckRequest_headers [OF wf assms(2,5)]
  note m = invite_method_key [OF assms(3)]
  have "key_parts (hdrs c) = key_parts (hdrs req)" using cancel_key_parts [OF assms(1,3,4)] .
  moreover have "key_parts (hdrs a) = key_parts (hdrs req)" if "\<not> IsSuccess res"
    using assms(1) m ack that by (intro key_parts_clone) simp_all
  moreover have "MakeClientTxKey (hdrs a) = Ok (strings_Join [br, INVITE] sep)" if suc: "IsSuccess res"
  proof -
    obtain hop ps c where "hs_ViaHop (hdrs req) = Some hop" "HParams hop = Some ps" "hs_CSeq (hdrs req) = Some c"
      using ack(7) ack(8) [OF suc] by blast
    moreover from this have "params_wf ps" and "ViaHop_Clone hop = hop"
      using assms(1) by (simp_all add: key_wf_def hop_wf_def)
    moreover from this have "params_Get (params_Add ''branch'' (Some br) ps) ''branch'' = Some (Some br)"
      by (simp add: pd.get_add)
    ultimately show ?thesis
      using suc ack(2,3) assms(6)
      by (simp add: MakeClientTxKey_def get_branch_def set_branch_def key_method_def)
  qed
  ultimately show ?thesis
    using tx_keys_cong [of "hdrs c" "hdrs req"] tx_keys_cong [of "hdrs a" "hdrs req"] by auto
qed

theorem cancel_ack_key_witness:
  "\<exists>c a. NewCancelRequest [] [] (ex_request INVITE) = Ok c \<and>
     NewAckRequest [] ''z9hG4bK.2'' [] (ex_request INVITE) (ex_response INVITE 200) [] = Ok a \<and>
     MakeServerTxKey (hdrs c) = MakeServerTxKey (hdrs (ex_request INVITE)) \<and>
     MakeClientTxKey (hdrs a) = Ok ''z9hG4bK.2__INVITE''"
proof -
  obtain c a where c: "NewCancelRequest [] [] (ex_request INVITE) = Ok c"
    and a: "NewAckRequest [] ''z9hG4bK.2'' [] (ex_request INVITE) (ex_response INVITE 200) [] = Ok a"
    using NewCancelRequest_total [OF ex_ready(1)] NewAckRequest_total [OF ex_ready] by blast
  have wf: "headers_wf (hdrs (ex_response INVITE 200))" using ex_ready(2) by (simp add: response_ready_def)
  have m: "\<forall>c. hs_CSeq (hdrs (ex_request INVITE)) = Some c \<longrightarrow> MethodName c = INVITE"
    by (simp add: ex_request_def NewRequest_def)
  have b: "is_rfc3261_branch ''z9hG4bK.2''"
    by (simp add: is_rfc3261_branch_def RFC3261BranchMagicCookie_def strings_HasPrefix_def strings_TrimPrefix_def)
  have "IsSuccess (ex_response INVITE 200)" by (simp add: IsSuccess_def ex_response_def NewResponse_def)
  moreover have "strings_Join [''z9hG4bK.2'', INVITE] sep = ''z9hG4bK.2__INVITE''"
    by (simp add: INVITE_def sep_def)
  ultimately show ?thesis using cancel_ack_key [OF ex_key_wf wf m c a b] c a by auto
qed

end
