(* ===== verification/Fsm.thy ===== *)
theory Fsm
  imports Go_Prelude
begin

text \<open>
  The interface of the package \<^verbatim>\<open>github.com/discoviking/fsm\<close>, which is not part of the
  repository: states with an index and a table from inputs to outcomes (the next state and an
  action), the constructor \<open>Define\<close> and the method \<open>Spin\<close>.  The locale
  \<open>fsm_lib\<close> states the documented behaviour of the two functions; the models of the
  transactions take them as arguments.  Actions are named by values, and a function runs
  them, since the Go closures capture the transaction they belong to.  The input
  \<^verbatim>\<open>NO_INPUT\<close> that an action may return is \<^const>\<open>None\<close>.  The function
  \<open>fsm_Spin\<close> is an instance of the interface.
\<close>

section \<open>How a call over a shared state ends\<close>

text \<open>It returns a value, it panics (the state is the one at the panic, which a deferred
  \<^verbatim>\<open>recover\<close> sees), it blocks on a channel, or it does not end.\<close>

datatype ('a, 's) go = Ret 'a 's | Panic 's | Block 's | Diverge

fun go_bind :: "('a, 's) go \<Rightarrow> ('a \<Rightarrow> 's \<Rightarrow> ('b, 's) go) \<Rightarrow> ('b, 's) go" where
  "go_bind (Ret a s) f = f a s"
| "go_bind (Panic s) f = Panic s"
| "go_bind (Block s) f = Block s"
| "go_bind Diverge f = Diverge"

text \<open>\<^verbatim>\<open>defer func() { recover() }()\<close>: a panic becomes a return of the zero value.\<close>

fun go_recover :: "'a \<Rightarrow> ('a, 's) go \<Rightarrow> ('a, 's) go" where
  "go_recover z (Panic s) = Ret z s"
| "go_recover z r = r"

lemma go_bind_Ret_iff: "go_bind r f = Ret b t \<longleftrightarrow> (\<exists>a s. r = Ret a s \<and> f a s = Ret b t)"
  by (cases r) auto

lemma go_bind_Panic_iff: "go_bind r f = Panic t \<longleftrightarrow> r = Panic t \<or> (\<exists>a s. r = Ret a s \<and> f a s = Panic t)"
  by (cases r) auto

lemma go_bind_Diverge_iff:
  "go_bind r f = Diverge \<longleftrightarrow> r = Diverge \<or> (\<exists>a s. r = Ret a s \<and> f a s = Diverge)"
  by (cases r) auto

text \<open>A call that does not panic and ends, and whose result, when it returns, has a property.  A
  call that blocks on a channel has not returned.\<close>

fun go_post :: "('a, 's) go \<Rightarrow> ('a \<Rightarrow> 's \<Rightarrow> bool) \<Rightarrow> bool" where
  "go_post (Ret a s) Q = Q a s"
| "go_post (Panic s) Q = False"
| "go_post (Block s) Q = True"
| "go_post Diverge Q = False"

lemma go_post_bind [simp]: "go_post (go_bind r f) Q \<longleftrightarrow> go_post r (\<lambda>a s. go_post (f a s) Q)"
  by (cases r) simp_all

lemma go_post_recover: "go_post (go_recover z r) Q \<longleftrightarrow> (case r of Panic s \<Rightarrow> Q z s | _ \<Rightarrow> go_post r Q)"
  by (cases r) simp_all

lemma go_post_mono: "go_post r Q \<Longrightarrow> (\<And>a s. Q a s \<Longrightarrow> Q' a s) \<Longrightarrow> go_post r Q'"
  by (cases r) auto

section \<open>State machines\<close>

record ('st, 'i, 'a) fsm_state =
  Index :: 'st
  Outcomes :: "('i \<times> 'st \<times> 'a) list"

record ('st, 'i, 'a) fsm =
  fsm_states :: "('st, 'i, 'a) fsm_state list"
  fsm_current :: 'st

definition fsm_outcome :: "('st, 'i, 'a) fsm \<Rightarrow> 'i \<Rightarrow> ('st \<times> 'a) option" where
  "fsm_outcome f i =
     (case map_of (map (\<lambda>st. (Index st, Outcomes st)) (fsm_states f)) (fsm_current f) of
        None \<Rightarrow> None
      | Some outs \<Rightarrow> map_of outs i)"

type_synonym ('st, 'i) spin_error = "'st \<times> 'i"

text \<open>The turns of a machine, at most \<open>n\<close> of them: the action of an input may return the next one.\<close>

fun fsm_turns :: "nat \<Rightarrow> ('a \<Rightarrow> 's \<Rightarrow> ('i option, 's) go) \<Rightarrow> ('st, 'i, 'a) fsm \<Rightarrow> 's \<Rightarrow> 'i \<Rightarrow>
      (('st, 'i) spin_error option \<times> ('st, 'i, 'a) fsm, 's) go" where
  "fsm_turns 0 run f s i = Diverge"
| "fsm_turns (Suc n) run f s i =
     (case fsm_outcome f i of
        None \<Rightarrow> Ret (Some (fsm_current f, i), f) s
      | Some (st, act) \<Rightarrow>
          go_bind (run act s) (\<lambda>r t.
            case r of
              None \<Rightarrow> Ret (None, f\<lparr>fsm_current := st\<rparr>) t
            | Some j \<Rightarrow> fsm_turns n run (f\<lparr>fsm_current := st\<rparr>) t j))"

lemma fsm_turns_invalid:
  "fsm_outcome f i = None \<Longrightarrow> 0 < n \<Longrightarrow> fsm_turns n run f s i = Ret (Some (fsm_current f, i), f) s"
  by (cases n) simp_all

lemma fsm_turns_last:
  "fsm_outcome f i = Some (st, act) \<Longrightarrow> run act s = Ret None t \<Longrightarrow> 0 < n \<Longrightarrow>
   fsm_turns n run f s i = Ret (None, f\<lparr>fsm_current := st\<rparr>) t"
  by (cases n) simp_all

lemma fsm_turns_post:
  assumes "fsm_outcome f i = Some (st, act)"
  shows "go_post (fsm_turns (Suc n) run f s i) Q \<longleftrightarrow>
    go_post (run act s) (\<lambda>r t.
      case r of None \<Rightarrow> Q (None, f\<lparr>fsm_current := st\<rparr>) t
      | Some j \<Rightarrow> go_post (fsm_turns n run (f\<lparr>fsm_current := st\<rparr>) t j) Q)"
  using assms by (cases "run act s") (simp_all split: option.split)

locale fsm_lib =
  fixes define_fsm :: "('st, 'i, 'a) fsm_state list \<Rightarrow> ('st, 'i, 'a) fsm option"
    and spin :: "('a \<Rightarrow> 's \<Rightarrow> ('i option, 's) go) \<Rightarrow> ('st, 'i, 'a) fsm \<Rightarrow> 's \<Rightarrow> 'i \<Rightarrow>
      (('st, 'i) spin_error option \<times> ('st, 'i, 'a) fsm, 's) go"
  assumes define_ok: "distinct (map Index sts) \<Longrightarrow> sts \<noteq> [] \<Longrightarrow>
      define_fsm sts = Some \<lparr>fsm_states = sts, fsm_current = Index (hd sts)\<rparr>"
    and define_clash: "\<not> distinct (map Index sts) \<Longrightarrow> define_fsm sts = None"
    and spin_invalid: "fsm_outcome f i = None \<Longrightarrow> spin run f s i = Ret (Some (fsm_current f, i), f) s"
    and spin_done: "fsm_outcome f i = Some (st, act) \<Longrightarrow> run act s = Ret None t \<Longrightarrow>
      spin run f s i = Ret (None, f\<lparr>fsm_current := st\<rparr>) t"
    and spin_next: "fsm_outcome f i = Some (st, act) \<Longrightarrow> run act s = Ret (Some j) t \<Longrightarrow>
      spin run f s i = spin run (f\<lparr>fsm_current := st\<rparr>) t j"
    and spin_panic: "fsm_outcome f i = Some (st, act) \<Longrightarrow> run act s = Panic t \<Longrightarrow>
      spin run f s i = Panic t"
    and spin_block: "fsm_outcome f i = Some (st, act) \<Longrightarrow> run act s = Block t \<Longrightarrow>
      spin run f s i = Block t"
begin

text \<open>One turn of the machine, with the continuation spelled out.\<close>

lemma spin_unfold:
  assumes "fsm_outcome f i = Some (st, act)" and "run act s \<noteq> Diverge"
  shows "spin run f s i =
    (case run act s of
       Ret None t \<Rightarrow> Ret (None, f\<lparr>fsm_current := st\<rparr>) t
     | Ret (Some j) t \<Rightarrow> spin run (f\<lparr>fsm_current := st\<rparr>) t j
     | Panic t \<Rightarrow> Panic t
     | Block t \<Rightarrow> Block t)"
  using assms by (auto split: go.splits option.splits intro: spin_done spin_next spin_panic spin_block)

text \<open>A bound on the turns that is large enough gives the result of \<open>Spin\<close>.\<close>

lemma spin_turns: "fsm_turns n run f s i \<noteq> Diverge \<Longrightarrow> spin run f s i = fsm_turns n run f s i"
proof (induction n arbitrary: f s i)
  case (Suc n)
  show ?case
  proof (cases "fsm_outcome f i")
    case None
    then show ?thesis by (simp add: spin_invalid)
  next
    case (Some o1)
    then obtain st act where o1: "fsm_outcome f i = Some (st, act)" by (cases o1) simp
    with Suc.prems have "run act s \<noteq> Diverge" by auto
    with Suc spin_unfold [of f i st act run s] o1 show ?thesis
      by (cases "run act s") (auto split: option.splits)
  qed
qed simp

end

text \<open>An instance: the loop of \<open>Spin\<close> run directly.\<close>

partial_function (option) spin_loop ::
  "('a \<Rightarrow> 's \<Rightarrow> ('i option, 's) go) \<Rightarrow> ('st, 'i, 'a) fsm \<Rightarrow> 's \<Rightarrow> 'i \<Rightarrow>
   (('st, 'i) spin_error option \<times> ('st, 'i, 'a) fsm, 's) go option" where
  "spin_loop run f s i =
     (case fsm_outcome f i of
        None \<Rightarrow> Some (Ret (Some (fsm_current f, i), f) s)
      | Some (st, act) \<Rightarrow>
          (case run act s of
             Ret None t \<Rightarrow> Some (Ret (None, f\<lparr>fsm_current := st\<rparr>) t)
           | Ret (Some j) t \<Rightarrow> spin_loop run (f\<lparr>fsm_current := st\<rparr>) t j
           | Panic t \<Rightarrow> Some (Panic t)
           | Block t \<Rightarrow> Some (Block t)
           | Diverge \<Rightarrow> Some Diverge))"

definition fsm_Spin ::
  "('a \<Rightarrow> 's \<Rightarrow> ('i option, 's) go) \<Rightarrow> ('st, 'i, 'a) fsm \<Rightarrow> 's \<Rightarrow> 'i \<Rightarrow>
   (('st, 'i) spin_error option \<times> ('st, 'i, 'a) fsm, 's) go" where
  "fsm_Spin run f s i = (case spin_loop run f s i of Some r \<Rightarrow> r | None \<Rightarrow> Diverge)"

definition fsm_Define :: "('st, 'i, 'a) fsm_state list \<Rightarrow> ('st, 'i, 'a) fsm option" where
  "fsm_Define sts =
     (if distinct (map Index sts) \<and> sts \<noteq> []
      then Some \<lparr>fsm_states = sts, fsm_current = Index (hd sts)\<rparr> else None)"

interpretation fl: fsm_lib fsm_Define fsm_Spin
  by unfold_locales (simp_all add: fsm_Define_def fsm_Spin_def spin_loop.simps)

end
