(* ===== verification/Tx_Common.thy ===== *)
theory Tx_Common
  imports TxKey Fsm
begin

text \<open>
  What client and server transactions share (\<^verbatim>\<open>commonTx\<close> of \<^verbatim>\<open>transaction/tx.go\<close>
  and the Go primitives its users call): buffered channels and the \<^verbatim>\<open>select\<close> between a
  send and a closed \<^verbatim>\<open>done\<close> channel, timers made by \<^verbatim>\<open>timing.AfterFunc\<close>, and the
  environment of one operation: what the transport's \<open>Send\<close> returns, which ready case a
  \<^verbatim>\<open>select\<close> takes, and the random values used.
\<close>

section \<open>Channels\<close>

record 'a chan =
  buf :: "'a list"
  closed :: bool

definition make_chan :: "'a chan" where
  "make_chan = \<lparr>buf = [], closed = False\<rparr>"

text \<open>Every channel of a transaction has this capacity.\<close>

definition chan_cap :: nat where
  "chan_cap = 64"

datatype 'a select_result = Sent "'a chan" | Skipped | SendPanic | SendBlock

text \<open>\<^verbatim>\<open>select { case <-done: case ch <- x: }\<close>.  A receive from the closed \<open>done\<close> is
  ready; a send is ready when the buffer has room, or when the channel is closed, and then it
  panics.  Of two ready cases the run-time chooses one, which \<open>pick\<close> stands for.\<close>

definition select_send :: "bool \<Rightarrow> bool \<Rightarrow> 'a chan \<Rightarrow> 'a \<Rightarrow> 'a select_result" where
  "select_send isdone pick ch x =
     (let can = closed ch \<or> length (buf ch) < chan_cap;
          send = (if closed ch then SendPanic else Sent (ch\<lparr>buf := buf ch @ [x]\<rparr>))
      in if isdone then (if can \<and> \<not> pick then send else Skipped)
         else if can then send else SendBlock)"

lemma select_send_open:
  "\<not> isdone \<Longrightarrow> \<not> closed ch \<Longrightarrow> length (buf ch) < chan_cap \<Longrightarrow>
   select_send isdone pick ch x = Sent (ch\<lparr>buf := buf ch @ [x]\<rparr>)"
  by (simp add: select_send_def)

section \<open>Timers\<close>

record timer =
  armed :: bool
  period :: duration

definition AfterFunc :: "duration \<Rightarrow> timer" where
  "AfterFunc d = \<lparr>armed = True, period = d\<rparr>"

definition timer_Reset :: "duration \<Rightarrow> timer \<Rightarrow> timer" where
  "timer_Reset d t = t\<lparr>armed := True, period := d\<rparr>"

text \<open>A field that is nil, or a timer that has fired, has nothing left to fire.\<close>

definition is_armed :: "timer option \<Rightarrow> bool" where
  "is_armed t = (case t of Some x \<Rightarrow> armed x | None \<Rightarrow> False)"

lemma is_armed_simps [simp]: "\<not> is_armed None" "is_armed (Some (AfterFunc d))"
  "is_armed (Some (timer_Reset d t))"
  by (simp_all add: is_armed_def AfterFunc_def timer_Reset_def)

lemma is_armedD: "is_armed t \<Longrightarrow> \<exists>x. t = Some x"
  by (cases t) simp_all

definition disarm :: "timer option \<Rightarrow> timer option" where
  "disarm t = map_option (\<lambda>x. x\<lparr>armed := False\<rparr>) t"

lemma is_armed_disarm [simp]: "\<not> is_armed (disarm t)"
  by (cases t) (simp_all add: is_armed_def disarm_def)

lemma disarm_eq_None [simp]: "disarm t = None \<longleftrightarrow> t = None"
  by (simp add: disarm_def)

text \<open>Durations are 64-bit integers.\<close>

definition wrap64 :: "int \<Rightarrow> int" where
  "wrap64 x = (x + 2 ^ 63) mod 2 ^ 64 - 2 ^ 63"

lemma wrap64_id: "- (2 ^ 63) \<le> x \<Longrightarrow> x < 2 ^ 63 \<Longrightarrow> wrap64 x = x"
  by (simp add: wrap64_def)

section \<open>The environment of an operation\<close>

record env =
  tpl_Send :: "sip_msg \<Rightarrow> bytes option"
  pick_done :: bool
  fresh_id :: bytes
  fresh_branch :: bytes

datatype ('st, 'i) op_error = UnexpectedMessage | InvalidInput "('st, 'i) spin_error" | SendFailed bytes

end
