(* ===== verification/ClientTx.thy ===== *)
theory ClientTx
  imports Tx_Common
begin

text \<open>
  Client transactions (\<^verbatim>\<open>transaction/client_tx.go\<close>): the struct \<^verbatim>\<open>clientTx\<close>, the
  actions, the two state machines, and the operations \<open>Init\<close>, \<open>Receive\<close>,
  \<open>Cancel\<close> and \<open>Terminate\<close>.  A goroutine that an action starts with \<^verbatim>\<open>go\<close>,
  and the callback of a timer that has fired, wait for the lock of the state machine: they
  are the inputs in \<open>cspawned\<close>.  The messages given to the transport are logged in
  \<open>csent\<close>.
\<close>

section \<open>Inputs, states, actions\<close>

datatype client_state =
    client_state_calling
  | client_state_proceeding
  | client_state_completed
  | client_state_accepted
  | client_state_terminated

datatype client_input =
    client_input_1xx
  | client_input_2xx
  | client_input_300_plus
  | client_input_timer_a
  | client_input_timer_b
  | client_input_timer_d
  | client_input_timer_m
  | client_input_transport_err
  | client_input_delete
  | client_input_cancel
  | client_input_canceled

datatype client_action =
    C_NO_ACTION
  | C_act_invite_resend
  | C_act_invite_canceled
  | C_act_non_invite_resend
  | C_act_passup
  | C_act_invite_proceeding
  | C_act_invite_final
  | C_act_non_invite_final
  | C_act_cancel
  | C_act_cancel_timeout
  | C_act_ack
  | C_act_trans_err
  | C_act_trans_err_stay
  | C_act_timeout
  | C_act_passup_delete
  | C_act_passup_accept
  | C_act_delete

type_synonym client_fsm = "(client_state, client_input, client_action) fsm"

record clientTx =
  ckey :: txkey
  corigin :: request
  cfsm :: "client_fsm option"
  clastResp :: "response option"
  clastErr :: "bytes option"
  cresponses :: "response chan"
  cerrs :: "tx_error chan"
  cdone :: bool
  ccloseOnce :: bool
  timer_a_time :: duration
  timer_a :: "timer option"
  timer_b :: "timer option"
  timer_d_time :: duration
  timer_d :: "timer option"
  timer_m :: "timer option"
  creliable :: bool
  cspawned :: "client_input list"
  csent :: "sip_msg list"

section \<open>Creation\<close>

definition with_branch :: "bytes \<Rightarrow> via_hop \<Rightarrow> via_hop" where
  "with_branch rand hop =
     (let ps = (case HParams hop of None \<Rightarrow> NewParams | Some p \<Rightarrow> p) in
      hop\<lparr>HParams := Some (if params_Has ps ''branch'' then ps
                          else params_Add ''branch'' (Some (GenerateBranch rand)) ps)\<rparr>)"

definition prepareClientRequest :: "bytes \<Rightarrow> request \<Rightarrow> request" where
  "prepareClientRequest rand origin =
     (case hs_ViaHop (hdrs origin) of
        Some _ \<Rightarrow> origin\<lparr>hdrs := map_first_hop (with_branch rand) (hdrs origin)\<rparr>
      | None \<Rightarrow>
          let hop = \<lparr>ProtocolName = ''SIP'', ProtocolVersion = ''2.0'', Transport = [], Host = [],
                     Port = None,
                     HParams = Some (params_Add ''branch'' (Some (GenerateBranch rand)) NewParams)\<rparr>
          in origin\<lparr>hdrs := PrependHeader (ViaHeader [hop]) (hdrs origin)\<rparr>)"

definition NewClientTx :: "bytes \<Rightarrow> (bytes \<Rightarrow> bool) \<Rightarrow> request \<Rightarrow> (key_error, clientTx) res" where
  "NewClientTx rand isReliable req =
     (let origin = prepareClientRequest rand req in
      res_bind (MakeClientTxKey (hdrs origin)) (\<lambda>key.
        case request_Transport origin of
          Ok t \<Rightarrow>
            Ok \<lparr>ckey = key, corigin = origin, cfsm = None, clastResp = None, clastErr = None,
                cresponses = make_chan, cerrs = make_chan, cdone = False, ccloseOnce = False,
                timer_a_time = 0, timer_a = None, timer_b = None, timer_d_time = 0,
                timer_d = None, timer_m = None, creliable = isReliable t, cspawned = [], csent = []\<rparr>
        | _ \<Rightarrow> Crash))"

section \<open>Helpers of the actions\<close>

text \<open>\<^verbatim>\<open>tx.tpl.Send\<close>, with the error it returns.\<close>

definition c_Send :: "env \<Rightarrow> sip_msg \<Rightarrow> clientTx \<Rightarrow> bytes option \<times> clientTx" where
  "c_Send E msg tx = (tpl_Send E msg, tx\<lparr>csent := csent tx @ [msg]\<rparr>)"

definition c_spawn :: "client_input \<Rightarrow> clientTx \<Rightarrow> clientTx" where
  "c_spawn i tx = tx\<lparr>cspawned := cspawned tx @ [i]\<rparr>"

text \<open>Sending a CANCEL or an ACK: an error is kept and reported to the machine by a goroutine.\<close>

definition c_send_request :: "env \<Rightarrow> request may_panic \<Rightarrow> clientTx \<Rightarrow> (unit, clientTx) go" where
  "c_send_request E mreq tx =
     (case mreq of
        Ok req \<Rightarrow>
          (case c_Send E (Req req) tx of
             (None, tx1) \<Rightarrow> Ret () tx1
           | (Some err, tx1) \<Rightarrow>
               Ret () (c_spawn client_input_transport_err (tx1\<lparr>clastErr := Some err\<rparr>)))
      | _ \<Rightarrow> Panic tx)"

definition c_cancel :: "env \<Rightarrow> clientTx \<Rightarrow> (unit, clientTx) go" where
  "c_cancel E tx =
     (if \<not> IsInvite (corigin tx) then Ret () tx
      else c_send_request E (NewCancelRequest (fresh_id E) [] (corigin tx)) tx)"

definition c_ack :: "env \<Rightarrow> clientTx \<Rightarrow> (unit, clientTx) go" where
  "c_ack E tx =
     (case clastResp tx of
        None \<Rightarrow> Panic tx
      | Some res \<Rightarrow>
          c_send_request E
            (NewAckRequest (fresh_id E) (GenerateBranch (fresh_branch E)) [] (corigin tx) res []) tx)"

definition c_resend :: "env \<Rightarrow> clientTx \<Rightarrow> (unit, clientTx) go" where
  "c_resend E tx =
     (if cdone tx then Ret () tx
      else let (err, tx1) = c_Send E (Req (corigin tx)) tx; tx2 = tx1\<lparr>clastErr := err\<rparr> in
        Ret () (if err \<noteq> None then c_spawn client_input_transport_err tx2 else tx2))"

definition c_passUp :: "env \<Rightarrow> clientTx \<Rightarrow> (unit, clientTx) go" where
  "c_passUp E tx =
     (case clastResp tx of
        None \<Rightarrow> Ret () tx
      | Some res \<Rightarrow>
          (case select_send (cdone tx) (pick_done E) (cresponses tx) res of
             Sent ch \<Rightarrow> Ret () (tx\<lparr>cresponses := ch\<rparr>)
           | Skipped \<Rightarrow> Ret () tx
           | SendPanic \<Rightarrow> Panic tx
           | SendBlock \<Rightarrow> Block tx))"

definition c_send_err :: "env \<Rightarrow> tx_error \<Rightarrow> clientTx \<Rightarrow> (unit, clientTx) go" where
  "c_send_err E err tx =
     (case select_send (cdone tx) (pick_done E) (cerrs tx) err of
        Sent ch \<Rightarrow> Ret () (tx\<lparr>cerrs := ch\<rparr>)
      | Skipped \<Rightarrow> Ret () tx
      | SendPanic \<Rightarrow> Panic tx
      | SendBlock \<Rightarrow> Block tx)"

definition c_transportErr :: "env \<Rightarrow> clientTx \<Rightarrow> (unit, clientTx) go" where
  "c_transportErr E tx =
     go_recover () (c_send_err E (TxTransportError (ckey tx) (clastErr tx)) tx)"

definition c_timeoutErr :: "env \<Rightarrow> clientTx \<Rightarrow> (unit, clientTx) go" where
  "c_timeoutErr E tx = go_recover () (c_send_err E (TxTimeoutError (ckey tx)) tx)"

text \<open>The three closes of \<open>delete\<close>, run once; closing a closed channel panics.\<close>

definition c_close_all :: "clientTx \<Rightarrow> (unit, clientTx) go" where
  "c_close_all tx =
     (if ccloseOnce tx then Ret () tx
      else let tx1 = tx\<lparr>ccloseOnce := True\<rparr> in
        if cdone tx1 \<or> closed (cresponses tx1) \<or> closed (cerrs tx1) then Panic tx1
        else Ret () (tx1\<lparr>cdone := True, cresponses := (cresponses tx1)\<lparr>closed := True\<rparr>,
                         cerrs := (cerrs tx1)\<lparr>closed := True\<rparr>\<rparr>))"

definition c_delete :: "clientTx \<Rightarrow> (unit, clientTx) go" where
  "c_delete tx =
     (if cdone tx then Ret () tx
      else go_recover () (go_bind (c_close_all tx)
        (\<lambda>_ tx1. Ret () (tx1\<lparr>timer_a := None, timer_b := None, timer_d := None\<rparr>))))"

section \<open>Actions\<close>

text \<open>\<^verbatim>\<open>tx.timer_a.Reset\<close> on a nil timer is a call through a nil interface.\<close>

definition c_reset_a :: "clientTx \<Rightarrow> (unit, clientTx) go" where
  "c_reset_a tx =
     (case timer_a tx of
        None \<Rightarrow> Panic tx
      | Some t \<Rightarrow> Ret () (tx\<lparr>timer_a := Some (timer_Reset (timer_a_time tx) t)\<rparr>))"

definition c_act_invite_resend :: "env \<Rightarrow> clientTx \<Rightarrow> (client_input option, clientTx) go" where
  "c_act_invite_resend E tx =
     go_bind (c_reset_a (tx\<lparr>timer_a_time := wrap64 (timer_a_time tx * 2)\<rparr>)) (\<lambda>_ tx1.
     go_bind (c_resend E tx1) (\<lambda>_ tx2. Ret None tx2))"

definition c_act_non_invite_resend :: "env \<Rightarrow> clientTx \<Rightarrow> (client_input option, clientTx) go" where
  "c_act_non_invite_resend E tx =
     (let t = wrap64 (timer_a_time tx * 2); t' = (if T2 < t then T2 else t) in
      go_bind (c_reset_a (tx\<lparr>timer_a_time := t'\<rparr>)) (\<lambda>_ tx1.
      go_bind (c_resend E tx1) (\<lambda>_ tx2. Ret None tx2)))"

definition c_act_passup :: "env \<Rightarrow> clientTx \<Rightarrow> (client_input option, clientTx) go" where
  "c_act_passup E tx = go_bind (c_passUp E tx) (\<lambda>_ tx1. Ret None (tx1\<lparr>timer_a := None\<rparr>))"

definition c_act_invite_proceeding :: "env \<Rightarrow> clientTx \<Rightarrow> (client_input option, clientTx) go" where
  "c_act_invite_proceeding E tx =
     go_bind (c_passUp E tx) (\<lambda>_ tx1. Ret None (tx1\<lparr>timer_a := None, timer_b := None\<rparr>))"

definition c_act_invite_final :: "env \<Rightarrow> clientTx \<Rightarrow> (client_input option, clientTx) go" where
  "c_act_invite_final E tx =
     go_bind (c_ack E tx) (\<lambda>_ tx1.
     go_bind (c_passUp E tx1) (\<lambda>_ tx2.
       Ret None (tx2\<lparr>timer_a := None, timer_b := None,
                     timer_d := Some (AfterFunc (timer_d_time tx2))\<rparr>)))"

definition c_act_non_invite_final :: "env \<Rightarrow> clientTx \<Rightarrow> (client_input option, clientTx) go" where
  "c_act_non_invite_final E tx =
     go_bind (c_passUp E tx) (\<lambda>_ tx1.
       Ret None (tx1\<lparr>timer_a := None, timer_b := None,
                     timer_d := Some (AfterFunc (timer_d_time tx1))\<rparr>))"

definition c_act_cancel :: "env \<Rightarrow> clientTx \<Rightarrow> (client_input option, clientTx) go" where
  "c_act_cancel E tx = go_bind (c_cancel E tx) (\<lambda>_ tx1. Ret None tx1)"

definition c_act_cancel_timeout :: "env \<Rightarrow> clientTx \<Rightarrow> (client_input option, clientTx) go" where
  "c_act_cancel_timeout E tx =
     go_bind (c_cancel E tx) (\<lambda>_ tx1. Ret None (tx1\<lparr>timer_b := Some (AfterFunc Timer_B)\<rparr>))"

definition c_act_ack :: "env \<Rightarrow> clientTx \<Rightarrow> (client_input option, clientTx) go" where
  "c_act_ack E tx = go_bind (c_ack E tx) (\<lambda>_ tx1. Ret None tx1)"

definition c_act_trans_err :: "env \<Rightarrow> clientTx \<Rightarrow> (client_input option, clientTx) go" where
  "c_act_trans_err E tx =
     go_bind (c_transportErr E tx) (\<lambda>_ tx1. Ret (Some client_input_delete) (tx1\<lparr>timer_a := None\<rparr>))"

definition c_act_timeout :: "env \<Rightarrow> clientTx \<Rightarrow> (client_input option, clientTx) go" where
  "c_act_timeout E tx =
     go_bind (c_timeoutErr E tx) (\<lambda>_ tx1. Ret (Some client_input_delete) (tx1\<lparr>timer_a := None\<rparr>))"

definition c_act_passup_delete :: "env \<Rightarrow> clientTx \<Rightarrow> (client_input option, clientTx) go" where
  "c_act_passup_delete E tx =
     go_bind (c_passUp E tx) (\<lambda>_ tx1. Ret (Some client_input_delete) (tx1\<lparr>timer_a := None\<rparr>))"

definition c_act_passup_accept :: "env \<Rightarrow> clientTx \<Rightarrow> (client_input option, clientTx) go" where
  "c_act_passup_accept E tx =
     go_bind (c_passUp E tx) (\<lambda>_ tx1.
       Ret None (tx1\<lparr>timer_a := None, timer_b := None, timer_m := Some (AfterFunc Timer_M)\<rparr>))"

definition c_act_delete :: "clientTx \<Rightarrow> (client_input option, clientTx) go" where
  "c_act_delete tx = go_bind (c_delete tx) (\<lambda>_ tx1. Ret None tx1)"

fun run_client :: "env \<Rightarrow> client_action \<Rightarrow> clientTx \<Rightarrow> (client_input option, clientTx) go" where
  "run_client E C_NO_ACTION tx = Ret None tx"
| "run_client E C_act_invite_resend tx = c_act_invite_resend E tx"
| "run_client E C_act_invite_canceled tx = Ret None tx"
| "run_client E C_act_non_invite_resend tx = c_act_non_invite_resend E tx"
| "run_client E C_act_passup tx = c_act_passup E tx"
| "run_client E C_act_invite_proceeding tx = c_act_invite_proceeding E tx"
| "run_client E C_act_invite_final tx = c_act_invite_final E tx"
| "run_client E C_act_non_invite_final tx = c_act_non_invite_final E tx"
| "run_client E C_act_cancel tx = c_act_cancel E tx"
| "run_client E C_act_cancel_timeout tx = c_act_cancel_timeout E tx"
| "run_client E C_act_ack tx = c_act_ack E tx"
| "run_client E C_act_trans_err tx = c_act_trans_err E tx"
| "run_client E C_act_trans_err_stay tx = go_bind (c_act_trans_err E tx) (\<lambda>_ tx1. Ret None tx1)"
| "run_client E C_act_timeout tx = c_act_timeout E tx"
| "run_client E C_act_passup_delete tx = c_act_passup_delete E tx"
| "run_client E C_act_passup_accept tx = c_act_passup_accept E tx"
| "run_client E C_act_delete tx = c_act_delete tx"

section \<open>The state machines\<close>

definition invite_client_states :: "(client_state, client_input, client_action) fsm_state list" where
  "invite_client_states =
     [\<lparr>Index = client_state_calling,
       Outcomes =
         [(client_input_1xx, client_state_proceeding, C_act_invite_proceeding),
          (client_input_2xx, client_state_accepted, C_act_passup_accept),
          (client_input_300_plus, client_state_completed, C_act_invite_final),
          (client_input_cancel, client_state_calling, C_act_cancel),
          (client_input_canceled, client_state_calling, C_act_invite_canceled),
          (client_input_timer_a, client_state_calling, C_act_invite_resend),
          (client_input_timer_b, client_state_terminated, C_act_timeout),
          (client_input_transport_err, client_state_terminated, C_act_trans_err)]\<rparr>,
      \<lparr>Index = client_state_proceeding,
       Outcomes =
         [(client_input_1xx, client_state_proceeding, C_act_passup),
          (client_input_2xx, client_state_accepted, C_act_invite_final),
          (client_input_300_plus, client_state_completed, C_act_invite_final),
          (client_input_cancel, client_state_proceeding, C_act_cancel_timeout),
          (client_input_canceled, client_state_proceeding, C_act_invite_canceled),
          (client_input_timer_a, client_state_proceeding, C_NO_ACTION),
          (client_input_timer_b, client_state_terminated, C_act_timeout),
          (client_input_transport_err, client_state_terminated, C_act_trans_err)]\<rparr>,
      \<lparr>Index = client_state_completed,
       Outcomes =
         [(client_input_1xx, client_state_completed, C_NO_ACTION),
          (client_input_2xx, client_state_completed, C_NO_ACTION),
          (client_input_300_plus, client_state_completed, C_act_ack),
          (client_input_cancel, client_state_completed, C_NO_ACTION),
          (client_input_canceled, client_state_completed, C_NO_ACTION),
          (client_input_transport_err, client_state_terminated, C_act_trans_err),
          (client_input_timer_a, client_state_completed, C_NO_ACTION),
          (client_input_timer_b, client_state_completed, C_NO_ACTION),
          (client_input_timer_d, client_state_terminated, C_act_delete)]\<rparr>,
      \<lparr>Index = client_state_accepted,
       Outcomes =
         [(client_input_1xx, client_state_accepted, C_NO_ACTION),
          (client_input_2xx, client_state_accepted, C_act_passup),
          (client_input_300_plus, client_state_accepted, C_NO_ACTION),
          (client_input_cancel, client_state_accepted, C_NO_ACTION),
          (client_input_canceled, client_state_accepted, C_NO_ACTION),
          (client_input_transport_err, client_state_accepted, C_act_trans_err_stay),
          (client_input_timer_a, client_state_accepted, C_NO_ACTION),
          (client_input_timer_b, client_state_accepted, C_NO_ACTION),
          (client_input_timer_m, client_state_terminated, C_act_delete)]\<rparr>,
      \<lparr>Index = client_state_terminated,
       Outcomes =
         [(client_input_1xx, client_state_terminated, C_NO_ACTION),
          (client_input_2xx, client_state_terminated, C_NO_ACTION),
          (client_input_300_plus, client_state_terminated, C_NO_ACTION),
          (client_input_cancel, client_state_terminated, C_NO_ACTION),
          (client_input_canceled, client_state_terminated, C_NO_ACTION),
          (client_input_timer_a, client_state_terminated, C_NO_ACTION),
          (client_input_timer_b, client_state_terminated, C_NO_ACTION),
          (client_input_timer_d, client_state_terminated, C_NO_ACTION),
          (client_input_timer_m, client_state_terminated, C_NO_ACTION),
          (client_input_delete, client_state_terminated, C_act_delete),
          (client_input_transport_err, client_state_terminated, C_NO_ACTION)]\<rparr>]"

definition non_invite_client_states :: "(client_state, client_input, client_action) fsm_state list" where
  "non_invite_client_states =
     [\<lparr>Index = client_state_calling,
       Outcomes =
         [(client_input_1xx, client_state_proceeding, C_act_passup),
          (client_input_2xx, client_state_completed, C_act_non_invite_final),
          (client_input_300_plus, client_state_completed, C_act_non_invite_final),
          (client_input_timer_a, client_state_calling, C_act_non_invite_resend),
          (client_input_timer_b, client_state_terminated, C_act_timeout),
          (client_input_transport_err, client_state_terminated, C_act_trans_err),
          (client_input_cancel, client_state_calling, C_NO_ACTION)]\<rparr>,
      \<lparr>Index = client_state_proceeding,
       Outcomes =
         [(client_input_1xx, client_state_proceeding, C_act_passup),
          (client_input_2xx, client_state_completed, C_act_non_invite_final),
          (client_input_300_plus, client_state_completed, C_act_non_invite_final),
          (client_input_timer_a, client_state_proceeding, C_act_non_invite_resend),
          (client_input_timer_b, client_state_terminated, C_act_timeout),
          (client_input_transport_err, client_state_terminated, C_act_trans_err),
          (client_input_cancel, client_state_proceeding, C_NO_ACTION)]\<rparr>,
      \<lparr>Index = client_state_completed,
       Outcomes =
         [(client_input_1xx, client_state_completed, C_NO_ACTION),
          (client_input_2xx, client_state_completed, C_NO_ACTION),
          (client_input_300_plus, client_state_completed, C_NO_ACTION),
          (client_input_timer_a, client_state_completed, C_NO_ACTION),
          (client_input_timer_b, client_state_completed, C_NO_ACTION),
          (client_input_timer_d, client_state_terminated, C_act_delete),
          (client_input_cancel, client_state_completed, C_NO_ACTION)]\<rparr>,
      \<lparr>Index = client_state_terminated,
       Outcomes =
         [(client_input_1xx, client_state_terminated, C_NO_ACTION),
          (client_input_2xx, client_state_terminated, C_NO_ACTION),
          (client_input_300_plus, client_state_terminated, C_NO_ACTION),
          (client_input_timer_a, client_state_terminated, C_NO_ACTION),
          (client_input_timer_b, client_state_terminated, C_NO_ACTION),
          (client_input_timer_d, client_state_terminated, C_NO_ACTION),
          (client_input_delete, client_state_terminated, C_act_delete),
          (client_input_cancel, client_state_terminated, C_NO_ACTION)]\<rparr>]"

text \<open>\<open>initFSM\<close>: when \<^verbatim>\<open>Define\<close> fails, the error is logged and the machine stays nil.\<close>

type_synonym client_define = "(client_state, client_input, client_action) fsm_state list \<Rightarrow> client_fsm option"

definition c_initInviteFSM :: "client_define \<Rightarrow> clientTx \<Rightarrow> clientTx" where
  "c_initInviteFSM define_fsm tx =
     (case define_fsm invite_client_states of
        None \<Rightarrow> tx
      | Some f \<Rightarrow> tx\<lparr>cfsm := Some f\<rparr>)"

definition c_initNonInviteFSM :: "client_define \<Rightarrow> clientTx \<Rightarrow> clientTx" where
  "c_initNonInviteFSM define_fsm tx =
     (case define_fsm non_invite_client_states of
        None \<Rightarrow> tx
      | Some f \<Rightarrow> tx\<lparr>cfsm := Some f\<rparr>)"

definition c_initFSM :: "client_define \<Rightarrow> clientTx \<Rightarrow> clientTx" where
  "c_initFSM define_fsm tx =
     (if IsInvite (corigin tx) then c_initInviteFSM define_fsm tx else c_initNonInviteFSM define_fsm tx)"

section \<open>Operations\<close>

type_synonym client_spin =
  "(client_action \<Rightarrow> clientTx \<Rightarrow> (client_input option, clientTx) go) \<Rightarrow> client_fsm \<Rightarrow> clientTx \<Rightarrow>
   client_input \<Rightarrow> ((client_state, client_input) spin_error option \<times> client_fsm, clientTx) go"

type_synonym client_error = "(client_state, client_input) op_error"

text \<open>\<^verbatim>\<open>tx.fsm.Spin(input)\<close>; the machine may be nil.\<close>

definition c_Spin :: "client_spin \<Rightarrow> env \<Rightarrow> client_input \<Rightarrow> clientTx \<Rightarrow> (client_error option, clientTx) go" where
  "c_Spin spin E i tx =
     (case cfsm tx of
        None \<Rightarrow> Panic tx
      | Some f \<Rightarrow>
          go_bind
            (case spin (run_client E) f tx i of
               Ret (e, f') tx' \<Rightarrow> Ret e (tx'\<lparr>cfsm := Some f'\<rparr>)
             | Panic tx' \<Rightarrow> Panic tx'
             | Block tx' \<Rightarrow> Block tx'
             | Diverge \<Rightarrow> Diverge)
            (\<lambda>e tx'. Ret (map_option InvalidInput e) tx'))"

text \<open>\<open>Init\<close> sends the request and then starts the timers.  The two halves are separate
  definitions because a response can arrive in between.\<close>

definition c_Init_send :: "client_define \<Rightarrow> client_spin \<Rightarrow> env \<Rightarrow> clientTx \<Rightarrow> (client_error option, clientTx) go" where
  "c_Init_send define_fsm spin E tx =
     (case c_Send E (Req (corigin tx)) (c_initFSM define_fsm tx) of
        (Some err, tx1) \<Rightarrow>
          go_bind (c_Spin spin E client_input_transport_err (tx1\<lparr>clastErr := Some err\<rparr>))
            (\<lambda>_ tx2. Ret (Some (SendFailed err)) tx2)
      | (None, tx1) \<Rightarrow> Ret None tx1)"

definition c_Init_timers :: "clientTx \<Rightarrow> clientTx" where
  "c_Init_timers tx =
     (let tx1 = (if creliable tx then tx\<lparr>timer_d_time := 0\<rparr>
                 else tx\<lparr>timer_a_time := Timer_A, timer_a := Some (AfterFunc Timer_A),
                         timer_d_time := Timer_D\<rparr>)
      in tx1\<lparr>timer_b := Some (AfterFunc Timer_B)\<rparr>)"

definition c_Init :: "client_define \<Rightarrow> client_spin \<Rightarrow> env \<Rightarrow> clientTx \<Rightarrow> (client_error option, clientTx) go" where
  "c_Init define_fsm spin E tx =
     go_bind (c_Init_send define_fsm spin E tx) (\<lambda>e tx1.
       case e of
         Some err \<Rightarrow> Ret (Some err) tx1
       | None \<Rightarrow> let tx2 = c_Init_timers tx1 in Ret (map_option SendFailed (clastErr tx2)) tx2)"

definition response_input :: "response \<Rightarrow> client_input" where
  "response_input res =
     (if IsProvisional res then client_input_1xx
      else if IsSuccess res then client_input_2xx
      else client_input_300_plus)"

definition c_Receive :: "client_spin \<Rightarrow> env \<Rightarrow> sip_msg \<Rightarrow> clientTx \<Rightarrow> (client_error option, clientTx) go" where
  "c_Receive spin E msg tx =
     (case msg of
        Req _ \<Rightarrow> Ret (Some UnexpectedMessage) tx
      | Res res \<Rightarrow>
          if response_IsCancel res then c_Spin spin E client_input_canceled tx
          else c_Spin spin E (response_input res) (tx\<lparr>clastResp := Some res\<rparr>))"

definition c_Cancel :: "client_spin \<Rightarrow> env \<Rightarrow> clientTx \<Rightarrow> (client_error option, clientTx) go" where
  "c_Cancel spin E tx = c_Spin spin E client_input_cancel tx"

definition c_Terminate :: "clientTx \<Rightarrow> (unit, clientTx) go" where
  "c_Terminate tx = (if cdone tx then Ret () tx else c_delete tx)"

text \<open>A timer fires: its callback first looks at \<open>done\<close>, then waits to spin the machine.\<close>

datatype client_timer = CTimer_A | CTimer_B | CTimer_D | CTimer_M

fun client_timer_input :: "client_timer \<Rightarrow> client_input" where
  "client_timer_input CTimer_A = client_input_timer_a"
| "client_timer_input CTimer_B = client_input_timer_b"
| "client_timer_input CTimer_D = client_input_timer_d"
| "client_timer_input CTimer_M = client_input_timer_m"

fun client_timer_field :: "client_timer \<Rightarrow> clientTx \<Rightarrow> timer option" where
  "client_timer_field CTimer_A tx = timer_a tx"
| "client_timer_field CTimer_B tx = timer_b tx"
| "client_timer_field CTimer_D tx = timer_d tx"
| "client_timer_field CTimer_M tx = timer_m tx"

fun client_timer_disarm :: "client_timer \<Rightarrow> clientTx \<Rightarrow> clientTx" where
  "client_timer_disarm CTimer_A tx = tx\<lparr>timer_a := disarm (timer_a tx)\<rparr>"
| "client_timer_disarm CTimer_B tx = tx\<lparr>timer_b := disarm (timer_b tx)\<rparr>"
| "client_timer_disarm CTimer_D tx = tx\<lparr>timer_d := disarm (timer_d tx)\<rparr>"
| "client_timer_disarm CTimer_M tx = tx\<lparr>timer_m := disarm (timer_m tx)\<rparr>"

definition c_fire :: "client_timer \<Rightarrow> clientTx \<Rightarrow> clientTx" where
  "c_fire t tx =
     (let tx1 = client_timer_disarm t tx in
      if cdone tx1 then tx1 else c_spawn (client_timer_input t) tx1)"

definition c_run_spawned :: "client_spin \<Rightarrow> env \<Rightarrow> client_input \<Rightarrow> clientTx \<Rightarrow> (client_error option, clientTx) go" where
  "c_run_spawned spin E i tx = c_Spin spin E i (tx\<lparr>cspawned := remove1 i (cspawned tx)\<rparr>)"

text \<open>The user of the transaction takes a response or an error from its channel.\<close>

definition c_take_response :: "clientTx \<Rightarrow> clientTx" where
  "c_take_response tx = tx\<lparr>cresponses := (cresponses tx)\<lparr>buf := tl (buf (cresponses tx))\<rparr>\<rparr>"

definition c_take_error :: "clientTx \<Rightarrow> clientTx" where
  "c_take_error tx = tx\<lparr>cerrs := (cerrs tx)\<lparr>buf := tl (buf (cerrs tx))\<rparr>\<rparr>"

section \<open>Interleaving\<close>

text \<open>
  The operations of a transaction, in any order in which goroutines can run them.  Each runs to
  its end under the lock of the state machine, so one event is one operation; an operation that
  would block on a full channel does not run before the user has taken an element from it.
  A timer fires only while it is armed, a waiting input is spun at any later moment, and the user
  may take a response or an error whenever there is one.
\<close>

datatype client_phase = Created | Sending | Running | Failed

datatype client_event =
    EvInit
  | EvTimers
  | EvReceive sip_msg
  | EvCancel
  | EvTerminate
  | EvFire client_timer
  | EvRun client_input
  | EvTakeResponse
  | EvTakeError

fun in_phase :: "client_phase \<Rightarrow> ('a, clientTx) go \<Rightarrow> (unit, client_phase \<times> clientTx) go" where
  "in_phase ph (Ret _ tx) = Ret () (ph, tx)"
| "in_phase ph (Panic tx) = Panic (ph, tx)"
| "in_phase ph (Block tx) = Block (ph, tx)"
| "in_phase ph Diverge = Diverge"

definition init_phase :: "(client_error option, clientTx) go \<Rightarrow> client_phase" where
  "init_phase r = (case r of Ret None _ \<Rightarrow> Sending | _ \<Rightarrow> Failed)"

fun client_enabled :: "client_event \<Rightarrow> client_phase \<times> clientTx \<Rightarrow> bool" where
  "client_enabled EvInit (ph, tx) \<longleftrightarrow> ph = Created"
| "client_enabled EvTimers (ph, tx) \<longleftrightarrow> ph = Sending"
| "client_enabled (EvReceive msg) (ph, tx) \<longleftrightarrow> ph \<noteq> Created"
| "client_enabled EvCancel (ph, tx) \<longleftrightarrow> ph \<noteq> Created"
| "client_enabled EvTerminate (ph, tx) \<longleftrightarrow> ph \<noteq> Created"
| "client_enabled (EvFire t) (ph, tx) \<longleftrightarrow> is_armed (client_timer_field t tx)"
| "client_enabled (EvRun i) (ph, tx) \<longleftrightarrow> i \<in> set (cspawned tx)"
| "client_enabled EvTakeResponse (ph, tx) \<longleftrightarrow> buf (cresponses tx) \<noteq> []"
| "client_enabled EvTakeError (ph, tx) \<longleftrightarrow> buf (cerrs tx) \<noteq> []"

fun client_exec ::
  "client_define \<Rightarrow> client_spin \<Rightarrow> env \<Rightarrow> client_event \<Rightarrow> client_phase \<times> clientTx \<Rightarrow>
   (unit, client_phase \<times> clientTx) go" where
  "client_exec define_fsm spin E EvInit (ph, tx) =
     (let r = c_Init_send define_fsm spin E tx in in_phase (init_phase r) r)"
| "client_exec define_fsm spin E EvTimers (ph, tx) = Ret () (Running, c_Init_timers tx)"
| "client_exec define_fsm spin E (EvReceive msg) (ph, tx) = in_phase ph (c_Receive spin E msg tx)"
| "client_exec define_fsm spin E EvCancel (ph, tx) = in_phase ph (c_Cancel spin E tx)"
| "client_exec define_fsm spin E EvTerminate (ph, tx) = in_phase ph (c_Terminate tx)"
| "client_exec define_fsm spin E (EvFire t) (ph, tx) = Ret () (ph, c_fire t tx)"
| "client_exec define_fsm spin E (EvRun i) (ph, tx) = in_phase ph (c_run_spawned spin E i tx)"
| "client_exec define_fsm spin E EvTakeResponse (ph, tx) = Ret () (ph, c_take_response tx)"
| "client_exec define_fsm spin E EvTakeError (ph, tx) = Ret () (ph, c_take_error tx)"

text \<open>A run: the events, each with its environment, executed one after the other.\<close>

fun client_run ::
  "client_define \<Rightarrow> client_spin \<Rightarrow> (env \<times> client_event) list \<Rightarrow> client_phase \<times> clientTx \<Rightarrow>
   (unit, client_phase \<times> clientTx) go option" where
  "client_run define_fsm spin [] s = Some (Ret () s)"
| "client_run define_fsm spin ((E, ev) # evs) s =
     (if client_enabled ev s then
        (case client_exec define_fsm spin E ev s of
           Ret _ s' \<Rightarrow> client_run define_fsm spin evs s'
         | r \<Rightarrow> Some r)
      else None)"

text \<open>The states reached from a new transaction by events of a given kind.\<close>

inductive client_reach ::
  "client_define \<Rightarrow> client_spin \<Rightarrow> (client_event \<Rightarrow> bool) \<Rightarrow> clientTx \<Rightarrow> client_phase \<times> clientTx \<Rightarrow> bool"
  for define_fsm :: client_define and spin :: client_spin and P :: "client_event \<Rightarrow> bool" and tx0 :: clientTx
where
  reach_new: "client_reach define_fsm spin P tx0 (Created, tx0)"
| reach_step: "client_reach define_fsm spin P tx0 s \<Longrightarrow> P ev \<Longrightarrow> client_enabled ev s \<Longrightarrow>
    client_exec define_fsm spin E ev s = Ret () s' \<Longrightarrow> client_reach define_fsm spin P tx0 s'"

end
