(* ===== verification/ServerTx.thy ===== *)
theory ServerTx
  imports Tx_Common
begin

text \<open>
  Server transactions (\<^verbatim>\<open>transaction/server_tx.go\<close>): the struct \<^verbatim>\<open>serverTx\<close>, the
  actions, the two state machines, and the operations \<open>Init\<close>, \<open>Receive\<close>,
  \<open>Respond\<close> and \<open>Terminate\<close>.  The callback of a timer that has fired waits for the
  lock of the state machine: it is an element of \<open>sspawned\<close>.  The messages given to the
  transport are logged in \<open>ssent\<close>.
\<close>

section \<open>Inputs, states, actions\<close>

datatype server_state =
    server_state_trying
  | server_state_proceeding
  | server_state_completed
  | server_state_confirmed
  | server_state_accepted
  | server_state_terminated

datatype server_input =
    server_input_request
  | server_input_ack
  | server_input_cancel
  | server_input_user_1xx
  | server_input_user_2xx
  | server_input_user_300_plus
  | server_input_timer_g
  | server_input_timer_h
  | server_input_timer_i
  | server_input_timer_j
  | server_input_timer_l
  | server_input_transport_err
  | server_input_delete

datatype server_action =
    S_NO_ACTION
  | S_act_respond
  | S_act_respond_complete
  | S_act_respond_accept
  | S_act_passup_ack
  | S_act_final
  | S_act_trans_err
  | S_act_timeout
  | S_act_delete
  | S_act_respond_delete
  | S_act_confirm
  | S_act_cancel

type_synonym server_fsm = "(server_state, server_input, server_action) fsm"

text \<open>A callback that waits: it spins the machine, or it is the one of timer 1xx, which responds with
  \<^verbatim>\<open>100 Trying\<close>.\<close>

datatype server_callback = CbSpin server_input | CbTrying

record serverTx =
  skey :: txkey
  sorigin :: request
  sfsm :: "server_fsm option"
  slastResp :: "response option"
  slastErr :: "bytes option"
  slastAck :: "request option"
  slastCancel :: "request option"
  sacks :: "request chan"
  scancels :: "request chan"
  serrs :: "tx_error chan"
  sdone :: bool
  scloseOnce :: bool
  timer_g :: "timer option"
  timer_g_time :: duration
  timer_h :: "timer option"
  timer_i :: "timer option"
  timer_i_time :: duration
  timer_j :: "timer option"
  timer_1xx :: "timer option"
  timer_l :: "timer option"
  sreliable :: bool
  sspawned :: "server_callback list"
  ssent :: "sip_msg list"

section \<open>Creation\<close>

definition NewServerTx :: "(bytes \<Rightarrow> bool) \<Rightarrow> request \<Rightarrow> (key_error, serverTx) res" where
  "NewServerTx isReliable origin =
     res_bind (MakeServerTxKey (hdrs origin)) (\<lambda>key.
       case request_Transport origin of
         Ok t \<Rightarrow>
           Ok \<lparr>skey = key, sorigin = origin, sfsm = None, slastResp = None, slastErr = None,
               slastAck = None, slastCancel = None, sacks = make_chan, scancels = make_chan,
               serrs = make_chan, sdone = False, scloseOnce = False, timer_g = None, timer_g_time = 0,
               timer_h = None, timer_i = None, timer_i_time = 0, timer_j = None, timer_1xx = None,
               timer_l = None, sreliable = isReliable t, sspawned = [], ssent = []\<rparr>
       | _ \<Rightarrow> Crash)"

section \<open>Helpers of the actions\<close>

text \<open>\<^verbatim>\<open>tx.tpl.Send\<close>, with the error it returns.\<close>

definition s_Send :: "env \<Rightarrow> sip_msg \<Rightarrow> serverTx \<Rightarrow> bytes option \<times> serverTx" where
  "s_Send E msg tx = (tpl_Send E msg, tx\<lparr>ssent := ssent tx @ [msg]\<rparr>)"

definition s_send_err :: "env \<Rightarrow> tx_error \<Rightarrow> serverTx \<Rightarrow> (unit, serverTx) go" where
  "s_send_err E err tx =
     (case select_send (sdone tx) (pick_done E) (serrs tx) err of
        Sent ch \<Rightarrow> Ret () (tx\<lparr>serrs := ch\<rparr>)
      | Skipped \<Rightarrow> Ret () tx
      | SendPanic \<Rightarrow> Panic tx
      | SendBlock \<Rightarrow> Block tx)"

definition s_transportErr :: "env \<Rightarrow> serverTx \<Rightarrow> (unit, serverTx) go" where
  "s_transportErr E tx = go_recover () (s_send_err E (TxTransportError (skey tx) (slastErr tx)) tx)"

definition s_timeoutErr :: "env \<Rightarrow> serverTx \<Rightarrow> (unit, serverTx) go" where
  "s_timeoutErr E tx = go_recover () (s_send_err E (TxTimeoutError (skey tx)) tx)"

text \<open>The closes of \<open>delete\<close>, run once; closing a closed channel panics.\<close>

definition s_close_all :: "serverTx \<Rightarrow> (unit, serverTx) go" where
  "s_close_all tx =
     (if scloseOnce tx then Ret () tx
      else let tx1 = tx\<lparr>scloseOnce := True\<rparr> in
        if sdone tx1 \<or> closed (sacks tx1) \<or> closed (scancels tx1) \<or> closed (serrs tx1) then Panic tx1
        else Ret () (tx1\<lparr>sdone := True, sacks := (sacks tx1)\<lparr>closed := True\<rparr>,
                         scancels := (scancels tx1)\<lparr>closed := True\<rparr>,
                         serrs := (serrs tx1)\<lparr>closed := True\<rparr>\<rparr>))"

definition s_delete :: "serverTx \<Rightarrow> (unit, serverTx) go" where
  "s_delete tx =
     (if sdone tx then Ret () tx
      else go_recover () (go_bind (s_close_all tx) (\<lambda>_ tx1.
        Ret () (tx1\<lparr>timer_i := None, timer_g := None, timer_h := None, timer_j := None, timer_1xx := None\<rparr>))))"

section \<open>Actions\<close>

text \<open>The part that the responding actions share: nothing to do without a response; otherwise send
  it, and continue unless sending fails.\<close>

definition s_respond_then ::
  "env \<Rightarrow> (serverTx \<Rightarrow> (server_input option, serverTx) go) \<Rightarrow> serverTx \<Rightarrow> (server_input option, serverTx) go" where
  "s_respond_then E k tx =
     (case slastResp tx of
        None \<Rightarrow> Ret None tx
      | Some res \<Rightarrow>
          let (err, tx1) = s_Send E (Res res) tx; tx2 = tx1\<lparr>slastErr := err\<rparr> in
          if err \<noteq> None then Ret (Some server_input_transport_err) tx2 else k tx2)"

definition s_act_respond :: "env \<Rightarrow> serverTx \<Rightarrow> (server_input option, serverTx) go" where
  "s_act_respond E tx = s_respond_then E (Ret None) tx"

definition s_restart_g :: "serverTx \<Rightarrow> serverTx" where
  "s_restart_g tx =
     (case timer_g tx of
        None \<Rightarrow> tx\<lparr>timer_g := Some (AfterFunc (timer_g_time tx))\<rparr>
      | Some t \<Rightarrow>
          let d = wrap64 (timer_g_time tx * 2); d' = (if T2 < d then T2 else d)
          in tx\<lparr>timer_g_time := d', timer_g := Some (timer_Reset d' t)\<rparr>)"

definition s_start_complete :: "serverTx \<Rightarrow> serverTx" where
  "s_start_complete tx =
     (let tx1 = (if \<not> sreliable tx then s_restart_g tx else tx) in
      case timer_h tx1 of
        None \<Rightarrow> tx1\<lparr>timer_h := Some (AfterFunc Timer_H)\<rparr>
      | Some _ \<Rightarrow> tx1)"

definition s_act_respond_complete :: "env \<Rightarrow> serverTx \<Rightarrow> (server_input option, serverTx) go" where
  "s_act_respond_complete E tx = s_respond_then E (\<lambda>tx1. Ret None (s_start_complete tx1)) tx"

definition s_act_respond_accept :: "env \<Rightarrow> serverTx \<Rightarrow> (server_input option, serverTx) go" where
  "s_act_respond_accept E tx =
     s_respond_then E (\<lambda>tx1. Ret None (tx1\<lparr>timer_l := Some (AfterFunc Timer_L)\<rparr>)) tx"

text \<open>Passing an ACK or a CANCEL to the user.\<close>

definition s_pass_ack :: "env \<Rightarrow> serverTx \<Rightarrow> (server_input option, serverTx) go" where
  "s_pass_ack E tx =
     (case slastAck tx of
        None \<Rightarrow> Ret None tx
      | Some ack \<Rightarrow>
          (case select_send (sdone tx) (pick_done E) (sacks tx) ack of
             Sent ch \<Rightarrow> Ret None (tx\<lparr>sacks := ch\<rparr>)
           | Skipped \<Rightarrow> Ret None tx
           | SendPanic \<Rightarrow> Panic tx
           | SendBlock \<Rightarrow> Block tx))"

definition s_act_passup_ack :: "env \<Rightarrow> serverTx \<Rightarrow> (server_input option, serverTx) go" where
  "s_act_passup_ack E tx = s_pass_ack E tx"

definition s_act_final :: "env \<Rightarrow> serverTx \<Rightarrow> (server_input option, serverTx) go" where
  "s_act_final E tx =
     s_respond_then E (\<lambda>tx1. Ret None (tx1\<lparr>timer_j := Some (AfterFunc Timer_J)\<rparr>)) tx"

definition s_act_trans_err :: "env \<Rightarrow> serverTx \<Rightarrow> (server_input option, serverTx) go" where
  "s_act_trans_err E tx = go_bind (s_transportErr E tx) (\<lambda>_ tx1. Ret (Some server_input_delete) tx1)"

definition s_act_timeout :: "env \<Rightarrow> serverTx \<Rightarrow> (server_input option, serverTx) go" where
  "s_act_timeout E tx = go_bind (s_timeoutErr E tx) (\<lambda>_ tx1. Ret (Some server_input_delete) tx1)"

definition s_act_delete :: "serverTx \<Rightarrow> (server_input option, serverTx) go" where
  "s_act_delete tx = go_bind (s_delete tx) (\<lambda>_ tx1. Ret None tx1)"

text \<open>No table uses this action; sending a response that is nil is left to the transport, which here
  means a panic.\<close>

definition s_act_respond_delete :: "env \<Rightarrow> serverTx \<Rightarrow> (server_input option, serverTx) go" where
  "s_act_respond_delete E tx =
     go_bind (s_delete tx) (\<lambda>_ tx1.
       case slastResp tx1 of
         None \<Rightarrow> Panic tx1
       | Some res \<Rightarrow>
           let (err, tx2) = s_Send E (Res res) tx1; tx3 = tx2\<lparr>slastErr := err\<rparr> in
           Ret (if err \<noteq> None then Some server_input_transport_err else None) tx3)"

text \<open>A panic that \<^verbatim>\<open>recover\<close> stops in these two actions makes them return the zero value of
  \<^verbatim>\<open>fsm.Input\<close>, which is \<open>server_input_request\<close>.\<close>

definition s_act_confirm :: "env \<Rightarrow> serverTx \<Rightarrow> (server_input option, serverTx) go" where
  "s_act_confirm E tx =
     go_recover (Some server_input_request)
       (s_pass_ack E (tx\<lparr>timer_g := None, timer_h := None, timer_i := Some (AfterFunc Timer_I)\<rparr>))"

definition s_act_cancel :: "env \<Rightarrow> serverTx \<Rightarrow> (server_input option, serverTx) go" where
  "s_act_cancel E tx =
     go_recover (Some server_input_request)
       (case slastCancel tx of
          None \<Rightarrow> Ret None tx
        | Some cancel \<Rightarrow>
            (case select_send (sdone tx) (pick_done E) (scancels tx) cancel of
               Sent ch \<Rightarrow> Ret None (tx\<lparr>scancels := ch\<rparr>)
             | Skipped \<Rightarrow> Ret None tx
             | SendPanic \<Rightarrow> Panic tx
             | SendBlock \<Rightarrow> Block tx))"

fun run_server :: "env \<Rightarrow> server_action \<Rightarrow> serverTx \<Rightarrow> (server_input option, serverTx) go" where
  "run_server E S_NO_ACTION tx = Ret None tx"
| "run_server E S_act_respond tx = s_act_respond E tx"
| "run_server E S_act_respond_complete tx = s_act_respond_complete E tx"
| "run_server E S_act_respond_accept tx = s_act_respond_accept E tx"
| "run_server E S_act_passup_ack tx = s_act_passup_ack E tx"
| "run_server E S_act_final tx = s_act_final E tx"
| "run_server E S_act_trans_err tx = s_act_trans_err E tx"
| "run_server E S_act_timeout tx = s_act_timeout E tx"
| "run_server E S_act_delete tx = s_act_delete tx"
| "run_server E S_act_respond_delete tx = s_act_respond_delete E tx"
| "run_server E S_act_confirm tx = s_act_confirm E tx"
| "run_server E S_act_cancel tx = s_act_cancel E tx"

section \<open>The state machines\<close>

type_synonym server_table = "(server_state, server_input, server_action) fsm_state list"

definition invite_server_states :: server_table where
  "invite_server_states =
     [\<lparr>Index = server_state_proceeding,
       Outcomes =
         [(server_input_request, server_state_proceeding, S_act_respond),
          (server_input_cancel, server_state_proceeding, S_act_cancel),
          (server_input_user_1xx, server_state_proceeding, S_act_respond),
          (server_input_user_2xx, server_state_accepted, S_act_respond_accept),
          (server_input_user_300_plus, server_state_completed, S_act_respond_complete),
          (server_input_transport_err, server_state_terminated, S_act_trans_err)]\<rparr>,
      \<lparr>Index = server_state_completed,
       Outcomes =
         [(server_input_request, server_state_completed, S_act_respond),
          (server_input_ack, server_state_confirmed, S_act_confirm),
          (server_input_cancel, server_state_completed, S_NO_ACTION),
          (server_input_user_1xx, server_state_completed, S_NO_ACTION),
          (server_input_user_2xx, server_state_completed, S_NO_ACTION),
          (server_input_user_300_plus, server_state_completed, S_NO_ACTION),
          (server_input_timer_g, server_state_completed, S_act_respond_complete),
          (server_input_timer_h, server_state_terminated, S_act_delete),
          (server_input_transport_err, server_state_terminated, S_act_trans_err)]\<rparr>,
      \<lparr>Index = server_state_confirmed,
       Outcomes =
         [(server_input_request, server_state_confirmed, S_NO_ACTION),
          (server_input_ack, server_state_confirmed, S_NO_ACTION),
          (server_input_cancel, server_state_confirmed, S_NO_ACTION),
          (server_input_user_1xx, server_state_confirmed, S_NO_ACTION),
          (server_input_user_2xx, server_state_confirmed, S_NO_ACTION),
          (server_input_user_300_plus, server_state_confirmed, S_NO_ACTION),
          (server_input_timer_i, server_state_terminated, S_act_delete),
          (server_input_timer_g, server_state_confirmed, S_NO_ACTION),
          (server_input_timer_h, server_state_confirmed, S_NO_ACTION)]\<rparr>,
      \<lparr>Index = server_state_accepted,
       Outcomes =
         [(server_input_request, server_state_accepted, S_NO_ACTION),
          (server_input_ack, server_state_accepted, S_act_passup_ack),
          (server_input_cancel, server_state_accepted, S_NO_ACTION),
          (server_input_user_1xx, server_state_accepted, S_NO_ACTION),
          (server_input_user_2xx, server_state_accepted, S_act_respond),
          (server_input_user_300_plus, server_state_accepted, S_NO_ACTION),
          (server_input_transport_err, server_state_accepted, S_NO_ACTION),
          (server_input_timer_l, server_state_terminated, S_act_delete)]\<rparr>,
      \<lparr>Index = server_state_terminated,
       Outcomes =
         [(server_input_request, server_state_terminated, S_NO_ACTION),
          (server_input_ack, server_state_terminated, S_NO_ACTION),
          (server_input_cancel, server_state_terminated, S_NO_ACTION),
          (server_input_user_1xx, server_state_terminated, S_NO_ACTION),
          (server_input_user_2xx, server_state_terminated, S_NO_ACTION),
          (server_input_user_300_plus, server_state_terminated, S_NO_ACTION),
          (server_input_delete, server_state_terminated, S_act_delete),
          (server_input_timer_i, server_state_terminated, S_NO_ACTION),
          (server_input_timer_l, server_state_terminated, S_NO_ACTION)]\<rparr>]"

definition non_invite_server_states :: server_table where
  "non_invite_server_states =
     [\<lparr>Index = server_state_trying,
       Outcomes =
         [(server_input_request, server_state_trying, S_NO_ACTION),
          (server_input_cancel, server_state_trying, S_NO_ACTION),
          (server_input_user_1xx, server_state_proceeding, S_act_respond),
          (server_input_user_2xx, server_state_completed, S_act_final),
          (server_input_user_300_plus, server_state_completed, S_act_final),
          (server_input_transport_err, server_state_terminated, S_act_trans_err)]\<rparr>,
      \<lparr>Index = server_state_proceeding,
       Outcomes =
         [(server_input_request, server_state_proceeding, S_act_respond),
          (server_input_cancel, server_state_proceeding, S_NO_ACTION),
          (server_input_user_1xx, server_state_proceeding, S_act_respond),
          (server_input_user_2xx, server_state_completed, S_act_final),
          (server_input_user_300_plus, server_state_completed, S_act_final),
          (server_input_transport_err, server_state_terminated, S_act_trans_err)]\<rparr>,
      \<lparr>Index = server_state_completed,
       Outcomes =
         [(server_input_request, server_state_completed, S_act_respond),
          (server_input_cancel, server_state_completed, S_NO_ACTION),
          (server_input_user_1xx, server_state_completed, S_NO_ACTION),
          (server_input_user_2xx, server_state_completed, S_NO_ACTION),
          (server_input_user_300_plus, server_state_completed, S_NO_ACTION),
          (server_input_timer_j, server_state_terminated, S_act_delete),
          (server_input_transport_err, server_state_terminated, S_act_trans_err)]\<rparr>,
      \<lparr>Index = server_state_terminated,
       Outcomes =
         [(server_input_request, server_state_terminated, S_NO_ACTION),
          (server_input_cancel, server_state_terminated, S_NO_ACTION),
          (server_input_user_1xx, server_state_terminated, S_NO_ACTION),
          (server_input_user_2xx, server_state_terminated, S_NO_ACTION),
          (server_input_user_300_plus, server_state_terminated, S_NO_ACTION),
          (server_input_timer_j, server_state_terminated, S_NO_ACTION),
          (server_input_delete, server_state_terminated, S_act_delete)]\<rparr>]"

text \<open>\<open>initFSM\<close>: when \<^verbatim>\<open>Define\<close> fails, the error is logged and the machine stays nil.\<close>

type_synonym server_define = "server_table \<Rightarrow> server_fsm option"

definition s_initInviteFSM :: "server_define \<Rightarrow> serverTx \<Rightarrow> serverTx" where
  "s_initInviteFSM define_fsm tx =
     (case define_fsm invite_server_states of
        None \<Rightarrow> tx
      | Some f \<Rightarrow> tx\<lparr>sfsm := Some f\<rparr>)"

definition s_initNonInviteFSM :: "server_define \<Rightarrow> serverTx \<Rightarrow> serverTx" where
  "s_initNonInviteFSM define_fsm tx =
     (case define_fsm non_invite_server_states of
        None \<Rightarrow> tx
      | Some f \<Rightarrow> tx\<lparr>sfsm := Some f\<rparr>)"

definition s_initFSM :: "server_define \<Rightarrow> serverTx \<Rightarrow> serverTx" where
  "s_initFSM define_fsm tx =
     (if IsInvite (sorigin tx) then s_initInviteFSM define_fsm tx else s_initNonInviteFSM define_fsm tx)"

section \<open>Operations\<close>

type_synonym server_spin =
  "(server_action \<Rightarrow> serverTx \<Rightarrow> (server_input option, serverTx) go) \<Rightarrow> server_fsm \<Rightarrow> serverTx \<Rightarrow>
   server_input \<Rightarrow> ((server_state, server_input) spin_error option \<times> server_fsm, serverTx) go"

type_synonym server_error = "(server_state, server_input) op_error"

text \<open>\<^verbatim>\<open>tx.fsm.Spin(input)\<close>; the machine may be nil.\<close>

definition s_Spin :: "server_spin \<Rightarrow> env \<Rightarrow> server_input \<Rightarrow> serverTx \<Rightarrow> (server_error option, serverTx) go" where
  "s_Spin spin E i tx =
     (case sfsm tx of
        None \<Rightarrow> Panic tx
      | Some f \<Rightarrow>
          go_bind (spin (run_server E) f tx i)
            (\<lambda>(e, f') tx'. Ret (map_option InvalidInput e) (tx'\<lparr>sfsm := Some f'\<rparr>)))"

definition s_Init :: "server_define \<Rightarrow> serverTx \<Rightarrow> serverTx" where
  "s_Init define_fsm tx =
     (let tx1 = s_initFSM define_fsm tx;
          tx2 = (if sreliable tx1 then tx1\<lparr>timer_i_time := 0\<rparr>
                 else tx1\<lparr>timer_g_time := Timer_G, timer_i_time := Timer_I\<rparr>)
      in if IsInvite (sorigin tx2) then tx2\<lparr>timer_1xx := Some (AfterFunc Timer_1xx)\<rparr> else tx2)"

text \<open>The error for a message that is not a request is built with \<^verbatim>\<open>req.String()\<close> on the nil
  interface that the failed type assertion left in \<^verbatim>\<open>req\<close>.\<close>

definition s_Receive :: "server_spin \<Rightarrow> env \<Rightarrow> sip_msg \<Rightarrow> serverTx \<Rightarrow> (server_error option, serverTx) go" where
  "s_Receive spin E msg tx =
     (case msg of
        Res _ \<Rightarrow> Panic tx
      | Req req \<Rightarrow>
          let tx1 = tx\<lparr>timer_1xx := None\<rparr> in
          if rmethod req = rmethod (sorigin tx1) then s_Spin spin E server_input_request tx1
          else if request_IsAck req then s_Spin spin E server_input_ack (tx1\<lparr>slastAck := Some req\<rparr>)
          else if request_IsCancel req then s_Spin spin E server_input_cancel (tx1\<lparr>slastCancel := Some req\<rparr>)
          else Ret (Some UnexpectedMessage) tx1)"

definition user_input :: "response \<Rightarrow> server_input" where
  "user_input res =
     (if IsProvisional res then server_input_user_1xx
      else if IsSuccess res then server_input_user_2xx
      else server_input_user_300_plus)"

definition s_Respond :: "server_spin \<Rightarrow> env \<Rightarrow> response \<Rightarrow> serverTx \<Rightarrow> (server_error option, serverTx) go" where
  "s_Respond spin E res tx =
     (if response_IsCancel res then Ret None (snd (s_Send E (Res res) tx))
      else s_Spin spin E (user_input res) (tx\<lparr>slastResp := Some res, timer_1xx := None\<rparr>))"

definition s_Terminate :: "serverTx \<Rightarrow> (unit, serverTx) go" where
  "s_Terminate tx = (if sdone tx then Ret () tx else s_delete tx)"

text \<open>The callback of timer 1xx.\<close>

definition s_trying :: "server_spin \<Rightarrow> env \<Rightarrow> serverTx \<Rightarrow> (server_error option, serverTx) go" where
  "s_trying spin E tx =
     (case NewResponseFromRequest (fresh_id E) [] (sorigin tx) 100 ''Trying'' [] of
        Ok res \<Rightarrow> s_Respond spin E res tx
      | _ \<Rightarrow> Panic tx)"

text \<open>A timer fires: its callback first looks at \<open>done\<close>, then waits.\<close>

datatype server_timer = STimer_G | STimer_H | STimer_I | STimer_J | STimer_1xx | STimer_L

fun server_callback_of :: "server_timer \<Rightarrow> server_callback" where
  "server_callback_of STimer_G = CbSpin server_input_timer_g"
| "server_callback_of STimer_H = CbSpin server_input_timer_h"
| "server_callback_of STimer_I = CbSpin server_input_timer_i"
| "server_callback_of STimer_J = CbSpin server_input_timer_j"
| "server_callback_of STimer_1xx = CbTrying"
| "server_callback_of STimer_L = CbSpin server_input_timer_l"

fun server_timer_field :: "server_timer \<Rightarrow> serverTx \<Rightarrow> timer option" where
  "server_timer_field STimer_G tx = timer_g tx"
| "server_timer_field STimer_H tx = timer_h tx"
| "server_timer_field STimer_I tx = timer_i tx"
| "server_timer_field STimer_J tx = timer_j tx"
| "server_timer_field STimer_1xx tx = timer_1xx tx"
| "server_timer_field STimer_L tx = timer_l tx"

fun server_timer_disarm :: "server_timer \<Rightarrow> serverTx \<Rightarrow> serverTx" where
  "server_timer_disarm STimer_G tx = tx\<lparr>timer_g := disarm (timer_g tx)\<rparr>"
| "server_timer_disarm STimer_H tx = tx\<lparr>timer_h := disarm (timer_h tx)\<rparr>"
| "server_timer_disarm STimer_I tx = tx\<lparr>timer_i := disarm (timer_i tx)\<rparr>"
| "server_timer_disarm STimer_J tx = tx\<lparr>timer_j := disarm (timer_j tx)\<rparr>"
| "server_timer_disarm STimer_1xx tx = tx\<lparr>timer_1xx := disarm (timer_1xx tx)\<rparr>"
| "server_timer_disarm STimer_L tx = tx\<lparr>timer_l := disarm (timer_l tx)\<rparr>"

definition s_fire :: "server_timer \<Rightarrow> serverTx \<Rightarrow> serverTx" where
  "s_fire t tx =
     (let tx1 = server_timer_disarm t tx in
      if sdone tx1 then tx1 else tx1\<lparr>sspawned := sspawned tx1 @ [server_callback_of t]\<rparr>)"

definition s_run_callback ::
  "server_spin \<Rightarrow> env \<Rightarrow> server_callback \<Rightarrow> serverTx \<Rightarrow> (server_error option, serverTx) go" where
  "s_run_callback spin E cb tx =
     (let tx1 = tx\<lparr>sspawned := remove1 cb (sspawned tx)\<rparr> in
      case cb of CbSpin i \<Rightarrow> s_Spin spin E i tx1 | CbTrying \<Rightarrow> s_trying spin E tx1)"

section \<open>Interleaving\<close>

text \<open>
  The operations of a transaction after \<open>Init\<close>, in any order in which goroutines can run them.
  As for client transactions, one event is one operation; the user may take an ACK, a CANCEL or an
  error whenever there is one.
\<close>

datatype server_event =
    SReceive sip_msg
  | SRespond response
  | STerminate
  | SFire server_timer
  | SRun server_callback
  | STakeAck
  | STakeCancel
  | STakeError

fun drop_value :: "('a, 's) go \<Rightarrow> (unit, 's) go" where
  "drop_value (Ret _ s) = Ret () s"
| "drop_value (Panic s) = Panic s"
| "drop_value (Block s) = Block s"
| "drop_value Diverge = Diverge"

fun server_enabled :: "server_event \<Rightarrow> serverTx \<Rightarrow> bool" where
  "server_enabled (SFire t) tx \<longleftrightarrow> is_armed (server_timer_field t tx)"
| "server_enabled (SRun cb) tx \<longleftrightarrow> cb \<in> set (sspawned tx)"
| "server_enabled STakeAck tx \<longleftrightarrow> buf (sacks tx) \<noteq> []"
| "server_enabled STakeCancel tx \<longleftrightarrow> buf (scancels tx) \<noteq> []"
| "server_enabled STakeError tx \<longleftrightarrow> buf (serrs tx) \<noteq> []"
| "server_enabled _ tx \<longleftrightarrow> True"

fun server_exec :: "server_spin \<Rightarrow> env \<Rightarrow> server_event \<Rightarrow> serverTx \<Rightarrow> (unit, serverTx) go" where
  "server_exec spin E (SReceive msg) tx = drop_value (s_Receive spin E msg tx)"
| "server_exec spin E (SRespond res) tx = drop_value (s_Respond spin E res tx)"
| "server_exec spin E STerminate tx = s_Terminate tx"
| "server_exec spin E (SFire t) tx = Ret () (s_fire t tx)"
| "server_exec spin E (SRun cb) tx = drop_value (s_run_callback spin E cb tx)"
| "server_exec spin E STakeAck tx = Ret () (tx\<lparr>sacks := (sacks tx)\<lparr>buf := tl (buf (sacks tx))\<rparr>\<rparr>)"
| "server_exec spin E STakeCancel tx = Ret () (tx\<lparr>scancels := (scancels tx)\<lparr>buf := tl (buf (scancels tx))\<rparr>\<rparr>)"
| "server_exec spin E STakeError tx = Ret () (tx\<lparr>serrs := (serrs tx)\<lparr>buf := tl (buf (serrs tx))\<rparr>\<rparr>)"

text \<open>A run: the events, each with its environment, executed one after the other.\<close>

fun server_run :: "server_spin \<Rightarrow> (env \<times> server_event) list \<Rightarrow> serverTx \<Rightarrow> (unit, serverTx) go option" where
  "server_run spin [] tx = Some (Ret () tx)"
| "server_run spin ((E, ev) # evs) tx =
     (if server_enabled ev tx then
        (case server_exec spin E ev tx of
           Ret _ tx' \<Rightarrow> server_run spin evs tx'
         | r \<Rightarrow> Some r)
      else None)"

inductive server_reach ::
  "server_define \<Rightarrow> server_spin \<Rightarrow> (server_event \<Rightarrow> bool) \<Rightarrow> serverTx \<Rightarrow> serverTx \<Rightarrow> bool"
  for define_fsm :: server_define and spin :: server_spin and P :: "server_event \<Rightarrow> bool" and tx0 :: serverTx
where
  sreach_init: "server_reach define_fsm spin P tx0 (s_Init define_fsm tx0)"
| sreach_step: "server_reach define_fsm spin P tx0 tx \<Longrightarrow> P ev \<Longrightarrow> server_enabled ev tx \<Longrightarrow>
    server_exec spin E ev tx = Ret () tx' \<Longrightarrow> server_reach define_fsm spin P tx0 tx'"

end
