(* ===== verification/TxLayer.thy ===== *)
theory TxLayer
  imports ClientTx ServerTx
begin

text \<open>
  The transaction layer (\<^verbatim>\<open>transaction/layer.go\<close>): the store of transactions by key, the matching of
  messages to transactions, \<open>Request\<close>, \<open>Respond\<close>, the handling of incoming messages, and the
  goroutines that serve a transaction until it is done.  Transactions are objects: \<open>tl_heap\<close> holds them,
  and a pointer to one is its position.  The channels of the layer have no buffer; what the layer has handed
  over on them is logged in \<open>tl_requests\<close>, \<open>tl_acks\<close> and \<open>tl_responses\<close>.  A client
  request is sent before its transaction is in the store, so \<open>Request\<close> has three parts.
\<close>

section \<open>State\<close>

datatype tx = ClientT clientTx | ServerT serverTx

fun tx_Key :: "tx \<Rightarrow> txkey" where
  "tx_Key (ClientT t) = ckey t"
| "tx_Key (ServerT t) = skey t"

fun tx_done :: "tx \<Rightarrow> bool" where
  "tx_done (ClientT t) = cdone t"
| "tx_done (ServerT t) = sdone t"

record tx_layer =
  tl_heap :: "tx list"
  tl_store :: "(txkey \<times> nat) list"
  tl_requests :: "nat list"
  tl_acks :: "request list"
  tl_responses :: "response list"
  tl_sent :: "sip_msg list"
  tl_pending :: "nat list"
  tl_serveTxCh :: "nat list"
  tl_serving :: "nat list"
  tl_canceled :: bool
  tl_done :: bool

definition NewLayer :: tx_layer where
  "NewLayer = \<lparr>tl_heap = [], tl_store = [], tl_requests = [], tl_acks = [], tl_responses = [], tl_sent = [],
     tl_pending = [], tl_serveTxCh = [], tl_serving = [], tl_canceled = False, tl_done = False\<rparr>"

text \<open>The functions of the state machine library, the transport's \<open>IsReliable\<close>, and the
  environment of the operations of a transaction.\<close>

record layer_env =
  le_cdefine :: client_define
  le_cspin :: client_spin
  le_sdefine :: server_define
  le_sspin :: server_spin
  le_reliable :: "bytes \<Rightarrow> bool"
  le_env :: env

section \<open>The store\<close>

definition store_put :: "txkey \<Rightarrow> nat \<Rightarrow> (txkey \<times> nat) list \<Rightarrow> (txkey \<times> nat) list" where
  "store_put key p store = AList.update key p store"

definition store_get :: "txkey \<Rightarrow> (txkey \<times> nat) list \<Rightarrow> nat option" where
  "store_get key store = map_of store key"

definition store_drop :: "txkey \<Rightarrow> (txkey \<times> nat) list \<Rightarrow> bool \<times> (txkey \<times> nat) list" where
  "store_drop key store =
     (case store_get key store of
        None \<Rightarrow> (False, store)
      | Some _ \<Rightarrow> (True, AList.delete key store))"

definition store_all :: "(txkey \<times> nat) list \<Rightarrow> nat list" where
  "store_all store = map snd store"

section \<open>Objects\<close>

definition tl_obj :: "tx_layer \<Rightarrow> nat \<Rightarrow> tx option" where
  "tl_obj L p = (if p < length (tl_heap L) then Some (tl_heap L ! p) else None)"

definition tl_set :: "nat \<Rightarrow> tx \<Rightarrow> tx_layer \<Rightarrow> tx_layer" where
  "tl_set p x L = L\<lparr>tl_heap := (tl_heap L)[p := x]\<rparr>"

definition tl_new :: "tx \<Rightarrow> tx_layer \<Rightarrow> nat \<times> tx_layer" where
  "tl_new x L = (length (tl_heap L), L\<lparr>tl_heap := tl_heap L @ [x]\<rparr>)"

text \<open>A call of a method of a transaction: the object changes, and the call ends the way the method does.\<close>

fun go_map :: "('s \<Rightarrow> 't) \<Rightarrow> ('a, 's) go \<Rightarrow> ('a, 't) go" where
  "go_map f (Ret a s) = Ret a (f s)"
| "go_map f (Panic s) = Panic (f s)"
| "go_map f (Block s) = Block (f s)"
| "go_map f Diverge = Diverge"

definition call_server :: "nat \<Rightarrow> (serverTx \<Rightarrow> ('a, serverTx) go) \<Rightarrow> tx_layer \<Rightarrow> ('a, tx_layer) go" where
  "call_server p f L =
     (case tl_obj L p of
        Some (ServerT t) \<Rightarrow> go_map (\<lambda>t'. tl_set p (ServerT t') L) (f t)
      | _ \<Rightarrow> Panic L)"

definition call_client :: "nat \<Rightarrow> (clientTx \<Rightarrow> ('a, clientTx) go) \<Rightarrow> tx_layer \<Rightarrow> ('a, tx_layer) go" where
  "call_client p f L =
     (case tl_obj L p of
        Some (ClientT t) \<Rightarrow> go_map (\<lambda>t'. tl_set p (ClientT t') L) (f t)
      | _ \<Rightarrow> Panic L)"

section \<open>Matching\<close>

datatype match_error = KeyError key_error | TxNotFound txkey | WrongTx nat

definition getClientTx :: "tx_layer \<Rightarrow> headers \<Rightarrow> (match_error, nat) res" where
  "getClientTx L hs =
     (case MakeClientTxKey hs of
        Crash \<Rightarrow> Crash
      | Err e \<Rightarrow> Err (KeyError e)
      | Ok key \<Rightarrow>
          (case store_get key (tl_store L) of
             None \<Rightarrow> Err (TxNotFound key)
           | Some p \<Rightarrow> (case tl_obj L p of Some (ClientT _) \<Rightarrow> Ok p | _ \<Rightarrow> Err (WrongTx p))))"

definition getServerTx :: "tx_layer \<Rightarrow> headers \<Rightarrow> (match_error, nat) res" where
  "getServerTx L hs =
     (case MakeServerTxKey hs of
        Crash \<Rightarrow> Crash
      | Err e \<Rightarrow> Err (KeyError e)
      | Ok key \<Rightarrow>
          (case store_get key (tl_store L) of
             None \<Rightarrow> Err (TxNotFound key)
           | Some p \<Rightarrow> (case tl_obj L p of Some (ServerT _) \<Rightarrow> Ok p | _ \<Rightarrow> Err (WrongTx p))))"

section \<open>Operations\<close>

datatype layer_error =
    LayerCanceled
  | AckRequest
  | NewTxError key_error
  | InitError client_error
  | MatchError match_error
  | RespondError server_error

text \<open>\<open>Request\<close> up to the store: a new transaction, initialised, which sends the request.\<close>

definition l_Request_send :: "layer_env \<Rightarrow> request \<Rightarrow> tx_layer \<Rightarrow> (layer_error + nat, tx_layer) go" where
  "l_Request_send F req L =
     (if tl_canceled L then Ret (Inl LayerCanceled) L
      else if request_IsAck req then Ret (Inl AckRequest) L
      else case NewClientTx (fresh_branch (le_env F)) (le_reliable F) req of
        Crash \<Rightarrow> Panic L
      | Err e \<Rightarrow> Ret (Inl (NewTxError e)) L
      | Ok t \<Rightarrow>
          let (p, L1) = tl_new (ClientT t) L in
          go_bind (call_client p (c_Init (le_cdefine F) (le_cspin F) (le_env F)) L1) (\<lambda>e L2.
            case e of
              Some err \<Rightarrow> Ret (Inl (InitError err)) L2
            | None \<Rightarrow> Ret (Inr p) (L2\<lparr>tl_pending := p # tl_pending L2\<rparr>)))"

text \<open>The rest of \<open>Request\<close>: the transaction goes into the store and to the goroutine that
  listens, unless the layer has been canceled.\<close>

definition l_Request_put :: "nat \<Rightarrow> tx_layer \<Rightarrow> layer_error option \<times> tx_layer" where
  "l_Request_put p L =
     (case tl_obj L p of
        None \<Rightarrow> (None, L)
      | Some x \<Rightarrow>
          let L1 = L\<lparr>tl_pending := remove1 p (tl_pending L), tl_store := store_put (tx_Key x) p (tl_store L)\<rparr> in
          if tl_canceled L1 then (Some LayerCanceled, L1)
          else (None, L1\<lparr>tl_serveTxCh := tl_serveTxCh L1 @ [p]\<rparr>))"

definition l_Respond :: "layer_env \<Rightarrow> response \<Rightarrow> tx_layer \<Rightarrow> (layer_error + nat, tx_layer) go" where
  "l_Respond F res L =
     (if tl_canceled L then Ret (Inl LayerCanceled) L
      else case getServerTx L (hdrs res) of
        Crash \<Rightarrow> Panic L
      | Err e \<Rightarrow> Ret (Inl (MatchError e)) L
      | Ok p \<Rightarrow>
          go_bind (call_server p (s_Respond (le_sspin F) (le_env F) res) L) (\<lambda>e L1.
            case e of Some err \<Rightarrow> Ret (Inl (RespondError err)) L1 | None \<Rightarrow> Ret (Inr p) L1))"

text \<open>The end of \<open>handleRequest\<close> for a request that starts a transaction.\<close>

definition newServer :: "layer_env \<Rightarrow> request \<Rightarrow> tx_layer \<Rightarrow> (unit, tx_layer) go" where
  "newServer F req L =
     (case NewServerTx (le_reliable F) req of
        Crash \<Rightarrow> Panic L
      | Err _ \<Rightarrow> Ret () L
      | Ok t \<Rightarrow>
          let (p, L1) = tl_new (ServerT (s_Init (le_sdefine F) t)) L in
          Ret () (L1\<lparr>tl_store := store_put (skey t) p (tl_store L1), tl_serving := tl_serving L1 @ [p],
                     tl_requests := tl_requests L1 @ [p]\<rparr>))"

definition handleRequest :: "layer_env \<Rightarrow> request \<Rightarrow> tx_layer \<Rightarrow> (unit, tx_layer) go" where
  "handleRequest F req L =
     (if tl_canceled L then Ret () L
      else case getServerTx L (hdrs req) of
        Crash \<Rightarrow> Panic L
      | Ok p \<Rightarrow> go_bind (call_server p (s_Receive (le_sspin F) (le_env F) (Req req)) L) (\<lambda>_ L1. Ret () L1)
      | Err _ \<Rightarrow>
          if request_IsAck req then Ret () (L\<lparr>tl_acks := tl_acks L @ [req]\<rparr>)
          else if request_IsCancel req then
            (case NewResponseFromRequest (fresh_id (le_env F)) [] req 481 ''Transaction Does Not Exist'' [] of
               Ok res \<Rightarrow> Ret () (L\<lparr>tl_sent := tl_sent L @ [Res res]\<rparr>)
             | _ \<Rightarrow> Panic L)
          else newServer F req L)"

definition handleResponse :: "layer_env \<Rightarrow> response \<Rightarrow> tx_layer \<Rightarrow> (unit, tx_layer) go" where
  "handleResponse F res L =
     (if tl_canceled L then Ret () L
      else case getClientTx L (hdrs res) of
        Crash \<Rightarrow> Panic L
      | Err _ \<Rightarrow> Ret () (L\<lparr>tl_responses := tl_responses L @ [res]\<rparr>)
      | Ok p \<Rightarrow> go_bind (call_client p (c_Receive (le_cspin F) (le_env F) (Res res)) L) (\<lambda>_ L1. Ret () L1))"

definition handleMessage :: "layer_env \<Rightarrow> sip_msg \<Rightarrow> tx_layer \<Rightarrow> (unit, tx_layer) go" where
  "handleMessage F msg L =
     (if tl_canceled L then Ret () L
      else case msg of Req req \<Rightarrow> handleRequest F req L | Res res \<Rightarrow> handleResponse F res L)"

definition l_Cancel :: "tx_layer \<Rightarrow> tx_layer" where
  "l_Cancel L = (if tl_canceled L then L else L\<lparr>tl_canceled := True\<rparr>)"

text \<open>\<open>handleMessage\<close> of a layer that is canceled while the handler waits to hand something up: the
  \<open>select\<close> takes the branch of the cancellation, and what was to be handed up is lost.  A new server
  transaction is in the store and served by then.\<close>

definition handleMessage_canceled :: "layer_env \<Rightarrow> sip_msg \<Rightarrow> tx_layer \<Rightarrow> (unit, tx_layer) go" where
  "handleMessage_canceled F msg L =
     go_bind (handleMessage F msg L) (\<lambda>_ L1.
       Ret () (l_Cancel (L1\<lparr>tl_requests := tl_requests L, tl_acks := tl_acks L, tl_responses := tl_responses L\<rparr>)))"

section \<open>Goroutines\<close>

text \<open>\<open>listenMessages\<close> takes a transaction from \<open>serveTxCh\<close> and starts to serve it.\<close>

definition l_serve :: "tx_layer \<Rightarrow> tx_layer" where
  "l_serve L =
     (case tl_serveTxCh L of
        [] \<Rightarrow> L
      | p # ps \<Rightarrow> L\<lparr>tl_serveTxCh := ps, tl_serving := tl_serving L @ [p]\<rparr>)"

text \<open>The end of \<open>serveTransaction\<close>: the transaction is done, or the layer has been canceled and
  the transaction is terminated; its key is dropped.\<close>

definition tx_Terminate :: "nat \<Rightarrow> tx_layer \<Rightarrow> (unit, tx_layer) go" where
  "tx_Terminate p L =
     (case tl_obj L p of
        Some (ClientT _) \<Rightarrow> call_client p c_Terminate L
      | Some (ServerT _) \<Rightarrow> call_server p s_Terminate L
      | None \<Rightarrow> Panic L)"

definition serve_end :: "nat \<Rightarrow> tx_layer \<Rightarrow> tx_layer" where
  "serve_end p L =
     (case tl_obj L p of
        None \<Rightarrow> L
      | Some x \<Rightarrow> L\<lparr>tl_store := snd (store_drop (tx_Key x) (tl_store L)), tl_serving := remove1 p (tl_serving L)\<rparr>)"

definition serveTransaction :: "bool \<Rightarrow> nat \<Rightarrow> tx_layer \<Rightarrow> (unit, tx_layer) go" where
  "serveTransaction cancel p L =
     (if cancel then go_bind (tx_Terminate p L) (\<lambda>_ L1. Ret () (serve_end p L1)) else Ret () (serve_end p L))"

text \<open>When \<open>listenMessages\<close> has stopped and no transaction is served, the channels are closed.\<close>

definition l_close :: "tx_layer \<Rightarrow> tx_layer" where
  "l_close L = L\<lparr>tl_done := True\<rparr>"

section \<open>Interleaving\<close>

text \<open>What a transaction does on its own: an event of the models of client and server transactions.\<close>

datatype layer_event =
    LRequestSend request
  | LRequestPut nat
  | LRespond response
  | LMessage sip_msg
  | LMessageCanceled sip_msg
  | LServe
  | LServeEnd bool nat
  | LCancel
  | LClose
  | LClientEvent nat client_event
  | LServerEvent nat server_event

fun own_client_event :: "client_event \<Rightarrow> bool" where
  "own_client_event (EvFire _) = True"
| "own_client_event (EvRun _) = True"
| "own_client_event EvCancel = True"
| "own_client_event EvTerminate = True"
| "own_client_event EvTakeResponse = True"
| "own_client_event EvTakeError = True"
| "own_client_event _ = False"

fun own_server_event :: "server_event \<Rightarrow> bool" where
  "own_server_event (SReceive _) = False"
| "own_server_event _ = True"

fun run_client_event :: "layer_env \<Rightarrow> client_event \<Rightarrow> clientTx \<Rightarrow> (unit, clientTx) go" where
  "run_client_event F (EvFire t) x = Ret () (c_fire t x)"
| "run_client_event F (EvRun i) x = drop_value (c_run_spawned (le_cspin F) (le_env F) i x)"
| "run_client_event F EvCancel x = drop_value (c_Cancel (le_cspin F) (le_env F) x)"
| "run_client_event F EvTerminate x = c_Terminate x"
| "run_client_event F EvTakeResponse x = Ret () (c_take_response x)"
| "run_client_event F EvTakeError x = Ret () (c_take_error x)"
| "run_client_event F _ x = Ret () x"

fun layer_enabled :: "layer_event \<Rightarrow> tx_layer \<Rightarrow> bool" where
  "layer_enabled (LRequestPut p) L \<longleftrightarrow> p \<in> set (tl_pending L)"
| "layer_enabled (LMessage _) L \<longleftrightarrow> \<not> tl_done L"
| "layer_enabled (LMessageCanceled _) L \<longleftrightarrow> \<not> tl_done L"
| "layer_enabled LServe L \<longleftrightarrow> tl_serveTxCh L \<noteq> [] \<and> \<not> tl_canceled L"
| "layer_enabled (LServeEnd cancel p) L \<longleftrightarrow> p \<in> set (tl_serving L) \<and>
     (if cancel then tl_canceled L else (case tl_obj L p of Some x \<Rightarrow> tx_done x | None \<Rightarrow> False))"
| "layer_enabled LClose L \<longleftrightarrow> tl_canceled L \<and> tl_serving L = [] \<and> \<not> tl_done L"
| "layer_enabled (LClientEvent p ev) L \<longleftrightarrow> own_client_event ev \<and>
     (case tl_obj L p of Some (ClientT t) \<Rightarrow> client_enabled ev (Running, t) | _ \<Rightarrow> False)"
| "layer_enabled (LServerEvent p ev) L \<longleftrightarrow> own_server_event ev \<and>
     (case tl_obj L p of Some (ServerT t) \<Rightarrow> server_enabled ev t | _ \<Rightarrow> False)"
| "layer_enabled _ L \<longleftrightarrow> True"

fun layer_exec :: "layer_env \<Rightarrow> layer_event \<Rightarrow> tx_layer \<Rightarrow> (unit, tx_layer) go" where
  "layer_exec F (LRequestSend req) L = drop_value (l_Request_send F req L)"
| "layer_exec F (LRequestPut p) L = Ret () (snd (l_Request_put p L))"
| "layer_exec F (LRespond res) L = drop_value (l_Respond F res L)"
| "layer_exec F (LMessage msg) L = handleMessage F msg L"
| "layer_exec F (LMessageCanceled msg) L = handleMessage_canceled F msg L"
| "layer_exec F LServe L = Ret () (l_serve L)"
| "layer_exec F (LServeEnd cancel p) L = serveTransaction cancel p L"
| "layer_exec F LCancel L = Ret () (l_Cancel L)"
| "layer_exec F LClose L = Ret () (l_close L)"
| "layer_exec F (LClientEvent p ev) L = call_client p (run_client_event F ev) L"
| "layer_exec F (LServerEvent p ev) L = call_server p (server_exec (le_sspin F) (le_env F) ev) L"

fun layer_run :: "(layer_env \<times> layer_event) list \<Rightarrow> tx_layer \<Rightarrow> (unit, tx_layer) go option" where
  "layer_run [] L = Some (Ret () L)"
| "layer_run ((F, ev) # evs) L =
     (if layer_enabled ev L then
        (case layer_exec F ev L of
           Ret _ L' \<Rightarrow> layer_run evs L'
         | r \<Rightarrow> Some r)
      else None)"

end
