(* ===== verification/ClientSafety.thy ===== *)
theory ClientSafety
  imports ClientTx
begin

text \<open>
  Safety of client transactions.  First, a call of \<open>Spin\<close> on one of the two client machines
  makes at most two turns.  Then an invariant of the INVITE transaction in every interleaving
  without \<open>Terminate\<close>, from which it follows that no operation panics, and that a timer or
  a waiting callback will end every state that must not last.
\<close>

section \<open>Turns of the machines\<close>

text \<open>The input that an action returns.\<close>

fun act_next :: "client_action \<Rightarrow> client_input option" where
  "act_next C_act_trans_err = Some client_input_delete"
| "act_next C_act_timeout = Some client_input_delete"
| "act_next C_act_passup_delete = Some client_input_delete"
| "act_next _ = None"

lemmas client_act_defs = c_act_invite_resend_def c_act_non_invite_resend_def c_act_passup_def
  c_act_invite_proceeding_def c_act_invite_final_def c_act_non_invite_final_def c_act_cancel_def
  c_act_cancel_timeout_def c_act_ack_def c_act_trans_err_def c_act_timeout_def
  c_act_passup_delete_def c_act_passup_accept_def c_act_delete_def

lemma run_client_next: "run_client E act tx = Ret r t \<Longrightarrow> r = act_next act"
  by (cases act) (auto simp: client_act_defs go_bind_Ret_iff Let_def)

lemma client_helpers_end [simp]:
  "c_passUp E tx \<noteq> Diverge" "c_resend E tx \<noteq> Diverge" "c_send_err E e tx \<noteq> Diverge"
  "c_cancel E tx \<noteq> Diverge" "c_ack E tx \<noteq> Diverge" "c_reset_a tx \<noteq> Diverge"
  "c_close_all tx \<noteq> Diverge"
  by (auto simp: c_passUp_def c_resend_def c_send_err_def c_cancel_def c_ack_def c_reset_a_def
      c_send_request_def c_close_all_def Let_def split: option.splits select_result.splits res.splits prod.splits)

lemma go_recover_Diverge [simp]: "go_recover z r = Diverge \<longleftrightarrow> r = Diverge"
  by (cases r) simp_all

lemma run_client_ends [simp]: "run_client E act tx \<noteq> Diverge"
  by (cases act) (simp_all add: client_act_defs go_bind_Diverge_iff c_transportErr_def c_timeoutErr_def
      c_delete_def Let_def)

text \<open>At most two turns: an input, and the \<^verbatim>\<open>delete\<close> that its action may return.\<close>

definition client_outcome ::
  "(client_state, client_input, client_action) fsm_state list \<Rightarrow> client_state \<Rightarrow> client_input \<Rightarrow>
   (client_state \<times> client_action) option" where
  "client_outcome tbl st i = fsm_outcome \<lparr>fsm_states = tbl, fsm_current = st\<rparr> i"

definition client_turns ::
  "(client_state, client_input, client_action) fsm_state list \<Rightarrow> env \<Rightarrow> client_state \<Rightarrow> client_input \<Rightarrow>
   clientTx \<Rightarrow> (client_error option \<times> client_state, clientTx) go" where
  "client_turns tbl E st i tx =
     (case client_outcome tbl st i of
        None \<Rightarrow> Ret (Some (InvalidInput (st, i)), st) tx
      | Some (st1, act1) \<Rightarrow>
          go_bind (run_client E act1 tx) (\<lambda>next tx1.
            case next of
              None \<Rightarrow> Ret (None, st1) tx1
            | Some j \<Rightarrow>
                (case client_outcome tbl st1 j of
                   None \<Rightarrow> Ret (Some (InvalidInput (st1, j)), st1) tx1
                 | Some (st2, act2) \<Rightarrow>
                     go_bind (run_client E act2 tx1) (\<lambda>_ tx2. Ret (None, st2) tx2))))"

definition short_chains :: "(client_state, client_input, client_action) fsm_state list \<Rightarrow> bool" where
  "short_chains tbl \<longleftrightarrow>
     list_all (\<lambda>s. list_all (\<lambda>(i, st1, act1).
       case act_next act1 of
         None \<Rightarrow> True
       | Some j \<Rightarrow> (case client_outcome tbl st1 j of None \<Rightarrow> True | Some (st2, act2) \<Rightarrow> act_next act2 = None))
       (Outcomes s)) tbl"

lemma client_tables_short: "short_chains invite_client_states" "short_chains non_invite_client_states"
  by code_simp+

lemma client_outcome_mem:
  assumes "client_outcome tbl st i = Some (st1, act1)"
  obtains s where "s \<in> set tbl" and "(i, st1, act1) \<in> set (Outcomes s)"
  using assms
  by (fastforce simp: client_outcome_def fsm_outcome_def dest!: map_of_SomeD split: option.splits)

lemma short_chainsD:
  assumes "short_chains tbl" and "client_outcome tbl st i = Some (st1, act1)" and "act_next act1 = Some j"
    and "client_outcome tbl st1 j = Some (st2, act2)"
  shows "act_next act2 = None"
  using assms client_outcome_mem [OF assms(2)] by (fastforce simp: short_chains_def list_all_iff)

text \<open>A state machine of the library's type with one of the two tables.\<close>

locale client_lib = fsm_lib define_fsm spin
  for define_fsm :: client_define and spin :: client_spin
begin

lemma c_Spin_turns:
  assumes fsm: "cfsm tx = Some \<lparr>fsm_states = tbl, fsm_current = st\<rparr>" and short: "short_chains tbl"
  shows "c_Spin spin E i tx =
    go_bind (client_turns tbl E st i tx)
      (\<lambda>(e, st') t. Ret e (t\<lparr>cfsm := Some \<lparr>fsm_states = tbl, fsm_current = st'\<rparr>\<rparr>))"
proof (cases "client_outcome tbl st i")
  case None
  then have "spin (run_client E) \<lparr>fsm_states = tbl, fsm_current = st\<rparr> tx i =
      Ret (Some (st, i), \<lparr>fsm_states = tbl, fsm_current = st\<rparr>) tx"
    using spin_invalid [of "\<lparr>fsm_states = tbl, fsm_current = st\<rparr>" i] by (simp add: client_outcome_def)
  with fsm None show ?thesis by (simp add: c_Spin_def client_turns_def)
next
  case (Some o1)
  then obtain st1 act1 where o1: "client_outcome tbl st i = Some (st1, act1)" by (cases o1) simp
  let ?f = "\<lparr>fsm_states = tbl, fsm_current = st\<rparr>" and ?f1 = "\<lparr>fsm_states = tbl, fsm_current = st1\<rparr>"
  note u1 = spin_unfold [of ?f i st1 act1 "run_client E" tx]
  show ?thesis
  proof (cases "act_next act1")
    case None
    with fsm o1 u1 show ?thesis
      by (cases "run_client E act1 tx")
         (auto simp: c_Spin_def client_turns_def client_outcome_def dest: run_client_next)
  next
    case (Some j)
    show ?thesis
    proof (cases "client_outcome tbl st1 j")
      case None
      with fsm o1 u1 Some spin_invalid [of ?f1 j] show ?thesis
        by (cases "run_client E act1 tx")
           (auto simp: c_Spin_def client_turns_def client_outcome_def dest: run_client_next)
    next
      case o2: (Some o2)
      then obtain st2 act2 where o2: "client_outcome tbl st1 j = Some (st2, act2)" by (cases o2) simp
      have n2: "act_next act2 = None" using short_chainsD [OF short o1 Some o2] .
      show ?thesis
      proof (cases "run_client E act1 tx")
        case (Ret r1 t1)
        with Some have r1: "r1 = Some j" by (auto dest: run_client_next)
        have "spin (run_client E) ?f tx i = spin (run_client E) ?f1 t1 j"
          using u1 o1 Ret r1 by (simp add: client_outcome_def)
        with fsm o1 o2 n2 Ret r1 spin_unfold [of ?f1 j st2 act2 "run_client E" t1] show ?thesis
          by (cases "run_client E act2 t1")
             (auto simp: c_Spin_def client_turns_def client_outcome_def dest: run_client_next)
      qed (use fsm o1 u1 in \<open>auto simp: c_Spin_def client_turns_def client_outcome_def\<close>)
    qed
  qed
qed

end

interpretation cl: client_lib fsm_Define fsm_Spin
  by unfold_locales

section \<open>Effects of the actions\<close>

lemma select_send_running:
  "select_send False pick ch x =
     (if closed ch then SendPanic else if length (buf ch) < chan_cap then Sent (ch\<lparr>buf := buf ch @ [x]\<rparr>) else SendBlock)"
  by (simp add: select_send_def Let_def)

text \<open>What sending, passing up and reporting leave alone: everything but the buffers, the log of sent
  messages, the last error, and a report of a failed send that waits to be spun.\<close>

definition quiet :: "clientTx \<Rightarrow> clientTx \<Rightarrow> bool" where
  "quiet tx t \<longleftrightarrow> ckey t = ckey tx \<and> corigin t = corigin tx \<and> cfsm t = cfsm tx \<and> clastResp t = clastResp tx
     \<and> cdone t = cdone tx \<and> ccloseOnce t = ccloseOnce tx \<and> timer_a_time t = timer_a_time tx
     \<and> timer_a t = timer_a tx \<and> timer_b t = timer_b tx \<and> timer_d_time t = timer_d_time tx
     \<and> timer_d t = timer_d tx \<and> timer_m t = timer_m tx \<and> creliable t = creliable tx
     \<and> closed (cresponses t) = closed (cresponses tx) \<and> closed (cerrs t) = closed (cerrs tx)
     \<and> (cspawned t = cspawned tx \<or> cspawned t = cspawned tx @ [client_input_transport_err])"

lemma quiet_refl [simp]: "quiet tx tx"
  by (simp add: quiet_def)

text \<open>A transaction that has not ended, with a request that is ready.\<close>

definition live :: "clientTx \<Rightarrow> bool" where
  "live tx \<longleftrightarrow> \<not> cdone tx \<and> \<not> ccloseOnce tx \<and> \<not> closed (cresponses tx) \<and> \<not> closed (cerrs tx)
     \<and> request_ready (corigin tx)"

lemma post_passUp: "live tx \<Longrightarrow> go_post (c_passUp E tx) (\<lambda>_ t. quiet tx t \<and> cspawned t = cspawned tx)"
  by (auto simp: live_def quiet_def c_passUp_def select_send_running split: option.split)

lemma post_send_err:
  "live tx \<Longrightarrow> go_post (go_recover () (c_send_err E e tx)) (\<lambda>_ t. quiet tx t)"
  by (auto simp: live_def quiet_def c_send_err_def select_send_running)

lemma post_send_request: "go_post (c_send_request E (Ok req) tx) (\<lambda>_ t. quiet tx t)"
  by (auto simp: quiet_def c_send_request_def c_Send_def c_spawn_def split: option.split)

lemma post_cancel: "live tx \<Longrightarrow> go_post (c_cancel E tx) (\<lambda>_ t. quiet tx t)"
  using NewCancelRequest_total [of "corigin tx" "fresh_id E" "[]"] post_send_request
  by (auto simp: live_def c_cancel_def)

lemma post_ack:
  assumes "live tx" and "clastResp tx = Some res" and "response_ready res"
  shows "go_post (c_ack E tx) (\<lambda>_ t. quiet tx t)"
proof -
  obtain a where "NewAckRequest (fresh_id E) (GenerateBranch (fresh_branch E)) [] (corigin tx) res [] = Ok a"
    using assms NewAckRequest_total by (metis live_def)
  with assms(2) post_send_request show ?thesis by (simp add: c_ack_def)
qed

lemma post_resend: "go_post (c_resend E tx) (\<lambda>_ t. quiet tx t)"
  by (auto simp: quiet_def c_resend_def c_Send_def c_spawn_def Let_def)

lemma delete_live:
  assumes "live tx"
  shows "c_delete tx = Ret () (tx\<lparr>ccloseOnce := True, cdone := True,
    cresponses := (cresponses tx)\<lparr>closed := True\<rparr>, cerrs := (cerrs tx)\<lparr>closed := True\<rparr>,
    timer_a := None, timer_b := None, timer_d := None\<rparr>)"
  using assms by (simp add: live_def c_delete_def c_close_all_def Let_def)

lemma delete_done: "cdone tx \<Longrightarrow> c_delete tx = Ret () tx"
  by (simp add: c_delete_def)

text \<open>What each action does to the timers, and to the channels.\<close>

fun effect :: "client_action \<Rightarrow> clientTx \<Rightarrow> clientTx" where
  "effect C_act_invite_resend t =
     t\<lparr>timer_a_time := wrap64 (timer_a_time t * 2),
       timer_a := map_option (timer_Reset (wrap64 (timer_a_time t * 2))) (timer_a t)\<rparr>"
| "effect C_act_non_invite_resend t =
     (let d = (if T2 < wrap64 (timer_a_time t * 2) then T2 else wrap64 (timer_a_time t * 2)) in
      t\<lparr>timer_a_time := d, timer_a := map_option (timer_Reset d) (timer_a t)\<rparr>)"
| "effect C_act_passup t = t\<lparr>timer_a := None\<rparr>"
| "effect C_act_invite_proceeding t = t\<lparr>timer_a := None, timer_b := None\<rparr>"
| "effect C_act_invite_final t =
     t\<lparr>timer_a := None, timer_b := None, timer_d := Some (AfterFunc (timer_d_time t))\<rparr>"
| "effect C_act_non_invite_final t =
     t\<lparr>timer_a := None, timer_b := None, timer_d := Some (AfterFunc (timer_d_time t))\<rparr>"
| "effect C_act_cancel_timeout t = t\<lparr>timer_b := Some (AfterFunc Timer_B)\<rparr>"
| "effect C_act_trans_err t = t\<lparr>timer_a := None\<rparr>"
| "effect C_act_trans_err_stay t = t\<lparr>timer_a := None\<rparr>"
| "effect C_act_timeout t = t\<lparr>timer_a := None\<rparr>"
| "effect C_act_passup_delete t = t\<lparr>timer_a := None\<rparr>"
| "effect C_act_passup_accept t =
     t\<lparr>timer_a := None, timer_b := None, timer_m := Some (AfterFunc Timer_M)\<rparr>"
| "effect C_act_delete t =
     t\<lparr>ccloseOnce := True, cdone := True, cresponses := (cresponses t)\<lparr>closed := True\<rparr>,
       cerrs := (cerrs t)\<lparr>closed := True\<rparr>, timer_a := None, timer_b := None, timer_d := None\<rparr>"
| "effect _ t = t"

definition act_pre :: "client_action \<Rightarrow> clientTx \<Rightarrow> bool" where
  "act_pre act tx \<longleftrightarrow>
     (act \<in> {C_act_invite_final, C_act_ack} \<longrightarrow> (\<exists>res. clastResp tx = Some res \<and> response_ready res))
     \<and> (act \<in> {C_act_invite_resend, C_act_non_invite_resend} \<longrightarrow> timer_a tx \<noteq> None)"

lemma live_quiet: "live tx \<Longrightarrow> quiet tx t \<Longrightarrow> live t"
  by (simp add: live_def quiet_def)

lemma quiet_trans: "quiet tx t \<Longrightarrow> quiet t u \<Longrightarrow> cspawned u = cspawned t \<Longrightarrow> quiet tx u"
  by (auto simp: quiet_def)

lemma resend_effect:
  assumes "timer_a tx = Some x"
  shows "go_post (c_resend E (tx\<lparr>timer_a_time := d, timer_a := Some (timer_Reset d x)\<rparr>))
    (\<lambda>_ t. \<exists>t0. quiet tx t0 \<and> t = t0\<lparr>timer_a_time := d, timer_a := map_option (timer_Reset d) (timer_a t0)\<rparr>)"
proof (rule go_post_mono [OF post_resend])
  fix a t
  assume "quiet (tx\<lparr>timer_a_time := d, timer_a := Some (timer_Reset d x)\<rparr>) t"
  with assms show "\<exists>t0. quiet tx t0 \<and> t = t0\<lparr>timer_a_time := d, timer_a := map_option (timer_Reset d) (timer_a t0)\<rparr>"
    by (intro exI [of _ "t\<lparr>timer_a_time := timer_a_time tx, timer_a := timer_a tx\<rparr>"]) (auto simp: quiet_def)
qed

lemma run_client_effect:
  assumes "live tx" and "act_pre act tx"
  shows "go_post (run_client E act tx) (\<lambda>r t. r = act_next act \<and> (\<exists>t0. quiet tx t0 \<and> t = effect act t0))"
proof (cases act)
  case C_act_invite_final
  then obtain res where res: "clastResp tx = Some res" "response_ready res"
    using assms(2) by (auto simp: act_pre_def)
  have "go_post (c_ack E tx) (\<lambda>_ t. go_post (c_passUp E t) (\<lambda>_ u. quiet tx u))"
    by (rule go_post_mono [OF post_ack [OF assms(1) res]])
       (use assms(1) in \<open>auto intro: go_post_mono [OF post_passUp] live_quiet quiet_trans\<close>)
  then show ?thesis
    unfolding C_act_invite_final run_client.simps client_act_defs go_post_bind
    by (elim go_post_mono) auto
next
  case C_act_invite_resend
  then obtain x where x: "timer_a tx = Some x" using assms(2) by (auto simp: act_pre_def)
  have eff: "effect C_act_invite_resend t0 = t0\<lparr>timer_a_time := wrap64 (timer_a_time tx * 2),
      timer_a := map_option (timer_Reset (wrap64 (timer_a_time tx * 2))) (timer_a t0)\<rparr>" if "quiet tx t0" for t0
    using that by (simp add: quiet_def)
  show ?thesis
    unfolding C_act_invite_resend run_client.simps c_act_invite_resend_def
    using resend_effect [OF x, of E "wrap64 (timer_a_time tx * 2)"]
    by (simp add: c_reset_a_def x del: effect.simps) (elim go_post_mono, auto simp: eff simp del: effect.simps)
next
  case C_act_non_invite_resend
  then obtain x where x: "timer_a tx = Some x" using assms(2) by (auto simp: act_pre_def)
  define d where "d = (if T2 < wrap64 (timer_a_time tx * 2) then T2 else wrap64 (timer_a_time tx * 2))"
  have eff: "effect C_act_non_invite_resend t0 =
      t0\<lparr>timer_a_time := d, timer_a := map_option (timer_Reset d) (timer_a t0)\<rparr>" if "quiet tx t0" for t0
    using that by (simp add: quiet_def d_def Let_def)
  show ?thesis
    unfolding C_act_non_invite_resend run_client.simps c_act_non_invite_resend_def Let_def d_def [symmetric]
    using resend_effect [OF x, of E d]
    by (simp add: c_reset_a_def x del: effect.simps) (elim go_post_mono, auto simp: eff simp del: effect.simps)
next
  case C_act_delete
  with assms(1) show ?thesis by (auto simp: client_act_defs delete_live intro: exI [of _ tx])
qed (use assms in \<open>auto simp: client_act_defs act_pre_def c_transportErr_def c_timeoutErr_def
  intro: go_post_mono [OF post_passUp] go_post_mono [OF post_send_err] go_post_mono [OF post_cancel]
    go_post_mono [OF post_ack]\<close>)

text \<open>The same for a call of \<open>Spin\<close>: one turn, or a second one that deletes.\<close>

lemma turns_effect:
  assumes "live tx" and "client_outcome tbl st i = Some (st1, act)" and "act_pre act tx"
    and "act_next act = None"
  shows "go_post (client_turns tbl E st i tx)
    (\<lambda>(e, st') t. e = None \<and> st' = st1 \<and> (\<exists>t0. quiet tx t0 \<and> t = effect act t0))"
  using assms run_client_effect [OF assms(1,3), of E]
  by (auto simp: client_turns_def elim!: go_post_mono)

lemma turns_effect_delete:
  assumes "live tx" and "client_outcome tbl st i = Some (st1, act)"
    and "act \<in> {C_act_trans_err, C_act_timeout, C_act_passup_delete}"
    and "client_outcome tbl st1 client_input_delete = Some (st2, C_act_delete)"
  shows "go_post (client_turns tbl E st i tx) (\<lambda>(e, st') t. e = None \<and> st' = st2 \<and>
    (\<exists>t0. quiet tx t0 \<and> t = effect C_act_delete (t0\<lparr>timer_a := None\<rparr>)))"
proof -
  have "act_pre act tx" and n: "act_next act = Some client_input_delete"
    and eff: "effect act t = t\<lparr>timer_a := None\<rparr>" for t
    using assms(3) by (auto simp: act_pre_def)
  then have "go_post (run_client E act tx) (\<lambda>r t. r = Some client_input_delete \<and>
      (\<exists>t0. quiet tx t0 \<and> t = t0\<lparr>timer_a := None\<rparr>))"
    using run_client_effect [OF assms(1), of act E] by (auto elim!: go_post_mono)
  moreover have "live (t0\<lparr>timer_a := None\<rparr>)" if "quiet tx t0" for t0
    using assms(1) that by (simp add: live_def quiet_def)
  ultimately show ?thesis
    using assms(2,4) by (auto simp: client_turns_def c_act_delete_def delete_live elim!: go_post_mono)
qed

lemma turns_invalid:
  "client_outcome tbl st i = None \<Longrightarrow> client_turns tbl E st i tx = Ret (Some (InvalidInput (st, i)), st) tx"
  by (simp add: client_turns_def)

section \<open>The invariant of an INVITE transaction\<close>

definition spawnable :: "client_input set" where
  "spawnable = {client_input_timer_a, client_input_timer_b, client_input_timer_d, client_input_timer_m,
     client_input_transport_err}"

text \<open>The channels are closed exactly in the state Terminated; only timers and failed sends wait to
  spin; while the request may be retransmitted, a waiting timer A has its timer.\<close>

definition invite_ok :: "client_state \<Rightarrow> clientTx \<Rightarrow> bool" where
  "invite_ok st tx \<longleftrightarrow> cdone tx = (st = client_state_terminated) \<and> ccloseOnce tx = cdone tx
     \<and> closed (cresponses tx) = cdone tx \<and> closed (cerrs tx) = cdone tx
     \<and> set (cspawned tx) \<subseteq> spawnable
     \<and> (st = client_state_calling \<and> timer_a tx = None \<longrightarrow> client_input_timer_a \<notin> set (cspawned tx))
     \<and> pred_option response_ready (clastResp tx) \<and> request_ready (corigin tx)"

definition timer_pending :: "client_timer \<Rightarrow> clientTx \<Rightarrow> bool" where
  "timer_pending t tx \<longleftrightarrow> is_armed (client_timer_field t tx) \<or> client_timer_input t \<in> set (cspawned tx)"

text \<open>The timers that end Calling and Completed.  Here \<open>i\<close> is an input about to be spun: it may be
  the callback that was waited for.\<close>

definition covered :: "bool \<Rightarrow> client_input option \<Rightarrow> client_state \<Rightarrow> clientTx \<Rightarrow> bool" where
  "covered started i st tx \<longleftrightarrow>
     (started \<and> st = client_state_calling \<and> i \<noteq> Some client_input_timer_b \<longrightarrow> timer_pending CTimer_B tx)
     \<and> (st = client_state_completed \<and> i \<noteq> Some client_input_timer_d \<longrightarrow> timer_pending CTimer_D tx)"

lemmas invite_inv_defs = invite_ok_def covered_def timer_pending_def spawnable_def

lemma invite_ok_live: "invite_ok st tx \<Longrightarrow> st \<noteq> client_state_terminated \<Longrightarrow> live tx"
  by (simp add: invite_ok_def live_def)

lemmas invite_table = client_outcome_def fsm_outcome_def invite_client_states_def

text \<open>Every entry of the INVITE table keeps the invariant: an action of one turn, or one that reports
  an error and deletes.\<close>

lemma invite_outcome_next:
  "client_outcome invite_client_states st i = Some (st1, act) \<Longrightarrow> act_next act \<noteq> None \<Longrightarrow>
   st1 = client_state_terminated \<and> act \<in> {C_act_trans_err, C_act_timeout} \<and> st \<noteq> client_state_terminated"
  by (cases st; cases i) (auto simp: invite_table)

lemma invite_outcome_terminated:
  "i \<noteq> client_input_delete \<Longrightarrow> client_outcome invite_client_states client_state_terminated i =
   Some (client_state_terminated, C_NO_ACTION)"
  by (cases i) (simp_all add: invite_table)

lemma invite_outcome_pre:
  assumes "client_outcome invite_client_states st i = Some (st1, act)" and "invite_ok st tx"
    and "i \<in> {client_input_1xx, client_input_2xx, client_input_300_plus} \<Longrightarrow> clastResp tx \<noteq> None"
    and "i = client_input_timer_a \<Longrightarrow> st = client_state_calling \<Longrightarrow> timer_a tx \<noteq> None"
  shows "act_pre act tx"
  using assms by (cases st; cases i) (auto simp: invite_table act_pre_def invite_ok_def)

lemma quiet_invite_ok: "quiet tx t \<Longrightarrow> invite_ok st tx \<Longrightarrow> invite_ok st t"
  unfolding quiet_def invite_ok_def by (elim conjE disjE) (simp_all add: spawnable_def)

lemma quiet_covered: "quiet tx t \<Longrightarrow> covered started i st tx \<Longrightarrow> covered started i st t"
  unfolding quiet_def covered_def timer_pending_def
  by (elim conjE disjE; cases started; cases st; simp)

lemma invite_outcome_effect:
  assumes "client_outcome invite_client_states st i = Some (st1, act)" and "act_next act = None"
    and "invite_ok st t" and "st \<noteq> client_state_terminated"
  shows "invite_ok st1 (effect act t)"
  using assms by (cases st; cases i; clarsimp simp: invite_table) (simp_all add: invite_ok_def)

lemma invite_outcome_covered:
  assumes "client_outcome invite_client_states st i = Some (st1, act)" and "act_next act = None"
    and "covered started (Some i) st t" and "st \<noteq> client_state_terminated"
  shows "covered started None st1 (effect act t)"
  using assms
  by (cases st; cases i; clarsimp simp: invite_table) (simp_all add: covered_def timer_pending_def)

lemma invite_outcome_None:
  "client_outcome invite_client_states st i = None \<Longrightarrow> covered started (Some i) st tx \<Longrightarrow> covered started None st tx"
  by (cases st; cases i) (simp_all add: invite_table covered_def)

lemma delete_invite_ok:
  assumes "invite_ok st tx" and "quiet tx t" 
  shows "invite_ok client_state_terminated (effect C_act_delete (t\<lparr>timer_a := None\<rparr>)) \<and>
    covered started None client_state_terminated (effect C_act_delete (t\<lparr>timer_a := None\<rparr>))"
  using assms by (auto simp: invite_ok_def quiet_def covered_def spawnable_def)

lemma invite_turns_ok:
  assumes ok: "invite_ok st tx" and i: "i \<noteq> client_input_delete"
    and resp: "i \<in> {client_input_1xx, client_input_2xx, client_input_300_plus} \<Longrightarrow> clastResp tx \<noteq> None"
    and ta: "i = client_input_timer_a \<Longrightarrow> st = client_state_calling \<Longrightarrow> timer_a tx \<noteq> None"
    and cov: "covered started (Some i) st tx"
  shows "go_post (client_turns invite_client_states E st i tx) (\<lambda>(e, st') t.
    invite_ok st' t \<and> covered started None st' t)"
proof (cases "client_outcome invite_client_states st i")
  case None
  with ok cov show ?thesis by (auto simp: turns_invalid dest: invite_outcome_None)
next
  case (Some x)
  obtain st1 act where o: "client_outcome invite_client_states st i = Some (st1, act)"
    using Some by (cases x) simp
  show ?thesis
  proof (cases "st = client_state_terminated")
    case True
    with i ok o show ?thesis by (simp add: client_turns_def invite_outcome_terminated covered_def)
  next
    case False
    then have l: "live tx" using ok by (simp add: invite_ok_live)
    show ?thesis
    proof (cases "act_next act")
      case None
      have "act_pre act tx" using invite_outcome_pre [OF o ok resp ta] by blast
      from turns_effect [OF l o this None] show ?thesis
        by (rule go_post_mono)
           (use invite_outcome_effect [OF o None quiet_invite_ok [OF _ ok] False]
             invite_outcome_covered [OF o None quiet_covered [OF _ cov] False] in auto)
    next
      case (Some j)
      then have t: "st1 = client_state_terminated" "act \<in> {C_act_trans_err, C_act_timeout}"
        using invite_outcome_next [OF o] by simp_all
      have d: "client_outcome invite_client_states st1 client_input_delete = Some (client_state_terminated, C_act_delete)"
        by (simp add: t invite_table)
      have "act \<in> {C_act_trans_err, C_act_timeout, C_act_passup_delete}" using t(2) by auto
      from turns_effect_delete [OF l o this d] show ?thesis
        by (rule go_post_mono) (use delete_invite_ok [OF ok] in auto)
    qed
  qed
qed

section \<open>The invariant in every interleaving\<close>

definition new_client :: "clientTx \<Rightarrow> bool" where
  "new_client tx \<longleftrightarrow> cfsm tx = None \<and> clastResp tx = None \<and> cresponses tx = make_chan \<and> cerrs tx = make_chan
     \<and> \<not> cdone tx \<and> \<not> ccloseOnce tx \<and> timer_a tx = None \<and> timer_b tx = None \<and> timer_d tx = None
     \<and> timer_m tx = None \<and> cspawned tx = []"

lemma NewClientTx_new: "NewClientTx rand rel req = Ok tx \<Longrightarrow> new_client tx"
  by (cases "request_Transport (prepareClientRequest rand req)")
     (auto simp: NewClientTx_def Let_def new_client_def)

text \<open>Every event but a call of \<open>Terminate\<close>; the Record-Route headers of a response have their own type.\<close>

definition regular :: "client_event \<Rightarrow> bool" where
  "regular ev \<longleftrightarrow> ev \<noteq> EvTerminate \<and> (\<forall>res. ev = EvReceive (Res res) \<longrightarrow> response_ready res)"

definition invite_state :: "client_phase \<Rightarrow> client_state \<Rightarrow> clientTx \<Rightarrow> bool" where
  "invite_state ph st tx \<longleftrightarrow> cfsm tx = Some \<lparr>fsm_states = invite_client_states, fsm_current = st\<rparr>
     \<and> invite_ok st tx \<and> covered (ph = Running) None st tx"

definition invite_inv :: "clientTx \<Rightarrow> client_phase \<times> clientTx \<Rightarrow> bool" where
  "invite_inv tx0 s \<longleftrightarrow> (case s of (ph, tx) \<Rightarrow>
     if ph = Created then tx = tx0 else \<exists>st. invite_state ph st tx)"

lemma invite_ok_cfsm [simp]: "invite_ok st (tx\<lparr>cfsm := f\<rparr>) = invite_ok st tx"
  by (simp add: invite_ok_def)

lemma timer_pending_cfsm [simp]: "timer_pending t (tx\<lparr>cfsm := f\<rparr>) = timer_pending t tx"
  by (cases t) (simp_all add: timer_pending_def)

lemma covered_cfsm [simp]: "covered s i st (tx\<lparr>cfsm := f\<rparr>) = covered s i st tx"
  by (simp add: covered_def)

lemma in_phase_post: "go_post (in_phase ph r) Q \<longleftrightarrow> go_post r (\<lambda>_ t. Q () (ph, t))"
  by (cases r) simp_all

lemma covered_weaken: "covered s None st tx \<Longrightarrow> covered s i st tx"
  by (simp add: covered_def)

lemma invite_ok_resp: "invite_ok st tx \<Longrightarrow> response_ready res \<Longrightarrow> invite_ok st (tx\<lparr>clastResp := Some res\<rparr>)"
  by (simp add: invite_ok_def)

lemma covered_resp [simp]: "covered s i st (tx\<lparr>clastResp := r\<rparr>) = covered s i st tx"
  by (simp add: covered_def timer_pending_def)

lemma invite_fire:
  assumes "invite_state ph st tx" and "is_armed (client_timer_field t tx)"
  shows "invite_state ph st (c_fire t tx)"
  using assms
  by (cases t; cases st)
     (auto simp: invite_state_def invite_ok_def covered_def timer_pending_def c_fire_def c_spawn_def spawnable_def
       Let_def dest: is_armedD)

lemma invite_timers: "invite_state ph st tx \<Longrightarrow> invite_state Running st (c_Init_timers tx)"
  by (auto simp: invite_state_def invite_ok_def covered_def timer_pending_def c_Init_timers_def Let_def)

lemma invite_take:
  "invite_state ph st tx \<Longrightarrow> invite_state ph st (c_take_response tx)"
  "invite_state ph st tx \<Longrightarrow> invite_state ph st (c_take_error tx)"
  by (auto simp: invite_state_def invite_ok_def covered_def timer_pending_def c_take_response_def c_take_error_def)

text \<open>An input taken out of the waiting ones: the invariant, but for the timer it stands for.\<close>

lemma invite_remove:
  assumes "invite_state ph st tx"
  shows "invite_ok st (tx\<lparr>cspawned := remove1 i (cspawned tx)\<rparr>)"
    and "covered (ph = Running) (Some i) st (tx\<lparr>cspawned := remove1 i (cspawned tx)\<rparr>)"
  using assms notin_set_remove1 [of _ "cspawned tx" i] set_remove1_subset [of i "cspawned tx"]
  by (auto simp: invite_state_def invite_ok_def covered_def timer_pending_def)

context client_lib
begin

lemma invite_spin:
  assumes "cfsm tx = Some \<lparr>fsm_states = invite_client_states, fsm_current = st\<rparr>"
    and "invite_ok st tx" and "i \<noteq> client_input_delete"
    and "i \<in> {client_input_1xx, client_input_2xx, client_input_300_plus} \<Longrightarrow> clastResp tx \<noteq> None"
    and "i = client_input_timer_a \<Longrightarrow> st = client_state_calling \<Longrightarrow> timer_a tx \<noteq> None"
    and "covered (ph = Running) (Some i) st tx"
  shows "go_post (c_Spin spin E i tx) (\<lambda>_ t. \<exists>st'. invite_state ph st' t)"
  unfolding c_Spin_turns [OF assms(1) client_tables_short(1)] go_post_bind
  by (rule go_post_mono [OF invite_turns_ok [OF assms(2-)]]) (auto simp: invite_state_def)

lemma invite_machine: "define_fsm invite_client_states =
    Some \<lparr>fsm_states = invite_client_states, fsm_current = client_state_calling\<rparr>"
  using define_ok [of invite_client_states] by (simp add: invite_client_states_def)

lemma invite_init:
  assumes "new_client tx" and "IsInvite (corigin tx)" and "request_ready (corigin tx)"
  shows "go_post (c_Init_send define_fsm spin E tx)
    (\<lambda>e t. \<exists>st. invite_state (if e = None then Sending else Failed) st t)"
proof -
  let ?f = "\<lparr>fsm_states = invite_client_states, fsm_current = client_state_calling\<rparr>"
  let ?tx = "tx\<lparr>cfsm := Some ?f, csent := csent tx @ [Req (corigin tx)]\<rparr>"
  have init: "c_initFSM define_fsm tx = tx\<lparr>cfsm := Some ?f\<rparr>"
    using assms(2) by (simp add: c_initFSM_def c_initInviteFSM_def invite_machine)
  have ok: "invite_ok client_state_calling (?tx\<lparr>clastErr := e\<rparr>)" "invite_ok client_state_calling ?tx" for e
    using assms(1,3) by (auto simp: new_client_def invite_ok_def make_chan_def spawnable_def)
  have "go_post (c_Spin spin E client_input_transport_err (?tx\<lparr>clastErr := Some e\<rparr>))
      (\<lambda>_ t. \<exists>st. invite_state Failed st t)" for e
    by (rule invite_spin [where st = client_state_calling]) (use ok in \<open>simp_all add: covered_def\<close>)
  then show ?thesis
    using ok by (auto simp: c_Init_send_def init c_Send_def invite_state_def covered_def
        elim!: go_post_mono split: option.split)
qed

lemma invite_event:
  assumes new: "new_client tx0" "IsInvite (corigin tx0)" "request_ready (corigin tx0)"
    and inv: "invite_inv tx0 s" and ev: "regular ev" "client_enabled ev s"
  shows "go_post (client_exec define_fsm spin E ev s) (\<lambda>_ s'. invite_inv tx0 s')"
proof -
  obtain ph tx where s: "s = (ph, tx)" by (cases s)
  show ?thesis
  proof (cases "ph = Created")
    case True
    with inv have tx: "tx = tx0" by (simp add: s invite_inv_def)
    have "ev = EvInit"
      using ev new(1) True by (cases ev; cases "case ev of EvFire t \<Rightarrow> t")
        (auto simp: s tx new_client_def make_chan_def regular_def)
    then show ?thesis
      using invite_init [OF new, of E] True
      by (cases "c_Init_send define_fsm spin E tx0")
         (auto simp: s tx invite_inv_def init_phase_def split: option.splits)
  next
    case False
    with inv obtain st where st: "invite_state ph st tx" by (auto simp: s invite_inv_def)
    have wrap: "go_post (in_phase ph r) (\<lambda>_ s'. invite_inv tx0 s')" if "go_post r (\<lambda>_ t. \<exists>st. invite_state ph st t)"
      for r :: "('z, clientTx) go"
      using that False by (simp add: in_phase_post invite_inv_def)
    note fsm = st [unfolded invite_state_def, THEN conjunct1]
      and ok = st [unfolded invite_state_def, THEN conjunct2, THEN conjunct1]
      and cov = st [unfolded invite_state_def, THEN conjunct2, THEN conjunct2]
    show ?thesis
    proof (cases ev)
      case (EvReceive msg)
      show ?thesis
      proof (cases msg)
        case (Req x1)
        with st False show ?thesis by (auto simp: EvReceive s c_Receive_def invite_inv_def)
      next
        case (Res res)
        with ev have "response_ready res" by (simp add: regular_def EvReceive)
        then have ok': "invite_ok st (tx\<lparr>clastResp := Some res\<rparr>)" using ok by (simp add: invite_ok_resp)
        have "go_post (c_Spin spin E client_input_canceled tx) (\<lambda>_ t. \<exists>st. invite_state ph st t)"
          by (rule invite_spin [OF fsm ok]) (simp_all add: covered_weaken [OF cov])
        moreover have "go_post (c_Spin spin E (response_input res) (tx\<lparr>clastResp := Some res\<rparr>))
            (\<lambda>_ t. \<exists>st. invite_state ph st t)"
          by (rule invite_spin [OF _ ok']) (simp_all add: fsm covered_weaken [OF cov] response_input_def split: if_splits)
        ultimately have "go_post (c_Receive spin E msg tx) (\<lambda>_ t. \<exists>st. invite_state ph st t)"
          by (simp add: c_Receive_def Res)
        then show ?thesis unfolding EvReceive s client_exec.simps by (rule wrap)
      qed
    next
      case EvCancel
      have "go_post (c_Cancel spin E tx) (\<lambda>_ t. \<exists>st. invite_state ph st t)"
        unfolding c_Cancel_def by (rule invite_spin [OF fsm ok]) (simp_all add: covered_weaken [OF cov])
      then show ?thesis unfolding EvCancel s client_exec.simps by (rule wrap)
    next
      case (EvRun i)
      then have i: "i \<in> set (cspawned tx)" using ev by (simp add: s)
      have sp: "i \<in> spawnable" using ok i by (auto simp: invite_ok_def)
      have ta: "timer_a tx \<noteq> None" if "i = client_input_timer_a" "st = client_state_calling"
        using ok i that by (auto simp: invite_ok_def)
      have "i \<notin> {client_input_1xx, client_input_2xx, client_input_300_plus}" and "i \<noteq> client_input_delete"
        using sp by (auto simp: spawnable_def)
      then have "go_post (c_run_spawned spin E i tx) (\<lambda>_ t. \<exists>st. invite_state ph st t)"
        unfolding c_run_spawned_def
        by (intro invite_spin [OF _ invite_remove(1) [OF st] _ _ _ invite_remove(2) [OF st]])
           (use ta in \<open>simp_all add: fsm\<close>)
      then show ?thesis unfolding EvRun s client_exec.simps by (rule wrap)
    qed (use ev False st invite_fire [OF st] invite_timers [OF st] invite_take [OF st] in
      \<open>auto simp: s invite_inv_def regular_def\<close>)
  qed
qed

lemma invite_reach:
  assumes "client_reach define_fsm spin regular tx0 s"
    and new: "new_client tx0" "IsInvite (corigin tx0)" "request_ready (corigin tx0)"
  shows "invite_inv tx0 s"
  using assms(1)
proof (induction rule: client_reach.induct)
  case reach_new
  then show ?case by (simp add: invite_inv_def)
next
  case (reach_step s ev E s')
  from invite_event [OF new reach_step.IH reach_step.hyps(2,3), of E] reach_step.hyps(4) show ?case by simp
qed

text \<open>Timer B in Calling, step by step.\<close>

lemma invite_calling_timeout:
  assumes fsm: "cfsm tx = Some \<lparr>fsm_states = invite_client_states, fsm_current = client_state_calling\<rparr>"
    and l: "live tx" and room: "length (buf (cerrs tx)) < chan_cap" and i: "client_input_timer_b \<in> set (cspawned tx)"
  shows "\<exists>tx'. client_run define_fsm spin [(E, EvRun client_input_timer_b)] (ph, tx) = Some (Ret () (ph, tx')) \<and>
    cdone tx' \<and> TxTimeoutError (ckey tx) \<in> set (buf (cerrs tx'))"
proof -
  let ?tx = "tx\<lparr>cspawned := remove1 client_input_timer_b (cspawned tx)\<rparr>"
  have f: "cfsm ?tx = Some \<lparr>fsm_states = invite_client_states, fsm_current = client_state_calling\<rparr>"
    using fsm by simp
  show ?thesis
    using l room i
    by (simp add: c_run_spawned_def c_Spin_turns [OF f client_tables_short(1)] client_turns_def invite_table
        c_act_timeout_def c_timeoutErr_def c_send_err_def select_send_running live_def c_act_delete_def
        delete_live)
qed

end

end
