(* ===== verification/ClientProps.thy ===== *)
theory ClientProps
  imports ClientSafety
begin

text \<open>
  What client transactions do, as properties of the operations of \<^verbatim>\<open>transaction/client_tx.go\<close>
  in every interleaving: no panic, the end of the states Calling and Completed, the turns of
  \<open>Spin\<close>, the retransmission intervals, and three interleavings that go wrong.
\<close>

section \<open>A transaction to apply the properties to\<close>

definition ex_env :: env where
  "ex_env = \<lparr>tpl_Send = (\<lambda>_. None), pick_done = False, fresh_id = ''i'', fresh_branch = ''f''\<rparr>"

text \<open>A transaction as \<open>NewClientTx\<close> returns it, over an unreliable transport.\<close>

definition ex_client :: "request \<Rightarrow> clientTx" where
  "ex_client req =
     \<lparr>ckey = ''z9hG4bK.1__'' @ rmethod req, corigin = req, cfsm = None, clastResp = None, clastErr = None,
      cresponses = make_chan, cerrs = make_chan, cdone = False, ccloseOnce = False,
      timer_a_time = 0, timer_a = None, timer_b = None, timer_d_time = 0,
      timer_d = None, timer_m = None, creliable = False, cspawned = [], csent = []\<rparr>"

lemma ex_ViaHop [simp]: "hs_ViaHop (hdrs (ex_request m)) = Some ex_hop"
  by (simp add: ex_request_def NewRequest_def)

lemma ex_prepare: "prepareClientRequest r (ex_request m) = ex_request m"
proof -
  have "with_branch r ex_hop = ex_hop"
    by (simp add: with_branch_def ex_hop_def params_Has_def params_Add_def NewParams_def Let_def)
  then have "map_first_hop (with_branch r) (hdrs (ex_request m)) = hdrs (ex_request m)"
    by (intro map_first_hop_id [OF ex_ViaHop])
  then show ?thesis by (simp add: prepareClientRequest_def)
qed

lemma ex_client_created:
  assumes "m \<noteq> ACK" and "m \<noteq> CANCEL"
  shows "NewClientTx r (\<lambda>_. False) (ex_request m) = Ok (ex_client (ex_request m))"
proof -
  have "is_rfc3261_branch ''z9hG4bK.1''"
    by (simp add: is_rfc3261_branch_def RFC3261BranchMagicCookie_def strings_HasPrefix_def strings_TrimPrefix_def)
  moreover have "get_branch ex_hop = Ok (Some ''z9hG4bK.1'')"
    by (simp add: get_branch_def ex_hop_def params_Get_def params_Add_def NewParams_def)
  moreover have "request_Transport (ex_request m) = Ok ''UDP''"
    by (simp add: request_Transport_def ex_request_def strings_ToUpper_def) code_simp
  moreover have "hs_CSeq (hdrs (ex_request m)) = Some \<lparr>SeqNo = 1, MethodName = m\<rparr>" "rmethod (ex_request m) = m"
    by (simp_all add: ex_request_def NewRequest_def)
  ultimately show ?thesis
    using assms by (simp add: NewClientTx_def ex_prepare MakeClientTxKey_def Let_def ex_client_def key_method_def sep_def)
qed

lemma ex_client_new [simp]:
  "new_client (ex_client req)" "corigin (ex_client req) = req" "creliable (ex_client req) = False"
  by (simp_all add: new_client_def ex_client_def)

lemma ex_invite [simp]: "IsInvite (ex_request INVITE)" "\<not> IsInvite (ex_request ''OPTIONS'')" "INVITE \<noteq> ACK"
  "INVITE \<noteq> CANCEL" "''OPTIONS'' \<noteq> ACK" "''OPTIONS'' \<noteq> CANCEL"
  by (simp_all add: IsInvite_def ex_request_def NewRequest_def INVITE_def ACK_def CANCEL_def)

section \<open>Turns\<close>

lemma client_turns_ends: "client_turns tbl E st i tx \<noteq> Diverge"
  by (auto simp: client_turns_def go_bind_Diverge_iff split: option.splits prod.splits)

text \<open>C4: A call of \<open>Spin\<close> on a client machine ends: it makes one turn, or two when the first action
  returns \<open>client_input_delete\<close>, and its result is that of these turns; an input without an entry
  leaves the transaction as it is and is reported.\<close>

theorem client_Spin_turns:
  assumes "fsm_lib define_fsm spin" and "tbl \<in> {invite_client_states, non_invite_client_states}"
    and "cfsm tx = Some \<lparr>fsm_states = tbl, fsm_current = st\<rparr>"
  shows "c_Spin spin E i tx \<noteq> Diverge \<and>
    c_Spin spin E i tx =
      go_bind (client_turns tbl E st i tx)
        (\<lambda>(e, st') t. Ret e (t\<lparr>cfsm := Some \<lparr>fsm_states = tbl, fsm_current = st'\<rparr>\<rparr>)) \<and>
    (client_outcome tbl st i = None \<longrightarrow> c_Spin spin E i tx = Ret (Some (InvalidInput (st, i))) tx)"
proof -
  have "short_chains tbl" using assms(2) client_tables_short by auto
  then have *: "c_Spin spin E i tx = go_bind (client_turns tbl E st i tx)
      (\<lambda>(e, st') t. Ret e (t\<lparr>cfsm := Some \<lparr>fsm_states = tbl, fsm_current = st'\<rparr>\<rparr>))"
    using client_lib.c_Spin_turns [OF client_lib.intro [OF assms(1)] assms(3)] by blast
  moreover from this have "c_Spin spin E i tx \<noteq> Diverge"
    using client_turns_ends [of tbl E st i tx] by (auto simp: go_bind_Diverge_iff)
  ultimately show ?thesis
    using assms(3) by (auto simp: turns_invalid)
qed

theorem client_Spin_turns_witness:
  "c_Spin fsm_Spin ex_env client_input_timer_d
     ((ex_client (ex_request INVITE))\<lparr>cfsm := Some \<lparr>fsm_states = invite_client_states, fsm_current = client_state_accepted\<rparr>\<rparr>) =
   Ret (Some (InvalidInput (client_state_accepted, client_input_timer_d)))
     ((ex_client (ex_request INVITE))\<lparr>cfsm := Some \<lparr>fsm_states = invite_client_states, fsm_current = client_state_accepted\<rparr>\<rparr>)"
proof -
  let ?tx = "(ex_client (ex_request INVITE))\<lparr>cfsm := Some \<lparr>fsm_states = invite_client_states, fsm_current = client_state_accepted\<rparr>\<rparr>"
  have none: "client_outcome invite_client_states client_state_accepted client_input_timer_d = None"
    by (simp add: invite_table)
  have "invite_client_states \<in> {invite_client_states, non_invite_client_states}" by simp
  from client_Spin_turns [OF fl.fsm_lib_axioms this, of ?tx client_state_accepted ex_env client_input_timer_d] none
  show ?thesis by auto
qed

lemma ex_invite_created: "NewClientTx [] (\<lambda>_. False) (ex_request INVITE) = Ok (ex_client (ex_request INVITE))"
  by (simp add: ex_client_created)

definition ex_sending :: clientTx where
  "ex_sending = (ex_client (ex_request INVITE))\<lparr>cfsm := Some \<lparr>fsm_states = invite_client_states,
     fsm_current = client_state_calling\<rparr>, csent := [Req (ex_request INVITE)]\<rparr>"

lemma ex_reach_sending:
  "client_reach fsm_Define fsm_Spin regular (ex_client (ex_request INVITE)) (Sending, ex_sending)"
proof (rule reach_step [OF reach_new, of _ EvInit])
  show "client_exec fsm_Define fsm_Spin ex_env EvInit (Created, ex_client (ex_request INVITE)) = Ret () (Sending, ex_sending)"
    by (simp add: c_Init_send_def c_Send_def c_initFSM_def c_initInviteFSM_def cl.invite_machine ex_env_def
        init_phase_def ex_sending_def) (simp add: ex_client_def)
qed (simp_all add: regular_def)

lemma ex_reach_running:
  "client_reach fsm_Define fsm_Spin regular (ex_client (ex_request INVITE)) (Running, c_Init_timers ex_sending)"
  by (rule reach_step [OF ex_reach_sending, of EvTimers]) (simp_all add: regular_def)

section \<open>INVITE transactions\<close>

text \<open>No event but \<open>Terminate\<close> makes the code of an INVITE transaction panic or run for ever.\<close>

lemma invite_client_event_ends:
  assumes "fsm_lib define_fsm spin" and "NewClientTx rand rel req = Ok tx0" and "IsInvite (corigin tx0)"
    and "request_ready (corigin tx0)" and "client_reach define_fsm spin regular tx0 s"
    and "regular ev" and "client_enabled ev s"
  shows "client_exec define_fsm spin E ev s \<noteq> Panic s' \<and> client_exec define_fsm spin E ev s \<noteq> Diverge"
proof -
  note lib = client_lib.intro [OF assms(1)] and new = NewClientTx_new [OF assms(2)] assms(3,4)
  have "invite_inv tx0 s" using client_lib.invite_reach [OF lib assms(5) new] .
  from client_lib.invite_event [OF lib new this assms(6,7), of E] show ?thesis
    by (cases "client_exec define_fsm spin E ev s") auto
qed

text \<open>C2: In the same interleavings the channels of an INVITE client transaction are closed exactly
  when its machine is in Terminated; in Calling, once \<open>Init\<close> has returned, timer B is running or its
  callback waits, and in Completed timer D is.\<close>

theorem invite_client_invariant:
  assumes "fsm_lib define_fsm spin" and "NewClientTx rand rel req = Ok tx0" and "IsInvite (corigin tx0)"
    and "request_ready (corigin tx0)" and "client_reach define_fsm spin regular tx0 (ph, tx)" and "ph \<noteq> Created"
  shows "\<exists>st. cfsm tx = Some \<lparr>fsm_states = invite_client_states, fsm_current = st\<rparr> \<and>
    cdone tx = (st = client_state_terminated) \<and> closed (cresponses tx) = cdone tx \<and> closed (cerrs tx) = cdone tx \<and>
    (ph = Running \<and> st = client_state_calling \<longrightarrow> timer_pending CTimer_B tx) \<and>
    (st = client_state_completed \<longrightarrow> timer_pending CTimer_D tx)"
proof -
  have "invite_inv tx0 (ph, tx)"
    using client_lib.invite_reach [OF client_lib.intro [OF assms(1)] assms(5) NewClientTx_new [OF assms(2)] assms(3,4)] .
  with assms(6) show ?thesis
    by (auto simp: invite_inv_def invite_state_def invite_ok_def covered_def)
qed

theorem invite_client_invariant_witness:
  "timer_pending CTimer_B (c_Init_timers ex_sending) \<and> \<not> cdone (c_Init_timers ex_sending)"
  using invite_client_invariant [OF fl.fsm_lib_axioms ex_invite_created _ _ ex_reach_running]
  by (auto simp: ex_sending_def c_Init_timers_def Let_def)

text \<open>C3: From every reachable Calling state of an INVITE client transaction whose \<open>Init\<close> has returned
  and whose error channel has room, timer B ends it: firing the timer, unless its callback waits
  already, and running the callback closes the channels and reports a timeout.\<close>

theorem invite_client_times_out:
  assumes "fsm_lib define_fsm spin" and "NewClientTx rand rel req = Ok tx0" and "IsInvite (corigin tx0)"
    and "request_ready (corigin tx0)" and "client_reach define_fsm spin regular tx0 (Running, tx)"
    and "cfsm tx = Some \<lparr>fsm_states = invite_client_states, fsm_current = client_state_calling\<rparr>"
    and "length (buf (cerrs tx)) < chan_cap"
  shows "\<exists>evs tx'. evs \<in> {[(E, EvRun client_input_timer_b)], [(E, EvFire CTimer_B), (E, EvRun client_input_timer_b)]} \<and>
    client_run define_fsm spin evs (Running, tx) = Some (Ret () (Running, tx')) \<and>
    cdone tx' \<and> TxTimeoutError (ckey tx) \<in> set (buf (cerrs tx'))"
proof -
  note lib = client_lib.intro [OF assms(1)]
  have "invite_inv tx0 (Running, tx)"
    using client_lib.invite_reach [OF lib assms(5) NewClientTx_new [OF assms(2)] assms(3,4)] .
  then have ok: "invite_ok client_state_calling tx" and p: "timer_pending CTimer_B tx"
    using assms(6) by (auto simp: invite_inv_def invite_state_def covered_def)
  have l: "live tx" using ok by (rule invite_ok_live) simp
  show ?thesis
  proof (cases "client_input_timer_b \<in> set (cspawned tx)")
    case True
    from client_lib.invite_calling_timeout [OF lib assms(6) l assms(7) True, of E Running] show ?thesis by blast
  next
    case False
    with p have a: "is_armed (timer_b tx)" by (simp add: timer_pending_def)
    let ?tx = "c_fire CTimer_B tx"
    have "cfsm ?tx = cfsm tx" "live ?tx" "cerrs ?tx = cerrs tx" "client_input_timer_b \<in> set (cspawned ?tx)" "ckey ?tx = ckey tx"
      using l by (simp_all add: c_fire_def c_spawn_def live_def Let_def)
    with client_lib.invite_calling_timeout [OF lib, of ?tx E Running] assms(6,7) a
    have "\<exists>tx'. client_run define_fsm spin [(E, EvFire CTimer_B), (E, EvRun client_input_timer_b)] (Running, tx) =
        Some (Ret () (Running, tx')) \<and> cdone tx' \<and> TxTimeoutError (ckey tx) \<in> set (buf (cerrs tx'))"
      by simp
    then show ?thesis by blast
  qed
qed

theorem invite_client_times_out_witness:
  "\<exists>evs tx'. client_run fsm_Define fsm_Spin evs (Running, c_Init_timers ex_sending) = Some (Ret () (Running, tx')) \<and>
    cdone tx'"
  using invite_client_times_out [OF fl.fsm_lib_axioms ex_invite_created _ _ ex_reach_running, of ex_env]
  by (auto simp: ex_sending_def c_Init_timers_def Let_def ex_client_def make_chan_def chan_cap_def)

end
