(* ===== verification/ClientRaces.thy ===== *)
theory ClientRaces
  imports ClientProps
begin

text \<open>
  Interleavings of a client transaction that go wrong, as runs from a new transaction or from a
  state of it, and the intervals between retransmissions.
\<close>

lemmas non_invite_table = client_outcome_def fsm_outcome_def non_invite_client_states_def

lemma table_entries:
  "client_outcome invite_client_states client_state_calling client_input_1xx =
     Some (client_state_proceeding, C_act_invite_proceeding)"
  "client_outcome invite_client_states client_state_calling client_input_timer_a =
     Some (client_state_calling, C_act_invite_resend)"
  "client_outcome invite_client_states client_state_proceeding client_input_timer_b =
     Some (client_state_terminated, C_act_timeout)"
  "client_outcome invite_client_states client_state_proceeding client_input_2xx =
     Some (client_state_accepted, C_act_invite_final)"
  "client_outcome invite_client_states client_state_terminated client_input_delete =
     Some (client_state_terminated, C_act_delete)"
  "client_outcome non_invite_client_states client_state_calling client_input_1xx =
     Some (client_state_proceeding, C_act_passup)"
  "client_outcome non_invite_client_states client_state_calling client_input_timer_a =
     Some (client_state_calling, C_act_non_invite_resend)"
  "client_outcome non_invite_client_states client_state_proceeding client_input_timer_a =
     Some (client_state_proceeding, C_act_non_invite_resend)"
  by (simp_all add: invite_table non_invite_table)

lemmas init_defs = c_Init_send_def c_Send_def c_initFSM_def c_initNonInviteFSM_def c_initInviteFSM_def
  init_phase_def c_Init_timers_def c_fire_def c_spawn_def c_Receive_def response_input_def c_run_spawned_def
  c_passUp_def select_send_running make_chan_def chan_cap_def new_client_def c_reset_a_def Let_def

context client_lib
begin

lemma non_invite_machine: "define_fsm non_invite_client_states =
    Some \<lparr>fsm_states = non_invite_client_states, fsm_current = client_state_calling\<rparr>"
  using define_ok [of non_invite_client_states] by (simp add: non_invite_client_states_def)

text \<open>One call of \<open>Spin\<close> in a given state.\<close>

lemma spin_invite:
  "cfsm tx = Some \<lparr>fsm_states = invite_client_states, fsm_current = st\<rparr> \<Longrightarrow>
   c_Spin spin E i tx = go_bind (client_turns invite_client_states E st i tx)
     (\<lambda>(e, st') t. Ret e (t\<lparr>cfsm := Some \<lparr>fsm_states = invite_client_states, fsm_current = st'\<rparr>\<rparr>))"
  by (rule c_Spin_turns [OF _ client_tables_short(1)])

lemma spin_non_invite:
  "cfsm tx = Some \<lparr>fsm_states = non_invite_client_states, fsm_current = st\<rparr> \<Longrightarrow>
   c_Spin spin E i tx = go_bind (client_turns non_invite_client_states E st i tx)
     (\<lambda>(e, st') t. Ret e (t\<lparr>cfsm := Some \<lparr>fsm_states = non_invite_client_states, fsm_current = st'\<rparr>\<rparr>))"
  by (rule c_Spin_turns [OF _ client_tables_short(2)])

lemma non_invite_race:
  assumes "new_client tx" and "\<not> IsInvite (corigin tx)" and "\<not> creliable tx"
    and "IsProvisional res" and "\<not> response_IsCancel res" and send: "\<And>m. tpl_Send E m = None"
  shows "\<exists>s'. client_run define_fsm spin
    [(E, EvInit), (E, EvTimers), (E, EvFire CTimer_A), (E, EvReceive (Res res)), (E, EvRun client_input_timer_a)]
    (Created, tx) = Some (Panic s')"
  using assms(1-5)
  by (simp add: init_defs non_invite_machine send spin_non_invite client_turns_def table_entries
      c_act_passup_def c_act_non_invite_resend_def)

lemma terminate_race:
  assumes "new_client tx" and "IsInvite (corigin tx)" and "\<not> creliable tx" and send: "\<And>m. tpl_Send E m = None"
  shows "\<exists>s'. client_run define_fsm spin
    [(E, EvInit), (E, EvTimers), (E, EvFire CTimer_A), (E, EvTerminate), (E, EvRun client_input_timer_a)]
    (Created, tx) = Some (Panic s')"
  using assms(1-3)
  by (simp add: init_defs invite_machine send spin_invite client_turns_def table_entries
      c_act_invite_resend_def c_Terminate_def c_delete_def c_close_all_def)

lemma passup_race:
  assumes "new_client tx" and "IsInvite (corigin tx)" and "IsProvisional res" and "\<not> response_IsCancel res"
    and send: "\<And>m. tpl_Send E m = None" and pick: "\<not> pick_done E"
  shows "\<exists>s'. client_run define_fsm spin
    [(E, EvInit), (E, EvTimers), (E, EvTerminate), (E, EvReceive (Res res))] (Created, tx) = Some (Panic s')"
  using assms(1-4)
  by (simp add: init_defs invite_machine send spin_invite client_turns_def table_entries pick select_send_def
      c_act_invite_proceeding_def c_Terminate_def c_delete_def c_close_all_def)

lemma init_race:
  assumes "new_client tx" and "IsInvite (corigin tx)" and "IsProvisional res" and "\<not> response_IsCancel res"
    and send: "\<And>m. tpl_Send E m = None"
  shows "\<exists>tx'. client_run define_fsm spin
    [(E, EvInit), (E, EvReceive (Res res)), (E, EvTimers), (E, EvFire CTimer_B), (E, EvRun client_input_timer_b)]
    (Created, tx) = Some (Ret () (Running, tx')) \<and> cdone tx' \<and> buf (cresponses tx') = [res] \<and>
    buf (cerrs tx') = [TxTimeoutError (ckey tx)]"
  using assms(1-4)
  by (simp add: init_defs invite_machine send spin_invite client_turns_def table_entries
      c_act_invite_proceeding_def c_act_timeout_def c_timeoutErr_def c_send_err_def c_act_delete_def
      c_delete_def c_close_all_def)

end

section \<open>Accepted without timer M\<close>

definition stuck :: "clientTx \<Rightarrow> bool" where
  "stuck tx \<longleftrightarrow> cfsm tx = Some \<lparr>fsm_states = invite_client_states, fsm_current = client_state_accepted\<rparr> \<and> live tx
     \<and> timer_m tx = None \<and> client_input_timer_m \<notin> set (cspawned tx)"

lemma accepted_outcome:
  assumes "client_outcome invite_client_states client_state_accepted i = Some (st, act)" and "i \<noteq> client_input_timer_m"
  shows "st = client_state_accepted \<and> act \<in> {C_NO_ACTION, C_act_passup, C_act_trans_err_stay}"
  using assms by (cases i) (auto simp: invite_table)

lemma stuck_effect:
  assumes "stuck tx" and "quiet tx t" and "act \<in> {C_NO_ACTION, C_act_passup, C_act_trans_err_stay}"
  shows "stuck (effect act t)"
proof -
  have "stuck t" using assms(1,2) by (auto simp: stuck_def live_def quiet_def)
  then show ?thesis using assms(3) by (auto simp: stuck_def live_def)
qed

lemma stuck_same [simp]:
  "stuck (tx\<lparr>cspawned := remove1 i (cspawned tx)\<rparr>)" "stuck (tx\<lparr>clastResp := r\<rparr>)" "stuck (c_Init_timers tx)"
  "stuck (c_take_response tx)" "stuck (c_take_error tx)" if "stuck tx"
  using that notin_set_remove1 [of client_input_timer_m "cspawned tx" i]
  by (auto simp: stuck_def live_def c_Init_timers_def c_take_response_def c_take_error_def Let_def)

lemma stuck_fire: "stuck tx \<Longrightarrow> is_armed (client_timer_field t tx) \<Longrightarrow> stuck (c_fire t tx)"
  by (cases t) (auto simp: stuck_def live_def c_fire_def c_spawn_def Let_def)

context client_lib
begin

lemma stuck_spin:
  assumes "stuck tx" and "i \<noteq> client_input_timer_m"
  shows "go_post (c_Spin spin E i tx) (\<lambda>_ t. stuck t)"
proof -
  have f: "cfsm tx = Some \<lparr>fsm_states = invite_client_states, fsm_current = client_state_accepted\<rparr>" and l: "live tx"
    using assms(1) by (simp_all add: stuck_def)
  have "go_post (client_turns invite_client_states E client_state_accepted i tx)
      (\<lambda>(e, st) t. st = client_state_accepted \<and> stuck t)"
  proof (cases "client_outcome invite_client_states client_state_accepted i")
    case None
    with assms(1) show ?thesis by (simp add: turns_invalid)
  next
    case (Some x)
    then obtain st act where o: "client_outcome invite_client_states client_state_accepted i = Some (st, act)"
      by (cases x) simp
    with assms(2) have a: "st = client_state_accepted" "act \<in> {C_NO_ACTION, C_act_passup, C_act_trans_err_stay}"
      using accepted_outcome by blast+
    then have "act_pre act tx" "act_next act = None" by (auto simp: act_pre_def)
    from turns_effect [OF l o this] show ?thesis
      by (rule go_post_mono) (use a stuck_effect [OF assms(1)] in auto)
  qed
  then show ?thesis
    unfolding spin_invite [OF f] go_post_bind
    by (rule go_post_mono) (auto simp: stuck_def live_def)
qed

lemma stuck_event:
  assumes "stuck tx" and "ph \<noteq> Created" and "ev \<noteq> EvTerminate" and "client_enabled ev (ph, tx)"
  shows "go_post (client_exec define_fsm spin E ev (ph, tx)) (\<lambda>_ s'. stuck (snd s') \<and> fst s' \<noteq> Created)"
proof (cases ev)
  case (EvRun i)
  then have "i \<noteq> client_input_timer_m" using assms by (auto simp: stuck_def)
  with EvRun assms(2) stuck_same(1) [OF assms(1), of i] show ?thesis
    by (auto simp: in_phase_post c_run_spawned_def intro: go_post_mono [OF stuck_spin])
next
  case (EvReceive msg)
  with assms(1,2) show ?thesis
    by (cases msg) (auto simp: in_phase_post c_Receive_def response_input_def intro!: go_post_mono [OF stuck_spin])
next
  case EvCancel
  with assms(1,2) show ?thesis by (auto simp: in_phase_post c_Cancel_def intro!: go_post_mono [OF stuck_spin])
qed (use assms stuck_fire in auto)

lemma stuck_run:
  assumes "stuck tx" and "ph \<noteq> Created" and "\<forall>(E, ev)\<in>set evs. ev \<noteq> EvTerminate"
    and "client_run define_fsm spin evs (ph, tx) = Some (Ret () (ph', tx'))"
  shows "stuck tx'"
  using assms
proof (induction evs arbitrary: ph tx)
  case (Cons x evs)
  obtain E ev where x: "x = (E, ev)" by (cases x)
  with Cons.prems have en: "client_enabled ev (ph, tx)" "ev \<noteq> EvTerminate" by (auto split: if_splits)
  from stuck_event [OF Cons.prems(1,2) en(2,1), of E] Cons.prems(4) en obtain s where
    s: "client_exec define_fsm spin E ev (ph, tx) = Ret () s" "stuck (snd s)" "fst s \<noteq> Created"
    by (cases "client_exec define_fsm spin E ev (ph, tx)") (auto simp: x)
  show ?case
    using Cons.IH [of "snd s" "fst s"] s Cons.prems(3,4) en by (simp add: x)
qed simp

text \<open>A 2xx in Proceeding leads there.\<close>

lemma proceeding_2xx_stuck:
  assumes "cfsm tx = Some \<lparr>fsm_states = invite_client_states, fsm_current = client_state_proceeding\<rparr>" and "live tx"
    and "timer_m tx = None" and "client_input_timer_m \<notin> set (cspawned tx)"
    and "response_ready res" and "IsSuccess res" and "\<not> response_IsCancel res"
  shows "go_post (c_Receive spin E (Res res) tx) (\<lambda>_ t. stuck t)"
proof -
  let ?tx = "tx\<lparr>clastResp := Some res\<rparr>"
  have f: "cfsm ?tx = Some \<lparr>fsm_states = invite_client_states, fsm_current = client_state_proceeding\<rparr>"
    using assms(1) by simp
  have l: "live ?tx" and p: "act_pre C_act_invite_final ?tx" using assms(2,5) by (auto simp: live_def act_pre_def)
  have i: "response_input res = client_input_2xx"
    using assms(6) by (auto simp: response_input_def IsSuccess_def IsProvisional_def)
  have "go_post (c_Spin spin E client_input_2xx ?tx) (\<lambda>_ t. stuck t)"
    unfolding spin_invite [OF f] go_post_bind
    by (rule go_post_mono [OF turns_effect [OF l table_entries(4) p]])
       (use assms(2-4) in \<open>auto simp: stuck_def live_def quiet_def\<close>)
  with assms(7) i show ?thesis by (simp add: c_Receive_def)
qed

end

section \<open>Retransmissions\<close>

text \<open>One round: timer A fires, its callback runs, the request is sent again.\<close>

definition resend_round :: "env \<Rightarrow> (env \<times> client_event) list" where
  "resend_round E = [(E, EvFire CTimer_A), (E, EvRun client_input_timer_a)]"

definition resent :: "duration \<Rightarrow> nat \<Rightarrow> clientTx \<Rightarrow> clientTx" where
  "resent d n tx = tx\<lparr>timer_a_time := d, timer_a := Some \<lparr>armed = True, period = d\<rparr>, clastErr := None,
     csent := csent tx @ replicate n (Req (corigin tx))\<rparr>"

lemma client_run_append:
  "client_run define_fsm spin (evs @ evs') s =
     (case client_run define_fsm spin evs s of Some (Ret _ s') \<Rightarrow> client_run define_fsm spin evs' s' | r \<Rightarrow> r)"
  by (induction evs arbitrary: s) (auto split: go.splits)

lemma resent_resent: "resent d' m (resent d n tx) = resent d' (n + m) tx"
  by (simp add: resent_def replicate_add)

lemma wrap64_nonneg: "0 \<le> x \<Longrightarrow> x < 2 ^ 63 \<Longrightarrow> wrap64 x = x"
  by (simp add: wrap64_id)

lemma wrap64_double: "n < 34 \<Longrightarrow> wrap64 (T1 * 2 ^ n * 2) = T1 * 2 ^ Suc n"
proof -
  assume "n < 34"
  then have "(2::int) ^ n \<le> 2 ^ 33" by (intro power_increasing) auto
  then show ?thesis by (intro trans [OF wrap64_nonneg]) (simp_all add: timer_values)
qed

context client_lib
begin

lemma invite_round:
  assumes "cfsm tx = Some \<lparr>fsm_states = invite_client_states, fsm_current = client_state_calling\<rparr>" and "\<not> cdone tx"
    and "client_input_timer_a \<notin> set (cspawned tx)" and send: "\<And>m. tpl_Send E m = None"
  shows "client_run define_fsm spin (resend_round E) (ph, resent d n tx) =
    Some (Ret () (ph, resent (wrap64 (d * 2)) (Suc n) tx))"
  using assms(1-3)
  by (simp add: resend_round_def resent_def is_armed_def c_fire_def c_spawn_def Let_def c_run_spawned_def spin_invite
      client_turns_def table_entries c_act_invite_resend_def c_reset_a_def c_resend_def c_Send_def send
      disarm_def timer_Reset_def remove1_append replicate_append_same)

lemma non_invite_round:
  assumes "cfsm tx = Some \<lparr>fsm_states = non_invite_client_states, fsm_current = client_state_calling\<rparr>" and "\<not> cdone tx"
    and "client_input_timer_a \<notin> set (cspawned tx)" and send: "\<And>m. tpl_Send E m = None"
  shows "client_run define_fsm spin (resend_round E) (ph, resent d n tx) =
    Some (Ret () (ph, resent (if T2 < wrap64 (d * 2) then T2 else wrap64 (d * 2)) (Suc n) tx))"
  using assms(1-3)
  by (simp add: resend_round_def resent_def is_armed_def c_fire_def c_spawn_def Let_def c_run_spawned_def spin_non_invite
      client_turns_def table_entries c_act_non_invite_resend_def c_reset_a_def c_resend_def c_Send_def send
      disarm_def timer_Reset_def remove1_append replicate_append_same)

lemma invite_rounds:
  assumes "cfsm tx = Some \<lparr>fsm_states = invite_client_states, fsm_current = client_state_calling\<rparr>" and "\<not> cdone tx"
    and "client_input_timer_a \<notin> set (cspawned tx)" and "\<And>m. tpl_Send E m = None" and "n \<le> 34"
  shows "client_run define_fsm spin (concat (replicate n (resend_round E))) (ph, resent T1 0 tx) =
    Some (Ret () (ph, resent (T1 * 2 ^ n) n tx))"
  using assms(5)
proof (induction n)
  case (Suc n)
  have "concat (replicate (Suc n) (resend_round E)) = concat (replicate n (resend_round E)) @ resend_round E"
    by (metis concat_append concat.simps append_Nil2 replicate_Suc replicate_append_same)
  with Suc show ?case
    by (simp add: client_run_append invite_round [OF assms(1-4)] wrap64_double del: replicate_Suc power_Suc)
qed simp

lemma non_invite_rounds:
  assumes "cfsm tx = Some \<lparr>fsm_states = non_invite_client_states, fsm_current = client_state_calling\<rparr>" and "\<not> cdone tx"
    and "client_input_timer_a \<notin> set (cspawned tx)" and "\<And>m. tpl_Send E m = None"
  shows "client_run define_fsm spin (concat (replicate n (resend_round E))) (ph, resent T1 0 tx) =
    Some (Ret () (ph, resent (min (T1 * 2 ^ n) T2) n tx))"
proof (induction n)
  case 0
  then show ?case by (simp add: timer_values)
next
  case (Suc n)
  have c: "concat (replicate (Suc n) (resend_round E)) = concat (replicate n (resend_round E)) @ resend_round E"
    by (metis concat_append concat.simps append_Nil2 replicate_Suc replicate_append_same)
  have "wrap64 (min (T1 * 2 ^ n) T2 * 2) = min (T1 * 2 ^ n) T2 * 2"
    by (rule wrap64_nonneg) (auto simp: timer_values min_def)
  then have "(if T2 < wrap64 (min (T1 * 2 ^ n) T2 * 2) then T2 else wrap64 (min (T1 * 2 ^ n) T2 * 2)) = min (T1 * 2 ^ Suc n) T2"
    by (auto simp: timer_values min_def)
  with Suc c show ?case
    by (simp add: client_run_append non_invite_round [OF assms] del: replicate_Suc power_Suc)
qed

end

lemma ex_response_facts [simp]:
  "\<not> response_IsCancel (ex_response m code)" if "m \<noteq> CANCEL"
  using that by (simp add: response_IsCancel_def ex_response_def NewResponse_def)

lemma ex_status [simp]: "IsProvisional (ex_response m 180)" "IsSuccess (ex_response m 200)"
  by (simp_all add: IsProvisional_def IsSuccess_def ex_response_def NewResponse_def)

lemma ex_env_sends [simp]: "tpl_Send ex_env m = None" "\<not> pick_done ex_env"
  by (simp_all add: ex_env_def)

lemma ex_options_created: "NewClientTx [] (\<lambda>_. False) (ex_request ''OPTIONS'') = Ok (ex_client (ex_request ''OPTIONS''))"
  by (simp add: ex_client_created)

definition ex_proceeding :: clientTx where
  "ex_proceeding = (ex_client (ex_request INVITE))\<lparr>cfsm := Some \<lparr>fsm_states = invite_client_states,
     fsm_current = client_state_proceeding\<rparr>\<rparr>"

lemma ex_proceeding_facts [simp]:
  "live ex_proceeding" "cfsm ex_proceeding = Some \<lparr>fsm_states = invite_client_states, fsm_current = client_state_proceeding\<rparr>"
  "timer_m ex_proceeding = None" "cspawned ex_proceeding = []"
  by (simp_all add: ex_proceeding_def ex_client_def live_def make_chan_def)

section \<open>Properties\<close>

text \<open>C33: An INVITE client transaction that gets a 2xx response in Proceeding is never done, whatever
  happens later, unless its user calls \<open>Terminate\<close>: the action for this response starts timer D, which
  Accepted has no entry for, and not timer M.\<close>

theorem invite_2xx_after_1xx_never_ends:
  assumes "fsm_lib define_fsm spin" and "live tx"
    and "cfsm tx = Some \<lparr>fsm_states = invite_client_states, fsm_current = client_state_proceeding\<rparr>"
    and "timer_m tx = None" and "client_input_timer_m \<notin> set (cspawned tx)"
    and "response_ready res" and "IsSuccess res" and "\<not> response_IsCancel res"
    and "c_Receive spin E (Res res) tx = Ret e tx1" and "\<forall>(E, ev)\<in>set evs. ev \<noteq> EvTerminate"
    and "client_run define_fsm spin evs (Running, tx1) = Some (Ret () (ph, tx2))"
  shows "\<not> cdone tx2 \<and> cfsm tx2 = Some \<lparr>fsm_states = invite_client_states, fsm_current = client_state_accepted\<rparr>"
proof -
  note lib = client_lib.intro [OF assms(1)]
  have "stuck tx1" using client_lib.proceeding_2xx_stuck [OF lib assms(3,2,4-8), of E] assms(9) by simp
  then have "stuck tx2" using client_lib.stuck_run [OF lib _ _ assms(10,11)] by simp
  then show ?thesis by (simp add: stuck_def live_def)
qed

theorem invite_2xx_after_1xx_never_ends_witness:
  "\<exists>e tx1 ph tx2. c_Receive fsm_Spin ex_env (Res (ex_response INVITE 200)) ex_proceeding = Ret e tx1 \<and>
     client_run fsm_Define fsm_Spin [(ex_env, EvFire CTimer_D), (ex_env, EvRun client_input_timer_d)] (Running, tx1) =
       Some (Ret () (ph, tx2)) \<and> \<not> cdone tx2"
proof -
  obtain a where a: "NewAckRequest (fresh_id ex_env) (GenerateBranch (fresh_branch ex_env)) [] (ex_request INVITE)
      (ex_response INVITE 200) [] = Ok a"
    using NewAckRequest_total [OF ex_ready] by blast
  have ri: "response_input (ex_response INVITE 200) = client_input_2xx"
    by (simp add: response_input_def IsProvisional_def IsSuccess_def ex_response_def NewResponse_def)
  obtain e tx1 where r: "c_Receive fsm_Spin ex_env (Res (ex_response INVITE 200)) ex_proceeding = Ret e tx1"
    and d: "is_armed (timer_d tx1)" "\<not> cdone tx1" "cspawned tx1 = []"
      "cfsm tx1 = Some \<lparr>fsm_states = invite_client_states, fsm_current = client_state_accepted\<rparr>"
    by (simp add: c_Receive_def ri cl.spin_invite client_turns_def
        table_entries c_act_invite_final_def c_ack_def c_send_request_def c_Send_def c_passUp_def select_send_running
        ex_proceeding_def ex_client_def make_chan_def chan_cap_def a)
  have n: "client_outcome invite_client_states client_state_accepted client_input_timer_d = None"
    by (simp add: invite_table)
  obtain tx2 where run: "client_run fsm_Define fsm_Spin [(ex_env, EvFire CTimer_D), (ex_env, EvRun client_input_timer_d)]
      (Running, tx1) = Some (Ret () (Running, tx2))"
    using d n by (simp add: c_fire_def c_spawn_def Let_def c_run_spawned_def cl.spin_invite turns_invalid)
  have "\<not> cdone tx2"
    using invite_2xx_after_1xx_never_ends [OF fl.fsm_lib_axioms _ _ _ _ _ _ _ r _ run] by simp
  with r run show ?thesis by blast
qed

text \<open>For every non-INVITE client transaction over an unreliable transport there is an interleaving
  that panics: timer A fires, a provisional response is received before its callback has spun the
  machine, and the callback then resets the timer that the response has set to nil.\<close>

theorem non_invite_timer_a_panics:
  assumes "fsm_lib define_fsm spin" and "NewClientTx rand rel req = Ok tx" and "\<not> IsInvite (corigin tx)"
    and "\<not> creliable tx" and "IsProvisional res" and "\<not> response_IsCancel res" and "\<And>m. tpl_Send E m = None"
  shows "\<exists>s'. client_run define_fsm spin
    [(E, EvInit), (E, EvTimers), (E, EvFire CTimer_A), (E, EvReceive (Res res)), (E, EvRun client_input_timer_a)]
    (Created, tx) = Some (Panic s')"
  using client_lib.non_invite_race [OF client_lib.intro [OF assms(1)] NewClientTx_new [OF assms(2)] assms(3-)] .

theorem non_invite_timer_a_panics_witness:
  "\<exists>s'. client_run fsm_Define fsm_Spin
    [(ex_env, EvInit), (ex_env, EvTimers), (ex_env, EvFire CTimer_A), (ex_env, EvReceive (Res (ex_response ''OPTIONS'' 180))),
     (ex_env, EvRun client_input_timer_a)] (Created, ex_client (ex_request ''OPTIONS'')) = Some (Panic s')"
  by (rule non_invite_timer_a_panics [OF fl.fsm_lib_axioms ex_options_created]) simp_all

text \<open>For an INVITE client transaction, a call of \<open>Terminate\<close> makes the following panic: the
  callback of a timer A that has already fired, and, by the choice of \<open>select\<close> between the two ready
  cases, the receipt of a provisional response.\<close>

theorem invite_terminate_panics:
  assumes "fsm_lib define_fsm spin" and "NewClientTx rand rel req = Ok tx" and "IsInvite (corigin tx)"
    and "\<not> creliable tx" and "IsProvisional res" and "\<not> response_IsCancel res" and "\<And>m. tpl_Send E m = None"
    and "\<not> pick_done E"
  shows "(\<exists>s'. client_run define_fsm spin
      [(E, EvInit), (E, EvTimers), (E, EvFire CTimer_A), (E, EvTerminate), (E, EvRun client_input_timer_a)]
      (Created, tx) = Some (Panic s')) \<and>
    (\<exists>s'. client_run define_fsm spin
      [(E, EvInit), (E, EvTimers), (E, EvTerminate), (E, EvReceive (Res res))] (Created, tx) = Some (Panic s'))"
  using client_lib.terminate_race [OF client_lib.intro [OF assms(1)] NewClientTx_new [OF assms(2)] assms(3,4,7)]
    client_lib.passup_race [OF client_lib.intro [OF assms(1)] NewClientTx_new [OF assms(2)] assms(3,5-8)]
  by blast

theorem invite_terminate_panics_witness:
  "\<exists>s'. client_run fsm_Define fsm_Spin
    [(ex_env, EvInit), (ex_env, EvTimers), (ex_env, EvFire CTimer_A), (ex_env, EvTerminate), (ex_env, EvRun client_input_timer_a)]
    (Created, ex_client (ex_request INVITE)) = Some (Panic s')"
  using invite_terminate_panics [OF fl.fsm_lib_axioms ex_invite_created, of "ex_response INVITE 180" ex_env] by simp

text \<open>When a provisional response arrives after \<open>Init\<close> has sent the INVITE and before it has
  started the timers, timer B is started although the transaction is in Proceeding, and ends it with
  a timeout after the response was passed up.\<close>

theorem invite_init_race_times_out:
  assumes "fsm_lib define_fsm spin" and "NewClientTx rand rel req = Ok tx" and "IsInvite (corigin tx)"
    and "IsProvisional res" and "\<not> response_IsCancel res" and "\<And>m. tpl_Send E m = None"
  shows "\<exists>tx'. client_run define_fsm spin
    [(E, EvInit), (E, EvReceive (Res res)), (E, EvTimers), (E, EvFire CTimer_B), (E, EvRun client_input_timer_b)]
    (Created, tx) = Some (Ret () (Running, tx')) \<and> cdone tx' \<and> buf (cresponses tx') = [res] \<and>
    buf (cerrs tx') = [TxTimeoutError (ckey tx)]"
  using client_lib.init_race [OF client_lib.intro [OF assms(1)] NewClientTx_new [OF assms(2)] assms(3-)] .

theorem invite_init_race_times_out_witness:
  "\<exists>tx'. client_run fsm_Define fsm_Spin
    [(ex_env, EvInit), (ex_env, EvReceive (Res (ex_response INVITE 180))), (ex_env, EvTimers), (ex_env, EvFire CTimer_B),
     (ex_env, EvRun client_input_timer_b)] (Created, ex_client (ex_request INVITE)) = Some (Ret () (Running, tx')) \<and> cdone tx'"
  using invite_init_race_times_out [OF fl.fsm_lib_axioms ex_invite_created, of "ex_response INVITE 180" ex_env] by auto

text \<open>C32: As long as sending succeeds and nothing else happens, the n-th retransmission of a request
  waits T1 times 2 to the n for INVITE (no overflow of the duration up to n = 34), and the smaller of
  that and T2 for other methods; every round sends the request once.\<close>

theorem retransmission_intervals:
  assumes "fsm_lib define_fsm spin" and "\<not> cdone tx" and "client_input_timer_a \<notin> set (cspawned tx)"
    and "\<And>m. tpl_Send E m = None"
  shows "(cfsm tx = Some \<lparr>fsm_states = invite_client_states, fsm_current = client_state_calling\<rparr> \<and> n \<le> 34 \<longrightarrow>
      client_run define_fsm spin (concat (replicate n (resend_round E))) (ph, resent T1 0 tx) =
        Some (Ret () (ph, resent (T1 * 2 ^ n) n tx))) \<and>
    (cfsm tx = Some \<lparr>fsm_states = non_invite_client_states, fsm_current = client_state_calling\<rparr> \<longrightarrow>
      client_run define_fsm spin (concat (replicate n (resend_round E))) (ph, resent T1 0 tx) =
        Some (Ret () (ph, resent (min (T1 * 2 ^ n) T2) n tx)))"
  using client_lib.invite_rounds [OF client_lib.intro [OF assms(1)] _ assms(2-4)]
    client_lib.non_invite_rounds [OF client_lib.intro [OF assms(1)] _ assms(2-4)] by blast

theorem retransmission_intervals_witness:
  "client_run fsm_Define fsm_Spin (concat (replicate 6 (resend_round ex_env))) (Running, resent T1 0 ex_sending) =
     Some (Ret () (Running, resent (T1 * 64) 6 ex_sending))"
  using retransmission_intervals [OF fl.fsm_lib_axioms, of ex_sending ex_env 6 Running]
  by (simp add: ex_sending_def ex_client_def)

end
