(* ===== verification/ServerSafety.thy ===== *)
theory ServerSafety
  imports ServerTx
begin

text \<open>
  Safety of server transactions.  First, a call of \<open>Spin\<close> on one of the two server machines
  makes at most four turns.  Then an invariant in every interleaving without \<open>Terminate\<close>, from
  which it follows that no operation panics, and that a timer or a waiting callback will end the states
  Completed and Confirmed.
\<close>

section \<open>Turns of the machines\<close>

definition server_table_of :: "bool \<Rightarrow> server_table" where
  "server_table_of invite = (if invite then invite_server_states else non_invite_server_states)"

definition server_outcome :: "server_table \<Rightarrow> server_state \<Rightarrow> server_input \<Rightarrow> (server_state \<times> server_action) option" where
  "server_outcome tbl st i = fsm_outcome \<lparr>fsm_states = tbl, fsm_current = st\<rparr> i"

text \<open>The inputs that an action may return.\<close>

fun server_nexts :: "server_action \<Rightarrow> server_input list" where
  "server_nexts S_act_respond = [server_input_transport_err]"
| "server_nexts S_act_respond_complete = [server_input_transport_err]"
| "server_nexts S_act_respond_accept = [server_input_transport_err]"
| "server_nexts S_act_final = [server_input_transport_err]"
| "server_nexts S_act_respond_delete = [server_input_transport_err]"
| "server_nexts S_act_trans_err = [server_input_delete]"
| "server_nexts S_act_timeout = [server_input_delete]"
| "server_nexts S_act_confirm = [server_input_request]"
| "server_nexts S_act_cancel = [server_input_request]"
| "server_nexts _ = []"

lemmas server_act_defs = s_act_respond_def s_act_respond_complete_def s_act_respond_accept_def
  s_act_passup_ack_def s_act_final_def s_act_trans_err_def s_act_timeout_def s_act_delete_def
  s_act_respond_delete_def s_act_confirm_def s_act_cancel_def

lemma go_recover_Ret_iff: "go_recover z r = Ret a t \<longleftrightarrow> r = Ret a t \<or> (r = Panic t \<and> a = z)"
  by (cases r) auto

lemma s_pass_ack_Ret: "s_pass_ack E tx = Ret r t \<Longrightarrow> r = None"
  by (auto simp: s_pass_ack_def split: option.splits select_result.splits)

lemma s_respond_then_Ret:
  "s_respond_then E k tx = Ret r t \<Longrightarrow> (\<And>u r t. k u = Ret r t \<Longrightarrow> r = None) \<Longrightarrow>
   r = None \<or> r = Some server_input_transport_err"
  by (auto simp: s_respond_then_def Let_def split: option.splits prod.splits if_splits)

lemma run_server_next:
  "run_server E act tx = Ret r t \<Longrightarrow> r = None \<or> (\<exists>j \<in> set (server_nexts act). r = Some j)"
  by (cases act)
     (auto simp: server_act_defs go_bind_Ret_iff go_recover_Ret_iff s_Send_def Let_def dest!: s_respond_then_Ret s_pass_ack_Ret
       split: option.splits select_result.splits if_splits prod.splits)

lemma s_respond_then_ends: "(\<And>u. k u \<noteq> Diverge) \<Longrightarrow> s_respond_then E k tx \<noteq> Diverge"
  by (auto simp: s_respond_then_def Let_def split: option.splits prod.splits)

lemma server_helpers_end [simp]:
  "s_send_err E e tx \<noteq> Diverge" "s_pass_ack E tx \<noteq> Diverge" "s_close_all tx \<noteq> Diverge"
  by (auto simp: s_send_err_def s_pass_ack_def s_close_all_def Let_def split: option.splits select_result.splits)

lemma go_recover_ends [simp]: "go_recover z r = Diverge \<longleftrightarrow> r = Diverge"
  by (cases r) simp_all

lemma run_server_ends [simp]: "run_server E act tx \<noteq> Diverge"
  by (cases act)
     (auto simp: server_act_defs s_transportErr_def s_timeoutErr_def s_delete_def go_bind_Diverge_iff Let_def
       dest!: s_respond_then_ends [THEN notE, rotated] split: option.splits select_result.splits prod.splits)

fun chain_bound :: "nat \<Rightarrow> server_table \<Rightarrow> server_state \<Rightarrow> server_input \<Rightarrow> bool" where
  "chain_bound 0 tbl st i = False"
| "chain_bound (Suc n) tbl st i =
     (case server_outcome tbl st i of
        None \<Rightarrow> True
      | Some (st1, act) \<Rightarrow> list_all (chain_bound n tbl st1) (server_nexts act))"

lemma chain_bound_turns:
  "chain_bound n tbl st i \<Longrightarrow> fsm_turns n (run_server E) \<lparr>fsm_states = tbl, fsm_current = st\<rparr> tx i \<noteq> Diverge"
proof (induction n arbitrary: st i tx)
  case (Suc n)
  show ?case
  proof (cases "server_outcome tbl st i")
    case None
    then show ?thesis by (simp add: server_outcome_def)
  next
    case (Some x)
    then obtain st1 act where o: "server_outcome tbl st i = Some (st1, act)" by (cases x) simp
    have "fsm_turns n (run_server E) \<lparr>fsm_states = tbl, fsm_current = st1\<rparr> t j \<noteq> Diverge"
      if "run_server E act tx = Ret (Some j) t" for j t
      using Suc o run_server_next [OF that] by (auto simp: list_all_iff)
    with o show ?thesis
      by (auto simp: server_outcome_def go_bind_Diverge_iff split: option.splits)
  qed
qed simp

definition all_server_states :: "server_state list" where
  "all_server_states = [server_state_trying, server_state_proceeding, server_state_completed,
     server_state_confirmed, server_state_accepted, server_state_terminated]"

definition all_server_inputs :: "server_input list" where
  "all_server_inputs = [server_input_request, server_input_ack, server_input_cancel, server_input_user_1xx,
     server_input_user_2xx, server_input_user_300_plus, server_input_timer_g, server_input_timer_h,
     server_input_timer_i, server_input_timer_j, server_input_timer_l, server_input_transport_err,
     server_input_delete]"

lemma all_server [simp]: "st \<in> set all_server_states" "i \<in> set all_server_inputs"
  by (cases st; simp add: all_server_states_def) (cases i; simp add: all_server_inputs_def)

lemma server_chains: "chain_bound 4 (server_table_of isinv) st i"
proof -
  have "list_all (\<lambda>b. list_all (\<lambda>st. list_all (chain_bound 4 (server_table_of b) st) all_server_inputs)
      all_server_states) [True, False]"
    by code_simp
  then show ?thesis by (cases isinv) (auto simp: list_all_iff)
qed

locale server_lib = fsm_lib define_fsm spin
  for define_fsm :: server_define and spin :: server_spin
begin

lemma s_Spin_turns:
  assumes "sfsm tx = Some \<lparr>fsm_states = server_table_of isinv, fsm_current = st\<rparr>"
  shows "s_Spin spin E i tx =
    go_bind (fsm_turns 4 (run_server E) \<lparr>fsm_states = server_table_of isinv, fsm_current = st\<rparr> tx i)
      (\<lambda>(e, f) t. Ret (map_option InvalidInput e) (t\<lparr>sfsm := Some f\<rparr>))"
  using assms spin_turns [OF chain_bound_turns [OF server_chains]] by (simp add: s_Spin_def)

lemma server_machine:
  "define_fsm (server_table_of isinv) = Some \<lparr>fsm_states = server_table_of isinv,
     fsm_current = (if isinv then server_state_proceeding else server_state_trying)\<rparr>"
  using define_ok [of "server_table_of isinv"]
  by (simp add: server_table_of_def invite_server_states_def non_invite_server_states_def)

end

interpretation sl: server_lib fsm_Define fsm_Spin
  by unfold_locales

section \<open>Effects of the actions\<close>

text \<open>What sending, passing up and reporting leave alone: everything but the buffers, the log of sent
  messages and the last error.\<close>

definition squiet :: "serverTx \<Rightarrow> serverTx \<Rightarrow> bool" where
  "squiet tx t \<longleftrightarrow> skey t = skey tx \<and> sorigin t = sorigin tx \<and> sfsm t = sfsm tx \<and> slastResp t = slastResp tx
     \<and> slastAck t = slastAck tx \<and> slastCancel t = slastCancel tx
     \<and> sdone t = sdone tx \<and> scloseOnce t = scloseOnce tx \<and> timer_g_time t = timer_g_time tx
     \<and> timer_g t = timer_g tx \<and> timer_h t = timer_h tx \<and> timer_i_time t = timer_i_time tx
     \<and> timer_i t = timer_i tx \<and> timer_j t = timer_j tx \<and> timer_1xx t = timer_1xx tx \<and> timer_l t = timer_l tx
     \<and> sreliable t = sreliable tx \<and> sspawned t = sspawned tx
     \<and> closed (sacks t) = closed (sacks tx) \<and> closed (scancels t) = closed (scancels tx)
     \<and> closed (serrs t) = closed (serrs tx)"

lemma squiet_refl [simp]: "squiet tx tx"
  by (simp add: squiet_def)

lemma squiet_trans: "squiet tx t \<Longrightarrow> squiet t u \<Longrightarrow> squiet tx u"
  by (simp add: squiet_def)

text \<open>A transaction that has not ended.\<close>

definition slive :: "serverTx \<Rightarrow> bool" where
  "slive tx \<longleftrightarrow> \<not> sdone tx \<and> \<not> scloseOnce tx \<and> \<not> closed (sacks tx) \<and> \<not> closed (scancels tx) \<and> \<not> closed (serrs tx)"

lemma slive_squiet: "slive tx \<Longrightarrow> squiet tx t \<Longrightarrow> slive t"
  by (simp add: slive_def squiet_def)

fun s_effect :: "server_action \<Rightarrow> serverTx \<Rightarrow> serverTx" where
  "s_effect S_act_respond_complete t =
     (if slastResp t = None then t else s_start_complete t)"
| "s_effect S_act_respond_accept t =
     (if slastResp t = None then t else t\<lparr>timer_l := Some (AfterFunc Timer_L)\<rparr>)"
| "s_effect S_act_final t =
     (if slastResp t = None then t else t\<lparr>timer_j := Some (AfterFunc Timer_J)\<rparr>)"
| "s_effect S_act_confirm t =
     t\<lparr>timer_g := None, timer_h := None, timer_i := Some (AfterFunc Timer_I)\<rparr>"
| "s_effect S_act_delete t =
     t\<lparr>scloseOnce := True, sdone := True, sacks := (sacks t)\<lparr>closed := True\<rparr>,
       scancels := (scancels t)\<lparr>closed := True\<rparr>, serrs := (serrs t)\<lparr>closed := True\<rparr>,
       timer_i := None, timer_g := None, timer_h := None, timer_j := None, timer_1xx := None\<rparr>"
| "s_effect _ t = t"

definition responds :: "server_action \<Rightarrow> bool" where
  "responds act \<longleftrightarrow> act \<in> {S_act_respond, S_act_respond_complete, S_act_respond_accept, S_act_final}"

definition act_post :: "server_action \<Rightarrow> serverTx \<Rightarrow> server_input option \<Rightarrow> serverTx \<Rightarrow> bool" where
  "act_post act tx r t \<longleftrightarrow> (\<exists>t0. squiet tx t0 \<and>
     (r = None \<and> act \<notin> {S_act_trans_err, S_act_timeout} \<and> t = s_effect act t0
      \<or> r = Some server_input_transport_err \<and> responds act \<and> t = t0
      \<or> r = Some server_input_delete \<and> act \<in> {S_act_trans_err, S_act_timeout} \<and> t = t0))"

lemma select_send_live:
  "select_send False pick ch x =
     (if closed ch then SendPanic else if length (buf ch) < chan_cap then Sent (ch\<lparr>buf := buf ch @ [x]\<rparr>) else SendBlock)"
  by (simp add: select_send_def Let_def)

lemma post_respond_then:
  assumes "\<And>t. squiet tx t \<Longrightarrow> slastResp tx \<noteq> None \<Longrightarrow> k t = Ret None (s_effect act t)"
    and "slastResp tx = None \<Longrightarrow> s_effect act tx = tx" and "responds act"
  shows "go_post (s_respond_then E k tx) (act_post act tx)"
proof (cases "slastResp tx")
  case None
  with assms(2,3) show ?thesis
    by (auto simp: s_respond_then_def act_post_def responds_def intro!: exI [of _ tx])
next
  case (Some res)
  let ?t = "tx\<lparr>ssent := ssent tx @ [Res res], slastErr := tpl_Send E (Res res)\<rparr>"
  have q: "squiet tx ?t" by (simp add: squiet_def)
  have "act_post act tx None (s_effect act ?t)" "act_post act tx (Some server_input_transport_err) ?t"
    unfolding act_post_def using q assms(3) by (auto simp: responds_def intro!: exI [of _ ?t])
  with Some assms(1) [OF q] show ?thesis by (auto simp: s_respond_then_def s_Send_def Let_def)
qed

lemma post_pass_ack:
  "slive tx \<Longrightarrow> go_post (s_pass_ack E tx) (\<lambda>r t. r = None \<and> squiet tx t)"
  by (auto simp: slive_def squiet_def s_pass_ack_def select_send_live split: option.split)

lemma s_delete_live: "slive tx \<Longrightarrow> s_delete tx = Ret () (s_effect S_act_delete tx)"
  by (simp add: slive_def s_delete_def s_close_all_def Let_def)

lemma post_confirm:
  assumes "slive tx"
  shows "go_post (s_act_confirm E tx) (act_post S_act_confirm tx)"
proof -
  let ?u = "s_effect S_act_confirm tx"
  have "slive ?u" using assms by (simp add: slive_def)
  from post_pass_ack [OF this, of E] have "go_post (s_act_confirm E tx) (\<lambda>r t. r = None \<and> squiet ?u t)"
    by (cases "s_pass_ack E ?u") (simp_all add: s_act_confirm_def)
  moreover have "act_post S_act_confirm tx None t" if "squiet ?u t" for t
    unfolding act_post_def using that
    by (intro exI [of _ "t\<lparr>timer_g := timer_g tx, timer_h := timer_h tx, timer_i := timer_i tx\<rparr>"]) (auto simp: squiet_def)
  ultimately show ?thesis by (auto elim!: go_post_mono)
qed

lemma post_report:
  "slive tx \<Longrightarrow> go_post (go_recover () (s_send_err E e tx)) (\<lambda>_ t. squiet tx t)"
  by (auto simp: slive_def squiet_def s_send_err_def select_send_live)

lemma run_server_effect:
  assumes "slive tx" and "act \<noteq> S_act_respond_delete"
  shows "go_post (run_server E act tx) (act_post act tx)"
proof (cases act)
  case S_act_respond
  show ?thesis unfolding S_act_respond run_server.simps s_act_respond_def
    by (rule post_respond_then) (simp_all add: responds_def)
next
  case S_act_respond_complete
  show ?thesis unfolding S_act_respond_complete run_server.simps s_act_respond_complete_def
    by (rule post_respond_then) (auto simp: responds_def Let_def squiet_def)
next
  case S_act_respond_accept
  show ?thesis unfolding S_act_respond_accept run_server.simps s_act_respond_accept_def
    by (rule post_respond_then) (auto simp: responds_def squiet_def)
next
  case S_act_final
  show ?thesis unfolding S_act_final run_server.simps s_act_final_def
    by (rule post_respond_then) (auto simp: responds_def squiet_def)
next
  case S_act_passup_ack
  have "go_post (s_pass_ack E tx) (act_post S_act_passup_ack tx)"
    by (rule go_post_mono [OF post_pass_ack [OF assms(1)]]) (auto simp: act_post_def)
  then show ?thesis by (simp add: S_act_passup_ack s_act_passup_ack_def)
next
  case S_act_confirm
  then show ?thesis using post_confirm [OF assms(1)] by simp
next
  case S_act_delete
  have "act_post S_act_delete tx None (s_effect S_act_delete tx)"
    unfolding act_post_def by (rule exI [of _ tx]) (simp del: s_effect.simps)
  then show ?thesis
    by (simp add: S_act_delete s_act_delete_def s_delete_live [OF assms(1)] del: s_effect.simps)
next
  case S_act_cancel
  show ?thesis
    using assms(1)
    by (auto simp: S_act_cancel s_act_cancel_def slive_def select_send_live act_post_def squiet_def
        split: option.split intro!: exI)
next
  case S_act_trans_err
  show ?thesis unfolding S_act_trans_err run_server.simps s_act_trans_err_def s_transportErr_def go_post_bind
    by (rule go_post_mono [OF post_report [OF assms(1)]]) (auto simp: act_post_def)
next
  case S_act_timeout
  show ?thesis unfolding S_act_timeout run_server.simps s_act_timeout_def s_timeoutErr_def go_post_bind
    by (rule go_post_mono [OF post_report [OF assms(1)]]) (auto simp: act_post_def)
qed (use assms(2) in \<open>auto simp: act_post_def intro!: exI [of _ tx]\<close>)

section \<open>The turns of one input\<close>

lemma server_outcome_delete: "server_outcome (server_table_of isinv) server_state_terminated server_input_delete =
    Some (server_state_terminated, S_act_delete)"
  by (simp add: server_outcome_def server_table_of_def fsm_outcome_def invite_server_states_def non_invite_server_states_def)

lemma turns_delete:
  "slive tx \<Longrightarrow> fsm_turns (Suc n) (run_server E) \<lparr>fsm_states = server_table_of isinv, fsm_current = server_state_terminated\<rparr>
     tx server_input_delete =
   Ret (None, \<lparr>fsm_states = server_table_of isinv, fsm_current = server_state_terminated\<rparr>) (s_effect S_act_delete tx)"
  using server_outcome_delete [of isinv]
  by (simp add: server_outcome_def s_act_delete_def s_delete_live del: s_effect.simps)

definition ended :: "server_table \<Rightarrow> serverTx \<Rightarrow> 'e option \<times> server_fsm \<Rightarrow> serverTx \<Rightarrow> bool" where
  "ended tbl tx r t \<longleftrightarrow> r = (None, \<lparr>fsm_states = tbl, fsm_current = server_state_terminated\<rparr>) \<and>
     (\<exists>t0. squiet tx t0 \<and> t = s_effect S_act_delete t0)"

lemma ended_squiet: "squiet tx t0 \<Longrightarrow> ended tbl t0 r t \<Longrightarrow> ended tbl tx r t"
  unfolding ended_def by (blast intro: squiet_trans)

lemma turns_trans_err:
  assumes "slive tx" and "server_outcome (server_table_of isinv) st server_input_transport_err =
      Some (server_state_terminated, S_act_trans_err)"
  shows "go_post (fsm_turns (Suc (Suc n)) (run_server E) \<lparr>fsm_states = server_table_of isinv, fsm_current = st\<rparr>
      tx server_input_transport_err) (ended (server_table_of isinv) tx)"
proof -
  have "act_post S_act_trans_err tx r t \<Longrightarrow> r = Some server_input_delete \<and> squiet tx t" for r t
    by (auto simp: act_post_def responds_def)
  then have "go_post (run_server E S_act_trans_err tx) (\<lambda>r t. r = Some server_input_delete \<and> squiet tx t)"
    by (intro go_post_mono [OF run_server_effect [OF assms(1)]]) simp_all
  then have "go_post (run_server E S_act_trans_err tx) (\<lambda>r t. r = Some server_input_delete \<and> slive t \<and> squiet tx t)"
    using slive_squiet [OF assms(1)] by (auto elim: go_post_mono)
  then show ?thesis
    unfolding fsm_turns_post [OF assms(2) [unfolded server_outcome_def]]
    by (rule go_post_mono) (auto simp: turns_delete ended_def simp del: s_effect.simps fsm_turns.simps)
qed

lemmas server_table = server_outcome_def server_table_of_def fsm_outcome_def invite_server_states_def
  non_invite_server_states_def

text \<open>What the tables look like around the actions that can fail and those that report a failure.\<close>

lemma server_outcome_responds:
  "server_outcome (server_table_of isinv) st i = Some (st1, act) \<Longrightarrow> responds act \<Longrightarrow>
   server_outcome (server_table_of isinv) st1 server_input_transport_err =
     (if st1 = server_state_accepted then Some (server_state_accepted, S_NO_ACTION)
      else Some (server_state_terminated, S_act_trans_err))"
  by (cases isinv; cases st; cases i) (auto simp: server_table responds_def)

lemma server_outcome_reports:
  "server_outcome (server_table_of isinv) st i = Some (st1, act) \<Longrightarrow> act \<noteq> S_act_timeout \<and> act \<noteq> S_act_respond_delete
     \<and> (act = S_act_trans_err \<longrightarrow> st1 = server_state_terminated)"
  by (cases isinv; cases st; cases i) (simp_all add: server_table)

text \<open>One call of \<open>Spin\<close> on a live transaction: the action runs to its end, or the transaction ends
  after a failure, or, in Accepted, the failure is ignored.\<close>

definition turned :: "server_table \<Rightarrow> serverTx \<Rightarrow> server_state \<Rightarrow> server_action \<Rightarrow>
    'e option \<times> server_fsm \<Rightarrow> serverTx \<Rightarrow> bool" where
  "turned tbl tx st1 act r t \<longleftrightarrow>
     ended tbl tx r t
     \<or> (r = (None, \<lparr>fsm_states = tbl, fsm_current = st1\<rparr>) \<and> act \<noteq> S_act_trans_err \<and> (\<exists>t0. squiet tx t0 \<and> t = s_effect act t0))
     \<or> (st1 = server_state_accepted \<and> r = (None, \<lparr>fsm_states = tbl, fsm_current = st1\<rparr>) \<and> squiet tx t)"

lemma turns_turned:
  assumes l: "slive tx" and o: "server_outcome (server_table_of isinv) st i = Some (st1, act)"
  shows "go_post (fsm_turns 4 (run_server E) \<lparr>fsm_states = server_table_of isinv, fsm_current = st\<rparr> tx i)
    (turned (server_table_of isinv) tx st1 act)"
proof -
  have four: "4 = Suc (Suc (Suc (Suc 0)))" by simp
  have next_turn: "case r of None \<Rightarrow> turned (server_table_of isinv) tx st1 act (None, \<lparr>fsm_states = server_table_of isinv, fsm_current = st1\<rparr>) t
      | Some j \<Rightarrow> go_post (fsm_turns (Suc (Suc (Suc 0))) (run_server E) \<lparr>fsm_states = server_table_of isinv, fsm_current = st1\<rparr> t j)
          (turned (server_table_of isinv) tx st1 act)"
    if post: "act_post act tx r t" for r t
  proof -
    from post obtain t0 where q: "squiet tx t0" and
      c: "r = None \<and> act \<notin> {S_act_trans_err, S_act_timeout} \<and> t = s_effect act t0
        \<or> r = Some server_input_transport_err \<and> responds act \<and> t = t0
        \<or> r = Some server_input_delete \<and> act \<in> {S_act_trans_err, S_act_timeout} \<and> t = t0"
      by (auto simp: act_post_def)
    note l0 = slive_squiet [OF l q]
    from c consider (finished) "r = None" "act \<noteq> S_act_trans_err" "t = s_effect act t0"
      | (failed) "r = Some server_input_transport_err" "responds act" "t = t0"
      | (report) "r = Some server_input_delete" "st1 = server_state_terminated" "t = t0"
      using server_outcome_reports [OF o] by blast
    then show ?thesis
    proof cases
      case finished
      then show ?thesis using q by (auto simp: turned_def)
    next
      case failed
      show ?thesis
      proof (cases "st1 = server_state_accepted")
        case True
        then have "fsm_outcome \<lparr>fsm_states = server_table_of isinv, fsm_current = server_state_accepted\<rparr>
            server_input_transport_err = Some (server_state_accepted, S_NO_ACTION)"
          using server_outcome_responds [OF o failed(2)] by (simp add: server_outcome_def)
        with failed(1,3) q True show ?thesis
          by (simp add: fsm_turns_post turned_def del: fsm_turns.simps(2))
      next
        case False
        with server_outcome_responds [OF o failed(2)]
        have "server_outcome (server_table_of isinv) st1 server_input_transport_err =
            Some (server_state_terminated, S_act_trans_err)" by simp
        from turns_trans_err [OF l0 this, of "Suc 0" E] 
        have "go_post (fsm_turns (Suc (Suc (Suc 0))) (run_server E) \<lparr>fsm_states = server_table_of isinv, fsm_current = st1\<rparr>
            t0 server_input_transport_err) (turned (server_table_of isinv) tx st1 act)"
          by (rule go_post_mono) (simp add: turned_def ended_squiet [OF q])
        then show ?thesis using failed(1,3) by (simp del: fsm_turns.simps)
      qed
    next
      case report
      then show ?thesis
        using turns_delete [OF l0, of "Suc (Suc 0)" E isinv] q
        by (auto simp: turned_def ended_def simp del: s_effect.simps fsm_turns.simps)
    qed
  qed
  have "go_post (run_server E act tx) (act_post act tx)"
    using run_server_effect [OF l] server_outcome_reports [OF o] by blast
  then show ?thesis
    unfolding four fsm_turns_post [OF o [unfolded server_outcome_def]] fsm.update_convs
    by (rule go_post_mono) (rule next_turn)
qed

section \<open>The invariant\<close>

definition server_timer_pending :: "server_timer \<Rightarrow> serverTx \<Rightarrow> bool" where
  "server_timer_pending t tx \<longleftrightarrow> is_armed (server_timer_field t tx) \<or> server_callback_of t \<in> set (sspawned tx)"

definition timer_callbacks :: "server_callback set" where
  "timer_callbacks = {CbTrying, CbSpin server_input_timer_g, CbSpin server_input_timer_h, CbSpin server_input_timer_i,
     CbSpin server_input_timer_j, CbSpin server_input_timer_l}"

lemma server_callback_of_mem [simp]: "server_callback_of t \<in> timer_callbacks"
  by (cases t) (simp_all add: timer_callbacks_def)

text \<open>The channels are closed exactly in the state Terminated, and only callbacks of timers wait.\<close>

definition server_ok :: "bool \<Rightarrow> server_state \<Rightarrow> serverTx \<Rightarrow> bool" where
  "server_ok isinv st tx \<longleftrightarrow> sdone tx = (st = server_state_terminated) \<and> scloseOnce tx = sdone tx
     \<and> closed (sacks tx) = sdone tx \<and> closed (scancels tx) = sdone tx \<and> closed (serrs tx) = sdone tx
     \<and> set (sspawned tx) \<subseteq> timer_callbacks
     \<and> IsInvite (sorigin tx) = isinv \<and> request_ready (sorigin tx)"

text \<open>The timers that end Completed and Confirmed.  Here \<open>i\<close> is an input about to be spun: it may be
  the callback that was waited for.\<close>

definition server_covered :: "bool \<Rightarrow> server_input option \<Rightarrow> server_state \<Rightarrow> serverTx \<Rightarrow> bool" where
  "server_covered isinv i st tx \<longleftrightarrow>
     (st \<in> {server_state_trying, server_state_proceeding} \<longrightarrow> timer_h tx = None)
     \<and> (st = server_state_completed \<and> isinv \<and> i \<noteq> Some server_input_timer_h \<longrightarrow> server_timer_pending STimer_H tx)
     \<and> (st = server_state_completed \<and> \<not> isinv \<and> i \<noteq> Some server_input_timer_j \<longrightarrow> server_timer_pending STimer_J tx)
     \<and> (st = server_state_confirmed \<and> isinv \<and> i \<noteq> Some server_input_timer_i \<longrightarrow> server_timer_pending STimer_I tx)"

lemma server_ok_live: "server_ok isinv st tx \<Longrightarrow> st \<noteq> server_state_terminated \<Longrightarrow> slive tx"
  by (simp add: server_ok_def slive_def)

lemma squiet_ok: "squiet tx t \<Longrightarrow> server_ok isinv st tx \<Longrightarrow> server_ok isinv st t"
  by (simp add: squiet_def server_ok_def)

lemma squiet_covered: "squiet tx t \<Longrightarrow> server_covered isinv i st tx \<Longrightarrow> server_covered isinv i st t"
  by (simp add: squiet_def server_covered_def server_timer_pending_def)

lemma restart_g_fields [simp]:
  "sdone (s_restart_g t) = sdone t" "scloseOnce (s_restart_g t) = scloseOnce t" "sacks (s_restart_g t) = sacks t"
  "scancels (s_restart_g t) = scancels t" "serrs (s_restart_g t) = serrs t" "sspawned (s_restart_g t) = sspawned t"
  "sorigin (s_restart_g t) = sorigin t" "timer_h (s_restart_g t) = timer_h t" "timer_i (s_restart_g t) = timer_i t"
  "timer_j (s_restart_g t) = timer_j t" "sfsm (s_restart_g t) = sfsm t"
  by (simp_all add: s_restart_g_def Let_def split: option.split)

lemma start_complete_fields [simp]:
  "sdone (s_start_complete t) = sdone t" "scloseOnce (s_start_complete t) = scloseOnce t"
  "sacks (s_start_complete t) = sacks t" "scancels (s_start_complete t) = scancels t"
  "serrs (s_start_complete t) = serrs t" "sspawned (s_start_complete t) = sspawned t"
  "sorigin (s_start_complete t) = sorigin t" "timer_i (s_start_complete t) = timer_i t"
  "timer_j (s_start_complete t) = timer_j t" "sfsm (s_start_complete t) = sfsm t"
  "timer_h (s_start_complete t) = (if timer_h t = None then Some (AfterFunc Timer_H) else timer_h t)"
  by (auto simp: s_start_complete_def Let_def split: option.split)

lemma server_outcome_effect:
  assumes "server_outcome (server_table_of isinv) st i = Some (st1, act)" and "act \<noteq> S_act_trans_err"
    and "server_ok isinv st t" and "st \<noteq> server_state_terminated"
  shows "server_ok isinv st1 (s_effect act t)"
  using assms
  by (cases isinv; cases st; cases i; clarsimp simp: server_table) (simp_all add: server_ok_def)

lemma server_outcome_covered:
  assumes "server_outcome (server_table_of isinv) st i = Some (st1, act)" and "act \<noteq> S_act_trans_err"
    and "server_covered isinv (Some i) st t" and "st \<noteq> server_state_terminated"
    and "i \<in> {server_input_user_2xx, server_input_user_300_plus} \<Longrightarrow> slastResp t \<noteq> None"
  shows "server_covered isinv None st1 (s_effect act t)"
  using assms
  by (cases isinv; cases st; cases i; clarsimp simp: server_table)
     (simp_all add: server_covered_def server_timer_pending_def)

lemma server_outcome_None:
  "server_outcome (server_table_of isinv) st i = None \<Longrightarrow> server_covered isinv (Some i) st tx \<Longrightarrow> server_covered isinv None st tx"
  by (cases isinv; cases st; cases i) (simp_all add: server_table server_covered_def)

lemma server_outcome_terminated:
  "server_outcome (server_table_of isinv) server_state_terminated i = Some (st1, act) \<Longrightarrow>
   st1 = server_state_terminated \<and> (act = S_NO_ACTION \<or> act = S_act_delete)"
  by (cases isinv; cases i) (simp_all add: server_table)

lemma ended_ok:
  assumes "server_ok isinv st tx" and "ended (server_table_of isinv) tx (e, f) t"
  shows "f = \<lparr>fsm_states = server_table_of isinv, fsm_current = server_state_terminated\<rparr> \<and>
    server_ok isinv server_state_terminated t \<and> server_covered isinv None server_state_terminated t"
  using assms by (clarsimp simp: ended_def server_ok_def) (simp add: squiet_def server_covered_def)

text \<open>The invariant of a machine in a given state, and that a call of \<open>Spin\<close> keeps it.\<close>

definition server_at :: "bool \<Rightarrow> server_state \<Rightarrow> serverTx \<Rightarrow> bool" where
  "server_at isinv st tx \<longleftrightarrow> sfsm tx = Some \<lparr>fsm_states = server_table_of isinv, fsm_current = st\<rparr>
     \<and> server_ok isinv st tx \<and> server_covered isinv None st tx"

lemma server_turns_ok:
  assumes ok: "server_ok isinv st tx" and cov: "server_covered isinv (Some i) st tx"
    and resp: "i \<in> {server_input_user_2xx, server_input_user_300_plus} \<Longrightarrow> slastResp tx \<noteq> None"
  shows "go_post (fsm_turns 4 (run_server E) \<lparr>fsm_states = server_table_of isinv, fsm_current = st\<rparr> tx i)
    (\<lambda>(e, f) t. \<exists>st'. f = \<lparr>fsm_states = server_table_of isinv, fsm_current = st'\<rparr> \<and>
      server_ok isinv st' t \<and> server_covered isinv None st' t)"
proof (cases "server_outcome (server_table_of isinv) st i")
  case None
  then show ?thesis
    using ok server_outcome_None [OF None cov] by (simp add: server_outcome_def fsm_turns_invalid)
next
  case (Some x)
  then obtain st1 act where o: "server_outcome (server_table_of isinv) st i = Some (st1, act)" by (cases x) simp
  show ?thesis
  proof (cases "st = server_state_terminated")
    case True
    have "sdone tx" using ok True by (simp add: server_ok_def)
    then have "run_server E act tx = Ret None tx"
      using server_outcome_terminated [of isinv i st1 act] o True by (auto simp: s_act_delete_def s_delete_def)
    with o True ok cov server_outcome_terminated [of isinv i st1 act] show ?thesis
      by (simp add: server_outcome_def server_covered_def fsm_turns_last)
  next
    case False
    note l = server_ok_live [OF ok False]
    show ?thesis
    proof (rule go_post_mono [OF turns_turned [OF l o]], clarsimp)
      fix e f t
      assume "turned (server_table_of isinv) tx st1 act (e, f) t"
      then consider (ended) "ended (server_table_of isinv) tx (e, f) t"
        | (acted) t0 where "f = \<lparr>fsm_states = server_table_of isinv, fsm_current = st1\<rparr>" "act \<noteq> S_act_trans_err"
            "squiet tx t0" "t = s_effect act t0"
        | (ignored) "st1 = server_state_accepted" "f = \<lparr>fsm_states = server_table_of isinv, fsm_current = st1\<rparr>" "squiet tx t"
        by (auto simp: turned_def)
      then show "\<exists>st'. f = \<lparr>fsm_states = server_table_of isinv, fsm_current = st'\<rparr> \<and>
          server_ok isinv st' t \<and> server_covered isinv None st' t"
      proof cases
        case ended
        then show ?thesis using ended_ok [OF ok ended] by blast
      next
        case acted
        have r: "slastResp t0 \<noteq> None" if "i \<in> {server_input_user_2xx, server_input_user_300_plus}"
          using resp that acted(3) by (simp add: squiet_def)
        show ?thesis
          using server_outcome_effect [OF o acted(2) squiet_ok [OF acted(3) ok] False]
            server_outcome_covered [OF o acted(2) squiet_covered [OF acted(3) cov] False r] acted(1,4) by blast
      next
        case ignored
        then show ?thesis
          using squiet_ok [OF ignored(3) ok] False
          by (intro exI [of _ server_state_accepted]) (auto simp: server_ok_def server_covered_def)
      qed
    qed
  qed
qed

section \<open>The invariant in every interleaving\<close>

definition new_server :: "serverTx \<Rightarrow> bool" where
  "new_server tx \<longleftrightarrow> sacks tx = make_chan \<and> scancels tx = make_chan \<and> serrs tx = make_chan \<and> \<not> sdone tx
     \<and> \<not> scloseOnce tx \<and> timer_h tx = None \<and> sspawned tx = []"

lemma NewServerTx_new: "NewServerTx rel req = Ok tx \<Longrightarrow> new_server tx \<and> sorigin tx = req"
  by (cases "request_Transport req") (auto simp: NewServerTx_def new_server_def)

text \<open>Every event but a call of \<open>Terminate\<close>, and the receipt of a message that is not a request.\<close>

definition server_regular :: "server_event \<Rightarrow> bool" where
  "server_regular ev \<longleftrightarrow> ev \<noteq> STerminate \<and> (\<forall>res. ev \<noteq> SReceive (Res res))"

lemma drop_value_post: "go_post (drop_value r) Q \<longleftrightarrow> go_post r (\<lambda>_ t. Q () t)"
  by (cases r) simp_all

lemma server_covered_weaken: "server_covered isinv None st tx \<Longrightarrow> server_covered isinv i st tx"
  by (simp add: server_covered_def)

text \<open>Fields on which the invariant does not depend.\<close>

lemma server_ok_fields [simp]:
  "server_ok isinv st (tx\<lparr>timer_1xx := x\<rparr>) = server_ok isinv st tx"
  "server_ok isinv st (tx\<lparr>slastAck := a\<rparr>) = server_ok isinv st tx"
  "server_ok isinv st (tx\<lparr>slastCancel := a\<rparr>) = server_ok isinv st tx"
  "server_ok isinv st (tx\<lparr>slastResp := r\<rparr>) = server_ok isinv st tx"
  "server_ok isinv st (tx\<lparr>ssent := l\<rparr>) = server_ok isinv st tx"
  "server_ok isinv st (tx\<lparr>sfsm := f\<rparr>) = server_ok isinv st tx"
  by (simp_all add: server_ok_def)

lemma server_covered_fields [simp]:
  "server_covered isinv i st (tx\<lparr>timer_1xx := x\<rparr>) = server_covered isinv i st tx"
  "server_covered isinv i st (tx\<lparr>slastAck := a\<rparr>) = server_covered isinv i st tx"
  "server_covered isinv i st (tx\<lparr>slastCancel := a\<rparr>) = server_covered isinv i st tx"
  "server_covered isinv i st (tx\<lparr>slastResp := r\<rparr>) = server_covered isinv i st tx"
  "server_covered isinv i st (tx\<lparr>ssent := l\<rparr>) = server_covered isinv i st tx"
  "server_covered isinv i st (tx\<lparr>sfsm := f\<rparr>) = server_covered isinv i st tx"
  by (simp_all add: server_covered_def server_timer_pending_def)

lemma server_fire:
  assumes "server_at isinv st tx" and "is_armed (server_timer_field t tx)"
  shows "server_at isinv st (s_fire t tx)"
proof -
  have "server_ok isinv st (s_fire t tx)"
    using assms(1) server_callback_of_mem [of t]
    by (cases t) (simp_all add: server_at_def server_ok_def s_fire_def Let_def)
  moreover have "server_covered isinv None st (s_fire t tx)"
    using assms by (cases t; cases st)
      (auto simp: server_at_def server_covered_def server_timer_pending_def server_ok_def s_fire_def Let_def)
  moreover have "sfsm (s_fire t tx) = sfsm tx" by (cases t) (simp_all add: s_fire_def Let_def)
  ultimately show ?thesis using assms(1) by (simp add: server_at_def)
qed

lemma server_remove:
  assumes "server_at isinv st tx"
  shows "server_ok isinv st (tx\<lparr>sspawned := remove1 cb (sspawned tx)\<rparr>)"
    and "cb = CbSpin i \<Longrightarrow> server_covered isinv (Some i) st (tx\<lparr>sspawned := remove1 cb (sspawned tx)\<rparr>)"
    and "cb = CbTrying \<Longrightarrow> server_covered isinv None st (tx\<lparr>sspawned := remove1 cb (sspawned tx)\<rparr>)"
proof -
  have at: "server_ok isinv st tx" "server_covered isinv None st tx" using assms by (simp_all add: server_at_def)
  show "server_ok isinv st (tx\<lparr>sspawned := remove1 cb (sspawned tx)\<rparr>)"
    using at(1) set_remove1_subset [of cb "sspawned tx"] by (simp add: server_ok_def subset_trans)
  show "server_covered isinv (Some i) st (tx\<lparr>sspawned := remove1 cb (sspawned tx)\<rparr>)" if "cb = CbSpin i"
    using at(2) that by (auto simp: server_covered_def server_timer_pending_def in_set_remove1)
  show "server_covered isinv None st (tx\<lparr>sspawned := remove1 cb (sspawned tx)\<rparr>)" if "cb = CbTrying"
    using at(2) that by (auto simp: server_covered_def server_timer_pending_def in_set_remove1)
qed

lemma server_take:
  assumes "server_at isinv st tx"
  shows "server_at isinv st (tx\<lparr>sacks := (sacks tx)\<lparr>buf := l\<rparr>\<rparr>)" "server_at isinv st (tx\<lparr>scancels := (scancels tx)\<lparr>buf := l\<rparr>\<rparr>)"
    "server_at isinv st (tx\<lparr>serrs := (serrs tx)\<lparr>buf := m\<rparr>\<rparr>)"
  using assms by (simp_all add: server_at_def server_ok_def server_covered_def server_timer_pending_def)

context server_lib
begin

lemma server_spin:
  assumes "sfsm tx = Some \<lparr>fsm_states = server_table_of isinv, fsm_current = st\<rparr>" and "server_ok isinv st tx"
    and "server_covered isinv (Some i) st tx"
    and "i \<in> {server_input_user_2xx, server_input_user_300_plus} \<Longrightarrow> slastResp tx \<noteq> None"
  shows "go_post (s_Spin spin E i tx) (\<lambda>_ t. \<exists>st'. server_at isinv st' t)"
  unfolding s_Spin_turns [OF assms(1)] go_post_bind
  by (rule go_post_mono [OF server_turns_ok [OF assms(2-)]]) (auto simp: server_at_def)

lemma server_init:
  assumes "new_server tx" and "request_ready (sorigin tx)"
  shows "\<exists>st. server_at (IsInvite (sorigin tx)) st (s_Init define_fsm tx)"
proof -
  let ?b = "IsInvite (sorigin tx)"
  have "s_initFSM define_fsm tx = tx\<lparr>sfsm := define_fsm (server_table_of ?b)\<rparr>"
    using server_machine [of ?b]
    by (simp add: s_initFSM_def s_initInviteFSM_def s_initNonInviteFSM_def server_table_of_def split: if_splits)
  with server_machine [of ?b] assms show ?thesis
    by (intro exI [of _ "if ?b then server_state_proceeding else server_state_trying"])
       (simp add: s_Init_def Let_def server_at_def server_ok_def server_covered_def new_server_def make_chan_def)
qed

lemma server_respond:
  assumes "server_at isinv st tx"
  shows "go_post (s_Respond spin E res tx) (\<lambda>_ t. \<exists>st'. server_at isinv st' t)"
proof (cases "response_IsCancel res")
  case True
  with assms show ?thesis by (auto simp: s_Respond_def s_Send_def server_at_def)
next
  case False
  have "go_post (s_Spin spin E (user_input res) (tx\<lparr>slastResp := Some res, timer_1xx := None\<rparr>))
      (\<lambda>_ t. \<exists>st'. server_at isinv st' t)"
    by (rule server_spin [where st = st]) (use assms in \<open>simp_all add: server_at_def server_covered_weaken\<close>)
  with False show ?thesis by (simp add: s_Respond_def)
qed

lemma server_receive:
  assumes "server_at isinv st tx"
  shows "go_post (s_Receive spin E (Req req) tx) (\<lambda>_ t. \<exists>st'. server_at isinv st' t)"
proof -
  have "go_post (s_Spin spin E i t) (\<lambda>_ t. \<exists>st'. server_at isinv st' t)"
    if "server_at isinv st t" and "i \<notin> {server_input_user_2xx, server_input_user_300_plus}" for i t
    by (rule server_spin [where st = st]) (use that in \<open>simp_all add: server_at_def server_covered_weaken\<close>)
  with assms show ?thesis by (auto simp: s_Receive_def Let_def server_at_def)
qed

lemma server_callback:
  assumes "server_at isinv st tx" and "cb \<in> set (sspawned tx)"
  shows "go_post (s_run_callback spin E cb tx) (\<lambda>_ t. \<exists>st'. server_at isinv st' t)"
proof (cases cb)
  case (CbSpin i)
  have "cb \<in> timer_callbacks" using assms by (auto simp: server_at_def server_ok_def)
  then have "i \<notin> {server_input_user_2xx, server_input_user_300_plus}"
    using CbSpin by (auto simp: timer_callbacks_def)
  moreover have "go_post (s_Spin spin E i (tx\<lparr>sspawned := remove1 cb (sspawned tx)\<rparr>)) (\<lambda>_ t. \<exists>st'. server_at isinv st' t)"
    by (rule server_spin [OF _ server_remove(1) [OF assms(1)] server_remove(2) [OF assms(1) CbSpin]])
       (use assms calculation in \<open>simp_all add: server_at_def\<close>)
  ultimately show ?thesis by (simp add: s_run_callback_def CbSpin)
next
  case CbTrying
  let ?tx = "tx\<lparr>sspawned := remove1 cb (sspawned tx)\<rparr>"
  have at: "server_at isinv st ?tx"
    using server_remove(1,3) [OF assms(1), of cb] CbTrying assms(1) by (simp add: server_at_def)
  have "request_ready (sorigin tx)" using assms(1) by (simp add: server_at_def server_ok_def)
  then obtain res where "NewResponseFromRequest (fresh_id E) [] (sorigin tx) 100 ''Trying'' [] = Ok res"
    by (meson NewResponseFromRequest_total)
  with server_respond [OF at, of E res] show ?thesis
    by (simp add: s_run_callback_def CbTrying s_trying_def)
qed

lemma server_event_ok:
  assumes "server_at isinv st tx" and "server_regular ev" and "server_enabled ev tx"
  shows "go_post (server_exec spin E ev tx) (\<lambda>_ t. \<exists>st'. server_at isinv st' t)"
proof (cases ev)
  case (SReceive msg)
  with assms(2) obtain req where "msg = Req req" by (cases msg) (auto simp: server_regular_def)
  with SReceive show ?thesis by (simp add: drop_value_post server_receive [OF assms(1)])
next
  case (SRespond res)
  then show ?thesis by (simp add: drop_value_post server_respond [OF assms(1)])
next
  case (SRun cb)
  then show ?thesis using server_callback [OF assms(1), of cb E] assms(3) by (simp add: drop_value_post)
next
  case (SFire t)
  then show ?thesis using server_fire [OF assms(1)] assms(3) by auto
qed (use assms(2) server_take [OF assms(1)] in \<open>auto simp: server_regular_def intro!: exI [of _ st]\<close>)

lemma server_reach_inv:
  assumes "server_reach define_fsm spin server_regular tx0 tx" and "new_server tx0" and "request_ready (sorigin tx0)"
  shows "\<exists>st. server_at (IsInvite (sorigin tx0)) st tx"
  using assms(1)
proof induction
  case sreach_init
  show ?case by (rule server_init [OF assms(2,3)])
next
  case (sreach_step tx ev E tx')
  then obtain st where "server_at (IsInvite (sorigin tx0)) st tx" by blast
  from server_event_ok [OF this sreach_step.hyps(2,3), of E] sreach_step.hyps(4) show ?case by simp
qed

end

end
