(* ===== verification/ServerProps.thy ===== *)
theory ServerProps
  imports ServerSafety ClientProps
begin

text \<open>
  What server transactions do, as properties of the operations of \<^verbatim>\<open>transaction/server_tx.go\<close>
  in every interleaving: no panic, the end of the states Completed and Confirmed, the retransmission of
  responses, and runs that go wrong.
\<close>

section \<open>A transaction to apply the properties to\<close>

text \<open>A transaction as \<open>NewServerTx\<close> returns it, over an unreliable transport.\<close>

definition ex_server :: "request \<Rightarrow> serverTx" where
  "ex_server req =
     \<lparr>skey = (case MakeServerTxKey (hdrs req) of Ok k \<Rightarrow> k | _ \<Rightarrow> []), sorigin = req, sfsm = None,
      slastResp = None, slastErr = None, slastAck = None, slastCancel = None, sacks = make_chan,
      scancels = make_chan, serrs = make_chan, sdone = False, scloseOnce = False, timer_g = None,
      timer_g_time = 0, timer_h = None, timer_i = None, timer_i_time = 0, timer_j = None, timer_1xx = None,
      timer_l = None, sreliable = False, sspawned = [], ssent = []\<rparr>"

lemma ex_server_created: "NewServerTx (\<lambda>_. False) (ex_request m) = Ok (ex_server (ex_request m))"
proof -
  have hop: "hs_ViaHop (hdrs (ex_request m)) = Some ex_hop" by (simp add: ex_request_def NewRequest_def)
  have "is_rfc3261_branch ''z9hG4bK.1''"
    by (simp add: is_rfc3261_branch_def RFC3261BranchMagicCookie_def strings_HasPrefix_def strings_TrimPrefix_def)
  moreover have "get_branch ex_hop = Ok (Some ''z9hG4bK.1'')"
    by (simp add: get_branch_def ex_hop_def params_Get_def params_Add_def NewParams_def)
  moreover have "request_Transport (ex_request m) = Ok ''UDP''"
    by (simp add: request_Transport_def ex_request_def strings_ToUpper_def) code_simp
  moreover have "hs_CSeq (hdrs (ex_request m)) = Some \<lparr>SeqNo = 1, MethodName = m\<rparr>"
    by (simp add: ex_request_def NewRequest_def)
  ultimately show ?thesis
    by (simp add: NewServerTx_def MakeServerTxKey_def hop Let_def ex_server_def)
qed

definition ex_proceeding :: serverTx where
  "ex_proceeding = s_Init fsm_Define (ex_server (ex_request INVITE))"

lemma ex_server_reach:
  "server_reach fsm_Define fsm_Spin server_regular (ex_server (ex_request INVITE)) ex_proceeding"
  unfolding ex_proceeding_def by (rule sreach_init)

lemma ex_proceeding_fsm [simp]:
  "sfsm ex_proceeding = Some \<lparr>fsm_states = server_table_of True, fsm_current = server_state_proceeding\<rparr>"
  "sorigin ex_proceeding = ex_request INVITE" "sreliable ex_proceeding = False" "slive ex_proceeding"
  "timer_l ex_proceeding = None" "sspawned ex_proceeding = []" "timer_g ex_proceeding = None"
  "timer_h ex_proceeding = None" "ssent ex_proceeding = []" "timer_1xx ex_proceeding = Some (AfterFunc Timer_1xx)"
  using sl.server_machine [of True]
  by (simp_all add: ex_proceeding_def s_Init_def s_initFSM_def s_initInviteFSM_def ex_server_def Let_def
      server_table_of_def slive_def make_chan_def)

section \<open>Every interleaving\<close>

text \<open>C5: In every interleaving of the operations, timers and callbacks of a server transaction with no
  call of \<open>Terminate\<close>, no operation on a request, a response of the user or a callback panics or runs
  forever.\<close>

theorem server_no_panic:
  assumes "fsm_lib define_fsm spin" and "NewServerTx rel req = Ok tx0" and "request_ready req"
    and "server_reach define_fsm spin server_regular tx0 tx" and "server_regular ev" and "server_enabled ev tx"
  shows "server_exec spin E ev tx \<noteq> Panic tx' \<and> server_exec spin E ev tx \<noteq> Diverge"
proof -
  note lib = server_lib.intro [OF assms(1)]
  obtain st where "server_at (IsInvite (sorigin tx0)) st tx"
    using server_lib.server_reach_inv [OF lib assms(4)] NewServerTx_new [OF assms(2)] assms(3) by blast
  from server_lib.server_event_ok [OF lib this assms(5,6), of E] show ?thesis
    by (cases "server_exec spin E ev tx") auto
qed

theorem server_no_panic_witness:
  "\<forall>tx'. server_exec fsm_Spin ex_env (SRespond (ex_response INVITE 486)) ex_proceeding \<noteq> Panic tx'"
  using server_no_panic [OF fl.fsm_lib_axioms ex_server_created ex_ready(1) ex_server_reach,
    of "SRespond (ex_response INVITE 486)" ex_env] by (simp add: server_regular_def)

text \<open>C6: In the same interleavings the channels of a server transaction are closed exactly when its
  machine is in Terminated.  In Completed timer H of an INVITE transaction, or timer J of another one, is
  running or its callback waits, and in Confirmed timer I is.\<close>

theorem server_invariant:
  assumes "fsm_lib define_fsm spin" and "NewServerTx rel req = Ok tx0" and "request_ready req"
    and "server_reach define_fsm spin server_regular tx0 tx"
  shows "\<exists>st. sfsm tx = Some \<lparr>fsm_states = server_table_of (IsInvite req), fsm_current = st\<rparr> \<and>
    sdone tx = (st = server_state_terminated) \<and> closed (sacks tx) = sdone tx \<and> closed (scancels tx) = sdone tx \<and>
    closed (serrs tx) = sdone tx \<and>
    (st = server_state_completed \<longrightarrow> server_timer_pending (if IsInvite req then STimer_H else STimer_J) tx) \<and>
    (IsInvite req \<and> st = server_state_confirmed \<longrightarrow> server_timer_pending STimer_I tx)"
proof -
  obtain st where "server_at (IsInvite (sorigin tx0)) st tx"
    using server_lib.server_reach_inv [OF server_lib.intro [OF assms(1)] assms(4)] NewServerTx_new [OF assms(2)] assms(3)
    by blast
  with NewServerTx_new [OF assms(2)] show ?thesis
    by (intro exI [of _ st]) (simp add: server_at_def server_ok_def server_covered_def)
qed

theorem server_invariant_witness: "\<not> sdone ex_proceeding \<and> \<not> closed (sacks ex_proceeding)"
  using server_invariant [OF fl.fsm_lib_axioms ex_server_created ex_ready(1) ex_server_reach] by auto

lemma server_entries:
  "server_outcome (server_table_of True) server_state_completed server_input_timer_h = Some (server_state_terminated, S_act_delete)"
  "server_outcome (server_table_of True) server_state_confirmed server_input_timer_i = Some (server_state_terminated, S_act_delete)"
  "server_outcome (server_table_of False) server_state_completed server_input_timer_j = Some (server_state_terminated, S_act_delete)"
  "server_outcome (server_table_of True) server_state_completed server_input_timer_g = Some (server_state_completed, S_act_respond_complete)"
  "server_outcome (server_table_of True) server_state_proceeding server_input_user_2xx = Some (server_state_accepted, S_act_respond_accept)"
  "server_outcome (server_table_of True) server_state_accepted server_input_transport_err = Some (server_state_accepted, S_NO_ACTION)"
  "server_outcome (server_table_of True) server_state_accepted server_input_ack = Some (server_state_accepted, S_act_passup_ack)"
  by (simp_all add: server_table)

lemma completed_user:
  "i \<in> {server_input_user_1xx, server_input_user_2xx, server_input_user_300_plus} \<Longrightarrow>
   server_outcome (server_table_of True) server_state_completed i = Some (server_state_completed, S_NO_ACTION)"
  by (auto simp: server_table)

text \<open>The timer that ends a final state, and its callback.\<close>

definition end_timer :: "bool \<Rightarrow> server_state \<Rightarrow> server_timer" where
  "end_timer isinv st = (if st = server_state_confirmed then STimer_I else if isinv then STimer_H else STimer_J)"

lemma end_timer_outcome:
  assumes "st = server_state_completed \<or> isinv \<and> st = server_state_confirmed"
  obtains i where "server_callback_of (end_timer isinv st) = CbSpin i"
    "server_outcome (server_table_of isinv) st i = Some (server_state_terminated, S_act_delete)"
  using assms server_entries by (cases isinv) (auto simp: end_timer_def)

context server_lib
begin

lemma callback_deletes:
  assumes fsm: "sfsm tx = Some \<lparr>fsm_states = server_table_of isinv, fsm_current = st\<rparr>" and l: "slive tx"
    and o: "server_outcome (server_table_of isinv) st i = Some (server_state_terminated, S_act_delete)"
    and cb: "CbSpin i \<in> set (sspawned tx)"
  shows "\<exists>tx'. server_run spin [(E, SRun (CbSpin i))] tx = Some (Ret () tx') \<and> sdone tx'"
proof -
  let ?tx = "tx\<lparr>sspawned := remove1 (CbSpin i) (sspawned tx)\<rparr>"
  have f: "sfsm ?tx = Some \<lparr>fsm_states = server_table_of isinv, fsm_current = st\<rparr>" and "slive ?tx"
    using fsm l by (simp_all add: slive_def)
  then have "run_server E S_act_delete ?tx = Ret None (s_effect S_act_delete ?tx)"
    by (simp add: s_act_delete_def s_delete_live del: s_effect.simps)
  with cb o show ?thesis
    by (simp add: s_run_callback_def s_Spin_turns [OF f] server_outcome_def fsm_turns_last
        del: run_server.simps)
qed

end

text \<open>C7: From every reachable Completed or Confirmed state of a server transaction its timer ends it:
  timer I in Confirmed, timer H in Completed for INVITE, timer J in Completed otherwise.  Firing it, unless
  its callback waits already, and running the callback closes the channels.\<close>

theorem server_final_states_end:
  assumes "fsm_lib define_fsm spin" and "NewServerTx rel req = Ok tx0" and "request_ready req"
    and "server_reach define_fsm spin server_regular tx0 tx"
    and "sfsm tx = Some \<lparr>fsm_states = server_table_of (IsInvite req), fsm_current = st\<rparr>"
    and "st = server_state_completed \<or> IsInvite req \<and> st = server_state_confirmed"
    and "t = (if st = server_state_confirmed then STimer_I else if IsInvite req then STimer_H else STimer_J)"
  shows "\<exists>evs tx'. evs \<in> {[(E, SRun (server_callback_of t))], [(E, SFire t), (E, SRun (server_callback_of t))]} \<and>
    server_run spin evs tx = Some (Ret () tx') \<and> sdone tx'"
proof -
  note lib = server_lib.intro [OF assms(1)]
  obtain st' where at: "server_at (IsInvite req) st' tx"
    using server_lib.server_reach_inv [OF lib assms(4)] NewServerTx_new [OF assms(2)] assms(3) by blast
  with assms(5) have st': "st' = st" by (simp add: server_at_def)
  have t: "t = end_timer (IsInvite req) st" using assms(7) by (simp add: end_timer_def)
  have pend: "server_timer_pending t tx" and l: "slive tx"
    using at assms(6) by (auto simp: st' t end_timer_def server_at_def server_covered_def intro: server_ok_live)
  obtain i where i: "server_callback_of t = CbSpin i"
    and o: "server_outcome (server_table_of (IsInvite req)) st i = Some (server_state_terminated, S_act_delete)"
    using end_timer_outcome [OF assms(6)] t by blast
  show ?thesis
  proof (cases "CbSpin i \<in> set (sspawned tx)")
    case True
    from server_lib.callback_deletes [OF lib assms(5) l o True, of E] i show ?thesis by auto
  next
    case False
    with pend i have armed: "is_armed (server_timer_field t tx)" by (simp add: server_timer_pending_def)
    have f: "sfsm (s_fire t tx) = sfsm tx" "slive (s_fire t tx)" "CbSpin i \<in> set (sspawned (s_fire t tx))"
      using l i by (cases t; auto simp: s_fire_def Let_def slive_def)+
    from server_lib.callback_deletes [OF lib f(1) [unfolded assms(5)] f(2) o f(3), of E] armed i show ?thesis
      by (intro exI [of _ "[(E, SFire t), (E, SRun (server_callback_of t))]"]) simp
  qed
qed

section \<open>Responses after the final one\<close>

abbreviation at_state :: "bool \<Rightarrow> server_state \<Rightarrow> server_fsm" where
  "at_state isinv st \<equiv> \<lparr>fsm_states = server_table_of isinv, fsm_current = st\<rparr>"

definition responded :: "response \<Rightarrow> serverTx \<Rightarrow> serverTx" where
  "responded res tx = tx\<lparr>ssent := ssent tx @ [Res res], slastErr := None\<rparr>"

context server_lib
begin

lemma s_Spin_last:
  assumes "sfsm tx = Some (at_state isinv st)" and "server_outcome (server_table_of isinv) st i = Some (st1, act)"
    and "run_server E act tx = Ret None t"
  shows "s_Spin spin E i tx = Ret None (t\<lparr>sfsm := Some (at_state isinv st1)\<rparr>)"
  using assms by (simp add: s_Spin_turns [OF assms(1)] server_outcome_def fsm_turns_last)

lemma respond_300:
  assumes "sfsm tx = Some (at_state True server_state_proceeding)" and "\<not> response_IsCancel res"
    and "user_input res = server_input_user_300_plus" and "tpl_Send E (Res res) = None"
  shows "s_Respond spin E res tx =
    Ret None ((s_start_complete (responded res (tx\<lparr>slastResp := Some res, timer_1xx := None\<rparr>)))
      \<lparr>sfsm := Some (at_state True server_state_completed)\<rparr>)"
proof -
  have "server_outcome (server_table_of True) server_state_proceeding server_input_user_300_plus =
      Some (server_state_completed, S_act_respond_complete)" by (simp add: server_table)
  from s_Spin_last [OF _ this, of "tx\<lparr>slastResp := Some res, timer_1xx := None\<rparr>" E] assms show ?thesis
    by (simp add: s_Respond_def s_act_respond_complete_def s_respond_then_def s_Send_def responded_def Let_def)
qed

lemma respond_completed:
  assumes "sfsm tx = Some (at_state True server_state_completed)" and "\<not> response_IsCancel res"
  shows "s_Respond spin E res tx = Ret None (tx\<lparr>slastResp := Some res, timer_1xx := None\<rparr>)"
proof -
  have "server_outcome (server_table_of True) server_state_completed (user_input res) =
      Some (server_state_completed, S_NO_ACTION)" by (rule completed_user) (simp add: user_input_def)
  from s_Spin_last [OF _ this, of "tx\<lparr>slastResp := Some res, timer_1xx := None\<rparr>" E] assms show ?thesis
    by (simp add: s_Respond_def)
qed

lemma timer_g_completed:
  assumes "sfsm tx = Some (at_state True server_state_completed)" and "slastResp tx = Some res"
    and "tpl_Send E (Res res) = None"
  shows "s_Spin spin E server_input_timer_g tx =
    Ret None ((s_start_complete (responded res tx))\<lparr>sfsm := Some (at_state True server_state_completed)\<rparr>)"
  using s_Spin_last [OF assms(1) server_entries(4), of E] assms(2,3)
  by (simp add: s_act_respond_complete_def s_respond_then_def s_Send_def responded_def Let_def)

end

lemma start_complete_more [simp]:
  "ssent (s_start_complete t) = ssent t" "slastResp (s_start_complete t) = slastResp t"
  "timer_1xx (s_start_complete t) = timer_1xx t" "sreliable (s_start_complete t) = sreliable t"
  "\<not> sreliable t \<Longrightarrow> is_armed (timer_g (s_start_complete t))"
  by (auto simp: s_start_complete_def s_restart_g_def Let_def split: option.split)

lemma responded_fields [simp]:
  "ssent (responded res t) = ssent t @ [Res res]" "slastResp (responded res t) = slastResp t"
  "timer_1xx (responded res t) = timer_1xx t" "sreliable (responded res t) = sreliable t"
  "sdone (responded res t) = sdone t" "sspawned (responded res t) = sspawned t" "sorigin (responded res t) = sorigin t"
  by (simp_all add: responded_def)

lemma trying_response:
  assumes "request_ready req" and "hs_CSeq (hdrs req) = Some c" and "MethodName c \<noteq> CANCEL"
  obtains res where "NewResponseFromRequest fid [] req 100 ''Trying'' [] = Ok res" "rstatus res = 100"
    "\<not> response_IsCancel res"
proof -
  obtain res where res: "NewResponseFromRequest fid [] req 100 ''Trying'' [] = Ok res"
    by (meson assms(1) NewResponseFromRequest_total)
  have "headers_wf (hdrs req)" using assms(1) by (simp add: request_ready_def)
  note h = NewResponseFromRequest_headers [OF this res]
  have "hs_CSeq (hdrs res) = hs_CSeq (hdrs req)" by (rule hs_CSeq_clone, rule h(2)) (simp add: response_names_def)
  with assms that [OF res h(4)] show ?thesis by (simp add: response_IsCancel_def)
qed

lemma NewServerTx_fields:
  assumes "NewServerTx rel req = Ok tx0"
  shows "sorigin tx0 = req" "ssent tx0 = []" "\<not> sdone tx0" "sspawned tx0 = []" "timer_g tx0 = None" "timer_l tx0 = None"
  using assms by (cases "request_Transport req"; auto simp: NewServerTx_def)+

context server_lib
begin

lemma invite_Init:
  assumes "NewServerTx rel req = Ok tx0" and "IsInvite req"
  shows "s_Init define_fsm tx0 = tx0\<lparr>sfsm := Some (at_state True server_state_proceeding),
    timer_g_time := if sreliable tx0 then timer_g_time tx0 else Timer_G,
    timer_i_time := if sreliable tx0 then 0 else Timer_I, timer_1xx := Some (AfterFunc Timer_1xx)\<rparr>"
  using assms server_machine [of True] NewServerTx_fields [OF assms(1)]
  by (simp add: s_Init_def Let_def s_initFSM_def s_initInviteFSM_def server_table_of_def)

lemma late_response:
  assumes "sfsm tx = Some (at_state True server_state_proceeding)" and "\<not> sreliable tx" and "\<not> sdone tx"
    and "sspawned tx = []" and "ssent tx = []"
    and "\<not> response_IsCancel res" and "user_input res = server_input_user_300_plus" and "\<not> response_IsCancel res2"
    and "\<And>m. tpl_Send E m = None"
  shows "\<exists>tx'. server_run spin
      [(E, SRespond res), (E, SRespond res2), (E, SFire STimer_G), (E, SRun (CbSpin server_input_timer_g))]
      tx = Some (Ret () tx') \<and> ssent tx' = [Res res, Res res2]"
  using assms
  by (simp add: respond_300 respond_completed s_fire_def Let_def s_run_callback_def timer_g_completed)

lemma trying_race:
  assumes "sfsm tx = Some (at_state True server_state_proceeding)" and "\<not> sreliable tx" and "\<not> sdone tx"
    and "sspawned tx = []" and "ssent tx = []" and "is_armed (timer_1xx tx)"
    and "\<not> response_IsCancel res" and "user_input res = server_input_user_300_plus"
    and "NewResponseFromRequest (fresh_id E) [] (sorigin tx) 100 ''Trying'' [] = Ok trying" and "\<not> response_IsCancel trying"
    and "\<And>m. tpl_Send E m = None"
  shows "\<exists>tx'. server_run spin
      [(E, SFire STimer_1xx), (E, SRespond res), (E, SRun CbTrying), (E, SFire STimer_G),
       (E, SRun (CbSpin server_input_timer_g))]
      tx = Some (Ret () tx') \<and> ssent tx' = [Res res, Res trying]"
  using assms
  by (simp add: respond_300 respond_completed s_fire_def Let_def s_run_callback_def timer_g_completed s_trying_def)

end

text \<open>What timer G retransmits is the last response given to \<open>Respond\<close>, even when that response
  came too late to be sent.  After a final response of the user the transaction retransmits a second final
  response; and when timer 1xx fires just before the final response, its callback makes the transaction
  retransmit \<^verbatim>\<open>100 Trying\<close> in place of the final response.\<close>

theorem server_retransmits_late_response:
  assumes "fsm_lib define_fsm spin" and "NewServerTx rel req = Ok tx0" and "IsInvite req" and "request_ready req"
    and "\<not> sreliable tx0" and "hs_CSeq (hdrs req) = Some c" and "MethodName c \<noteq> CANCEL"
    and "\<not> response_IsCancel res" and "user_input res = server_input_user_300_plus" and "\<not> response_IsCancel res2"
    and "\<And>m. tpl_Send E m = None"
  shows "(\<exists>tx'. server_run spin
      [(E, SRespond res), (E, SRespond res2), (E, SFire STimer_G), (E, SRun (CbSpin server_input_timer_g))]
      (s_Init define_fsm tx0) = Some (Ret () tx') \<and> ssent tx' = [Res res, Res res2]) \<and>
    (\<exists>tx' trying. server_run spin
      [(E, SFire STimer_1xx), (E, SRespond res), (E, SRun CbTrying), (E, SFire STimer_G),
       (E, SRun (CbSpin server_input_timer_g))]
      (s_Init define_fsm tx0) = Some (Ret () tx') \<and> ssent tx' = [Res res, Res trying] \<and> rstatus trying = 100)"
proof -
  note lib = server_lib.intro [OF assms(1)] and f = NewServerTx_fields [OF assms(2)]
  obtain trying where t: "NewResponseFromRequest (fresh_id E) [] req 100 ''Trying'' [] = Ok trying" "rstatus trying = 100"
    "\<not> response_IsCancel trying"
    using trying_response [OF assms(4,6,7)] .
  let ?tx = "s_Init define_fsm tx0"
  have tx: "sfsm ?tx = Some (at_state True server_state_proceeding)" "\<not> sreliable ?tx" "\<not> sdone ?tx" "sspawned ?tx = []"
    "ssent ?tx = []" "is_armed (timer_1xx ?tx)" "sorigin ?tx = req"
    unfolding server_lib.invite_Init [OF lib assms(2,3)] using f assms(5) by simp_all
  show ?thesis
    using server_lib.late_response [OF lib tx(1-5) assms(8-11)]
      server_lib.trying_race [OF lib tx(1-6) assms(8,9) t(1) [folded tx(7)] t(3) assms(11)] t(2) by blast
qed

lemma ex_responses [simp]:
  "\<not> response_IsCancel (ex_response INVITE code)" "user_input (ex_response INVITE 486) = server_input_user_300_plus"
  "user_input (ex_response INVITE 200) = server_input_user_2xx" "tpl_Send ex_env m = None"
  by (simp_all add: response_IsCancel_def ex_response_def NewResponse_def user_input_def IsProvisional_def IsSuccess_def
      INVITE_def CANCEL_def ex_env_def)

lemma ex_cseq: "hs_CSeq (hdrs (ex_request INVITE)) = Some \<lparr>SeqNo = 1, MethodName = INVITE\<rparr>"
  by (simp add: ex_request_def NewRequest_def)

theorem server_retransmits_late_response_witness:
  "\<exists>tx'. server_run fsm_Spin
      [(ex_env, SRespond (ex_response INVITE 486)), (ex_env, SRespond (ex_response INVITE 200)), (ex_env, SFire STimer_G),
       (ex_env, SRun (CbSpin server_input_timer_g))]
      ex_proceeding = Some (Ret () tx') \<and> ssent tx' = [Res (ex_response INVITE 486), Res (ex_response INVITE 200)]"
  using server_retransmits_late_response [OF fl.fsm_lib_axioms ex_server_created ex_invite(1) ex_ready(1) _ ex_cseq _
    ex_responses(1,2,1), of ex_env 200]
  by (simp add: ex_server_def ex_proceeding_def)

text \<open>A state in Completed, for the end of the final states.\<close>

lemma ex_completed_reach:
  "\<exists>tx. server_reach fsm_Define fsm_Spin server_regular (ex_server (ex_request INVITE)) tx \<and>
     sfsm tx = Some (at_state True server_state_completed)"
proof -
  let ?res = "ex_response INVITE 486"
  obtain tx where tx: "s_Respond fsm_Spin ex_env ?res ex_proceeding = Ret None tx"
    "sfsm tx = Some (at_state True server_state_completed)"
    using sl.respond_300 [of ex_proceeding ?res ex_env] by simp
  then have "server_reach fsm_Define fsm_Spin server_regular (ex_server (ex_request INVITE)) tx"
    by (intro sreach_step [OF ex_server_reach, of "SRespond ?res" ex_env]) (simp_all add: server_regular_def)
  with tx(2) show ?thesis by blast
qed

theorem server_final_states_end_witness:
  "\<exists>tx evs tx'. sfsm tx = Some (at_state True server_state_completed) \<and>
     server_run fsm_Spin evs tx = Some (Ret () tx') \<and> sdone tx'"
proof -
  obtain tx where "server_reach fsm_Define fsm_Spin server_regular (ex_server (ex_request INVITE)) tx"
    and fsm: "sfsm tx = Some (at_state True server_state_completed)"
    using ex_completed_reach by blast
  from server_final_states_end [OF fl.fsm_lib_axioms ex_server_created ex_ready(1) this(1) _ _ refl,
      of server_state_completed ex_env] fsm
  show ?thesis by (simp del: server_run.simps) blast
qed

section \<open>Runs that go wrong\<close>

text \<open>A server transaction panics when \<open>Receive\<close> is given a response, and when an ACK reaches an
  INVITE transaction in Accepted after \<open>Terminate\<close>.\<close>

theorem server_receive_panics:
  assumes "fsm_lib define_fsm spin" and "sfsm tx = Some \<lparr>fsm_states = server_table_of True, fsm_current = server_state_accepted\<rparr>"
    and "slive tx" and "request_IsAck ack" and "rmethod (sorigin tx) \<noteq> ACK" and "\<not> pick_done E"
  shows "(\<exists>tx'. server_run spin [(E, SReceive (Res res))] tx = Some (Panic tx')) \<and>
    (\<exists>tx'. server_run spin [(E, STerminate), (E, SReceive (Req ack))] tx = Some (Panic tx'))"
proof
  show "\<exists>tx'. server_run spin [(E, SReceive (Res res))] tx = Some (Panic tx')" by (simp add: s_Receive_def)
next
  note lib = server_lib.intro [OF assms(1)]
  let ?tx = "(s_effect S_act_delete tx)\<lparr>timer_1xx := None, slastAck := Some ack\<rparr>"
  have "sfsm ?tx = Some (at_state True server_state_accepted)" using assms(2) by simp
  moreover have "run_server E S_act_passup_ack ?tx = Panic ?tx"
    using assms(6) by (simp add: s_act_passup_ack_def s_pass_ack_def select_send_def)
  ultimately have "s_Spin spin E server_input_ack ?tx = Panic ?tx"
    using server_entries(7) server_lib.s_Spin_turns [OF lib, of ?tx True server_state_accepted E server_input_ack]
    by (simp add: server_outcome_def eval_nat_numeral)
  with assms(3-5) show "\<exists>tx'. server_run spin [(E, STerminate), (E, SReceive (Req ack))] tx = Some (Panic tx')"
    by (simp add: s_Terminate_def slive_def s_delete_def s_close_all_def s_Receive_def request_IsAck_def Let_def)
qed

theorem server_receive_panics_witness:
  "\<exists>tx'. server_run fsm_Spin [(ex_env, STerminate), (ex_env, SReceive (Req (ex_request ACK)))]
     (ex_proceeding\<lparr>sfsm := Some \<lparr>fsm_states = server_table_of True, fsm_current = server_state_accepted\<rparr>\<rparr>) =
     Some (Panic tx')"
proof -
  let ?tx = "ex_proceeding\<lparr>sfsm := Some (at_state True server_state_accepted)\<rparr>"
  have "slive ?tx" using ex_proceeding_fsm(4) by (simp add: slive_def)
  moreover have "request_IsAck (ex_request ACK)" "rmethod (sorigin ?tx) \<noteq> ACK" "\<not> pick_done ex_env"
    by (simp_all add: request_IsAck_def ex_request_def NewRequest_def ACK_def INVITE_def ex_env_def)
  ultimately show ?thesis using server_receive_panics [OF fl.fsm_lib_axioms, of ?tx "ex_request ACK" ex_env] by simp
qed

text \<open>Accepted without timer L.\<close>

definition server_stuck :: "serverTx \<Rightarrow> bool" where
  "server_stuck tx \<longleftrightarrow> sfsm tx = Some (at_state True server_state_accepted) \<and> slive tx \<and> request_ready (sorigin tx)
     \<and> timer_l tx = None \<and> CbSpin server_input_timer_l \<notin> set (sspawned tx)"

lemma server_accepted_outcome:
  assumes "server_outcome (server_table_of True) server_state_accepted i = Some (st, act)" and "i \<noteq> server_input_timer_l"
  shows "st = server_state_accepted \<and> act \<in> {S_NO_ACTION, S_act_passup_ack, S_act_respond}"
  using assms by (cases i) (auto simp: server_table)

lemma server_stuck_same:
  assumes "server_stuck tx"
  shows "server_stuck (tx\<lparr>sspawned := remove1 cb (sspawned tx)\<rparr>)" "server_stuck (tx\<lparr>timer_1xx := x\<rparr>)"
    "server_stuck (tx\<lparr>slastResp := r\<rparr>)" "server_stuck (tx\<lparr>slastAck := a\<rparr>)" "server_stuck (tx\<lparr>slastCancel := a\<rparr>)"
    "server_stuck (tx\<lparr>ssent := l\<rparr>)" "server_stuck (tx\<lparr>sacks := (sacks tx)\<lparr>buf := m\<rparr>\<rparr>)"
    "server_stuck (tx\<lparr>scancels := (scancels tx)\<lparr>buf := m\<rparr>\<rparr>)" "server_stuck (tx\<lparr>serrs := (serrs tx)\<lparr>buf := n\<rparr>\<rparr>)"
  using assms notin_set_remove1 [of "CbSpin server_input_timer_l" "sspawned tx" cb]
  by (simp_all add: server_stuck_def slive_def)

lemma server_stuck_fire: "server_stuck tx \<Longrightarrow> is_armed (server_timer_field t tx) \<Longrightarrow> server_stuck (s_fire t tx)"
  by (cases t) (simp_all add: server_stuck_def slive_def s_fire_def Let_def)

lemma server_stuck_squiet: "server_stuck tx \<Longrightarrow> squiet tx t \<Longrightarrow> server_stuck t"
  by (simp add: server_stuck_def slive_def squiet_def)

context server_lib
begin

lemma server_stuck_spin:
  assumes "server_stuck tx" and "i \<noteq> server_input_timer_l"
  shows "go_post (s_Spin spin E i tx) (\<lambda>_ t. server_stuck t)"
proof -
  have f: "sfsm tx = Some (at_state True server_state_accepted)" and l: "slive tx"
    using assms(1) by (simp_all add: server_stuck_def)
  have "go_post (fsm_turns 4 (run_server E) (at_state True server_state_accepted) tx i)
      (\<lambda>(e, f) t. f = at_state True server_state_accepted \<and> squiet tx t)"
  proof (cases "server_outcome (server_table_of True) server_state_accepted i")
    case None
    then show ?thesis by (simp add: server_outcome_def fsm_turns_invalid)
  next
    case (Some x)
    then obtain st act where o: "server_outcome (server_table_of True) server_state_accepted i = Some (st, act)"
      by (cases x) simp
    have a: "st = server_state_accepted" "act \<in> {S_NO_ACTION, S_act_passup_ack, S_act_respond}"
      using server_accepted_outcome [OF o assms(2)] by simp_all
    have "go_post (run_server E act tx) (\<lambda>r t. squiet tx t \<and> (r = None \<or> r = Some server_input_transport_err))"
      by (rule go_post_mono [OF run_server_effect [OF l]]) (use a(2) in \<open>auto simp: act_post_def\<close>)
    then show ?thesis
      using a(1) o server_entries(6)
      by (auto simp: eval_nat_numeral fsm_turns_post server_outcome_def split: option.splits elim!: go_post_mono)
  qed
  then show ?thesis
    unfolding s_Spin_turns [OF f] go_post_bind
    by (rule go_post_mono) (use server_stuck_squiet [OF assms(1)] in \<open>auto simp: server_stuck_def slive_def\<close>)
qed

lemma server_stuck_respond: "server_stuck tx \<Longrightarrow> go_post (s_Respond spin E res tx) (\<lambda>_ t. server_stuck t)"
  by (auto simp: s_Respond_def s_Send_def server_stuck_same user_input_def intro!: server_stuck_spin)

lemma server_stuck_event:
  assumes "server_stuck tx" and "server_regular ev" and "server_enabled ev tx"
  shows "go_post (server_exec spin E ev tx) (\<lambda>_ t. server_stuck t)"
proof (cases ev)
  case (SReceive msg)
  with assms(2) obtain req where "msg = Req req" by (cases msg) (auto simp: server_regular_def)
  with SReceive show ?thesis
    by (auto simp: drop_value_post s_Receive_def Let_def intro!: server_stuck_spin server_stuck_same assms(1))
next
  case (SRespond res)
  then show ?thesis by (simp add: drop_value_post server_stuck_respond [OF assms(1)])
next
  case (SRun cb)
  show ?thesis
  proof (cases cb)
    case (CbSpin i)
    with SRun assms have "i \<noteq> server_input_timer_l" by (auto simp: server_stuck_def)
    with SRun CbSpin show ?thesis
      by (auto simp: drop_value_post s_run_callback_def intro!: server_stuck_spin server_stuck_same assms(1))
  next
    case CbTrying
    have "request_ready (sorigin tx)" using assms(1) by (simp add: server_stuck_def)
    then obtain res where "NewResponseFromRequest (fresh_id E) [] (sorigin tx) 100 ''Trying'' [] = Ok res"
      by (meson NewResponseFromRequest_total)
    with SRun CbTrying server_stuck_respond [OF server_stuck_same(1) [OF assms(1), of cb], of E res] show ?thesis
      by (simp add: drop_value_post s_run_callback_def s_trying_def)
  qed
next
  case (SFire t)
  with assms server_stuck_fire show ?thesis by simp
qed (use assms(2) server_stuck_same [OF assms(1)] in \<open>auto simp: server_regular_def\<close>)

lemma server_stuck_run:
  assumes "server_stuck tx" and "\<forall>(E, ev) \<in> set evs. server_regular ev" and "server_run spin evs tx = Some (Ret () tx')"
  shows "server_stuck tx'"
  using assms
proof (induction evs arbitrary: tx)
  case (Cons a evs)
  obtain E ev where a: "a = (E, ev)" by (cases a)
  from Cons.prems obtain t where t: "server_exec spin E ev tx = Ret () t" "server_enabled ev tx"
    "server_run spin evs t = Some (Ret () tx')"
    by (cases "server_exec spin E ev tx") (auto simp: a split: if_splits)
  with server_stuck_event [OF Cons.prems(1) _ t(2), of E] Cons.prems(2) have "server_stuck t" by (simp add: a)
  from Cons.IH [OF this _ t(3)] Cons.prems(2) show ?case by simp
qed simp

lemma accept_failed:
  assumes "sfsm tx = Some (at_state True server_state_proceeding)" and "slive tx" and "request_ready (sorigin tx)"
    and "timer_l tx = None" and "CbSpin server_input_timer_l \<notin> set (sspawned tx)"
    and "\<not> response_IsCancel res" and "user_input res = server_input_user_2xx" and "tpl_Send E (Res res) = Some err"
  shows "\<exists>tx'. s_Respond spin E res tx = Ret None tx' \<and> server_stuck tx' \<and> serrs tx' = serrs tx"
proof -
  let ?tx = "tx\<lparr>slastResp := Some res, timer_1xx := None\<rparr>"
  have f: "sfsm ?tx = Some (at_state True server_state_proceeding)" using assms(1) by simp
  have "run_server E S_act_respond_accept ?tx =
      Ret (Some server_input_transport_err) (?tx\<lparr>ssent := ssent tx @ [Res res], slastErr := Some err\<rparr>)"
    using assms(8) by (simp add: s_act_respond_accept_def s_respond_then_def s_Send_def)
  with server_entries(5,6) assms show ?thesis
    by (simp add: s_Respond_def s_Spin_turns [OF f] eval_nat_numeral server_outcome_def server_stuck_def slive_def
        del: run_server.simps(4))
qed

end

text \<open>When sending the 2xx of the user fails, an INVITE server transaction stays in Accepted for ever:
  the failure is not reported, timer L does not run, and no run without \<open>Terminate\<close> ends the transaction.\<close>

theorem server_accepted_never_ends:
  assumes "fsm_lib define_fsm spin" and "NewServerTx rel req = Ok tx0" and "IsInvite req" and "request_ready req"
    and "\<not> response_IsCancel res" and "user_input res = server_input_user_2xx" and "tpl_Send E (Res res) = Some err"
  shows "\<exists>tx. server_run spin [(E, SRespond res)] (s_Init define_fsm tx0) = Some (Ret () tx) \<and>
    buf (serrs tx) = [] \<and>
    (\<forall>evs tx'. (\<forall>(E', ev) \<in> set evs. server_regular ev) \<longrightarrow> server_run spin evs tx = Some (Ret () tx') \<longrightarrow> \<not> sdone tx')"
proof -
  note lib = server_lib.intro [OF assms(1)] and f = NewServerTx_fields [OF assms(2)]
  let ?tx = "s_Init define_fsm tx0"
  have "slive tx0" using NewServerTx_new [OF assms(2)] by (simp add: new_server_def slive_def make_chan_def)
  then have tx: "sfsm ?tx = Some (at_state True server_state_proceeding)" "slive ?tx" "request_ready (sorigin ?tx)"
    "timer_l ?tx = None" "CbSpin server_input_timer_l \<notin> set (sspawned ?tx)"
    unfolding server_lib.invite_Init [OF lib assms(2,3)] using f assms(4) by (simp_all add: slive_def)
  obtain tx where t: "s_Respond spin E res ?tx = Ret None tx" and stuck: "server_stuck tx"
    and errs: "serrs tx = serrs ?tx"
    using server_lib.accept_failed [OF lib tx assms(5-7)] by blast
  have "buf (serrs tx) = []"
    using NewServerTx_new [OF assms(2)]
    unfolding errs server_lib.invite_Init [OF lib assms(2,3)] by (simp add: new_server_def make_chan_def)
  then show ?thesis
    using t server_lib.server_stuck_run [OF lib stuck] 
    by (intro exI [of _ tx]) (auto simp: server_stuck_def slive_def)
qed

theorem server_accepted_never_ends_witness:
  "\<exists>E tx. server_run fsm_Spin [(E, SRespond (ex_response INVITE 200))] ex_proceeding = Some (Ret () tx) \<and> buf (serrs tx) = []"
  using server_accepted_never_ends [OF fl.fsm_lib_axioms ex_server_created ex_invite(1) ex_ready(1),
    of "ex_response INVITE 200" "ex_env\<lparr>tpl_Send := \<lambda>_. Some ''e''\<rparr>" "''e''"]
  unfolding ex_proceeding_def by auto

section \<open>Retransmission intervals\<close>

lemma restart_g_step:
  assumes "timer_g t = Some x" and "0 \<le> timer_g_time t" and "timer_g_time t \<le> T2"
  shows "s_restart_g t = t\<lparr>timer_g_time := min (timer_g_time t * 2) T2,
    timer_g := Some (timer_Reset (min (timer_g_time t * 2) T2) x)\<rparr>"
proof -
  have "wrap64 (timer_g_time t * 2) = timer_g_time t * 2"
    using assms(2,3) by (intro wrap64_id) (simp_all add: timer_values)
  with assms(1) show ?thesis by (simp add: s_restart_g_def Let_def min_def)
qed

lemma restart_g_intervals:
  assumes "timer_g tx = None" and "timer_g_time tx = Timer_G"
  shows "timer_g_time ((s_restart_g ^^ Suc n) tx) = min (Timer_G * 2 ^ n) T2 \<and>
    (\<exists>t. timer_g ((s_restart_g ^^ Suc n) tx) = Some t \<and> armed t \<and> period t = min (Timer_G * 2 ^ n) T2)"
proof (induction n)
  case 0
  with assms show ?case by (simp add: s_restart_g_def AfterFunc_def timer_values)
next
  case (Suc n)
  define u where "u = (s_restart_g ^^ Suc n) tx"
  from Suc obtain t where t: "timer_g u = Some t" and d: "timer_g_time u = min (Timer_G * 2 ^ n) T2"
    by (auto simp: u_def)
  have "0 \<le> timer_g_time u" "timer_g_time u \<le> T2" by (simp_all add: d timer_values)
  note step = restart_g_step [OF t this]
  have "min (min (Timer_G * 2 ^ n) T2 * 2) T2 = min (Timer_G * 2 ^ Suc n) T2" by (simp add: timer_values min_def)
  moreover have "(s_restart_g ^^ Suc (Suc n)) tx = s_restart_g u" by (simp add: u_def)
  ultimately show ?case by (simp add: step d timer_Reset_def)
qed

text \<open>The intervals of timer G double from T1 and are capped at T2, for every number of retransmissions
  of a response over an unreliable transport.\<close>

theorem server_retransmission_intervals:
  assumes "NewServerTx rel req = Ok tx0" and "IsInvite req" and "\<not> sreliable tx0" 
    and "fsm_lib define_fsm (spin :: server_spin)"
  shows "\<exists>t. timer_g ((s_restart_g ^^ Suc n) (s_Init define_fsm tx0)) = Some t \<and> armed t \<and>
    period t = min (T1 * 2 ^ n) T2"
proof -
  have "timer_g (s_Init define_fsm tx0) = None" "timer_g_time (s_Init define_fsm tx0) = Timer_G"
    unfolding server_lib.invite_Init [OF server_lib.intro [OF assms(4)] assms(1,2)]
    using NewServerTx_fields [OF assms(1)] assms(3) by simp_all
  from restart_g_intervals [OF this, of n] show ?thesis by (auto simp: Timer_G_def)
qed

theorem server_retransmission_intervals_witness:
  "\<exists>t. timer_g ((s_restart_g ^^ 5) ex_proceeding) = Some t \<and> period t = 4 * Second"
  using server_retransmission_intervals [OF ex_server_created ex_invite(1) _ fl.fsm_lib_axioms, of 4]
  by (auto simp: ex_server_def ex_proceeding_def timer_values min_def)

end
