(* ===== verification/TxLayerProps.thy ===== *)
theory TxLayerProps
  imports TxLayer ClientRaces ServerProps
begin

text \<open>
  What the transaction layer of \<^verbatim>\<open>transaction/layer.go\<close> does in every interleaving: the store maps
  a key to a transaction with that key, and every transaction in it is served until it is done; requests and
  responses reach the transaction they belong to; and two runs in which they do not.
\<close>

section \<open>What every operation of a transaction keeps\<close>

text \<open>A part of the state that a call leaves as it is.\<close>

definition keeps :: "('s \<Rightarrow> 'k) \<Rightarrow> 's \<Rightarrow> ('a, 's) go \<Rightarrow> bool" where
  "keeps f s r \<longleftrightarrow> (case r of Ret _ t \<Rightarrow> f t = f s | Panic t \<Rightarrow> f t = f s | _ \<Rightarrow> True)"

lemma keeps_simps [simp]:
  "keeps f s (Ret a t) \<longleftrightarrow> f t = f s" "keeps f s (Panic t) \<longleftrightarrow> f t = f s" "keeps f s (Block t)" "keeps f s Diverge"
  by (simp_all add: keeps_def)

lemma keeps_cong: "f u = f s \<Longrightarrow> keeps f u r = keeps f s r"
  by (cases r) simp_all

lemma keeps_bind: "keeps f s r \<Longrightarrow> (\<And>a t. f t = f s \<Longrightarrow> keeps f t (k a t)) \<Longrightarrow> keeps f s (go_bind r k)"
  by (cases r) (auto intro: keeps_cong [THEN iffD1])

lemma keeps_recover: "keeps f s r \<Longrightarrow> keeps f s (go_recover z r)"
  by (cases r) simp_all

lemma keeps_RetD: "keeps f s r \<Longrightarrow> r = Ret a t \<Longrightarrow> f t = f s"
  by simp

abbreviation ckeeps :: "clientTx \<Rightarrow> ('a, clientTx) go \<Rightarrow> bool" where
  "ckeeps \<equiv> keeps (\<lambda>t. (ckey t, cfsm t))"

lemma ckeeps_helpers:
  "ckeeps tx (c_passUp E tx)" "ckeeps tx (c_resend E tx)" "ckeeps tx (c_send_err E e tx)" "ckeeps tx (c_cancel E tx)"
  "ckeeps tx (c_ack E tx)" "ckeeps tx (c_reset_a tx)" "ckeeps tx (c_close_all tx)"
  by (auto simp: c_passUp_def c_resend_def c_send_err_def c_cancel_def c_ack_def c_reset_a_def c_close_all_def
      c_send_request_def c_Send_def c_spawn_def Let_def split: option.split select_result.split res.split)

lemma ckeeps_delete: "ckeeps tx (c_delete tx)"
  by (auto simp: c_delete_def intro!: keeps_recover keeps_bind ckeeps_helpers)

lemma ckeeps_resend: "ckeeps tx (go_bind (c_reset_a (tx\<lparr>timer_a_time := d\<rparr>)) (\<lambda>_ tx1. go_bind (c_resend E tx1) (\<lambda>_ tx2. Ret None tx2)))"
proof -
  have "ckeeps (tx\<lparr>timer_a_time := d\<rparr>) (go_bind (c_reset_a (tx\<lparr>timer_a_time := d\<rparr>)) (\<lambda>_ tx1. go_bind (c_resend E tx1) (\<lambda>_ tx2. Ret None tx2)))"
    by (intro keeps_bind ckeeps_helpers) simp_all
  then show ?thesis by (rule keeps_cong [THEN iffD1, rotated]) simp
qed

lemma ckeeps_run: "ckeeps tx (run_client E act tx)"
  by (cases act)
     (auto simp: client_act_defs c_transportErr_def c_timeoutErr_def Let_def
       intro!: keeps_bind keeps_recover ckeeps_helpers ckeeps_delete ckeeps_resend)

text \<open>The machine of a client transaction is one of the two tables, in some state.\<close>

definition client_machine :: "clientTx \<Rightarrow> bool" where
  "client_machine tx \<longleftrightarrow> (\<exists>tbl st. tbl \<in> {invite_client_states, non_invite_client_states} \<and>
     cfsm tx = Some \<lparr>fsm_states = tbl, fsm_current = st\<rparr>)"

lemma ckeeps_turns: "ckeeps tx (client_turns tbl E st i tx)"
  by (auto simp: client_turns_def split: option.split intro!: keeps_bind ckeeps_run)

context client_lib
begin

lemma c_Spin_keeps:
  assumes "client_machine tx" and "c_Spin spin E i tx = Ret e t"
  shows "ckey t = ckey tx \<and> client_machine t"
proof -
  obtain tbl st where tbl: "tbl \<in> {invite_client_states, non_invite_client_states}"
    "cfsm tx = Some \<lparr>fsm_states = tbl, fsm_current = st\<rparr>" using assms(1) by (auto simp: client_machine_def)
  then have "short_chains tbl" using client_tables_short by auto
  from assms(2) c_Spin_turns [OF tbl(2) this, of E i] tbl(1) show ?thesis
    by (auto simp: go_bind_Ret_iff client_machine_def dest!: keeps_RetD [OF ckeeps_turns])
qed

lemma c_Init_keeps:
  assumes "c_Init define_fsm spin E tx = Ret e t"
  shows "ckey t = ckey tx \<and> client_machine t"
proof -
  have init: "client_machine (c_initFSM define_fsm tx)" "ckey (c_initFSM define_fsm tx) = ckey tx"
    by (simp_all add: c_initFSM_def c_initInviteFSM_def c_initNonInviteFSM_def invite_machine non_invite_machine client_machine_def)
  have send: "ckey u = ckey tx \<and> client_machine u" if "c_Init_send define_fsm spin E tx = Ret r u" for r u
  proof (cases "tpl_Send E (Req (corigin tx))")
    case None
    with that init show ?thesis by (auto simp: c_Init_send_def c_Send_def client_machine_def)
  next
    case (Some err)
    let ?u = "(c_initFSM define_fsm tx)\<lparr>csent := csent (c_initFSM define_fsm tx) @ [Req (corigin tx)], clastErr := Some err\<rparr>"
    have m: "client_machine ?u" "ckey ?u = ckey tx" using init by (simp_all add: client_machine_def)
    from Some that obtain x where "c_Spin spin E client_input_transport_err ?u = Ret x u"
      by (auto simp: c_Init_send_def c_Send_def go_bind_Ret_iff)
    with c_Spin_keeps [OF m(1)] m(2) show ?thesis by metis
  qed
  have timers: "ckey (c_Init_timers u) = ckey u" "cfsm (c_Init_timers u) = cfsm u" for u
    by (simp_all add: c_Init_timers_def Let_def)
  obtain r u where u: "c_Init_send define_fsm spin E tx = Ret r u" and t: "t = u \<or> t = c_Init_timers u"
    using assms by (auto simp: c_Init_def go_bind_Ret_iff Let_def split: option.splits)
  from send [OF u] t timers [of u] show ?thesis by (auto simp: client_machine_def)
qed

end

abbreviation skeeps :: "serverTx \<Rightarrow> ('a, serverTx) go \<Rightarrow> bool" where
  "skeeps \<equiv> keeps (\<lambda>t. (skey t, sfsm t))"

lemma skeeps_helpers:
  "skeeps tx (s_send_err E e tx)" "skeeps tx (s_pass_ack E tx)" "skeeps tx (s_close_all tx)"
  by (auto simp: s_send_err_def s_pass_ack_def s_close_all_def Let_def split: option.split select_result.split)

lemma skeeps_respond: "(\<And>t. skeeps t (k t)) \<Longrightarrow> skeeps tx (s_respond_then E k tx)"
proof (cases "slastResp tx")
  case (Some res)
  assume k: "\<And>t. skeeps t (k t)"
  have "skeeps tx (k (tx\<lparr>ssent := l, slastErr := e\<rparr>))" for l e
    by (rule keeps_cong [THEN iffD1, OF _ k]) simp
  with Some show ?thesis by (simp add: s_respond_then_def s_Send_def Let_def)
qed (simp add: s_respond_then_def)

lemma skeeps_delete: "skeeps tx (s_delete tx)"
  by (auto simp: s_delete_def intro!: keeps_recover keeps_bind skeeps_helpers)

lemma start_complete_key [simp]: "skey (s_start_complete t) = skey t"
  by (auto simp: s_start_complete_def s_restart_g_def Let_def split: option.split)

lemma skeeps_confirm: "skeeps tx (s_act_confirm E tx)"
  unfolding s_act_confirm_def by (rule keeps_recover, rule keeps_cong [THEN iffD1, OF _ skeeps_helpers(2)]) simp

lemma skeeps_run: "skeeps tx (run_server E act tx)"
proof (cases act)
  case S_act_confirm
  then show ?thesis by (simp add: skeeps_confirm)
next
  case S_act_cancel
  then show ?thesis
    by (auto simp: s_act_cancel_def intro!: keeps_recover split: option.split select_result.split)
next
  case S_act_respond_delete
  then show ?thesis
    by (auto simp: s_act_respond_delete_def s_Send_def Let_def intro!: keeps_bind skeeps_delete split: option.split)
qed (auto simp: s_act_respond_def s_act_respond_complete_def s_act_respond_accept_def s_act_passup_ack_def s_act_final_def
    s_act_trans_err_def s_act_timeout_def s_act_delete_def s_transportErr_def s_timeoutErr_def
    intro!: keeps_bind keeps_recover skeeps_helpers skeeps_delete skeeps_respond)

definition server_machine_ok :: "serverTx \<Rightarrow> bool" where
  "server_machine_ok tx \<longleftrightarrow> (\<exists>isinv st. sfsm tx = Some (at_state isinv st))"

lemma turns_keep: "fsm_turns n (run_server E) f tx i = Ret r t \<Longrightarrow> skey t = skey tx \<and> fsm_states (snd r) = fsm_states f"
proof (induction n arbitrary: f tx i)
  case (Suc n)
  show ?case
  proof (cases "fsm_outcome f i")
    case (Some x)
    then obtain st act where o: "fsm_outcome f i = Some (st, act)" by (cases x) simp
    with Suc.prems obtain j u where u: "run_server E act tx = Ret j u" by (auto simp: go_bind_Ret_iff)
    then have k: "skey u = skey tx" using keeps_RetD [OF skeeps_run u] by simp
    show ?thesis
    proof (cases j)
      case None
      with Suc.prems o u k show ?thesis by auto
    next
      case (Some i')
      with Suc.prems o u have "fsm_turns n (run_server E) (f\<lparr>fsm_current := st\<rparr>) u i' = Ret r t" by simp
      from Suc.IH [OF this] k show ?thesis by simp
    qed
  qed (use Suc.prems in auto)
qed simp

context server_lib
begin

lemma s_Spin_keeps:
  assumes "server_machine_ok tx" and "s_Spin spin E i tx = Ret e t"
  shows "skey t = skey tx \<and> server_machine_ok t"
proof -
  obtain isinv st where f: "sfsm tx = Some (at_state isinv st)" using assms(1) by (auto simp: server_machine_ok_def)
  from assms(2) obtain r f' u where u: "fsm_turns 4 (run_server E) (at_state isinv st) tx i = Ret (r, f') u"
    "t = u\<lparr>sfsm := Some f'\<rparr>"
    by (auto simp: s_Spin_turns [OF f] go_bind_Ret_iff)
  from turns_keep [OF u(1)] have "f' = at_state isinv (fsm_current f')" by simp
  with turns_keep [OF u(1)] u(2) show ?thesis unfolding server_machine_ok_def
    by (intro conjI exI [of _ isinv] exI [of _ "fsm_current f'"]) simp_all
qed

end

text \<open>The same for the operations.\<close>

definition c_same :: "clientTx \<Rightarrow> ('a, clientTx) go \<Rightarrow> bool" where
  "c_same tx r \<longleftrightarrow> (\<forall>a t. r = Ret a t \<longrightarrow> ckey t = ckey tx \<and> client_machine t)"

definition s_same :: "serverTx \<Rightarrow> ('a, serverTx) go \<Rightarrow> bool" where
  "s_same tx r \<longleftrightarrow> (\<forall>a t. r = Ret a t \<longrightarrow> skey t = skey tx \<and> server_machine_ok t)"

lemma client_machine_cong: "cfsm t = cfsm tx \<Longrightarrow> client_machine t = client_machine tx"
  by (simp add: client_machine_def)

lemma server_machine_cong: "sfsm t = sfsm tx \<Longrightarrow> server_machine_ok t = server_machine_ok tx"
  by (simp add: server_machine_ok_def)

lemma c_same_keeps: "client_machine tx \<Longrightarrow> ckeeps tx r \<Longrightarrow> c_same tx r"
  by (auto simp: c_same_def client_machine_def)

lemma s_same_keeps: "server_machine_ok tx \<Longrightarrow> skeeps tx r \<Longrightarrow> s_same tx r"
  by (auto simp: s_same_def server_machine_ok_def)

lemma c_same_drop: "c_same tx r \<Longrightarrow> c_same tx (drop_value r)"
  by (cases r) (simp_all add: c_same_def)

lemma s_same_drop: "s_same tx r \<Longrightarrow> s_same tx (drop_value r)"
  by (cases r) (simp_all add: s_same_def)

context client_lib
begin

lemma c_same_Spin: "client_machine u \<Longrightarrow> ckey u = ckey tx \<Longrightarrow> c_same tx (c_Spin spin E i u)"
  using c_Spin_keeps unfolding c_same_def by metis

lemma c_same_ops:
  assumes "client_machine tx"
  shows "c_same tx (c_Receive spin E msg tx)" "c_same tx (c_Cancel spin E tx)" "c_same tx (c_run_spawned spin E i tx)"
    "c_same tx (c_Terminate tx)"
proof -
  show "c_same tx (c_Receive spin E msg tx)"
    using assms by (cases msg) (auto simp: c_Receive_def client_machine_def intro!: c_same_Spin, auto simp: c_same_def client_machine_def)
  show "c_same tx (c_Cancel spin E tx)" "c_same tx (c_run_spawned spin E i tx)"
    using assms by (auto simp: c_Cancel_def c_run_spawned_def client_machine_def intro!: c_same_Spin)
  show "c_same tx (c_Terminate tx)"
    using assms ckeeps_delete [of tx] by (auto simp: c_Terminate_def intro!: c_same_keeps)
qed

end

context server_lib
begin

lemma s_same_Spin: "server_machine_ok u \<Longrightarrow> skey u = skey tx \<Longrightarrow> s_same tx (s_Spin spin E i u)"
  using s_Spin_keeps unfolding s_same_def by metis

lemma s_same_Respond: "server_machine_ok u \<Longrightarrow> skey u = skey tx \<Longrightarrow> s_same tx (s_Respond spin E res u)"
  by (auto simp: s_Respond_def s_Send_def server_machine_ok_def intro!: s_same_Spin) (auto simp: s_same_def server_machine_ok_def)

lemma s_same_Receive: "server_machine_ok tx \<Longrightarrow> s_same tx (s_Receive spin E msg tx)"
  by (cases msg) (auto simp: s_Receive_def server_machine_ok_def Let_def s_same_def dest!: s_Spin_keeps [rotated] split: if_splits)

lemma s_same_exec:
  assumes "server_machine_ok tx"
  shows "s_same tx (server_exec spin E ev tx)"
proof (cases ev)
  case (SRun cb)
  have "server_machine_ok (tx\<lparr>sspawned := l\<rparr>)" for l using assms by (simp add: server_machine_ok_def)
  then have "s_same tx (s_run_callback spin E cb tx)"
    by (cases cb) (auto simp: s_run_callback_def s_trying_def Let_def s_same_def [of _ "Panic _"]
        intro!: s_same_Spin s_same_Respond split: res.split)
  with SRun show ?thesis by (simp add: s_same_drop)
next
  case (SFire t)
  then show ?thesis using assms by (cases t) (auto simp: s_same_def s_fire_def Let_def server_machine_ok_def)
next
  case STerminate
  then show ?thesis using assms skeeps_delete [of tx] by (auto simp: s_Terminate_def intro!: s_same_keeps)
qed (use assms in \<open>auto simp: s_same_Receive s_same_Respond s_same_drop s_same_def [of _ "Ret _ _"] server_machine_ok_def\<close>)

end

section \<open>The invariant of the layer\<close>

definition libs_ok :: "layer_env \<Rightarrow> bool" where
  "libs_ok F \<longleftrightarrow> fsm_lib (le_cdefine F) (le_cspin F) \<and> fsm_lib (le_sdefine F) (le_sspin F)"

fun tx_ok :: "tx \<Rightarrow> bool" where
  "tx_ok (ClientT t) = client_machine t"
| "tx_ok (ServerT t) = server_machine_ok t"

definition layer_wf :: "tx_layer \<Rightarrow> bool" where
  "layer_wf L \<longleftrightarrow> distinct (map fst (tl_store L))
     \<and> (\<forall>k p. map_of (tl_store L) k = Some p \<longrightarrow> (\<exists>x. tl_obj L p = Some x \<and> tx_Key x = k))
     \<and> (\<forall>x \<in> set (tl_heap L). tx_ok x)
     \<and> set (tl_pending L) \<union> set (tl_serveTxCh L) \<union> set (tl_serving L) \<subseteq> {..<length (tl_heap L)}
     \<and> (\<forall>k p. \<not> tl_canceled L \<longrightarrow> map_of (tl_store L) k = Some p \<longrightarrow> p \<in> set (tl_serveTxCh L) \<union> set (tl_serving L))"

lemma NewLayer_wf: "layer_wf NewLayer"
  by (simp add: layer_wf_def NewLayer_def)

lemma layer_wf_ok: "layer_wf L \<Longrightarrow> tl_obj L p = Some x \<Longrightarrow> tx_ok x"
  unfolding layer_wf_def tl_obj_def by (metis nth_mem option.distinct(1) option.inject)

lemma layer_wf_key: "layer_wf L \<Longrightarrow> map_of (tl_store L) k = Some p \<Longrightarrow> \<exists>x. tl_obj L p = Some x \<and> tx_Key x = k"
  unfolding layer_wf_def by blast

lemma tl_set_wf:
  assumes "layer_wf L" and "tl_obj L p = Some y" and "tx_ok x" and "tx_Key x = tx_Key y"
  shows "layer_wf (tl_set p x L)"
proof -
  have p: "p < length (tl_heap L)" "y = tl_heap L ! p" using assms(2) by (auto simp: tl_obj_def split: if_splits)
  have "\<exists>z. tl_obj (tl_set p x L) q = Some z \<and> tx_Key z = k" if "map_of (tl_store L) k = Some q" for k q
  proof -
    have "\<exists>z. tl_obj L q = Some z \<and> tx_Key z = k" using assms(1) that by (simp add: layer_wf_def)
    then show ?thesis using p assms(4) by (auto simp: tl_obj_def tl_set_def nth_list_update split: if_splits)
  qed
  moreover have "\<forall>z \<in> set ((tl_heap L)[p := x]). tx_ok z"
    using assms(1,3) set_update_subset_insert [of "tl_heap L" p x] by (auto simp: layer_wf_def)
  ultimately show ?thesis using assms(1) by (simp add: layer_wf_def tl_set_def)
qed

definition same_layer :: "tx_layer \<Rightarrow> tx_layer \<Rightarrow> bool" where
  "same_layer L L' \<longleftrightarrow> (\<exists>h. L' = L\<lparr>tl_heap := h\<rparr> \<and> length h = length (tl_heap L))"

lemma call_client_wf:
  assumes "layer_wf L" and "\<And>t. client_machine t \<Longrightarrow> c_same t (f t)" and "call_client p f L = Ret a L'"
  shows "layer_wf L' \<and> same_layer L L'"
proof -
  obtain t where t: "tl_obj L p = Some (ClientT t)"
    using assms(3) by (auto simp: call_client_def split: option.splits tx.splits)
  with assms(3) obtain t' where t': "f t = Ret a t'" "L' = tl_set p (ClientT t') L"
    by (cases "f t") (auto simp: call_client_def)
  have "tx_ok (ClientT t)" using layer_wf_ok [OF assms(1) t] .
  with assms(2) [of t] t'(1) have "ckey t' = ckey t" "client_machine t'" by (auto simp: c_same_def)
  with tl_set_wf [OF assms(1) t, of "ClientT t'"] t'(2) show ?thesis
    by (auto simp: same_layer_def tl_set_def)
qed

lemma call_server_wf:
  assumes "layer_wf L" and "\<And>t. server_machine_ok t \<Longrightarrow> s_same t (f t)" and "call_server p f L = Ret a L'"
  shows "layer_wf L' \<and> same_layer L L'"
proof -
  obtain t where t: "tl_obj L p = Some (ServerT t)"
    using assms(3) by (auto simp: call_server_def split: option.splits tx.splits)
  with assms(3) obtain t' where t': "f t = Ret a t'" "L' = tl_set p (ServerT t') L"
    by (cases "f t") (auto simp: call_server_def)
  have "tx_ok (ServerT t)" using layer_wf_ok [OF assms(1) t] .
  with assms(2) [of t] t'(1) have "skey t' = skey t" "server_machine_ok t'" by (auto simp: s_same_def)
  with tl_set_wf [OF assms(1) t, of "ServerT t'"] t'(2) show ?thesis
    by (auto simp: same_layer_def tl_set_def)
qed

lemma serve_end_wf: "layer_wf L \<Longrightarrow> layer_wf (serve_end p L)"
proof -
  assume wf: "layer_wf L"
  show ?thesis
  proof (cases "tl_obj L p")
    case (Some x)
    let ?k = "tx_Key x" and ?L = "serve_end p L"
    have store: "tl_store ?L = AList.delete ?k (tl_store L)"
      using Some by (auto simp: serve_end_def store_drop_def store_get_def map_of_eq_None_iff split: option.split
          intro!: delete_idem [symmetric])
    have same: "tl_obj ?L = tl_obj L" "tl_heap ?L = tl_heap L" "tl_pending ?L = tl_pending L"
      "tl_serveTxCh ?L = tl_serveTxCh L" "tl_serving ?L = remove1 p (tl_serving L)" "tl_canceled ?L = tl_canceled L"
      using Some by (auto simp: serve_end_def tl_obj_def fun_eq_iff)
    have "q \<noteq> p" if "map_of (tl_store L) k = Some q" "k \<noteq> ?k" for k q
      using layer_wf_key [OF wf that(1)] that(2) Some by auto
    then show ?thesis
      using wf set_remove1_subset [of p "tl_serving L"]
      unfolding layer_wf_def same store
      by (auto simp: distinct_delete in_set_remove1)
  qed (simp add: serve_end_def wf)
qed

text \<open>A new object, and an entry of the store for an object.\<close>

lemma new_object_wf:
  assumes "layer_wf L" and "tx_ok x"
  shows "layer_wf (L\<lparr>tl_heap := tl_heap L @ [x]\<rparr>)"
proof -
  have "tl_obj (L\<lparr>tl_heap := tl_heap L @ [x]\<rparr>) p = Some y" if "tl_obj L p = Some y" for p y
    using that by (auto simp: tl_obj_def nth_append split: if_splits)
  with assms show ?thesis unfolding layer_wf_def by (auto 4 4)
qed

lemma put_wf:
  assumes "layer_wf L" and "tl_obj L p = Some x"
    and "tl_heap L' = tl_heap L" "tl_store L' = AList.update (tx_Key x) p (tl_store L)"
    and "set (tl_pending L') \<subseteq> set (tl_pending L)" "tl_canceled L' = tl_canceled L"
    and "set (tl_serveTxCh L) \<subseteq> set (tl_serveTxCh L')" "set (tl_serving L) \<subseteq> set (tl_serving L')"
    and "set (tl_serveTxCh L') \<union> set (tl_serving L') \<subseteq> insert p (set (tl_serveTxCh L) \<union> set (tl_serving L))"
    and "\<not> tl_canceled L \<Longrightarrow> p \<in> set (tl_serveTxCh L') \<union> set (tl_serving L')"
  shows "layer_wf L'"
proof -
  have p: "p < length (tl_heap L)" using assms(2) by (simp add: tl_obj_def split: if_splits)
  have obj: "tl_obj L' = tl_obj L" using assms(3) by (simp add: tl_obj_def fun_eq_iff)
  have d: "distinct (map fst (tl_store L'))" using assms(1,4) by (simp add: layer_wf_def distinct_update)
  have s: "map_of (tl_store L') k = (if k = tx_Key x then Some p else map_of (tl_store L) k)" for k
    by (simp add: assms(4))
  have "set (tl_pending L') \<union> set (tl_serveTxCh L') \<union> set (tl_serving L') \<subseteq> {..<length (tl_heap L')}"
    using assms(1,3,5,9) p by (auto simp: layer_wf_def)
  moreover have "\<exists>y. tl_obj L' q = Some y \<and> tx_Key y = k" if "map_of (tl_store L') k = Some q" for k q
    using that layer_wf_key [OF assms(1), of k q] assms(2) by (auto simp: s obj split: if_splits)
  moreover have "q \<in> set (tl_serveTxCh L') \<union> set (tl_serving L')"
    if "\<not> tl_canceled L'" "map_of (tl_store L') k = Some q" for k q
  proof (cases "k = tx_Key x")
    case False
    with that assms(6) have "\<not> tl_canceled L" "map_of (tl_store L) k = Some q" by (simp_all add: s)
    then have "q \<in> set (tl_serveTxCh L) \<union> set (tl_serving L)" using assms(1) unfolding layer_wf_def by blast
    then show ?thesis using assms(7,8) by blast
  qed (use that assms(6,10) in \<open>simp add: s\<close>)
  moreover have "\<forall>y \<in> set (tl_heap L'). tx_ok y" using assms(1,3) by (simp add: layer_wf_def)
  ultimately show ?thesis using d unfolding layer_wf_def by blast
qed

text \<open>Fields on which the invariant does not depend.\<close>

lemma layer_wf_logs [simp]:
  "layer_wf (L\<lparr>tl_requests := r\<rparr>) = layer_wf L" "layer_wf (L\<lparr>tl_acks := a\<rparr>) = layer_wf L"
  "layer_wf (L\<lparr>tl_responses := b\<rparr>) = layer_wf L" "layer_wf (L\<lparr>tl_sent := c\<rparr>) = layer_wf L"
  "layer_wf (L\<lparr>tl_done := d\<rparr>) = layer_wf L"
  by (simp_all add: layer_wf_def tl_obj_def)

lemma call_client_new:
  assumes "call_client (length (tl_heap L)) f (L\<lparr>tl_heap := tl_heap L @ [ClientT t]\<rparr>) = Ret a L'"
  obtains t' where "f t = Ret a t'" "L' = L\<lparr>tl_heap := tl_heap L @ [ClientT t']\<rparr>"
  using assms by (cases "f t") (auto simp: call_client_def tl_obj_def tl_set_def)

lemma libs_client: "libs_ok F \<Longrightarrow> client_lib (le_cdefine F) (le_cspin F)"
  by (simp add: libs_ok_def client_lib.intro)

lemma libs_server: "libs_ok F \<Longrightarrow> server_lib (le_sdefine F) (le_sspin F)"
  by (simp add: libs_ok_def server_lib.intro)

lemma tl_obj_fields [simp]: "tl_obj (L\<lparr>tl_pending := l\<rparr>) = tl_obj L" "tl_obj (L\<lparr>tl_serveTxCh := l\<rparr>) = tl_obj L"
  "tl_obj (L\<lparr>tl_serving := l\<rparr>) = tl_obj L" "tl_obj (L\<lparr>tl_canceled := c\<rparr>) = tl_obj L" "tl_obj (L\<lparr>tl_store := st\<rparr>) = tl_obj L"
  by (simp_all add: tl_obj_def fun_eq_iff)

lemma pending_wf: "layer_wf L \<Longrightarrow> p < length (tl_heap L) \<Longrightarrow> layer_wf (L\<lparr>tl_pending := p # tl_pending L\<rparr>)"
  by (simp add: layer_wf_def)

lemma Request_send_wf:
  assumes "libs_ok F" and wf: "layer_wf L" and "l_Request_send F req L = Ret r L'"
  shows "layer_wf L'"
proof (cases "tl_canceled L \<or> request_IsAck req \<or> (\<exists>e. NewClientTx (fresh_branch (le_env F)) (le_reliable F) req = Err e)")
  case True
  with wf assms(3) show ?thesis by (auto simp: l_Request_send_def split: if_splits)
next
  case False
  with assms(3) obtain t where t: "NewClientTx (fresh_branch (le_env F)) (le_reliable F) req = Ok t"
    by (auto simp: l_Request_send_def split: if_splits res.splits)
  let ?p = "length (tl_heap L)" and ?f = "c_Init (le_cdefine F) (le_cspin F) (le_env F)"
  from False t assms(3) obtain e L2 where
    call: "call_client ?p ?f (L\<lparr>tl_heap := tl_heap L @ [ClientT t]\<rparr>) = Ret e L2"
    and L': "L' = L2 \<or> L' = L2\<lparr>tl_pending := ?p # tl_pending L2\<rparr>"
    by (auto simp: l_Request_send_def tl_new_def go_bind_Ret_iff split: option.splits)
  obtain t' where t': "?f t = Ret e t'" "L2 = L\<lparr>tl_heap := tl_heap L @ [ClientT t']\<rparr>"
    using call by (rule call_client_new)
  have "layer_wf L2"
    using new_object_wf [OF wf, of "ClientT t'"] client_lib.c_Init_keeps [OF libs_client [OF assms(1)] t'(1)] t'(2) by simp
  with L' pending_wf [of L2 ?p] t'(2) show ?thesis by auto
qed

lemma Request_put_wf:
  assumes "layer_wf L"
  shows "layer_wf (snd (l_Request_put p L))"
proof (cases "tl_obj L p")
  case (Some x)
  show ?thesis
    by (rule put_wf [OF assms Some])
       (use Some set_remove1_subset [of p "tl_pending L"] in \<open>auto simp: l_Request_put_def store_put_def Let_def\<close>)
qed (simp add: l_Request_put_def assms)

lemma newServer_wf:
  assumes "libs_ok F" and "layer_wf L" and "newServer F req L = Ret r L'"
  shows "layer_wf L'"
proof (cases "NewServerTx (le_reliable F) req")
  case (Ok t)
  let ?x = "ServerT (s_Init (le_sdefine F) t)" and ?p = "length (tl_heap L)"
  have "new_server t" using NewServerTx_new [OF Ok] by simp
  have m: "server_machine_ok (s_Init (le_sdefine F) t)" "skey (s_Init (le_sdefine F) t) = skey t"
    using server_lib.server_machine [OF libs_server [OF assms(1)], of True]
      server_lib.server_machine [OF libs_server [OF assms(1)], of False]
    by (auto simp: s_Init_def s_initFSM_def s_initInviteFSM_def s_initNonInviteFSM_def server_table_of_def Let_def
        server_machine_ok_def)
  let ?L = "L\<lparr>tl_heap := tl_heap L @ [?x]\<rparr>"
  have "layer_wf ?L" using new_object_wf [OF assms(2), of ?x] m(1) by simp
  moreover have "tl_obj ?L ?p = Some ?x" by (simp add: tl_obj_def)
  ultimately show ?thesis
    using assms(3) Ok m(2)
    by (auto simp: newServer_def tl_new_def store_put_def intro!: put_wf [where L = ?L and p = ?p and x = ?x])
qed (use assms in \<open>simp_all add: newServer_def\<close>)

lemma handleMessage_wf:
  assumes "libs_ok F" and "layer_wf L" and "handleMessage F msg L = Ret r L'"
  shows "layer_wf L'"
proof (cases msg)
  case (Req req)
  show ?thesis
  proof (cases "\<not> tl_canceled L \<and> (\<exists>p. getServerTx L (hdrs req) = Ok p)")
    case True
    with assms(3) Req obtain p u where "call_server p (s_Receive (le_sspin F) (le_env F) (Req req)) L = Ret u L'"
      by (auto simp: handleMessage_def handleRequest_def go_bind_Ret_iff)
    from call_server_wf [OF assms(2) _ this] show ?thesis
      using server_lib.s_same_Receive [OF libs_server [OF assms(1)]] by blast
  next
    case False
    with assms Req newServer_wf [OF assms(1,2), of req r L'] show ?thesis
      by (auto simp: handleMessage_def handleRequest_def split: if_splits res.splits)
  qed
next
  case (Res res)
  show ?thesis
  proof (cases "\<not> tl_canceled L \<and> (\<exists>p. getClientTx L (hdrs res) = Ok p)")
    case True
    with assms(3) Res obtain p u where "call_client p (c_Receive (le_cspin F) (le_env F) (Res res)) L = Ret u L'"
      by (auto simp: handleMessage_def handleResponse_def go_bind_Ret_iff)
    from call_client_wf [OF assms(2) _ this] show ?thesis
      using client_lib.c_same_ops(1) [OF libs_client [OF assms(1)]] by blast
  next
    case False
    with assms Res show ?thesis
      by (auto simp: handleMessage_def handleResponse_def split: if_splits res.splits)
  qed
qed

lemma Respond_wf:
  assumes "libs_ok F" and "layer_wf L" and "l_Respond F res L = Ret r L'"
  shows "layer_wf L'"
proof (cases "\<not> tl_canceled L \<and> (\<exists>p. getServerTx L (hdrs res) = Ok p)")
  case True
  with assms(3) obtain p u where "call_server p (s_Respond (le_sspin F) (le_env F) res) L = Ret u L'"
    by (auto simp: l_Respond_def go_bind_Ret_iff split: option.splits)
  from call_server_wf [OF assms(2) _ this] show ?thesis
    using server_lib.s_same_Respond [OF libs_server [OF assms(1)]] by blast
qed (use assms in \<open>auto simp: l_Respond_def split: if_splits res.splits\<close>)

text \<open>The states reached from a new layer.\<close>

inductive layer_reach :: "tx_layer \<Rightarrow> bool" where
  lreach_new: "layer_reach NewLayer"
| lreach_step: "layer_reach L \<Longrightarrow> libs_ok F \<Longrightarrow> layer_enabled ev L \<Longrightarrow> layer_exec F ev L = Ret () L' \<Longrightarrow> layer_reach L'"

lemma drop_value_Ret: "drop_value r = Ret () s \<Longrightarrow> \<exists>a. r = Ret a s"
  by (cases r) simp_all

lemma run_client_event_same:
  assumes "libs_ok F" and "client_machine t"
  shows "c_same t (run_client_event F ev t)"
proof -
  note ops = client_lib.c_same_ops [OF libs_client [OF assms(1)] assms(2)]
  have "c_same t (Ret () (c_fire u t))" for u
    using assms(2) by (cases u) (simp_all add: c_same_def c_fire_def c_spawn_def Let_def client_machine_def)
  then show ?thesis
    using ops assms(2)
    by (cases ev) (auto simp: c_same_drop c_same_def [of _ "Ret _ _"] c_take_response_def c_take_error_def client_machine_def)
qed

lemma serveTransaction_wf:
  assumes "libs_ok F" and "layer_wf L" and "serveTransaction cancel p L = Ret () L'"
  shows "layer_wf L'"
proof (cases cancel)
  case True
  with assms(3) obtain u L1 where L1: "tx_Terminate p L = Ret u L1" "L' = serve_end p L1"
    by (auto simp: serveTransaction_def go_bind_Ret_iff)
  have "layer_wf L1"
    using call_client_wf [OF assms(2) client_lib.c_same_ops(4) [OF libs_client [OF assms(1)]]]
      call_server_wf [OF assms(2), of s_Terminate p u L1] L1(1) s_same_keeps [OF _ skeeps_delete] 
    by (auto simp: tx_Terminate_def s_Terminate_def s_same_keeps split: option.splits tx.splits)
  with L1(2) show ?thesis by (simp add: serve_end_wf)
qed (use assms in \<open>auto simp: serveTransaction_def serve_end_wf\<close>)

lemma Cancel_wf: "layer_wf L \<Longrightarrow> layer_wf (l_Cancel L)"
  by (cases "tl_canceled L") (auto simp: l_Cancel_def layer_wf_def)

lemma layer_exec_wf:
  assumes "libs_ok F" and "layer_wf L" and "layer_exec F ev L = Ret () L'"
  shows "layer_wf L'"
proof (cases ev)
  case (LClientEvent p e)
  with call_client_wf [OF assms(2) run_client_event_same [OF assms(1)]] assms(3) show ?thesis by auto
next
  case (LServerEvent p e)
  with call_server_wf [OF assms(2) server_lib.s_same_exec [OF libs_server [OF assms(1)]]] assms(3) show ?thesis by auto
next
  case LServe
  with assms(2,3) show ?thesis by (auto simp: l_serve_def layer_wf_def split: list.splits) blast
next
  case LCancel
  with assms(2,3) show ?thesis by (auto simp: Cancel_wf)
next
  case (LMessageCanceled msg)
  with assms(3) handleMessage_wf [OF assms(1,2), of msg] show ?thesis
    by (auto simp: handleMessage_canceled_def go_bind_Ret_iff Cancel_wf)
qed (use assms Request_send_wf [OF assms(1,2)] Request_put_wf [OF assms(2)] handleMessage_wf [OF assms(1,2)]
    Respond_wf [OF assms(1,2)] serveTransaction_wf [OF assms(1,2)] in
  \<open>auto simp: l_close_def dest!: drop_value_Ret\<close>)

lemma layer_reach_wf: "layer_reach L \<Longrightarrow> layer_wf L"
  by (induction rule: layer_reach.induct) (auto simp: NewLayer_wf intro: layer_exec_wf)

section \<open>Properties\<close>

text \<open>C16: In every interleaving the store of the layer holds one transaction per key, under its own key, and
  as long as the layer is not canceled that transaction is served or waits to be, so that its entry is
  dropped when it is done.  The transaction to which a message is matched has the key of the message.\<close>

theorem layer_store_invariant:
  assumes "layer_reach L"
  shows "distinct (map fst (tl_store L)) \<and>
    (\<forall>k p. store_get k (tl_store L) = Some p \<longrightarrow> (\<exists>x. tl_obj L p = Some x \<and> tx_Key x = k) \<and>
      (tl_canceled L \<or> p \<in> set (tl_serveTxCh L) \<union> set (tl_serving L))) \<and>
    (\<forall>hs p. getServerTx L hs = Ok p \<longrightarrow> (\<exists>t. tl_obj L p = Some (ServerT t) \<and> MakeServerTxKey hs = Ok (skey t))) \<and>
    (\<forall>hs p. getClientTx L hs = Ok p \<longrightarrow> (\<exists>t. tl_obj L p = Some (ClientT t) \<and> MakeClientTxKey hs = Ok (ckey t)))"
proof (intro conjI allI impI)
  note wf = layer_reach_wf [OF assms]
  show "distinct (map fst (tl_store L))" using wf by (simp add: layer_wf_def)
  show "\<exists>x. tl_obj L p = Some x \<and> tx_Key x = k" if "store_get k (tl_store L) = Some p" for k p
    using layer_wf_key [OF wf] that by (simp add: store_get_def)
  show "tl_canceled L \<or> p \<in> set (tl_serveTxCh L) \<union> set (tl_serving L)" if "store_get k (tl_store L) = Some p" for k p
    using wf that unfolding layer_wf_def store_get_def by blast
  show "\<exists>t. tl_obj L p = Some (ServerT t) \<and> MakeServerTxKey hs = Ok (skey t)" if "getServerTx L hs = Ok p" for hs p
    using that by (auto simp: getServerTx_def store_get_def split: res.splits option.splits tx.splits dest!: layer_wf_key [OF wf])
  show "\<exists>t. tl_obj L p = Some (ClientT t) \<and> MakeClientTxKey hs = Ok (ckey t)" if "getClientTx L hs = Ok p" for hs p
    using that by (auto simp: getClientTx_def store_get_def split: res.splits option.splits tx.splits dest!: layer_wf_key [OF wf])
qed

section \<open>Requests of one key\<close>

text \<open>What a step can change of the store, of the log of requests and of the kinds of the objects.\<close>

definition server_at :: "tx_layer \<Rightarrow> nat \<Rightarrow> bool" where
  "server_at L p \<longleftrightarrow> (\<exists>t. tl_obj L p = Some (ServerT t))"

definition unmoved :: "tx_layer \<Rightarrow> tx_layer \<Rightarrow> bool" where
  "unmoved L L' \<longleftrightarrow> tl_store L' = tl_store L \<and> tl_requests L' = tl_requests L \<and>
     length (tl_heap L') = length (tl_heap L) \<and> (\<forall>p. server_at L' p = server_at L p)"

lemma unmoved_heap:
  "tl_store L' = tl_store L \<Longrightarrow> tl_requests L' = tl_requests L \<Longrightarrow> tl_heap L' = tl_heap L \<Longrightarrow> unmoved L L'"
  by (simp add: unmoved_def server_at_def tl_obj_def)

lemma go_map_Ret: "go_map f r = Ret a s \<Longrightarrow> (\<And>t. r = Ret a t \<Longrightarrow> s = f t \<Longrightarrow> thesis) \<Longrightarrow> thesis"
  by (cases r) auto

lemma NewServerTx_key: "NewServerTx rel req = Ok t \<Longrightarrow> MakeServerTxKey (hdrs req) = Ok (skey t)"
  by (cases "request_Transport req"; cases "MakeServerTxKey (hdrs req)") (auto simp: NewServerTx_def)

lemma call_unmoved:
  "call_client q f L = Ret a L' \<Longrightarrow> unmoved L L' \<and> tl_acks L' = tl_acks L"
  "call_server q g L = Ret a L' \<Longrightarrow> unmoved L L' \<and> tl_acks L' = tl_acks L"
proof -
  assume "call_client q f L = Ret a L'"
  then obtain t t' where "tl_obj L q = Some (ClientT t)" "L' = tl_set q (ClientT t') L"
    by (auto simp: call_client_def split: option.splits tx.splits elim!: go_map_Ret)
  then show "unmoved L L' \<and> tl_acks L' = tl_acks L"
    by (auto simp: unmoved_def server_at_def tl_obj_def tl_set_def nth_list_update split: if_splits)
next
  assume "call_server q g L = Ret a L'"
  then obtain t t' where "tl_obj L q = Some (ServerT t)" "L' = tl_set q (ServerT t') L"
    by (auto simp: call_server_def split: option.splits tx.splits elim!: go_map_Ret)
  then show "unmoved L L' \<and> tl_acks L' = tl_acks L"
    by (auto simp: unmoved_def server_at_def tl_obj_def tl_set_def nth_list_update split: if_splits)
qed

text \<open>The events that put another transaction with the key \<open>k\<close> into the store, or end one with that
  key, which drops the entry.\<close>

definition touches :: "txkey \<Rightarrow> layer_event \<Rightarrow> tx_layer \<Rightarrow> bool" where
  "touches k ev L \<longleftrightarrow> (case ev of
     LRequestPut q \<Rightarrow> map_option tx_Key (tl_obj L q) = Some k
   | LServeEnd _ q \<Rightarrow> map_option tx_Key (tl_obj L q) = Some k
   | _ \<Rightarrow> False)"

text \<open>The transaction \<open>p\<close> is the server transaction of the key \<open>k\<close>.\<close>

definition serves_key :: "txkey \<Rightarrow> nat \<Rightarrow> tx_layer \<Rightarrow> bool" where
  "serves_key k p L \<longleftrightarrow> map_of (tl_store L) k = Some p \<and> server_at L p"

lemma serves_key_get: "serves_key k p L \<Longrightarrow> MakeServerTxKey hs = Ok k \<Longrightarrow> getServerTx L hs = Ok p"
  by (auto simp: serves_key_def server_at_def getServerTx_def store_get_def)

text \<open>The log of requests grows by new transactions only.\<close>

definition new_requests :: "tx_layer \<Rightarrow> tx_layer \<Rightarrow> bool" where
  "new_requests L L' \<longleftrightarrow> length (tl_heap L) \<le> length (tl_heap L') \<and>
     (\<exists>rest. tl_requests L' = tl_requests L @ rest \<and> set rest \<subseteq> {length (tl_heap L)..<length (tl_heap L')})"

lemma unmoved_requests: "unmoved L L' \<Longrightarrow> new_requests L L'"
  by (simp add: unmoved_def new_requests_def)

lemma unmoved_serves: "unmoved L L' \<Longrightarrow> serves_key k p L' = serves_key k p L"
  by (simp add: unmoved_def serves_key_def)

lemma new_requests_trans: "new_requests L L1 \<Longrightarrow> new_requests L1 L2 \<Longrightarrow> new_requests L L2"
  by (force simp: new_requests_def)

lemma server_at_append: "server_at L p \<Longrightarrow> tl_heap L' = tl_heap L @ xs \<Longrightarrow> server_at L' p"
  by (auto simp: server_at_def tl_obj_def nth_append split: if_splits)

lemma newServer_effect:
  assumes "newServer F req L = Ret u L'"
  shows "new_requests L L' \<and> tl_canceled L' = tl_canceled L \<and>
    (serves_key k p L \<and> MakeServerTxKey (hdrs req) \<noteq> Ok k \<longrightarrow> serves_key k p L')"
proof (cases "NewServerTx (le_reliable F) req")
  case (Ok t)
  let ?L = "L\<lparr>tl_heap := tl_heap L @ [ServerT (s_Init (le_sdefine F) t)],
    tl_store := AList.update (skey t) (length (tl_heap L)) (tl_store L),
    tl_serving := tl_serving L @ [length (tl_heap L)], tl_requests := tl_requests L @ [length (tl_heap L)]\<rparr>"
  have L': "L' = ?L" using assms Ok by (simp add: newServer_def tl_new_def store_put_def)
  have key: "MakeServerTxKey (hdrs req) = Ok (skey t)" using Ok by (rule NewServerTx_key)
  have "server_at ?L p" if "server_at L p" using that by (rule server_at_append) simp
  with key show ?thesis unfolding L' by (auto simp: new_requests_def serves_key_def)
qed (use assms in \<open>simp_all add: newServer_def new_requests_def\<close>)

lemma log_effect [simp]:
  "new_requests L (L\<lparr>tl_acks := a\<rparr>)" "new_requests L (L\<lparr>tl_sent := m\<rparr>)"
  "serves_key k p (L\<lparr>tl_acks := a\<rparr>) = serves_key k p L" "serves_key k p (L\<lparr>tl_sent := m\<rparr>) = serves_key k p L"
  by (simp_all add: new_requests_def serves_key_def server_at_def tl_obj_def)

lemma handleMessage_effect:
  assumes "handleMessage F msg L = Ret u L'"
  shows "new_requests L L' \<and> (serves_key k p L \<longrightarrow> serves_key k p L')"
proof -
  have um: ?thesis if "unmoved L L'" using that by (simp add: unmoved_requests unmoved_serves)
  show ?thesis
  proof (cases "tl_canceled L")
    case True
    with assms show ?thesis by (simp add: handleMessage_def new_requests_def)
  next
    case False
    note nc = False
    show ?thesis
    proof (cases msg)
      case (Res res)
      have "unmoved L L'"
      proof (cases "getClientTx L (hdrs res)")
        case (Ok q)
        then obtain r where "call_client q (c_Receive (le_cspin F) (le_env F) (Res res)) L = Ret r L'"
          using assms nc Res by (auto simp: handleMessage_def handleResponse_def go_bind_Ret_iff)
        then show ?thesis by (rule call_unmoved(1) [THEN conjunct1])
      qed (use assms nc Res in \<open>auto simp: handleMessage_def handleResponse_def intro!: unmoved_heap\<close>)
      then show ?thesis by (rule um)
    next
      case (Req req)
      show ?thesis
      proof (cases "getServerTx L (hdrs req)")
        case (Ok q)
        then obtain r where "call_server q (s_Receive (le_sspin F) (le_env F) (Req req)) L = Ret r L'"
          using assms nc Req by (auto simp: handleMessage_def handleRequest_def go_bind_Ret_iff)
        from um [OF call_unmoved(2) [THEN conjunct1, OF this]] show ?thesis .
      next
        case (Err e)
        have "MakeServerTxKey (hdrs req) \<noteq> Ok k" if "serves_key k p L"
          using serves_key_get [OF that, of "hdrs req"] Err by auto
        then show ?thesis
          using assms nc Req Err newServer_effect [of F req L u L' k p]
          by (auto simp: handleMessage_def handleRequest_def split: if_splits res.splits)
      qed (use assms nc Req in \<open>simp add: handleMessage_def handleRequest_def\<close>)
    qed
  qed
qed

lemma Request_send_effect:
  assumes "l_Request_send F req L = Ret r L'"
  shows "new_requests L L' \<and> (serves_key k p L \<longrightarrow> serves_key k p L')"
proof (cases "\<not> tl_canceled L \<and> \<not> request_IsAck req \<and> (\<exists>t. NewClientTx (fresh_branch (le_env F)) (le_reliable F) req = Ok t)")
  case True
  then obtain t where t: "NewClientTx (fresh_branch (le_env F)) (le_reliable F) req = Ok t" by blast
  let ?f = "c_Init (le_cdefine F) (le_cspin F) (le_env F)"
  from True t assms obtain e L2 where
    call: "call_client (length (tl_heap L)) ?f (L\<lparr>tl_heap := tl_heap L @ [ClientT t]\<rparr>) = Ret e L2"
    and L': "L' = L2 \<or> L' = L2\<lparr>tl_pending := length (tl_heap L) # tl_pending L2\<rparr>"
    by (auto simp: l_Request_send_def tl_new_def go_bind_Ret_iff split: option.splits)
  obtain t' where "L2 = L\<lparr>tl_heap := tl_heap L @ [ClientT t']\<rparr>" using call by (rule call_client_new)
  with L' have "tl_heap L' = tl_heap L @ [ClientT t']" "tl_store L' = tl_store L" "tl_requests L' = tl_requests L" by auto
  with server_at_append [OF _ this(1), of p] show ?thesis by (auto simp: new_requests_def serves_key_def)
qed (use assms in \<open>auto simp: l_Request_send_def new_requests_def split: if_splits res.splits\<close>)

text \<open>The end of a transaction drops the entry of its key only.\<close>

lemma Terminate_effect:
  assumes "tx_Terminate q L = Ret u L1"
  shows "unmoved L L1 \<and> map_option tx_Key (tl_obj L1 q) = map_option tx_Key (tl_obj L q)"
proof (cases "tl_obj L q")
  case (Some x)
  have keys: "ckey t' = ckey t" if "c_Terminate t = Ret a t'" for t t' :: clientTx and a
    using keeps_RetD [OF ckeeps_delete, of t] that by (auto simp: c_Terminate_def split: if_splits)
  have keys': "skey t' = skey t" if "s_Terminate t = Ret a t'" for t t' :: serverTx and a
    using keeps_RetD [OF skeeps_delete, of t] that by (auto simp: s_Terminate_def split: if_splits)
  have "unmoved L L1"
    using assms Some by (auto simp: tx_Terminate_def split: tx.splits dest!: call_unmoved)
  moreover have "map_option tx_Key (tl_obj L1 q) = map_option tx_Key (tl_obj L q)"
    using assms Some
    by (auto simp: tx_Terminate_def call_client_def call_server_def tl_obj_def tl_set_def keys keys'
        split: tx.splits if_splits elim!: go_map_Ret)
  ultimately show ?thesis ..
qed (use assms in \<open>simp add: tx_Terminate_def\<close>)

lemma serve_end_effect:
  "new_requests L (serve_end q L) \<and>
   (serves_key k p L \<and> map_option tx_Key (tl_obj L q) \<noteq> Some k \<longrightarrow> serves_key k p (serve_end q L))"
  by (cases "tl_obj L q")
     (auto simp: serve_end_def new_requests_def serves_key_def server_at_def store_drop_def store_get_def
       delete_conv' split: option.splits)

lemma serveTransaction_effect:
  assumes "serveTransaction cancel q L = Ret () L'"
  shows "new_requests L L' \<and> (serves_key k p L \<and> map_option tx_Key (tl_obj L q) \<noteq> Some k \<longrightarrow> serves_key k p L')"
proof (cases cancel)
  case True
  with assms obtain u L1 where L1: "tx_Terminate q L = Ret u L1" "L' = serve_end q L1"
    by (auto simp: serveTransaction_def go_bind_Ret_iff)
  have "unmoved L L1" "map_option tx_Key (tl_obj L1 q) = map_option tx_Key (tl_obj L q)"
    using Terminate_effect [OF L1(1)] by simp_all
  with serve_end_effect [of L1 q k p] L1(2) show ?thesis
    using new_requests_trans [OF unmoved_requests] unmoved_serves by metis
qed (use assms serve_end_effect [of L q k p] in \<open>auto simp: serveTransaction_def\<close>)

text \<open>Every step: the log of requests grows by a new transaction, and a server transaction keeps its
  entry unless the step touches its key.\<close>

lemma layer_exec_effect:
  assumes "layer_exec F ev L = Ret () L'"
  shows "new_requests L L' \<and> (serves_key k p L \<and> \<not> touches k ev L \<longrightarrow> serves_key k p L')"
proof (cases ev)
  case (LRequestPut q)
  with assms show ?thesis
    by (cases "tl_obj L q")
       (auto simp: l_Request_put_def store_put_def new_requests_def serves_key_def server_at_def touches_def Let_def)
next
  case (LServeEnd c q)
  with assms serveTransaction_effect [of c q L L' k p] show ?thesis by (auto simp: touches_def)
next
  case (LRespond res)
  with assms have "unmoved L L'"
    by (auto simp: l_Respond_def go_bind_Ret_iff unmoved_heap split: if_splits res.splits option.splits
        dest!: drop_value_Ret call_unmoved(2))
  then show ?thesis by (simp add: unmoved_requests unmoved_serves)
next
  case (LMessageCanceled msg)
  with assms obtain u L1 where h: "handleMessage F msg L = Ret u L1"
    and L': "L' = l_Cancel (L1\<lparr>tl_requests := tl_requests L, tl_acks := tl_acks L, tl_responses := tl_responses L\<rparr>)"
    by (auto simp: handleMessage_canceled_def go_bind_Ret_iff)
  from handleMessage_effect [OF h, of k p] show ?thesis
    unfolding L' by (auto simp: l_Cancel_def new_requests_def serves_key_def server_at_def tl_obj_def)
next
  case LServe
  with assms have "unmoved L L'" by (auto simp: l_serve_def unmoved_heap split: list.splits)
  then show ?thesis by (simp add: unmoved_requests unmoved_serves)
next
  case LCancel
  with assms have "unmoved L L'" by (auto simp: l_Cancel_def unmoved_heap)
  then show ?thesis by (simp add: unmoved_requests unmoved_serves)
next
  case LClose
  with assms have "unmoved L L'" by (auto simp: l_close_def unmoved_heap)
  then show ?thesis by (simp add: unmoved_requests unmoved_serves)
next
  case (LClientEvent q e)
  with assms have "unmoved L L'" by (auto dest!: call_unmoved(1))
  then show ?thesis by (simp add: unmoved_requests unmoved_serves)
next
  case (LServerEvent q e)
  with assms have "unmoved L L'" by (auto dest!: call_unmoved(2))
  then show ?thesis by (simp add: unmoved_requests unmoved_serves)
qed (use assms handleMessage_effect [of F _ L "()" L' k p] Request_send_effect [of F _ L _ L' k p] in
  \<open>auto dest!: drop_value_Ret\<close>)

lemma layer_reach_requests: "layer_reach L \<Longrightarrow> set (tl_requests L) \<subseteq> {..<length (tl_heap L)}"
proof (induction rule: layer_reach.induct)
  case (lreach_step L F ev L')
  with layer_exec_effect [OF lreach_step(4)] show ?case by (fastforce simp: new_requests_def)
qed (simp add: NewLayer_def)

text \<open>The states reached without a step that touches the key.\<close>

inductive undisturbed :: "txkey \<Rightarrow> tx_layer \<Rightarrow> tx_layer \<Rightarrow> bool" for k where
  und_refl: "undisturbed k L L"
| und_step: "undisturbed k L L1 \<Longrightarrow> layer_enabled ev L1 \<Longrightarrow> \<not> touches k ev L1 \<Longrightarrow> layer_exec F ev L1 = Ret () L2 \<Longrightarrow>
    undisturbed k L L2"

lemma undisturbed_effect:
  assumes "undisturbed k L L2" and "serves_key k p L"
  shows "new_requests L L2 \<and> serves_key k p L2"
  using assms
proof (induction rule: undisturbed.induct)
  case (und_step L L1 ev F L2)
  with layer_exec_effect [OF und_step(4), of k p] show ?case using new_requests_trans by blast
qed (simp add: new_requests_def)

lemma serves_key_matched:
  assumes "serves_key k p L" and "MakeServerTxKey (hdrs req) = Ok k" and "handleMessage F (Req req) L = Ret u L'"
  shows "tl_requests L' = tl_requests L \<and> tl_acks L' = tl_acks L \<and> length (tl_heap L') = length (tl_heap L)"
proof (cases "tl_canceled L")
  case False
  with assms serves_key_get [OF assms(1,2)]
  obtain r where "call_server p (s_Receive (le_sspin F) (le_env F) (Req req)) L = Ret r L'"
    by (auto simp: handleMessage_def handleRequest_def go_bind_Ret_iff)
  from call_unmoved(2) [OF this] show ?thesis by (simp add: unmoved_def)
qed (use assms in \<open>simp add: handleMessage_def\<close>)

text \<open>C17: In a layer that is not canceled, a request other than ACK and CANCEL whose key is not in the store,
  and for which a server transaction can be made, starts one: it is put into the store and passed up.  In
  every later state in which no transaction with this key has ended and no client transaction with it
  has been stored in between, the transaction has been passed up exactly once, the key belongs to it, and a
  request with this key, such as a retransmission, the ACK of a final response or the CANCEL, makes no
  further transaction and passes nothing up.  If the layer is canceled while the request waits to be
  passed up, the transaction is in the store but the request is never passed up.\<close>

theorem layer_request_passed_up_once:
  assumes "layer_reach L" and "\<not> tl_canceled L" and "getServerTx L (hdrs req) = Err (TxNotFound k)"
    and "\<not> request_IsAck req" and "\<not> request_IsCancel req" and "NewServerTx (le_reliable F) req = Ok t"
  shows "\<exists>L' p. layer_exec F (LMessage (Req req)) L = Ret () L' \<and> p \<notin> set (tl_requests L) \<and>
    tl_obj L' p = Some (ServerT (s_Init (le_sdefine F) t)) \<and>
    (\<forall>L2. undisturbed (skey t) L' L2 \<longrightarrow>
      (\<exists>rest. tl_requests L2 = tl_requests L @ p # rest \<and> p \<notin> set rest) \<and>
      (\<forall>req2. MakeServerTxKey (hdrs req2) = MakeServerTxKey (hdrs req) \<longrightarrow>
        getServerTx L2 (hdrs req2) = Ok p \<and>
        (\<forall>F' L3. handleMessage F' (Req req2) L2 = Ret () L3 \<longrightarrow>
           tl_requests L3 = tl_requests L2 \<and> tl_acks L3 = tl_acks L2 \<and> length (tl_heap L3) = length (tl_heap L2)))) \<and>
    (\<exists>L1. layer_exec F (LMessageCanceled (Req req)) L = Ret () L1 \<and> tl_canceled L1 \<and>
      tl_requests L1 = tl_requests L \<and> getServerTx L1 (hdrs req) = Ok p)"
proof -
  let ?p = "length (tl_heap L)" and ?x = "ServerT (s_Init (le_sdefine F) t)"
  define L' where "L' = L\<lparr>tl_heap := tl_heap L @ [?x], tl_store := AList.update (skey t) ?p (tl_store L),
    tl_serving := tl_serving L @ [?p], tl_requests := tl_requests L @ [?p]\<rparr>"
  have h: "handleMessage F (Req req) L = Ret () L'"
    using assms by (simp add: L'_def handleMessage_def handleRequest_def newServer_def tl_new_def store_put_def)
  have obj: "tl_obj L' ?p = Some ?x" and len: "length (tl_heap L') = Suc ?p" by (simp_all add: L'_def tl_obj_def)
  have serves: "serves_key (skey t) ?p L'" using obj by (simp add: serves_key_def server_at_def L'_def)
  note key = NewServerTx_key [OF assms(6)]
  have fresh: "?p \<notin> set (tl_requests L)" using layer_reach_requests [OF assms(1)] by auto
  have later: "\<exists>rest. tl_requests L2 = tl_requests L @ ?p # rest \<and> ?p \<notin> set rest"
    if "undisturbed (skey t) L' L2" for L2
    using undisturbed_effect [OF that serves] len by (fastforce simp: new_requests_def L'_def)
  have matched: "getServerTx L2 (hdrs req2) = Ok ?p \<and> (\<forall>F' L3. handleMessage F' (Req req2) L2 = Ret () L3 \<longrightarrow>
      tl_requests L3 = tl_requests L2 \<and> tl_acks L3 = tl_acks L2 \<and> length (tl_heap L3) = length (tl_heap L2))"
    if "undisturbed (skey t) L' L2" "MakeServerTxKey (hdrs req2) = MakeServerTxKey (hdrs req)" for L2 and req2 :: request
    using undisturbed_effect [OF that(1) serves] that(2) key serves_key_get serves_key_matched by metis
  have "\<exists>L1. layer_exec F (LMessageCanceled (Req req)) L = Ret () L1 \<and> tl_canceled L1 \<and>
      tl_requests L1 = tl_requests L \<and> getServerTx L1 (hdrs req) = Ok ?p"
    using h assms(2) key
    by (simp add: handleMessage_canceled_def l_Cancel_def L'_def getServerTx_def tl_obj_def store_get_def)
  with h obj fresh later matched show ?thesis by (intro exI [of _ L'] exI [of _ ?p]) simp
qed

text \<open>The state after the first part of \<open>Request\<close>, and after both.\<close>

lemma Request_sent:
  assumes "libs_ok F" and "l_Request_send F req L = Ret (Inr p) L1"
  obtains t t' where "NewClientTx (fresh_branch (le_env F)) (le_reliable F) req = Ok t" "ckey t' = ckey t"
    "p = length (tl_heap L)" "\<not> tl_canceled L"
    "L1 = L\<lparr>tl_heap := tl_heap L @ [ClientT t'], tl_pending := p # tl_pending L\<rparr>"
proof -
  from assms(2) have c: "\<not> tl_canceled L" "\<not> request_IsAck req" by (auto simp: l_Request_send_def split: if_splits)
  with assms(2) obtain t where t: "NewClientTx (fresh_branch (le_env F)) (le_reliable F) req = Ok t"
    by (auto simp: l_Request_send_def split: res.splits)
  let ?f = "c_Init (le_cdefine F) (le_cspin F) (le_env F)"
  obtain e L2 where call: "call_client (length (tl_heap L)) ?f (L\<lparr>tl_heap := tl_heap L @ [ClientT t]\<rparr>) = Ret e L2"
    using c t assms(2) by (cases "call_client (length (tl_heap L)) ?f (L\<lparr>tl_heap := tl_heap L @ [ClientT t]\<rparr>)")
      (simp_all add: l_Request_send_def tl_new_def)
  have L1: "L1 = L2\<lparr>tl_pending := p # tl_pending L2\<rparr>" "p = length (tl_heap L)"
    using c t call assms(2) by (cases e; simp add: l_Request_send_def tl_new_def)+
  obtain t' where t': "?f t = Ret e t'" "L2 = L\<lparr>tl_heap := tl_heap L @ [ClientT t']\<rparr>"
    using call by (rule call_client_new)
  have "ckey t' = ckey t" using client_lib.c_Init_keeps [OF libs_client [OF assms(1)] t'(1)] by simp
  from that [OF t this L1(2) c(1)] L1 t'(2) show ?thesis by simp
qed

lemma NewClientTx_key:
  "NewClientTx rand rel req = Ok t \<Longrightarrow> MakeClientTxKey (hdrs (prepareClientRequest rand req)) = Ok (ckey t)"
  by (cases "request_Transport (prepareClientRequest rand req)";
      cases "MakeClientTxKey (hdrs (prepareClientRequest rand req))") (auto simp: NewClientTx_def Let_def)

lemma put_fields:
  assumes "tl_obj L p = Some x"
  shows "store_get k (tl_store (snd (l_Request_put p L))) = (if k = tx_Key x then Some p else store_get k (tl_store L))"
    and "tl_obj (snd (l_Request_put p L)) = tl_obj L" and "tl_canceled (snd (l_Request_put p L)) = tl_canceled L"
  using assms by (auto simp: l_Request_put_def store_put_def store_get_def Let_def)

text \<open>C18: After \<open>Request\<close> every response with the key of the request, such as one made from the
  request, is matched to the new transaction.  But the request is sent before the transaction is in the
  store: a response that the layer handles in between is passed up as one that matches no transaction.\<close>

theorem layer_response_matching:
  assumes "libs_ok F" and "l_Request_send F req L = Ret (Inr p) L1" and "req' = prepareClientRequest (fresh_branch (le_env F)) req"
    and "key_wf (hdrs req')" and "NewResponseFromRequest fid rid req' code why b = Ok res"
    and "\<forall>k. MakeClientTxKey (hdrs req') = Ok k \<longrightarrow> store_get k (tl_store L) = None"
  shows "getClientTx (snd (l_Request_put p L1)) (hdrs res) = Ok p \<and>
    handleMessage F' (Res res) L1 = Ret () (L1\<lparr>tl_responses := tl_responses L1 @ [res]\<rparr>)"
proof -
  obtain t t' where t: "NewClientTx (fresh_branch (le_env F)) (le_reliable F) req = Ok t" "ckey t' = ckey t"
    and p: "p = length (tl_heap L)" "\<not> tl_canceled L"
    and L1: "L1 = L\<lparr>tl_heap := tl_heap L @ [ClientT t'], tl_pending := p # tl_pending L\<rparr>"
    using Request_sent [OF assms(1,2)] .
  have k: "MakeClientTxKey (hdrs res) = Ok (ckey t)" "MakeClientTxKey (hdrs req') = Ok (ckey t)"
    using tx_keys_cong(2) [OF response_key_parts [OF assms(4,5)]] NewClientTx_key [OF t(1)] assms(3) by simp_all
  have obj: "tl_obj L1 p = Some (ClientT t')" using p by (simp add: L1 tl_obj_def)
  have "getClientTx (snd (l_Request_put p L1)) (hdrs res) = Ok p"
    using obj t(2) by (simp add: getClientTx_def k put_fields [OF obj])
  moreover have "getClientTx L1 (hdrs res) = Err (TxNotFound (ckey t))"
    using assms(6) k by (simp add: getClientTx_def L1)
  ultimately show ?thesis using p by (simp add: handleMessage_def handleResponse_def L1)
qed

text \<open>A request whose top Via has a branch is sent as it is.\<close>

lemma prepare_keeps:
  assumes "MakeClientTxKey (hdrs req) = Ok k"
  shows "prepareClientRequest rand req = req"
proof -
  from assms obtain hop ps b where hop: "hs_ViaHop (hdrs req) = Some hop" "HParams hop = Some ps"
    "params_Get ps ''branch'' = Some (Some b)"
    by (auto simp: MakeClientTxKey_def get_branch_def split: option.splits)
  then have "with_branch rand hop = hop"
    by (simp add: with_branch_def params_Has_def params_Get_def)
  with hop show ?thesis by (simp add: prepareClientRequest_def map_first_hop_id)
qed

text \<open>A CANCEL sent with \<open>Request\<close> takes the place of its INVITE in the store: the responses to the
  INVITE then go to the transaction of the CANCEL, and when that one ends they match no transaction.\<close>

theorem layer_cancel_replaces_invite:
  assumes "layer_reach L" and "libs_ok F" and "key_wf (hdrs req)" and "MakeClientTxKey (hdrs req) = Ok k"
    and "\<forall>c. hs_CSeq (hdrs req) = Some c \<longrightarrow> MethodName c = INVITE"
    and "store_get k (tl_store L) = Some p" and "NewCancelRequest fid cid req = Ok cancel"
    and "l_Request_send F cancel L = Ret (Inr q) L1"
    and "NewResponseFromRequest fid' rid req code why b = Ok res"
  shows "q \<noteq> p \<and> getClientTx (snd (l_Request_put q L1)) (hdrs res) = Ok q \<and>
    getClientTx (serve_end q (snd (l_Request_put q L1))) (hdrs res) = Err (TxNotFound k)"
proof -
  obtain t t' where t: "NewClientTx (fresh_branch (le_env F)) (le_reliable F) cancel = Ok t" "ckey t' = ckey t"
    and q: "q = length (tl_heap L)"
    and L1: "L1 = L\<lparr>tl_heap := tl_heap L @ [ClientT t'], tl_pending := q # tl_pending L\<rparr>"
    using Request_sent [OF assms(2,8)] .
  have "MakeClientTxKey (hdrs cancel) = Ok k"
    using tx_keys_cong(2) [OF cancel_key_parts [OF assms(3,5,7)]] assms(4) by simp
  with NewClientTx_key [OF t(1)] prepare_keeps have tk: "ckey t = k" by simp
  have k: "MakeClientTxKey (hdrs res) = Ok k"
    using tx_keys_cong(2) [OF response_key_parts [OF assms(3,9)]] assms(4) by simp
  have obj: "tl_obj L1 q = Some (ClientT t')" using q by (simp add: L1 tl_obj_def)
  have "p < length (tl_heap L)"
    using layer_wf_key [OF layer_reach_wf [OF assms(1)], of k p] assms(6) by (auto simp: store_get_def tl_obj_def split: if_splits)
  then have "q \<noteq> p" by (simp add: q)
  let ?L = "snd (l_Request_put q L1)"
  have L: "tl_obj ?L q = Some (ClientT t')" "store_get k (tl_store ?L) = Some q"
    using obj t(2) tk by (simp_all add: put_fields [OF obj])
  have "store_get k (tl_store (serve_end q ?L)) = None"
    using L t(2) tk by (simp add: serve_end_def store_drop_def store_get_def)
  with L k \<open>q \<noteq> p\<close> show ?thesis by (simp add: getClientTx_def)
qed

section \<open>The properties at work\<close>

definition ex_F :: layer_env where
  "ex_F = \<lparr>le_cdefine = fsm_Define, le_cspin = fsm_Spin, le_sdefine = fsm_Define, le_sspin = fsm_Spin,
     le_reliable = (\<lambda>_. False), le_env = ex_env\<rparr>"

lemma ex_F_fields [simp]: "le_reliable ex_F = (\<lambda>_. False)" "le_env ex_F = ex_env" "libs_ok ex_F"
  "le_sdefine ex_F = fsm_Define" "le_cdefine ex_F = fsm_Define"
  by (simp_all add: ex_F_def libs_ok_def fl.fsm_lib_axioms)

lemma ex_no_key: "\<exists>k. getServerTx NewLayer (hdrs (ex_request m)) = Err (TxNotFound k)"
  using ex_server_created [of m]
  by (cases "MakeServerTxKey (hdrs (ex_request m))") (auto simp: NewServerTx_def getServerTx_def NewLayer_def store_get_def)

lemma ex_invite_kinds [simp]: "\<not> request_IsAck (ex_request INVITE)" "\<not> request_IsCancel (ex_request INVITE)"
  by (simp_all add: request_IsAck_def request_IsCancel_def ex_request_def NewRequest_def INVITE_def ACK_def CANCEL_def)

theorem layer_request_passed_up_once_witness:
  "\<exists>L' p rest. handleMessage ex_F (Req (ex_request INVITE)) NewLayer = Ret () L' \<and> tl_requests L' = p # rest \<and>
     p \<notin> set rest \<and> getServerTx L' (hdrs (ex_request INVITE)) = Ok p"
proof -
  obtain k where k: "getServerTx NewLayer (hdrs (ex_request INVITE)) = Err (TxNotFound k)" using ex_no_key by blast
  have n: "NewServerTx (le_reliable ex_F) (ex_request INVITE) = Ok (ex_server (ex_request INVITE))"
    by (simp add: ex_server_created)
  have "\<not> tl_canceled NewLayer" "tl_requests NewLayer = []" by (simp_all add: NewLayer_def)
  with layer_request_passed_up_once [OF lreach_new _ k ex_invite_kinds n] und_refl
  show ?thesis by fastforce
qed

text \<open>A request that can be sent gets through the first part of \<open>Request\<close>.\<close>

lemma Request_send_total:
  assumes "libs_ok F" and "NewClientTx (fresh_branch (le_env F)) (le_reliable F) req = Ok t" and "\<not> request_IsAck req"
    and "\<not> tl_canceled L" and "\<And>m. tpl_Send (le_env F) m = None"
  shows "\<exists>L1. l_Request_send F req L = Ret (Inr (length (tl_heap L))) L1"
proof -
  have "clastErr t = None"
    using assms(2) by (cases "request_Transport (prepareClientRequest (fresh_branch (le_env F)) req)") (auto simp: NewClientTx_def Let_def)
  then have "\<exists>t'. c_Init (le_cdefine F) (le_cspin F) (le_env F) t = Ret None t'"
    by (auto simp: c_Init_def c_Init_send_def c_Send_def assms(5) c_Init_timers_def Let_def c_initFSM_def
        c_initInviteFSM_def c_initNonInviteFSM_def split: option.split)
  then show ?thesis
    using assms(2-4) by (auto simp: l_Request_send_def tl_new_def call_client_def tl_obj_def)
qed

lemma ex_created: "NewClientTx (fresh_branch (le_env ex_F)) (le_reliable ex_F) (ex_request INVITE) = Ok (ex_client (ex_request INVITE))"
  by (simp add: ex_client_created)

lemma ex_client_key: "MakeClientTxKey (hdrs (ex_request INVITE)) = Ok (ckey (ex_client (ex_request INVITE)))"
  using NewClientTx_key [OF ex_created] by (simp add: ex_prepare)

lemma ex_F_sends: "tpl_Send (le_env ex_F) m = None"
  by (simp add: ex_env_def)

lemma ex_sent: "\<exists>L1. l_Request_send ex_F (ex_request INVITE) NewLayer = Ret (Inr 0) L1"
  using Request_send_total [OF ex_F_fields(3) ex_created ex_invite_kinds(1) _ ex_F_sends, of NewLayer]
  by (simp add: NewLayer_def)

theorem layer_response_matching_witness:
  "\<exists>L1 res. l_Request_send ex_F (ex_request INVITE) NewLayer = Ret (Inr 0) L1 \<and> rstatus res = 180 \<and>
     getClientTx (snd (l_Request_put 0 L1)) (hdrs res) = Ok 0 \<and>
     handleMessage ex_F (Res res) L1 = Ret () (L1\<lparr>tl_responses := tl_responses L1 @ [res]\<rparr>)"
proof -
  obtain L1 where L1: "l_Request_send ex_F (ex_request INVITE) NewLayer = Ret (Inr 0) L1" using ex_sent by blast
  obtain res where res: "NewResponseFromRequest [] [] (ex_request INVITE) 180 ''Ringing'' [] = Ok res"
    using ex_response_exists by blast
  have "rstatus res = 180"
    using NewResponseFromRequest_headers(4) [OF _ res] ex_key_wf [of INVITE] by (simp add: key_wf_def)
  moreover have "\<forall>k. MakeClientTxKey (hdrs (ex_request INVITE)) = Ok k \<longrightarrow> store_get k (tl_store NewLayer) = None"
    by (simp add: NewLayer_def store_get_def)
  ultimately show ?thesis
    using L1 layer_response_matching [OF ex_F_fields(3) L1 ex_prepare [symmetric] ex_key_wf res] by blast
qed

text \<open>A layer with the transaction of an INVITE in its store.\<close>

lemma ex_put_reach:
  "\<exists>L. layer_reach L \<and> store_get (ckey (ex_client (ex_request INVITE))) (tl_store L) = Some 0 \<and> \<not> tl_canceled L"
proof -
  obtain L1 where send: "l_Request_send ex_F (ex_request INVITE) NewLayer = Ret (Inr 0) L1" using ex_sent by blast
  obtain t t' where t: "NewClientTx (fresh_branch (le_env ex_F)) (le_reliable ex_F) (ex_request INVITE) = Ok t"
    "ckey t' = ckey t" and L1: "L1 = NewLayer\<lparr>tl_heap := tl_heap NewLayer @ [ClientT t'], tl_pending := 0 # tl_pending NewLayer\<rparr>"
    using Request_sent [OF ex_F_fields(3) send] .
  have r1: "layer_reach L1"
    by (rule lreach_step [OF lreach_new ex_F_fields(3), of "LRequestSend (ex_request INVITE)"]) (simp_all add: send)
  have r2: "layer_reach (snd (l_Request_put 0 L1))"
    by (rule lreach_step [OF r1 ex_F_fields(3), of "LRequestPut 0"]) (simp_all add: L1)
  have obj: "tl_obj L1 0 = Some (ClientT t')" by (simp add: L1 tl_obj_def NewLayer_def)
  have "store_get (ckey (ex_client (ex_request INVITE))) (tl_store (snd (l_Request_put 0 L1))) = Some 0"
    using t ex_created by (simp add: put_fields [OF obj])
  moreover have "\<not> tl_canceled (snd (l_Request_put 0 L1))" using put_fields(3) [OF obj] by (simp add: L1 NewLayer_def)
  ultimately show ?thesis using r2 by blast
qed

theorem layer_store_invariant_witness:
  "\<exists>L x. store_get (ckey (ex_client (ex_request INVITE))) (tl_store L) = Some 0 \<and> tl_obj L 0 = Some x \<and>
     tx_Key x = ckey (ex_client (ex_request INVITE)) \<and> 0 \<in> set (tl_serveTxCh L) \<union> set (tl_serving L)"
proof -
  obtain L where "layer_reach L" "store_get (ckey (ex_client (ex_request INVITE))) (tl_store L) = Some 0" "\<not> tl_canceled L"
    using ex_put_reach by blast
  with layer_store_invariant [OF this(1)] show ?thesis by blast
qed

lemma cancel_created:
  assumes "key_wf (hdrs req)" and "MakeClientTxKey (hdrs req) = Ok k" and "NewCancelRequest fid cid req = Ok cancel"
    and "\<forall>c. hs_CSeq (hdrs req) = Some c \<longrightarrow> MethodName c = INVITE" and "request_Transport req = Ok tr" and "tr \<noteq> []"
  shows "\<exists>t. NewClientTx rand rel cancel = Ok t"
proof -
  have k: "MakeClientTxKey (hdrs cancel) = Ok k"
    using tx_keys_cong(2) [OF cancel_key_parts [OF assms(1,4,3)]] assms(2) by simp
  have "tp cancel = strings_ToUpper tr"
    using assms(3,5) by (auto simp: NewCancelRequest_def Let_def split: option.splits)
  with assms(6) have "request_Transport cancel = Ok (strings_ToUpper (tp cancel))"
    by (simp add: request_Transport_def strings_ToUpper_def)
  with k prepare_keeps [OF k] show ?thesis by (simp add: NewClientTx_def Let_def)
qed

theorem layer_cancel_replaces_invite_witness:
  "\<exists>L L1 cancel q res. store_get (ckey (ex_client (ex_request INVITE))) (tl_store L) = Some 0 \<and>
     NewCancelRequest [] [] (ex_request INVITE) = Ok cancel \<and> l_Request_send ex_F cancel L = Ret (Inr q) L1 \<and> q \<noteq> 0 \<and>
     NewResponseFromRequest [] [] (ex_request INVITE) 180 ''Ringing'' [] = Ok res \<and>
     getClientTx (snd (l_Request_put q L1)) (hdrs res) = Ok q"
proof -
  obtain L where L: "layer_reach L" "store_get (ckey (ex_client (ex_request INVITE))) (tl_store L) = Some 0" "\<not> tl_canceled L"
    using ex_put_reach by blast
  obtain cancel where c: "NewCancelRequest [] [] (ex_request INVITE) = Ok cancel"
    using NewCancelRequest_total [OF ex_ready(1)] by blast
  obtain res where res: "NewResponseFromRequest [] [] (ex_request INVITE) 180 ''Ringing'' [] = Ok res"
    using ex_response_exists by blast
  have m: "\<forall>c. hs_CSeq (hdrs (ex_request INVITE)) = Some c \<longrightarrow> MethodName c = INVITE" by (simp add: ex_cseq)
  have tr: "request_Transport (ex_request INVITE) = Ok ''UDP''"
    by (simp add: request_Transport_def ex_request_def strings_ToUpper_def) code_simp
  obtain t where t: "NewClientTx (fresh_branch (le_env ex_F)) (le_reliable ex_F) cancel = Ok t"
    using cancel_created [OF ex_key_wf ex_client_key c m tr] by blast
  have "rmethod cancel = CANCEL"
    using NewCancelRequest_headers(5) [OF _ c] ex_key_wf [of INVITE] by (simp add: key_wf_def)
  then have "\<not> request_IsAck cancel" by (simp add: request_IsAck_def ACK_def CANCEL_def)
  then obtain L1 where s: "l_Request_send ex_F cancel L = Ret (Inr (length (tl_heap L))) L1"
    using Request_send_total [OF ex_F_fields(3) t _ L(3) ex_F_sends] by blast
  from layer_cancel_replaces_invite [OF L(1) ex_F_fields(3) ex_key_wf ex_client_key m L(2) c s res] L(2) c s res
  show ?thesis by blast
qed

end
