(* ===== verification/Go_Text.thy ===== *)
theory Go_Text
  imports Go_Prelude
begin

text \<open>
  What the parsers use of Go strings beyond package \<^verbatim>\<open>strings\<close>: the conversion of a byte
  to a string, the iteration of \<^verbatim>\<open>range\<close> over the runes of a string, and laws of the
  string functions on texts that are put together from parts.
\<close>

section \<open>Bytes, runes and strings\<close>

text \<open>\<^verbatim>\<open>string(b)\<close> for a byte \<open>b\<close> is the UTF-8 encoding of the code point \<open>b\<close>:
  two bytes from 128 on.\<close>

definition string_of_byte :: "char \<Rightarrow> bytes" where
  "string_of_byte c =
     (let b = (of_char c :: nat) in
      if b < 128 then [c] else [char_of (192 + b div 64), char_of (128 + b mod 64)])"

definition in_range :: "nat \<Rightarrow> nat \<Rightarrow> char \<Rightarrow> bool" where
  "in_range lo hi c \<longleftrightarrow> lo \<le> (of_char c :: nat) \<and> (of_char c :: nat) \<le> hi"

text \<open>The number of bytes of the first rune, \<^const>\<open>None\<close> when they are not valid UTF-8.\<close>

definition utf8_size :: "bytes \<Rightarrow> nat option" where
  "utf8_size s =
     (case s of
        [] \<Rightarrow> None
      | c # cs \<Rightarrow>
          let b = (of_char c :: nat); cont = in_range 128 191 in
          if b < 128 then Some 1
          else if 194 \<le> b \<and> b \<le> 223 then
            (case cs of c1 # _ \<Rightarrow> if cont c1 then Some 2 else None | _ \<Rightarrow> None)
          else if 224 \<le> b \<and> b \<le> 239 then
            (case cs of
               c1 # c2 # _ \<Rightarrow>
                 if in_range (if b = 224 then 160 else 128) (if b = 237 then 159 else 191) c1 \<and> cont c2
                 then Some 3 else None
             | _ \<Rightarrow> None)
          else if 240 \<le> b \<and> b \<le> 244 then
            (case cs of
               c1 # c2 # c3 # _ \<Rightarrow>
                 if in_range (if b = 240 then 144 else 128) (if b = 244 then 143 else 191) c1
                    \<and> cont c2 \<and> cont c3
                 then Some 4 else None
             | _ \<Rightarrow> None)
          else None)"

definition replacement_rune :: bytes where
  "replacement_rune = map char_of [239, 191, 189 :: nat]"

text \<open>The strings \<^verbatim>\<open>string(char)\<close> of the runes that \<^verbatim>\<open>range s\<close> visits; a byte that is not
  part of valid UTF-8 is visited as the replacement rune.\<close>

fun rune_strings :: "bytes \<Rightarrow> bytes list" where
  "rune_strings [] = []"
| "rune_strings (c # cs) =
     (case utf8_size (c # cs) of
        Some n \<Rightarrow> take n (c # cs) # rune_strings (drop (n - 1) cs)
      | None \<Rightarrow> replacement_rune # rune_strings cs)"

definition ascii :: "bytes \<Rightarrow> bool" where
  "ascii s \<longleftrightarrow> list_all (\<lambda>c. (of_char c :: nat) < 128) s"

lemma string_of_byte_ascii: "(of_char c :: nat) < 128 \<Longrightarrow> string_of_byte c = [c]"
  by (simp add: string_of_byte_def)

lemma rune_strings_ascii: "ascii s \<Longrightarrow> rune_strings s = map (\<lambda>c. [c]) s"
  by (induction s) (simp_all add: ascii_def utf8_size_def)

section \<open>White space\<close>

lemma TrimSpace_id:
  assumes "s = [] \<or> (\<not> is_space (hd s) \<and> \<not> is_space (last s))"
  shows "strings_TrimSpace s = s"
proof (cases s)
  case (Cons a t)
  with assms have d: "dropWhile is_space s = s" by simp
  have "dropWhile is_space (rev s) = rev s"
    using assms Cons by (cases "rev s") (auto simp: hd_rev [symmetric])
  with d show ?thesis by (simp add: strings_TrimSpace_def)
qed (simp add: strings_TrimSpace_def)

lemma TrimSpace_Cons: "is_space c \<Longrightarrow> strings_TrimSpace (c # s) = strings_TrimSpace s"
  by (simp add: strings_TrimSpace_def)

lemma TrimSpace_snoc:
  assumes "is_space c"
  shows "strings_TrimSpace (s @ [c]) = strings_TrimSpace s"
proof (cases "\<forall>x\<in>set s. is_space x")
  case True
  then have "dropWhile is_space s = []" by (simp add: dropWhile_eq_Nil_conv)
  moreover have "dropWhile is_space (s @ [c]) = []" using assms True by (simp add: dropWhile_eq_Nil_conv)
  ultimately show ?thesis by (simp only: strings_TrimSpace_def)
next
  case False
  then have "dropWhile is_space (s @ [c]) = dropWhile is_space s @ [c]"
    by (auto simp: dropWhile_append)
  with assms show ?thesis by (simp add: strings_TrimSpace_def)
qed

lemma TrimSpace_set: "set (strings_TrimSpace s) \<subseteq> set s"
  unfolding strings_TrimSpace_def by (metis set_dropWhileD set_rev subset_code(1))

lemma TrimSpace_blank: "list_all is_space s \<Longrightarrow> strings_TrimSpace s = []"
proof -
  assume "list_all is_space s"
  then have "dropWhile is_space s = []" by (simp add: list_all_iff dropWhile_eq_Nil_conv)
  then show ?thesis by (simp only: strings_TrimSpace_def rev.simps dropWhile.simps)
qed

lemma TrimSpace_no_space: "\<forall>c\<in>set s. \<not> is_space c \<Longrightarrow> strings_TrimSpace s = s"
  by (rule TrimSpace_id) (metis hd_in_set last_in_set)

lemma TrimSpace_Nil_iff: "strings_TrimSpace s = [] \<longleftrightarrow> list_all is_space s"
proof
  assume "strings_TrimSpace s = []"
  then have *: "\<forall>x\<in>set (dropWhile is_space s). is_space x"
    by (simp add: strings_TrimSpace_def dropWhile_eq_Nil_conv)
  have "dropWhile is_space s = []"
  proof (rule ccontr)
    assume "dropWhile is_space s \<noteq> []"
    with hd_dropWhile [OF this] * show False using hd_in_set by blast
  qed
  then show "list_all is_space s" by (simp add: dropWhile_eq_Nil_conv list_all_iff)
qed (rule TrimSpace_blank)

section \<open>Searching\<close>

lemma Index_prefix:
  "c \<notin> set s \<Longrightarrow> strings_Index (s @ t) [c] = map_option (\<lambda>i. length s + i) (strings_Index t [c])"
  by (cases "strings_Index t [c]"; induction s) (auto simp: strings_HasPrefix_single)

lemma LastIndex_single_None: "strings_LastIndex s [c] = None \<longleftrightarrow> c \<notin> set s"
  by (induction s) (auto simp: strings_HasPrefix_single split: option.splits)

lemma LastIndex_single_append: "c \<notin> set t \<Longrightarrow> strings_LastIndex (s @ c # t) [c] = Some (length s)"
proof (induction s)
  case Nil
  then have "strings_LastIndex t [c] = None" by (simp add: LastIndex_single_None)
  then show ?case by (simp add: strings_HasPrefix_single)
qed simp

lemma LastIndex_single_Some:
  "strings_LastIndex s [c] = Some i \<Longrightarrow> i < length s \<and> s ! i = c"
  by (induction s arbitrary: i)
     (auto simp: strings_HasPrefix_single split: option.splits if_splits)

lemma Split_single_free: "c \<notin> set s \<Longrightarrow> strings_Split s [c] = [s]"
  by (simp add: strings_Split_none strings_Index_single_None)

lemma Split_Join_single:
  assumes "ss \<noteq> []" and "\<forall>s\<in>set ss. c \<notin> set s"
  shows "strings_Split (strings_Join ss [c]) [c] = ss"
  using assms
proof (induction ss)
  case (Cons s ss)
  then show ?case
    by (cases ss) (simp_all add: Split_single_free strings_Split_single)
qed simp

lemma Split_single_length: "length (strings_Split s [c]) = Suc (count_list s c)"
proof (induction s "[c]" rule: strings_Split.induct)
  case (1 s)
  show ?case
  proof (cases "strings_Index s [c]")
    case None
    then show ?thesis by (simp add: strings_Split_none strings_Index_single_None count_notin)
  next
    case (Some i)
    then have i: "i < length s" "s ! i = c" "c \<notin> set (take i s)"
      by (simp_all add: strings_Index_single_Some)
    then have s: "s = take i s @ c # drop (Suc i) s" by (metis id_take_nth_drop)
    have "count_list s c = count_list (take i s) c + Suc (count_list (drop (Suc i) s) c)"
      by (subst s) simp
    with 1 [OF _ Some] Some i show ?thesis
      by (simp add: strings_Split.simps [of s] count_notin)
  qed
qed

lemma Count_single: "strings_Count s [c] = count_list s c"
  by (simp add: strings_Count_def Split_single_length)

end
