(* ===== verification/Parser_Uri.thy ===== *)
theory Parser_Uri
  imports Request_Response Go_Text
begin

text \<open>
  The character-level parsers of \<^verbatim>\<open>sip/parser/common.go\<close>: parameters, host and port, SIP
  URIs, and the helpers that search for a byte outside quotes and split at white space.  A
  slice or index outside its string is \<^const>\<open>Crash\<close>.  An error is one constructor per
  message of the code.  Where Go returns a value beside an error that every caller drops, the
  model returns the error alone; \<open>ParseParams\<close> keeps both, because a caller uses both.
\<close>

datatype param_error =
    KeyValueStart | UnescapeParams escape_error | SingletonParam | QuoteInKey | QuoteInValue
  | AfterQuotedParam | EmptyKey | EqualsInValue | UnclosedParamQuotes

datatype uri_error =
    UnescapeUser escape_error | UnescapePassword escape_error
  | UnescapeHost escape_error | UnescapeZone escape_error | PortNumber num_error
  | UriProtocol | UriTooShort | NoColonAfterProtocol | UriEndedEarly
  | NoColonInUri | UnsupportedSchema

datatype address_error =
    EmptyAddress | UnclosedNameQuotes | AfterDisplayName | NoClosingBracket
  | MultipleTo | MultipleFrom | WildcardInTo | WildcardInFrom
  | WildcardWithParams | WildcardWithName

datatype field_error =
    CSeqParts | CSeqNumber num_error | CSeqTooLarge | CSeqSemicolon
  | CallIdSpace | CallIdSemicolon | CallIdEmpty
  | ViaParts | ViaNoSpace | ViaEmptyTransport | ViaNoName | ViaNoVersion | ViaNoTransport
  | HeaderNumber num_error | NoFieldValue

datatype line_error =
    RequestLineSpaces | RequestLineWildcard | StatusLineSpaces | StatusNumber num_error | NotSip

datatype parse_error =
    ParamError param_error | UriError uri_error | AddressError address_error
  | FieldError field_error | LineError line_error

fun map_err :: "('e \<Rightarrow> 'f) \<Rightarrow> ('e, 'a) res \<Rightarrow> ('f, 'a) res" where
  "map_err f (Ok a) = Ok a"
| "map_err f (Err e) = Err (f e)"
| "map_err f Crash = Crash"

definition nul :: char where
  "nul = char_of (0::nat)"

section \<open>Parameters\<close>

record pp_state =
  pp_params :: headerParams
  pp_buffer :: bytes
  pp_key :: bytes
  pp_parsingKey :: bool
  pp_inQuotes :: bool

text \<open>The end of one parameter, at a separator or at the end of the text: the buffer is a key
  without a value or the value of the key before it.\<close>

definition pp_store :: "bool \<Rightarrow> pp_state \<Rightarrow> (parse_error, headerParams) res" where
  "pp_store permitSingletons st =
     (if pp_parsingKey st \<and> permitSingletons then
        res_bind (map_err (ParamError \<circ> UnescapeParams) (Unescape (pp_buffer st) EncodeQueryComponent))
          (\<lambda>k. Ok (params_Add k None (pp_params st)))
      else if pp_parsingKey st then Err (ParamError SingletonParam)
      else
        res_bind (map_err (ParamError \<circ> UnescapeParams) (Unescape (pp_key st) EncodeQueryComponent)) (\<lambda>k.
        res_bind (map_err (ParamError \<circ> UnescapeParams) (Unescape (pp_buffer st) EncodeQueryComponent)) (\<lambda>v.
          Ok (params_Add k (Some v) (pp_params st)))))"

text \<open>One turn of the loop on the byte \<open>c\<close> with \<open>cs\<close> after it.\<close>

datatype pp_turn = PP_next pp_state | PP_break | PP_error parse_error | PP_panic

definition pp_char :: "char \<Rightarrow> char \<Rightarrow> bool \<Rightarrow> bool \<Rightarrow> char \<Rightarrow> bytes \<Rightarrow> pp_state \<Rightarrow> pp_turn" where
  "pp_char sep end quoteValues permitSingletons c cs st =
     (if c = end then
        if pp_inQuotes st then PP_next (st\<lparr>pp_buffer := pp_buffer st @ string_of_byte end\<rparr>)
        else PP_break
      else if c = sep then
        if pp_inQuotes st then PP_next (st\<lparr>pp_buffer := pp_buffer st @ string_of_byte sep\<rparr>)
        else (case pp_store permitSingletons st of
                Ok ps \<Rightarrow> PP_next (st\<lparr>pp_params := ps, pp_buffer := [], pp_parsingKey := True\<rparr>)
              | Err e \<Rightarrow> PP_error e
              | Crash \<Rightarrow> PP_panic)
      else if c = quote then
        if \<not> quoteValues then PP_next (st\<lparr>pp_buffer := pp_buffer st @ [quote]\<rparr>)
        else if pp_parsingKey st then PP_error (ParamError QuoteInKey)
        else if \<not> pp_inQuotes st \<and> pp_buffer st \<noteq> [] then PP_error (ParamError QuoteInValue)
        else if pp_inQuotes st \<and> cs \<noteq> [] \<and> hd cs \<noteq> sep then PP_error (ParamError AfterQuotedParam)
        else PP_next (st\<lparr>pp_inQuotes := \<not> pp_inQuotes st\<rparr>)
      else if c = CHR ''='' then
        if pp_buffer st = [] then PP_error (ParamError EmptyKey)
        else if \<not> pp_parsingKey st then PP_error (ParamError EqualsInValue)
        else PP_next (st\<lparr>pp_key := pp_buffer st, pp_buffer := [], pp_parsingKey := False\<rparr>)
      else if \<not> pp_inQuotes st \<and> strings_Contains abnfWs (string_of_byte c) then PP_next st
      else PP_next (st\<lparr>pp_buffer := pp_buffer st @ string_of_byte c\<rparr>))"

fun pp_loop :: "char \<Rightarrow> char \<Rightarrow> bool \<Rightarrow> bool \<Rightarrow> bytes \<Rightarrow> nat \<Rightarrow> pp_state
    \<Rightarrow> (pp_state \<times> nat \<times> parse_error option) may_panic" where
  "pp_loop sep end qv sg [] consumed st = Ok (st, consumed, None)"
| "pp_loop sep end qv sg (c # cs) consumed st =
     (case pp_char sep end qv sg c cs st of
        PP_next st' \<Rightarrow> pp_loop sep end qv sg cs (consumed + 1) st'
      | PP_break \<Rightarrow> Ok (st, consumed, None)
      | PP_error e \<Rightarrow> Ok (st, consumed, Some e)
      | PP_panic \<Rightarrow> Crash)"

definition pp_init :: pp_state where
  "pp_init = \<lparr>pp_params = NewParams, pp_buffer = [], pp_key = [], pp_parsingKey = True,
              pp_inQuotes = False\<rparr>"

definition pp_finish :: "bool \<Rightarrow> pp_state \<times> nat \<times> parse_error option
    \<Rightarrow> (headerParams \<times> nat \<times> parse_error option) may_panic" where
  "pp_finish sg = (\<lambda>(st, consumed, err).
     case err of
       Some e \<Rightarrow> Ok (pp_params st, consumed, Some e)
     | None \<Rightarrow>
         if pp_inQuotes st then Ok (pp_params st, consumed, Some (ParamError UnclosedParamQuotes))
         else (case pp_store sg st of
                 Ok ps \<Rightarrow> Ok (ps, consumed, None)
               | Err e \<Rightarrow> Ok (pp_params st, consumed, Some e)
               | Crash \<Rightarrow> Crash))"

definition ParseParams :: "bytes \<Rightarrow> char \<Rightarrow> char \<Rightarrow> char \<Rightarrow> bool \<Rightarrow> bool
    \<Rightarrow> (headerParams \<times> nat \<times> parse_error option) may_panic" where
  "ParseParams source start sep end quoteValues permitSingletons =
     (if source = [] then Ok (NewParams, 0, None)
      else if start \<noteq> nul \<and> hd source \<noteq> start then Ok (NewParams, 0, Some (ParamError KeyValueStart))
      else
        let consumed = (if start \<noteq> nul then 1 else 0) in
        res_bind (pp_loop sep end quoteValues permitSingletons (drop consumed source) consumed pp_init)
          (pp_finish permitSingletons))"

text \<open>A caller that stops at an error.\<close>

definition params_or_err :: "(headerParams \<times> nat \<times> parse_error option) may_panic
    \<Rightarrow> (parse_error, headerParams \<times> nat) res" where
  "params_or_err r =
     (case r of
        Ok (ps, n, None) \<Rightarrow> Ok (ps, n)
      | Ok (ps, n, Some e) \<Rightarrow> Err e
      | _ \<Rightarrow> Crash)"

section \<open>Host and port\<close>

definition host_zone :: "bytes \<Rightarrow> nat \<Rightarrow> (parse_error, bytes) res" where
  "host_zone rawHost zone =
     (let n = length rawHost - 1 in
      if n < zone then Crash
      else
        res_bind (map_err (UriError \<circ> UnescapeHost) (Unescape (take zone rawHost) EncodeHost)) (\<lambda>host1.
        res_bind (map_err (UriError \<circ> UnescapeZone) (Unescape (slice rawHost zone n) EncodeZone)) (\<lambda>host2.
        res_bind (map_err (UriError \<circ> UnescapeHost) (Unescape (drop n rawHost) EncodeHost)) (\<lambda>host3.
          Ok (host1 @ host2 @ host3)))))"

definition parse_host :: "bytes \<Rightarrow> (parse_error, bytes) res" where
  "parse_host rawHost =
     res_bind
       (if strings_HasPrefix rawHost ''['' then
          (case strings_Index rawHost ''%25'' of
             Some zone \<Rightarrow> host_zone rawHost zone
           | None \<Rightarrow> Ok [])
        else Ok [])
       (\<lambda>host. if host = [] then map_err (UriError \<circ> UnescapeHost) (Unescape rawHost EncodeHost) else Ok host)"

definition ParseHostPort :: "bytes \<Rightarrow> (parse_error, bytes \<times> port option) res" where
  "ParseHostPort rawText =
     (let (rawHost, rawPort) =
        (case strings_LastIndex rawText '':'' of
           None \<Rightarrow> (rawText, [])
         | Some i \<Rightarrow> (take i rawText, drop (i + 1) rawText))
      in res_bind (parse_host rawHost) (\<lambda>host.
         if rawPort \<noteq> [] then
           (case strconv_ParseUint rawPort 16 of
              (n, None) \<Rightarrow> Ok (host, Some (of_nat n))
            | (_, Some e) \<Rightarrow> Err (UriError (PortNumber e)))
         else Ok (host, None)))"

section \<open>URIs\<close>

text \<open>The user-info part: user, password and the text after it.\<close>

definition parse_userinfo :: "bytes \<Rightarrow> (parse_error, maybe_string \<times> maybe_string \<times> bytes) res" where
  "parse_userinfo s =
     (case strings_Index s ''@'' of
        None \<Rightarrow> Ok (None, None, s)
      | Some endOfUserInfoPart \<Rightarrow>
          let endOfUsernamePart =
            (case strings_Index s '':'' of
               Some i \<Rightarrow> if endOfUserInfoPart < i then None else Some i
             | None \<Rightarrow> None);
            rest = drop (endOfUserInfoPart + 1) s
          in case endOfUsernamePart of
            None \<Rightarrow>
              res_bind (map_err (UriError \<circ> UnescapeUser) (Unescape (take endOfUserInfoPart s) EncodeUserPassword))
                (\<lambda>user. Ok (Some user, None, rest))
          | Some i \<Rightarrow>
              res_bind (map_err (UriError \<circ> UnescapeUser) (Unescape (take i s) EncodeUserPassword)) (\<lambda>user.
              res_bind (map_err (UriError \<circ> UnescapePassword)
                         (Unescape (slice s (i + 1) endOfUserInfoPart) EncodeUserPassword)) (\<lambda>pass.
                Ok (Some user, Some pass, rest))))"

text \<open>The parameters and headers of a URI, when there is text after host and port.\<close>

definition parse_uri_sections :: "bytes \<Rightarrow> (parse_error, headerParams \<times> headerParams) res" where
  "parse_uri_sections s =
     res_bind
       (if hd s = CHR '';'' then params_or_err (ParseParams s CHR '';'' CHR '';'' CHR ''?'' True True)
        else Ok (NewParams, 0))
       (\<lambda>(uriParams, n).
          let t = drop n s in
          res_bind (params_or_err (ParseParams t CHR ''?'' CHR ''&'' nul True False)) (\<lambda>(hs, m).
            if drop m t \<noteq> [] then Err (UriError UriEndedEarly) else Ok (uriParams, hs)))"

definition end_of_uri :: "bytes \<Rightarrow> nat" where
  "end_of_uri s =
     (case strings_Index s '';'' of
        Some i \<Rightarrow> i
      | None \<Rightarrow> (case strings_Index s ''?'' of Some i \<Rightarrow> i | None \<Rightarrow> length s))"

definition parse_after_scheme :: "bool \<Rightarrow> bytes \<Rightarrow> (parse_error, sip_uri) res" where
  "parse_after_scheme encrypted s =
     res_bind (parse_userinfo s) (\<lambda>(user, pass, t).
     res_bind (ParseHostPort (take (end_of_uri t) t)) (\<lambda>(host, p).
       let rest = drop (end_of_uri t) t in
       res_bind (if rest = [] then Ok (NewParams, NewParams) else parse_uri_sections rest) (\<lambda>(ps, hs).
         Ok \<lparr>FIsEncrypted = encrypted, FUser = user, FPassword = pass, FHost = host, FPort = p,
             FUriParams = Some ps, FHeaders = Some hs\<rparr>)))"

definition ParseSipUri :: "bytes \<Rightarrow> (parse_error, sip_uri) res" where
  "ParseSipUri uriStr =
     (if length uriStr < 3 then Crash
      else if strings_ToLower (take 3 uriStr) \<noteq> ''sip'' then Err (UriError UriProtocol)
      else
        let s1 = drop 3 uriStr in
        if s1 = [] then Err (UriError UriTooShort)
        else
          let encrypted = (strings_ToLower (take 1 s1) = ''s'');
              s2 = (if encrypted then drop 1 s1 else s1)
          in if s2 = [] then Err (UriError UriTooShort)
             else if hd s2 \<noteq> CHR '':'' then Err (UriError NoColonAfterProtocol)
             else parse_after_scheme encrypted (drop 1 s2))"

definition ParseUri :: "bytes \<Rightarrow> (parse_error, uri) res" where
  "ParseUri uriStr =
     (if strings_TrimSpace uriStr = ''*'' then Ok WildcardUri
      else case strings_Index uriStr '':'' of
        None \<Rightarrow> Err (UriError NoColonInUri)
      | Some colonIdx \<Rightarrow>
          let scheme = strings_ToLower (take colonIdx uriStr) in
          if scheme = ''sip'' then res_bind (ParseSipUri uriStr) (\<lambda>u. Ok (SipUri u))
          else if scheme = ''sips'' then res_bind (ParseSipUri uriStr) (\<lambda>u. Ok (SipUri u))
          else Err (UriError UnsupportedSchema))"

section \<open>Searching and splitting\<close>

record delimiter =
  d_start :: char
  d_end :: char

definition quotesDelim :: delimiter where
  "quotesDelim = \<lparr>d_start = quote, d_end = quote\<rparr>"

definition anglesDelim :: delimiter where
  "anglesDelim = \<lparr>d_start = CHR ''<'', d_end = CHR ''>''\<rparr>"

text \<open>The scan with the byte that ends the current quotation, \<^const>\<open>None\<close> outside of one.\<close>

fun find_loop :: "bytes \<Rightarrow> (char \<times> char) list \<Rightarrow> bytes \<Rightarrow> char option \<Rightarrow> nat \<Rightarrow> nat option" where
  "find_loop targets endChars [] open_q idx = None"
| "find_loop targets endChars (c # cs) open_q idx =
     (if open_q = None \<and> strings_Contains targets (string_of_byte c) then Some idx
      else find_loop targets endChars cs
             (case open_q of
                Some endEscape \<Rightarrow> if c \<noteq> endEscape then Some endEscape else None
              | None \<Rightarrow> map_of endChars c)
             (idx + 1))"

definition findAnyUnescaped :: "bytes \<Rightarrow> bytes \<Rightarrow> delimiter list \<Rightarrow> nat option" where
  "findAnyUnescaped text targets delims =
     (let endChars = fold (\<lambda>d m. AList.update (d_start d) (d_end d) m) delims []
      in find_loop targets endChars text None 0)"

definition findUnescaped :: "bytes \<Rightarrow> char \<Rightarrow> delimiter list \<Rightarrow> nat option" where
  "findUnescaped text target delims = findAnyUnescaped text (string_of_byte target) delims"

fun split_loop :: "bytes list \<Rightarrow> bool \<Rightarrow> bytes \<Rightarrow> bytes list \<Rightarrow> bytes list" where
  "split_loop [] inString buffer result = (if buffer \<noteq> [] then result @ [buffer] else result)"
| "split_loop (s # ss) inString buffer result =
     (if strings_Contains abnfWs s then
        if inString then split_loop ss False [] (result @ [buffer])
        else split_loop ss False buffer result
      else split_loop ss True (buffer @ s) result)"

definition SplitByWhitespace :: "bytes \<Rightarrow> bytes list" where
  "SplitByWhitespace text = split_loop (rune_strings text) True [] []"

text \<open>The lines after the first one that start with white space continue it.\<close>

fun continuation_lines :: "bytes list \<Rightarrow> bytes \<times> nat" where
  "continuation_lines [] = ([], 0)"
| "continuation_lines (l # ls) =
     (if l = [] \<or> \<not> is_space (hd l) then ([], 0)
      else let (text, n) = continuation_lines ls in ('' '' @ strings_TrimSpace l @ text, n + 1))"

definition GetNextHeaderLine :: "bytes list \<Rightarrow> bytes \<times> nat" where
  "GetNextHeaderLine contents =
     (case contents of
        [] \<Rightarrow> ([], 0)
      | l # ls \<Rightarrow>
          if l = [] then ([], 0)
          else let (text, n) = continuation_lines ls in (l @ text, n + 1))"

end
