(* ===== verification/Parser_Headers.thy ===== *)
theory Parser_Headers
  imports Parser_Uri
begin

text \<open>
  The header parsers of \<^verbatim>\<open>sip/parser/common.go\<close>, the table \<open>defaultHeaderParsers\<close> and
  \<open>ParseHeader\<close> of \<^verbatim>\<open>sip/parser/packet.go\<close>.  A header parser returns headers and an
  error, as in Go: some return both.
\<close>

type_synonym parsed_headers = "(header list \<times> parse_error option) may_panic"

section \<open>Addresses\<close>

type_synonym address = "maybe_string \<times> uri \<times> headerParams"

text \<open>The display name in front of an angle bracket at \<open>i\<close>, and the text after it.\<close>

definition parse_display_name :: "bytes \<Rightarrow> nat \<Rightarrow> (parse_error, maybe_string \<times> bytes) res" where
  "parse_display_name s i =
     (if hd s = quote then
        let t = drop 1 s in
        (case strings_Index t [quote] of
           None \<Rightarrow> Err (AddressError UnclosedNameQuotes)
         | Some nextQuote \<Rightarrow> Ok (Some (take nextQuote t), drop (nextQuote + 1) t))
      else Ok (Some (strings_TrimSpace (take i s)), drop i s))"

text \<open>Where the URI ends and the parameters start.  The code tests the index of the closing
  bracket for 0, so an index of -1 is used as a slice bound.\<close>

definition address_bounds :: "maybe_string \<Rightarrow> bytes \<Rightarrow> (parse_error, bytes \<times> bytes) res" where
  "address_bounds displayName s =
     (if s = [] then Crash
      else if hd s \<noteq> CHR ''<'' then
        if displayName \<noteq> None then Err (AddressError AfterDisplayName)
        else
          let i = (case strings_Index s '';'' of Some i \<Rightarrow> i | None \<Rightarrow> length s)
          in Ok (take i s, drop i s)
      else
        let t = drop 1 s in
        (case strings_Index t ''>'' of
           None \<Rightarrow> Crash
         | Some i \<Rightarrow>
             if i = 0 then Err (AddressError NoClosingBracket) else Ok (take i t, drop (i + 1) t)))"

definition ParseAddressValue :: "bytes \<Rightarrow> (parse_error, address) res" where
  "ParseAddressValue addressText =
     (if addressText = [] then Err (AddressError EmptyAddress)
      else
        let s = strings_TrimSpace addressText in
        res_bind
          (case findUnescaped s CHR ''<'' [quotesDelim] of
             Some i \<Rightarrow> if 0 < i then parse_display_name s i else Ok (None, s)
           | None \<Rightarrow> Ok (None, s))
          (\<lambda>(displayName, t).
             res_bind (address_bounds displayName (strings_TrimSpace t)) (\<lambda>(uriText, rest).
             res_bind (ParseUri uriText) (\<lambda>uri.
               if rest = [] then Ok (displayName, uri, NewParams)
               else res_bind (params_or_err (ParseParams rest CHR '';'' CHR '';'' CHR '','' True True))
                      (\<lambda>(ps, _). Ok (displayName, uri, ps))))))"

text \<open>The loop over the addresses, with the text since the last comma in \<open>seg\<close>.  Every
  character it looks for is ASCII, so it can be read as a loop over bytes.\<close>

fun address_loop :: "bytes \<Rightarrow> bytes \<Rightarrow> bool \<Rightarrow> bool \<Rightarrow> (parse_error, address list) res" where
  "address_loop [] seg inBrackets inQuotes = Ok []"
| "address_loop (c # cs) seg inBrackets inQuotes =
     (if c = CHR ''<'' \<and> \<not> inQuotes then address_loop cs (seg @ [c]) True inQuotes
      else if c = CHR ''>'' \<and> \<not> inQuotes then address_loop cs (seg @ [c]) False inQuotes
      else if c = quote then address_loop cs (seg @ [c]) inBrackets (\<not> inQuotes)
      else if \<not> inQuotes \<and> \<not> inBrackets \<and> c = CHR '','' then
        res_bind (ParseAddressValue seg) (\<lambda>a.
        res_bind (address_loop cs [] inBrackets inQuotes) (\<lambda>as. Ok (a # as)))
      else address_loop cs (seg @ [c]) inBrackets inQuotes)"

definition ParseAddressValues :: "bytes \<Rightarrow> (parse_error, address list) res" where
  "ParseAddressValues addresses = address_loop (addresses @ '','') [] False False"

section \<open>To, From and Contact\<close>

text \<open>The addresses come as triples, so the check of the code that the lists of names, URIs and
  parameter sets have the same length always passes.\<close>

definition to_headers :: "address list \<Rightarrow> parsed_headers" where
  "to_headers as =
     (case as of
        [] \<Rightarrow> Ok ([], None)
      | (name, uri, ps) # rest \<Rightarrow>
          if uri = WildcardUri then Ok ([], Some (AddressError WildcardInTo))
          else if rest \<noteq> [] then Ok ([], Some (AddressError MultipleTo))
          else Ok ([ToHeader \<lparr>DisplayName = name, Address = Some uri, Params = Some ps\<rparr>], None))"

definition from_headers :: "address list \<Rightarrow> parsed_headers" where
  "from_headers as =
     (case as of
        [] \<Rightarrow> Ok ([], None)
      | (name, uri, ps) # rest \<Rightarrow>
          if uri = WildcardUri then Ok ([], Some (AddressError WildcardInFrom))
          else if rest \<noteq> [] then Ok ([], Some (AddressError MultipleFrom))
          else Ok ([FromHeader \<lparr>DisplayName = name, Address = Some uri, Params = Some ps\<rparr>], None))"

fun contact_headers :: "address list \<Rightarrow> header list \<Rightarrow> parsed_headers" where
  "contact_headers [] headers = Ok (headers, None)"
| "contact_headers ((name, uri, ps) # rest) headers =
     (if uri_IsWildcard uri \<and> 0 < params_Length ps then
        Ok (headers, Some (AddressError WildcardWithParams))
      else if uri_IsWildcard uri \<and> name \<noteq> None then
        Ok (headers, Some (AddressError WildcardWithName))
      else contact_headers rest
             (headers @ [ContactHeader \<lparr>CDisplayName = name, CAddress = uri, CParams = Some ps\<rparr>]))"

definition parseAddressHeader :: "bytes \<Rightarrow> bytes \<Rightarrow> parsed_headers" where
  "parseAddressHeader headerName headerText =
     (if headerName \<in> set [''to'', ''from'', ''contact'', ''t'', ''f'', ''m''] then
        (case ParseAddressValues headerText of
           Crash \<Rightarrow> Crash
         | Err e \<Rightarrow> Ok ([], Some e)
         | Ok as \<Rightarrow>
             if headerName = ''to'' \<or> headerName = ''t'' then to_headers as
             else if headerName = ''from'' \<or> headerName = ''f'' then from_headers as
             else contact_headers as [])
      else Ok ([], None))"

section \<open>CSeq, Call-ID and Via\<close>

definition maxCseq :: nat where
  "maxCseq = 2147483647"

definition parseCSeq :: "bytes \<Rightarrow> bytes \<Rightarrow> parsed_headers" where
  "parseCSeq headerName headerText =
     (case SplitByWhitespace headerText of
        [seqText, methodText] \<Rightarrow>
          (case strconv_ParseUint seqText 32 of
             (_, Some e) \<Rightarrow> Ok ([], Some (FieldError (CSeqNumber e)))
           | (seqno, None) \<Rightarrow>
               if maxCseq < seqno then Ok ([], Some (FieldError CSeqTooLarge))
               else
                 let m = strings_TrimSpace methodText in
                 if strings_Contains m '';'' then Ok ([], Some (FieldError CSeqSemicolon))
                 else Ok ([CSeq \<lparr>SeqNo = of_nat seqno, MethodName = m\<rparr>], None))
      | _ \<Rightarrow> Ok ([], Some (FieldError CSeqParts)))"

definition parseCallId :: "bytes \<Rightarrow> bytes \<Rightarrow> parsed_headers" where
  "parseCallId headerName headerText =
     (let callId = strings_TrimSpace headerText in
      if strings_ContainsAny callId abnfWs then Ok ([], Some (FieldError CallIdSpace))
      else if strings_Contains callId '';'' then Ok ([], Some (FieldError CallIdSemicolon))
      else if callId = [] then Ok ([], Some (FieldError CallIdEmpty))
      else Ok ([CallID callId], None))"

text \<open>One hop of a Via header, with the error of its parameters.\<close>

definition parse_hop_body :: "via_hop \<Rightarrow> bytes \<Rightarrow> (parse_error, via_hop \<times> parse_error option) res" where
  "parse_hop_body hop viaBody =
     (case strings_Index viaBody '';'' of
        None \<Rightarrow>
          res_bind (ParseHostPort viaBody) (\<lambda>(host, p).
            Ok (hop\<lparr>Host := host, Port := p, HParams := Some NewParams\<rparr>, None))
      | Some paramsIdx \<Rightarrow>
          res_bind (ParseHostPort (take paramsIdx viaBody)) (\<lambda>(host, p).
            case ParseParams (drop paramsIdx viaBody) CHR '';'' CHR '';'' nul True True of
              Ok (ps, _, err) \<Rightarrow> Ok (hop\<lparr>Host := host, Port := p, HParams := Some ps\<rparr>, err)
            | _ \<Rightarrow> Crash))"

text \<open>The error \<open>err\<close> that the parameters of the hop before left is noticed once the protocol
  parts of this hop have been read.\<close>

definition parse_hop :: "bytes \<Rightarrow> parse_error option \<Rightarrow> (parse_error, via_hop \<times> parse_error option) res" where
  "parse_hop section err =
     (case strings_Split section ''/'' of
        p0 # p1 # ps \<Rightarrow>
          if ps = [] then Err (FieldError ViaParts)
          else
            let p2 = strings_Join ps ''/'';
                initialSpaces = length p2 - length (strings_TrimLeft p2 abnfWs);
                sentByIdx = (case strings_IndexAny (drop initialSpaces p2) abnfWs of
                               Some i \<Rightarrow> i + initialSpaces + 1
                             | None \<Rightarrow> initialSpaces)
            in if sentByIdx = 0 then Err (FieldError ViaNoSpace)
               else if sentByIdx = 1 then Err (FieldError ViaEmptyTransport)
               else
                 let name = strings_TrimSpace p0; version = strings_TrimSpace p1;
                     transport = strings_TrimSpace (take (sentByIdx - 1) p2)
                 in if name = [] then Err (FieldError ViaNoName)
                    else if version = [] then Err (FieldError ViaNoVersion)
                    else if transport = [] then Err (FieldError ViaNoTransport)
                    else (case err of
                            Some e \<Rightarrow> Err e
                          | None \<Rightarrow>
                              parse_hop_body
                                \<lparr>ProtocolName = name, ProtocolVersion = version, Transport = transport,
                                 Host = [], Port = None, HParams = None\<rparr>
                                (drop sentByIdx p2))
      | _ \<Rightarrow> Err (FieldError ViaParts))"

fun via_loop :: "bytes list \<Rightarrow> via_hop list \<Rightarrow> parse_error option \<Rightarrow> parsed_headers" where
  "via_loop [] via err = Ok ([ViaHeader via], err)"
| "via_loop (sect # sects) via err =
     (case parse_hop sect err of
        Crash \<Rightarrow> Crash
      | Err e \<Rightarrow> Ok ([], Some e)
      | Ok (hop, e) \<Rightarrow> via_loop sects (via @ [hop]) e)"

definition parseViaHeader :: "bytes \<Rightarrow> bytes \<Rightarrow> parsed_headers" where
  "parseViaHeader headerName headerText = via_loop (strings_Split headerText '','') [] None"

section \<open>Numbers, texts and lists\<close>

text \<open>A number that does not parse gives an error beside the header.\<close>

definition parse_u32 :: "bytes \<Rightarrow> 32 word \<times> parse_error option" where
  "parse_u32 headerText =
     (let (n, e) = strconv_ParseUint (strings_TrimSpace headerText) 32
      in (of_nat n, map_option (\<lambda>e. FieldError (HeaderNumber e)) e))"

definition parseMaxForwards :: "bytes \<Rightarrow> bytes \<Rightarrow> parsed_headers" where
  "parseMaxForwards headerName headerText =
     (let (n, e) = parse_u32 headerText in Ok ([MaxForwards n], e))"

definition parseExpires :: "bytes \<Rightarrow> bytes \<Rightarrow> parsed_headers" where
  "parseExpires headerName headerText =
     (let (n, e) = parse_u32 headerText in Ok ([Expires n], e))"

definition parseContentLength :: "bytes \<Rightarrow> bytes \<Rightarrow> parsed_headers" where
  "parseContentLength headerName headerText =
     (let (n, e) = parse_u32 headerText in Ok ([ContentLength n], e))"

definition parseUserAgent :: "bytes \<Rightarrow> bytes \<Rightarrow> parsed_headers" where
  "parseUserAgent headerName headerText = Ok ([UserAgentHeader (strings_TrimSpace headerText)], None)"

definition parseServer :: "bytes \<Rightarrow> bytes \<Rightarrow> parsed_headers" where
  "parseServer headerName headerText = Ok ([ServerHeader (strings_TrimSpace headerText)], None)"

definition parseContentType :: "bytes \<Rightarrow> bytes \<Rightarrow> parsed_headers" where
  "parseContentType headerName headerText = Ok ([ContentType (strings_TrimSpace headerText)], None)"

definition parseAccept :: "bytes \<Rightarrow> bytes \<Rightarrow> parsed_headers" where
  "parseAccept headerName headerText = Ok ([Accept (strings_TrimSpace headerText)], None)"

definition parseAllow :: "bytes \<Rightarrow> bytes \<Rightarrow> parsed_headers" where
  "parseAllow headerName headerText =
     Ok ([AllowHeader (map strings_TrimSpace (strings_Split headerText '',''))], None)"

definition parseRequire :: "bytes \<Rightarrow> bytes \<Rightarrow> parsed_headers" where
  "parseRequire headerName headerText =
     Ok ([RequireHeader (map strings_TrimSpace (strings_Split headerText '',''))], None)"

definition parseSupported :: "bytes \<Rightarrow> bytes \<Rightarrow> parsed_headers" where
  "parseSupported headerName headerText =
     Ok ([SupportedHeader (map strings_TrimSpace (strings_Split headerText '',''))], None)"

definition address_uris :: "address list \<Rightarrow> uri list" where
  "address_uris as = map (\<lambda>(name, uri, ps). uri) as"

definition parseRouteHeader :: "bytes \<Rightarrow> bytes \<Rightarrow> parsed_headers" where
  "parseRouteHeader headerName headerText =
     (case ParseAddressValues headerText of
        Ok as \<Rightarrow> Ok ([RouteHeader (address_uris as)], None)
      | Err e \<Rightarrow> Ok ([], Some e)
      | Crash \<Rightarrow> Crash)"

definition parseRecordRouteHeader :: "bytes \<Rightarrow> bytes \<Rightarrow> parsed_headers" where
  "parseRecordRouteHeader headerName headerText =
     (case ParseAddressValues headerText of
        Ok as \<Rightarrow> Ok ([RecordRouteHeader (address_uris as)], None)
      | Err e \<Rightarrow> Ok ([], Some e)
      | Crash \<Rightarrow> Crash)"

section \<open>The table of parsers\<close>

type_synonym header_parser = "bytes \<Rightarrow> bytes \<Rightarrow> parsed_headers"

definition defaultHeaderParsers :: "(bytes \<times> header_parser) list" where
  "defaultHeaderParsers =
     [(''to'', parseAddressHeader), (''t'', parseAddressHeader),
      (''from'', parseAddressHeader), (''f'', parseAddressHeader),
      (''contact'', parseAddressHeader), (''m'', parseAddressHeader),
      (''call-id'', parseCallId), (''i'', parseCallId),
      (''cseq'', parseCSeq),
      (''via'', parseViaHeader), (''v'', parseViaHeader),
      (''max-forwards'', parseMaxForwards),
      (''content-length'', parseContentLength), (''l'', parseContentLength),
      (''expires'', parseExpires),
      (''user-agent'', parseUserAgent),
      (''server'', parseServer),
      (''allow'', parseAllow),
      (''content-type'', parseContentType), (''c'', parseContentType),
      (''accept'', parseAccept),
      (''require'', parseRequire),
      (''supported'', parseSupported), (''k'', parseSupported),
      (''route'', parseRouteHeader),
      (''record-route'', parseRecordRouteHeader)]"

text \<open>A parser is its table: \<open>NewPacketParser\<close> registers the default parsers, and
  \<open>SetHeaderParser\<close> replaces or adds one.\<close>

type_synonym packet_parser = "(bytes \<times> header_parser) list"

definition SetHeaderParser :: "bytes \<Rightarrow> header_parser \<Rightarrow> packet_parser \<Rightarrow> packet_parser" where
  "SetHeaderParser headerName p pp = AList.update (strings_ToLower headerName) p pp"

definition NewPacketParser :: packet_parser where
  "NewPacketParser = fold (\<lambda>(n, p). SetHeaderParser n p) defaultHeaderParsers []"

definition ParseHeader :: "packet_parser \<Rightarrow> bytes \<Rightarrow> parsed_headers" where
  "ParseHeader pp headerText =
     (case strings_Index headerText '':'' of
        None \<Rightarrow> Ok ([], Some (FieldError NoFieldValue))
      | Some colonIdx \<Rightarrow>
          let fieldName = strings_TrimSpace (take colonIdx headerText);
              lowerFieldName = strings_ToLower fieldName;
              fieldText = strings_TrimSpace (drop (colonIdx + 1) headerText)
          in case map_of pp lowerFieldName of
               Some p \<Rightarrow> p lowerFieldName fieldText
             | None \<Rightarrow> Ok ([GenericHeader \<lparr>HeaderName = fieldName, Contents = fieldText\<rparr>], None))"

end
