(* ===== verification/Parser_Message.thy ===== *)
theory Parser_Message
  imports Parser_Headers
begin

text \<open>
  Whole messages: the start lines of \<^verbatim>\<open>sip/parser/common.go\<close> and the packet parser of
  \<^verbatim>\<open>sip/parser/packet.go\<close>, which parses one message from one datagram.  Log lines are
  left out, except that their arguments are evaluated: \<open>Short\<close> of a request can panic.
\<close>

section \<open>Start lines\<close>

definition getBodyLength :: "bytes \<Rightarrow> nat option" where
  "getBodyLength data =
     (case strings_Index data (crlf @ crlf) of
        None \<Rightarrow> None
      | Some idx \<Rightarrow> Some (length data - (idx + 4)))"

definition isRequest :: "bytes \<Rightarrow> bool" where
  "isRequest startLine =
     (if strings_Count startLine '' '' \<noteq> 2 then False
      else
        let parts = strings_Split startLine '' '' in
        if length parts < 3 then False
        else if length (parts ! 2) < 3 then False
        else strings_ToUpper (take 3 (parts ! 2)) = ''SIP'')"

definition isResponse :: "bytes \<Rightarrow> bool" where
  "isResponse startLine =
     (if strings_Count startLine '' '' < 2 then False
      else
        let parts = strings_Split startLine '' '' in
        if length parts < 3 then False
        else if length (parts ! 0) < 3 then False
        else strings_ToUpper (take 3 (parts ! 0)) = ''SIP'')"

text \<open>The test for a wildcard asks for a pointer, and \<open>ParseUri\<close> returns the struct.\<close>

definition ParseRequestLine :: "bytes \<Rightarrow> (parse_error, bytes \<times> uri \<times> bytes) res" where
  "ParseRequestLine requestLine =
     (case strings_Split requestLine '' '' of
        [m, u, version] \<Rightarrow>
          res_bind (ParseUri u) (\<lambda>recipient.
            if recipient = WildcardUriPtr then Err (LineError RequestLineWildcard)
            else Ok (strings_ToUpper m, recipient, version))
      | _ \<Rightarrow> Err (LineError RequestLineSpaces))"

definition ParseStatusLine :: "bytes \<Rightarrow> (parse_error, bytes \<times> 16 word \<times> bytes) res" where
  "ParseStatusLine statusLine =
     (case strings_Split statusLine '' '' of
        version # codeText # r # rs \<Rightarrow>
          (case strconv_ParseUint codeText 16 of
             (n, None) \<Rightarrow> Ok (version, of_nat n, strings_Join (r # rs) '' '')
           | (_, Some e) \<Rightarrow> Err (LineError (StatusNumber e)))
      | _ \<Rightarrow> Err (LineError StatusLineSpaces))"

definition parseStartLine :: "bytes \<Rightarrow> bytes \<Rightarrow> (parse_error, sip_msg) res" where
  "parseStartLine freshID startLine =
     (if isRequest startLine then
        res_bind (ParseRequestLine startLine) (\<lambda>(m, r, version).
          Ok (Req (NewRequest freshID [] m (Some r) version [] [])))
      else if isResponse startLine then
        res_bind (ParseStatusLine startLine) (\<lambda>(version, code, why).
          Ok (Res (NewResponse freshID [] version code why [] [])))
      else Err (LineError NotSip))"

section \<open>Headers and body\<close>

fun msg_map_hdrs :: "(headers \<Rightarrow> headers) \<Rightarrow> sip_msg \<Rightarrow> sip_msg" where
  "msg_map_hdrs f (Req r) = Req (r\<lparr>hdrs := f (hdrs r)\<rparr>)"
| "msg_map_hdrs f (Res r) = Res (r\<lparr>hdrs := f (hdrs r)\<rparr>)"

fun msg_hdrs :: "sip_msg \<Rightarrow> headers" where
  "msg_hdrs (Req r) = hdrs r"
| "msg_hdrs (Res r) = hdrs r"

fun msg_body :: "sip_msg \<Rightarrow> bytes" where
  "msg_body (Req r) = body r"
| "msg_body (Res r) = body r"

fun msg_SetBody :: "bytes \<Rightarrow> bool \<Rightarrow> sip_msg \<Rightarrow> sip_msg" where
  "msg_SetBody b cl (Req r) = Req (SetBody b cl r)"
| "msg_SetBody b cl (Res r) = Res (SetBody b cl r)"

fun msg_String :: "sip_msg \<Rightarrow> bytes" where
  "msg_String (Req r) = request_String r"
| "msg_String (Res r) = response_String r"

text \<open>The calls of \<open>Short\<close> that can panic.\<close>

fun msg_Short :: "sip_msg \<Rightarrow> unit may_panic" where
  "msg_Short (Req r) =
     res_bind (request_Transport r) (\<lambda>_.
     res_bind (request_Source r) (\<lambda>_.
     res_bind (request_Destination r) (\<lambda>_. Ok ())))"
| "msg_Short (Res r) = res_bind (response_Destination r) (\<lambda>_. Ok ())"

definition flushBuffer :: "packet_parser \<Rightarrow> bytes \<Rightarrow> header list \<Rightarrow> header list may_panic" where
  "flushBuffer pp buffer hl =
     (if buffer = [] then Ok hl
      else case ParseHeader pp buffer of
        Ok (new, None) \<Rightarrow> Ok (hl @ new)
      | Ok (_, Some _) \<Rightarrow> Ok hl
      | _ \<Rightarrow> Crash)"

fun fill_loop :: "packet_parser \<Rightarrow> sip_msg \<Rightarrow> bytes list \<Rightarrow> bytes \<Rightarrow> header list \<Rightarrow> header list may_panic" where
  "fill_loop pp msg [] buffer hl = flushBuffer pp buffer hl"
| "fill_loop pp msg (line # lines) buffer hl =
     (if line = [] then Crash
      else if \<not> strings_Contains abnfWs (string_of_byte (hd line)) then
        res_bind (flushBuffer pp buffer hl) (fill_loop pp msg lines line)
      else if buffer \<noteq> [] then fill_loop pp msg lines (buffer @ '' '' @ line) hl
      else res_bind (msg_Short msg) (\<lambda>_. fill_loop pp msg lines buffer hl))"

definition fillHeaders :: "packet_parser \<Rightarrow> sip_msg \<Rightarrow> bytes list \<Rightarrow> sip_msg may_panic" where
  "fillHeaders pp msg lines =
     res_bind (fill_loop pp msg lines [] []) (\<lambda>hl. Ok (msg_map_hdrs (fold AppendHeader hl) msg))"

text \<open>Errors about a message carry its text.\<close>

datatype message_error =
    InvalidMessageFormat | InvalidStartLine parse_error | MissingContentLength bytes
  | MultipleContentLength bytes | BrokenMessage bytes

definition fillBody :: "sip_msg \<Rightarrow> bytes \<Rightarrow> nat \<Rightarrow> (message_error, sip_msg) res" where
  "fillBody msg b bodyLen =
     (if length b \<noteq> bodyLen then Err (BrokenMessage (msg_String msg))
      else if strings_TrimSpace b \<noteq> [] then Ok (msg_SetBody b False msg)
      else Ok msg)"

definition ParseMessage :: "packet_parser \<Rightarrow> bytes \<Rightarrow> bytes \<Rightarrow> (message_error, sip_msg) res" where
  "ParseMessage pp freshID data =
     (case getBodyLength data of
        None \<Rightarrow> Err InvalidMessageFormat
      | Some bodyLen \<Rightarrow>
          let bodyStart = length data - bodyLen;
              lines = filter (\<lambda>line. line \<noteq> []) (strings_Split (take bodyStart data) crlf)
          in case lines of
               [] \<Rightarrow> Err InvalidMessageFormat
             | startLine # headerLines \<Rightarrow>
                 (case parseStartLine freshID startLine of
                    Crash \<Rightarrow> Crash
                  | Err e \<Rightarrow> Err (InvalidStartLine e)
                  | Ok msg \<Rightarrow>
                      (case fillHeaders pp msg headerLines of
                         Ok msg1 \<Rightarrow> fillBody msg1 (drop bodyStart data) bodyLen
                       | _ \<Rightarrow> Crash)))"

end
