(* ===== verification/Parser_Stream.thy ===== *)
theory Parser_Stream
  imports Parser_Message
begin

text \<open>
  The stream parser (\<^verbatim>\<open>sip/parser/stream.go\<close>, \<^verbatim>\<open>sip/parser/parserbuffer.go\<close>).  The
  goroutine \<open>parse\<close> reads lines and chunks from a pipe and sends messages and errors down
  two channels.  The state holds the bytes that no finished turn of its loop has consumed;
  a turn that needs more input than there is waits, and is evaluated again from its start when
  more has been written, which gives the same result because reading has no other effect
  (lemma \<open>parse_turn_more\<close>).  The receivers of the two channels are always ready here, and
  what the pipe makes a writer wait for is not modelled.
\<close>

section \<open>The buffer\<close>

datatype read_result = Got bytes bytes | ReadErr | NeedMore | ReadPanic

definition cr :: char where "cr = char_of (13::nat)"
definition lf :: char where "lf = char_of (10::nat)"

text \<open>The loop of \<open>NextLine\<close>: text up to a carriage return, then one byte, which ends the
  line if it is a line feed and belongs to the line otherwise.\<close>

fun next_line :: "bytes \<Rightarrow> bytes \<Rightarrow> (bytes \<times> bytes) option" where
  "next_line buffer [] = None"
| "next_line buffer (c # cs) =
     (if c \<noteq> cr then next_line (buffer @ [c]) cs
      else case cs of
        [] \<Rightarrow> None
      | b # rest \<Rightarrow> if b = lf then Some (buffer, rest) else next_line (buffer @ [c, b]) rest)"

definition NextLine :: "bool \<Rightarrow> bytes \<Rightarrow> read_result" where
  "NextLine closed_pipe inp =
     (case next_line [] inp of
        Some (line, rest) \<Rightarrow> Got line rest
      | None \<Rightarrow> if closed_pipe then ReadErr else NeedMore)"

text \<open>A negative length cannot be allocated.\<close>

definition NextChunk :: "bool \<Rightarrow> int \<Rightarrow> bytes \<Rightarrow> read_result" where
  "NextChunk closed_pipe n inp =
     (if n < 0 then ReadPanic
      else if nat n \<le> length inp then Got (take (nat n) inp) (drop (nat n) inp)
      else if closed_pipe then ReadErr else NeedMore)"

section \<open>The parser\<close>

record parser =
  p_streamed :: bool
  p_table :: packet_parser
  p_stopped :: bool
  p_running :: bool
  p_input :: bytes
  p_skipStreamedErr :: bool
  p_ids :: nat
  p_output :: "sip_msg list"
  p_errs :: "message_error list"

definition NewParser :: "bool \<Rightarrow> parser" where
  "NewParser streamed =
     \<lparr>p_streamed = streamed, p_table = NewPacketParser, p_stopped = False, p_running = True,
      p_input = [], p_skipStreamedErr = False, p_ids = 0, p_output = [], p_errs = []\<rparr>"

datatype turn = Cont parser | Wait | Quit | TurnPanic

definition send_err :: "message_error \<Rightarrow> parser \<Rightarrow> parser" where
  "send_err e p = p\<lparr>p_errs := p_errs p @ [e]\<rparr>"

lemma next_line_shorter: "next_line buf inp = Some (l, rest) \<Longrightarrow> length rest < length inp"
  by (induction buf inp rule: next_line.induct) (auto split: if_splits list.splits)

text \<open>The lines up to the first empty one; a read error ends them too.\<close>

function header_lines :: "bool \<Rightarrow> bytes \<Rightarrow> (bytes list \<times> bytes) option" where
  "header_lines closed_pipe inp =
     (case next_line [] inp of
        Some (line, rest) \<Rightarrow>
          if line = [] then Some ([], rest)
          else map_option (\<lambda>(ls, rest'). (line # ls, rest')) (header_lines closed_pipe rest)
      | None \<Rightarrow> if closed_pipe then Some ([], []) else None)"
  by pat_completeness auto

termination
  by (relation "measure (\<lambda>(_, inp). length inp)") (auto dest: next_line_shorter)

declare header_lines.simps [simp del]

text \<open>The length of the body: what the prefix of the packet says, or the Content-Length
  header.\<close>

definition body_length :: "bool \<Rightarrow> int \<Rightarrow> sip_msg \<Rightarrow> (message_error, int) res" where
  "body_length streamed bodyLen msg =
     (if streamed then
        (case GetHeaders ''Content-Length'' (msg_hdrs msg) of
           [] \<Rightarrow> Err (MissingContentLength (msg_String msg))
         | [h] \<Rightarrow> (case h of ContentLength n \<Rightarrow> Ok (uint n) | _ \<Rightarrow> Crash)
         | _ \<Rightarrow> (case msg_Short msg of Ok _ \<Rightarrow> Err (MultipleContentLength (msg_String msg)) | _ \<Rightarrow> Crash))
      else Ok bodyLen)"

text \<open>The body of a message and its end.\<close>

definition read_body :: "int \<Rightarrow> sip_msg \<Rightarrow> parser \<Rightarrow> turn" where
  "read_body contentLength msg p =
     (case NextChunk (p_stopped p) contentLength (p_input p) of
        ReadPanic \<Rightarrow> TurnPanic
      | NeedMore \<Rightarrow> Wait
      | ReadErr \<Rightarrow> Cont (send_err (BrokenMessage (msg_String msg)) (p\<lparr>p_input := []\<rparr>))
      | Got b inp \<Rightarrow>
          let p1 = p\<lparr>p_input := inp\<rparr> in
          (case fillBody msg b (nat contentLength) of
             Ok msg1 \<Rightarrow> Cont (p1\<lparr>p_output := p_output p1 @ [msg1]\<rparr>)
           | Err e \<Rightarrow> Cont (send_err e p1)
           | Crash \<Rightarrow> TurnPanic))"

text \<open>Headers and body of a message whose start line has been read; \<open>p\<close> has the input after
  it.\<close>

definition read_rest :: "int \<Rightarrow> sip_msg \<Rightarrow> parser \<Rightarrow> turn" where
  "read_rest bodyLen msg p =
     (case header_lines (p_stopped p) (p_input p) of
        None \<Rightarrow> Wait
      | Some (lines, inp) \<Rightarrow>
          let p1 = p\<lparr>p_input := inp\<rparr> in
          (case fillHeaders (p_table p1) msg lines of
             Ok msg1 \<Rightarrow>
               (case body_length (p_streamed p1) bodyLen msg1 of
                  Err e \<Rightarrow> Cont (send_err e (p1\<lparr>p_skipStreamedErr := True\<rparr>))
                | Ok contentLength \<Rightarrow> read_body contentLength msg1 p1
                | Crash \<Rightarrow> TurnPanic)
           | _ \<Rightarrow> TurnPanic))"

text \<open>A start line that does not parse: a streamed parser reports one error and reads the next
  line as a start line; the other one skips the packet, \<open>msgLen\<close> bytes with the start line.\<close>

definition bad_start_line :: "int \<Rightarrow> bytes \<Rightarrow> parse_error \<Rightarrow> parser \<Rightarrow> turn" where
  "bad_start_line msgLen startLine e p =
     (if p_streamed p then
        Cont (if p_skipStreamedErr p then p
              else send_err (InvalidStartLine e) (p\<lparr>p_skipStreamedErr := True\<rparr>))
      else
        (case NextChunk (p_stopped p) (msgLen - int (length startLine) - 2) (p_input p) of
           ReadPanic \<Rightarrow> TurnPanic
         | NeedMore \<Rightarrow> Wait
         | ReadErr \<Rightarrow> Cont (send_err (InvalidStartLine e) (p\<lparr>p_input := []\<rparr>))
         | Got _ inp \<Rightarrow> Cont (send_err (InvalidStartLine e) (p\<lparr>p_input := inp\<rparr>))))"

definition read_message :: "(nat \<Rightarrow> bytes) \<Rightarrow> int \<Rightarrow> int \<Rightarrow> parser \<Rightarrow> turn" where
  "read_message newID bodyLen msgLen p =
     (case NextLine (p_stopped p) (p_input p) of
        Got startLine inp \<Rightarrow>
          let p1 = p\<lparr>p_input := inp\<rparr> in
          (case parseStartLine (newID (p_ids p1)) startLine of
             Crash \<Rightarrow> TurnPanic
           | Err e \<Rightarrow> bad_start_line msgLen startLine e p1
           | Ok msg \<Rightarrow>
               read_rest bodyLen msg (p1\<lparr>p_skipStreamedErr := False, p_ids := p_ids p1 + 1\<rparr>))
      | NeedMore \<Rightarrow> Wait
      | _ \<Rightarrow> Quit)"

text \<open>The line that \<open>Write\<close> puts before a packet.\<close>

definition read_lengths :: "bytes \<Rightarrow> (int \<times> int) option" where
  "read_lengths line =
     (case strings_Split line ''|'' of
        [a, b] \<Rightarrow>
          (case (strconv_Atoi a, strconv_Atoi b) of
             ((n, None), (m, None)) \<Rightarrow> Some (n, m)
           | _ \<Rightarrow> None)
      | _ \<Rightarrow> None)"

text \<open>One turn of the loop of \<open>parse\<close>.\<close>

definition parse_turn :: "(nat \<Rightarrow> bytes) \<Rightarrow> parser \<Rightarrow> turn" where
  "parse_turn newID p =
     (if p_streamed p then read_message newID 0 0 p
      else case NextLine (p_stopped p) (p_input p) of
        Got line inp \<Rightarrow>
          let p1 = p\<lparr>p_input := inp\<rparr> in
          (case read_lengths line of
             None \<Rightarrow> Cont p1
           | Some (bodyLen, msgLen) \<Rightarrow> read_message newID bodyLen msgLen p1)
      | NeedMore \<Rightarrow> Wait
      | _ \<Rightarrow> Quit)"

section \<open>Every turn consumes input\<close>

lemma NextLine_shorter: "NextLine c inp = Got l rest \<Longrightarrow> length rest < length inp"
  by (auto simp: NextLine_def dest: next_line_shorter split: option.splits if_splits)

lemma NextChunk_shorter: "NextChunk c n inp = Got l rest \<Longrightarrow> length rest \<le> length inp"
  by (auto simp: NextChunk_def split: if_splits)

lemma header_lines_shorter: "header_lines c inp = Some (ls, rest) \<Longrightarrow> length rest \<le> length inp"
proof (induction c inp arbitrary: ls rest rule: header_lines.induct)
  case (1 c inp)
  then show ?case
    by (fastforce simp: header_lines.simps [of c inp] dest: next_line_shorter
        split: option.splits if_splits)
qed

lemma send_err_input [simp]: "p_input (send_err e p) = p_input p"
  by (simp add: send_err_def)

lemma read_body_shorter:
  "read_body n msg p = Cont q \<Longrightarrow> length (p_input q) \<le> length (p_input p)"
  by (auto simp: read_body_def Let_def dest: NextChunk_shorter split: read_result.splits res.splits)

lemma read_rest_shorter:
  "read_rest n msg p = Cont q \<Longrightarrow> length (p_input q) \<le> length (p_input p)"
  by (fastforce simp: read_rest_def Let_def dest: header_lines_shorter read_body_shorter
      split: option.splits res.splits)

lemma bad_start_line_shorter:
  "bad_start_line m sl e p = Cont q \<Longrightarrow> length (p_input q) \<le> length (p_input p)"
  by (auto simp: bad_start_line_def dest: NextChunk_shorter split: read_result.splits if_splits)

lemma read_message_shorter:
  "read_message newID b m p = Cont q \<Longrightarrow> length (p_input q) < length (p_input p)"
  by (fastforce simp: read_message_def Let_def
      dest: NextLine_shorter read_rest_shorter bad_start_line_shorter
      split: read_result.splits res.splits)

lemma parse_turn_shorter:
  "parse_turn newID p = Cont q \<Longrightarrow> length (p_input q) < length (p_input p)"
  by (fastforce simp: parse_turn_def Let_def dest: NextLine_shorter read_message_shorter
      split: read_result.splits option.splits if_splits)

section \<open>The loop and the methods of the parser\<close>

text \<open>Turns until the goroutine waits for input or ends.\<close>

function parse :: "(nat \<Rightarrow> bytes) \<Rightarrow> parser \<Rightarrow> parser may_panic" where
  "parse newID p =
     (case parse_turn newID p of
        Wait \<Rightarrow> Ok p
      | Quit \<Rightarrow> Ok (p\<lparr>p_running := False\<rparr>)
      | Cont q \<Rightarrow> parse newID q
      | TurnPanic \<Rightarrow> Crash)"
  by pat_completeness auto
termination
  by (relation "measure (\<lambda>(_, p). length (p_input p))") (auto dest: parse_turn_shorter)

declare parse.simps [simp del]

datatype write_error = WriteStopped | WriteFormat

text \<open>\<open>Write\<close>: the bytes, with a line of lengths before them if this is a packet, go through
  the pipe to the loop.\<close>

definition p_Write :: "(nat \<Rightarrow> bytes) \<Rightarrow> bytes \<Rightarrow> parser \<Rightarrow> (write_error option \<times> parser) may_panic" where
  "p_Write newID data p =
     (if p_stopped p then Ok (Some WriteStopped, p)
      else case (if p_streamed p then Some data
                 else map_option (\<lambda>bl. fmt_d bl @ ''|'' @ fmt_d (length data) @ crlf @ data)
                        (getBodyLength data)) of
        None \<Rightarrow> Ok (Some WriteFormat, p)
      | Some bs \<Rightarrow>
          res_bind (parse newID (p\<lparr>p_input := p_input p @ bs\<rparr>)) (\<lambda>q. Ok (None, q)))"

text \<open>\<open>Stop\<close> closes the pipe; the loop finishes what it is reading and ends.\<close>

definition p_Stop :: "(nat \<Rightarrow> bytes) \<Rightarrow> parser \<Rightarrow> parser may_panic" where
  "p_Stop newID p = (if p_stopped p then Ok p else parse newID (p\<lparr>p_stopped := True\<rparr>))"

definition p_Reset :: "(nat \<Rightarrow> bytes) \<Rightarrow> parser \<Rightarrow> parser may_panic" where
  "p_Reset newID p =
     res_bind (p_Stop newID p) (\<lambda>q.
       Ok (q\<lparr>p_input := [], p_running := True, p_skipStreamedErr := False, p_stopped := False\<rparr>))"

end
