(* ===== verification/Parser_UriProps.thy ===== *)
theory Parser_UriProps
  imports Parser_Uri
begin

text \<open>
  What the parsers of parameters, hosts and URIs do: they never panic on the texts that the
  other parsers give them, and they read back what the methods \<open>String\<close> of the data types
  print.  The predicates \<open>printable\<close> say which values are printed without loss.
\<close>

section \<open>Characters of an escaped text\<close>

definition query_char :: "char \<Rightarrow> bool" where
  "query_char c \<longleftrightarrow> byte c < 128 \<and> c \<noteq> quote \<and> c \<noteq> CHR '';'' \<and> c \<noteq> CHR ''&'' \<and> c \<noteq> nul
     \<and> c \<noteq> CHR ''<'' \<and> c \<noteq> CHR ''>'' \<and> (is_space c \<longrightarrow> c = CHR '' '')"

lemma unescaped_query_char:
  assumes "\<not> hex_needed EncodeQueryComponent c"
  shows "query_char c"
proof (rule ccontr)
  assume "\<not> query_char c"
  then consider "128 \<le> byte c" | "c \<in> set [quote, CHR '';'', CHR ''&'', nul, CHR ''<'', CHR ''>'']"
    | "is_space c" "c \<noteq> CHR '' ''"
    by (auto simp: query_char_def)
  then have "hex_needed EncodeQueryComponent c"
  proof cases
    case 1
    have "list_all (\<lambda>d. byte d < 128) (''-_.~!*()$&+,/:;=?@[] '')" by code_simp
    with 1 have "c \<notin> set ''-_.~!*()$&+,/:;=?@[] ''" by (fastforce simp: list_all_iff)
    with 1 show ?thesis
      by (simp add: hex_needed_def shouldEscape_def is_alnum_def)
  next
    case 2
    have "list_all (hex_needed EncodeQueryComponent) [quote, CHR '';'', CHR ''&'', nul, CHR ''<'', CHR ''>'']"
      by code_simp
    with 2 show ?thesis by (simp only: list_all_iff)
  next
    case 3
    have "list_all (\<lambda>d. d = CHR '' '' \<or> hex_needed EncodeQueryComponent d) ws_chars"
      by code_simp
    with 3 show ?thesis by (auto simp only: is_space_def list_all_iff)
  qed
  with assms show False by simp
qed

lemma upperhex_set: "n < 16 \<Longrightarrow> upperhex ! n \<in> set upperhex"
  by (rule nth_mem) (simp add: upperhex_def)

lemma esc_set:
  "c \<in> set (esc mode s) \<Longrightarrow>
   (c \<in> set s \<and> \<not> hex_needed mode c) \<or> c = CHR ''%'' \<or> c \<in> set upperhex"
proof (induction s)
  case (Cons a s)
  have "byte a div 16 < 16" using nat_of_char_less_256 [of a] by linarith
  then have "upperhex ! (byte a div 16) \<in> set upperhex" "upperhex ! (byte a mod 16) \<in> set upperhex"
    by (simp_all add: upperhex_set)
  with Cons show ?case by (auto simp: esc_char_cases split: if_splits)
qed simp

lemma esc_query_char: "c \<in> set (esc EncodeQueryComponent s) \<Longrightarrow> query_char c"
proof -
  have "list_all query_char (CHR ''%'' # upperhex)" by code_simp
  then show "c \<in> set (esc EncodeQueryComponent s) \<Longrightarrow> query_char c"
    by (auto simp: list_all_iff dest!: esc_set unescaped_query_char)
qed

lemma esc_keeps:
  assumes "c \<notin> set (CHR ''%'' # upperhex)"
  shows "c \<in> set (esc mode s) \<longleftrightarrow> c \<in> set s \<and> \<not> hex_needed mode c"
proof (induction s)
  case (Cons a s)
  have "byte a div 16 < 16" using nat_of_char_less_256 [of a] by linarith
  then have "c \<noteq> upperhex ! (byte a div 16)" "c \<noteq> upperhex ! (byte a mod 16)"
    using assms upperhex_set by auto
  with Cons assms show ?case by (auto simp: esc_char_cases split: if_splits)
qed simp

lemma esc_Nil [simp]: "esc mode s = [] \<longleftrightarrow> s = []"
  by (cases s) (auto simp: esc_char_cases)

lemma escaped_eq [simp]: "escaped s mode = esc mode s"
  by (simp add: escaped_def Escape_eq)

section \<open>Parameters\<close>

lemma Contains_single [simp]: "strings_Contains s [c] \<longleftrightarrow> c \<in> set s"
  by (simp add: strings_Contains_def strings_Index_single_None)

lemma query_char_byte [simp]: "query_char c \<Longrightarrow> string_of_byte c = [c]"
  by (simp add: query_char_def string_of_byte_ascii)

lemma quote_CHR: "quote = CHR 0x22"
  by code_simp

lemma ws_chars_CHR: "ws_chars = [CHR 0x09, CHR 0x0A, CHR 0x0B, CHR 0x0C, CHR 0x0D, CHR '' '']"
  by code_simp

lemma query_char_ws: "query_char c \<Longrightarrow> c \<in> set abnfWs \<longleftrightarrow> c = CHR '' ''"
  by (auto simp: query_char_def abnfWs_def is_space_def ws_chars_def)

lemma pp_loop_plain:
  assumes "\<forall>c\<in>set t. query_char c \<and> c \<notin> {CHR ''='', CHR '' '', end, sep}" and "\<not> pp_inQuotes st"
  shows "pp_loop sep end qv sg (t @ rest) n st =
    pp_loop sep end qv sg rest (n + length t) (st\<lparr>pp_buffer := pp_buffer st @ t\<rparr>)"
  using assms
proof (induction t arbitrary: n st)
  case (Cons c t)
  have "c \<noteq> quote" using Cons.prems by (simp add: query_char_def)
  with Cons.prems have "pp_char sep end qv sg c (t @ rest) st = PP_next (st\<lparr>pp_buffer := pp_buffer st @ [c]\<rparr>)"
    by (simp add: pp_char_def query_char_ws)
  with Cons show ?case by simp
qed simp

lemma pp_loop_quoted:
  assumes "\<forall>c\<in>set t. query_char c \<and> c \<noteq> CHR ''=''" and "pp_inQuotes st"
  shows "pp_loop sep end qv sg (t @ rest) n st =
    pp_loop sep end qv sg rest (n + length t) (st\<lparr>pp_buffer := pp_buffer st @ t\<rparr>)"
  using assms
proof (induction t arbitrary: n st)
  case (Cons c t)
  have c: "c \<noteq> quote" "c \<noteq> CHR ''=''" "string_of_byte c = [c]"
    using Cons.prems by (simp_all add: query_char_def string_of_byte_ascii)
  have "pp_char sep end qv sg c (t @ rest) st = PP_next (st\<lparr>pp_buffer := pp_buffer st @ [c]\<rparr>)"
    using c Cons.prems(2) by (cases "c = end"; cases "c = sep") (simp_all add: pp_char_def)
  with Cons show ?case by simp
qed simp

text \<open>A value with a blank is printed in quotes.\<close>

definition quoted_value :: "maybe_string \<Rightarrow> bool" where
  "quoted_value v \<longleftrightarrow> (case v of Some t \<Rightarrow> strings_ContainsAny t abnfWs | None \<Rightarrow> False)"

text \<open>Which parameters survive printing and parsing, in a section that ends at the byte
  \<open>end\<close>: an equals sign is printed as it is and rejected by the parser, a blank in a key is
  dropped, a value that is already in quotes loses them.\<close>

definition printable_text :: "char \<Rightarrow> bytes \<Rightarrow> bool" where
  "printable_text end s \<longleftrightarrow> CHR ''='' \<notin> set s \<and> end \<notin> set s"

definition printable_param :: "char \<Rightarrow> bool \<Rightarrow> bytes \<times> maybe_string \<Rightarrow> bool" where
  "printable_param end singletons = (\<lambda>(k, v).
     printable_text end k \<and> CHR '' '' \<notin> set k \<and>
     (case v of
        None \<Rightarrow> singletons
      | Some t \<Rightarrow> k \<noteq> [] \<and> printable_text end t \<and> \<not> (t \<noteq> [] \<and> hd t = quote \<and> last t = quote)))"

definition section_end :: "char \<Rightarrow> bool" where
  "section_end e \<longleftrightarrow> e \<notin> set (CHR ''%'' # upperhex) \<and> e \<noteq> quote \<and> e \<noteq> CHR ''=''"

definition section_sep :: "char \<Rightarrow> bool" where
  "section_sep c \<longleftrightarrow> c = CHR '';'' \<or> c = CHR ''&''"

lemma esc_printable:
  assumes "printable_text end t" and "section_end end" and "section_sep sep" and "c \<in> set (esc EncodeQueryComponent t)"
  shows "query_char c" and "c \<noteq> CHR ''=''" and "c \<noteq> end" and "c \<noteq> sep" and "c = CHR '' '' \<Longrightarrow> CHR '' '' \<in> set t"
proof -
  have u: "CHR ''='' \<notin> set (CHR ''%'' # upperhex)" "CHR '' '' \<notin> set (CHR ''%'' # upperhex)"
    by code_simp+
  show q: "query_char c" by (rule esc_query_char [OF assms(4)])
  show "c \<noteq> CHR ''=''" using assms u(1) esc_keeps [of "CHR ''=''"] by (auto simp: printable_text_def)
  show "c \<noteq> end" using assms esc_keeps [of "end"] by (auto simp: printable_text_def section_end_def)
  show "c \<noteq> sep" using q assms(3) by (auto simp: query_char_def section_sep_def)
  show "c = CHR '' '' \<Longrightarrow> CHR '' '' \<in> set t" using assms(4) u(2) esc_keeps [of "CHR '' ''"] by auto
qed

lemma not_ContainsAny_space: "\<not> strings_ContainsAny t abnfWs \<Longrightarrow> CHR '' '' \<notin> set t"
  by (auto simp: strings_ContainsAny_def abnfWs_def)

lemma param_value_string_simps:
  "param_value_string None = []"
  "\<not> (t \<noteq> [] \<and> hd t = quote \<and> last t = quote) \<Longrightarrow> strings_ContainsAny t abnfWs \<Longrightarrow>
   param_value_string (Some t) = CHR ''='' # quote # esc EncodeQueryComponent t @ [quote]"
  "\<not> (t \<noteq> [] \<and> hd t = quote \<and> last t = quote) \<Longrightarrow> \<not> strings_ContainsAny t abnfWs \<Longrightarrow>
   param_value_string (Some t) = CHR ''='' # esc EncodeQueryComponent t"
proof -
  have "quote \<notin> set (esc EncodeQueryComponent t)"
    using esc_query_char [of quote t] by (auto simp: query_char_def)
  then have "strings_ReplaceAll (esc EncodeQueryComponent t) [quote] r = esc EncodeQueryComponent t" for r
    by (simp add: strings_ReplaceAll_def Split_single_free)
  then show
    "\<not> (t \<noteq> [] \<and> hd t = quote \<and> last t = quote) \<Longrightarrow> strings_ContainsAny t abnfWs \<Longrightarrow>
     param_value_string (Some t) = CHR ''='' # quote # esc EncodeQueryComponent t @ [quote]"
    "\<not> (t \<noteq> [] \<and> hd t = quote \<and> last t = quote) \<Longrightarrow> \<not> strings_ContainsAny t abnfWs \<Longrightarrow>
     param_value_string (Some t) = CHR ''='' # esc EncodeQueryComponent t"
    by (auto simp: param_value_string_def)
qed (simp add: param_value_string_def)

definition param_string :: "bytes \<times> maybe_string \<Rightarrow> bytes" where
  "param_string = (\<lambda>(k, v). esc EncodeQueryComponent k @ param_value_string v)"

text \<open>The state in front of a parameter, and the state after it.\<close>

definition at_key :: "pp_state \<Rightarrow> bool" where
  "at_key st \<longleftrightarrow> pp_buffer st = [] \<and> pp_parsingKey st \<and> \<not> pp_inQuotes st"

lemma pp_loop_param:
  assumes kv: "printable_param end sg (k, v)" and sep: "section_end end" "section_sep sep" and st: "at_key st"
    and rest: "rest = [] \<or> hd rest = sep \<or> \<not> quoted_value v"
  shows "\<exists>st'. pp_loop sep end True sg (param_string (k, v) @ rest) n st =
      pp_loop sep end True sg rest (n + length (param_string (k, v))) st' \<and>
      pp_store sg st' = Ok (params_Add k v (pp_params st)) \<and> \<not> pp_inQuotes st' \<and> pp_params st' = pp_params st"
proof -
  let ?k = "esc EncodeQueryComponent k"
  have ne: "sep \<noteq> CHR ''=''" "end \<noteq> CHR ''=''" "end \<noteq> quote" "sep \<noteq> quote" "CHR ''='' \<noteq> quote"
    using sep by (auto simp: section_sep_def section_end_def quote_CHR)
  have k: "\<forall>c\<in>set ?k. query_char c \<and> c \<notin> {CHR ''='', CHR '' '', end, sep}"
    using kv esc_printable [OF _ sep, of k] by (auto simp: printable_param_def)
  define st1 where "st1 = st\<lparr>pp_buffer := ?k\<rparr>"
  have key: "pp_loop sep end True sg (?k @ r) n st = pp_loop sep end True sg r (n + length ?k) st1" for r
    using pp_loop_plain [OF k, of st True sg r n] st by (simp add: at_key_def st1_def)
  show ?thesis
  proof (cases v)
    case None
    have "pp_store sg st1 = Ok (params_Add k None (pp_params st))"
      using kv st None by (simp add: pp_store_def st1_def at_key_def printable_param_def Unescape_esc)
    with key [of rest] None st show ?thesis
      by (intro exI [of _ st1]) (simp add: param_string_def param_value_string_simps at_key_def st1_def)
  next
    case (Some t)
    let ?t = "esc EncodeQueryComponent t"
    from kv Some have t: "printable_text end t" "\<not> (t \<noteq> [] \<and> hd t = quote \<and> last t = quote)" and k': "k \<noteq> []"
      by (auto simp: printable_param_def)
    define st2 where "st2 = st\<lparr>pp_key := ?k, pp_buffer := [], pp_parsingKey := False\<rparr>"
    have eq: "pp_loop sep end True sg (CHR ''='' # r) m st1 = pp_loop sep end True sg r (m + 1) st2" for r m
      using st k' ne by (simp add: pp_char_def st1_def st2_def at_key_def)
    define st3 where "st3 = st2\<lparr>pp_buffer := ?t\<rparr>"
    have st3: "pp_store sg st3 = Ok (params_Add k v (pp_params st))" "\<not> pp_inQuotes st3" "pp_params st3 = pp_params st"
      using st Some by (simp_all add: pp_store_def st2_def st3_def at_key_def Unescape_esc)
    show ?thesis
    proof (cases "strings_ContainsAny t abnfWs")
      case True
      define q where "q = st2\<lparr>pp_inQuotes := True\<rparr>"
      have q1: "pp_loop sep end True sg (quote # r) m st2 = pp_loop sep end True sg r (m + 1) q" for r m
        using st ne by (simp add: pp_char_def st2_def q_def at_key_def)
      have "\<forall>c\<in>set ?t. query_char c \<and> c \<noteq> CHR ''=''"
        using esc_printable [OF t(1) sep] by auto
      from pp_loop_quoted [OF this] have q2:
        "pp_loop sep end True sg (?t @ r) m q = pp_loop sep end True sg r (m + length ?t) (q\<lparr>pp_buffer := ?t\<rparr>)" for r m
        using st by (simp add: q_def st2_def at_key_def)
      have e: "q\<lparr>pp_buffer := ?t, pp_inQuotes := False\<rparr> = st3"
        using st by (cases st) (simp add: q_def st2_def st3_def at_key_def)
      have "rest = [] \<or> hd rest = sep" using rest Some True by (simp add: quoted_value_def)
      then have q3: "pp_loop sep end True sg (quote # rest) m (q\<lparr>pp_buffer := ?t\<rparr>) = pp_loop sep end True sg rest (m + 1) st3" for m
        using st ne e by (auto simp: pp_char_def st2_def q_def at_key_def)
      show ?thesis
        using st3 Some True t(2)
        by (intro exI [of _ st3])
           (simp add: param_string_def param_value_string_simps key eq q1 q2 q3 add_ac del: pp_loop.simps)
    next
      case False
      have "\<forall>c\<in>set ?t. query_char c \<and> c \<notin> {CHR ''='', CHR '' '', end, sep}"
        using esc_printable [OF t(1) sep] not_ContainsAny_space [OF False] by auto
      from pp_loop_plain [OF this] have q2:
        "pp_loop sep end True sg (?t @ r) m st2 = pp_loop sep end True sg r (m + length ?t) st3" for r m
        using st by (simp add: st2_def st3_def at_key_def)
      show ?thesis
        using st3 Some False t(2)
        by (intro exI [of _ st3])
           (simp add: param_string_def param_value_string_simps key eq q2 add_ac del: pp_loop.simps)
    qed
  qed
qed

text \<open>A whole section of parameters.\<close>

definition add_params :: "(bytes \<times> maybe_string) list \<Rightarrow> headerParams \<Rightarrow> headerParams" where
  "add_params al ps = fold (\<lambda>(k, v). params_Add k v) al ps"

lemma add_params_simps [simp]:
  "add_params [] ps = ps" "add_params ((k, v) # al) ps = add_params al (params_Add k v ps)"
  by (simp_all add: add_params_def)

lemma pp_loop_params:
  assumes "al \<noteq> []" and "list_all (printable_param end sg) al"
    and sep: "section_end end" "section_sep sep" "end \<noteq> sep"
    and "at_key st" and "rest = [] \<or> hd rest = end \<and> \<not> quoted_value (snd (last al))"
  shows "\<exists>st'. pp_loop sep end True sg (strings_Join (map param_string al) [sep] @ rest) n st =
      Ok (st', n + length (strings_Join (map param_string al) [sep]), None) \<and>
      \<not> pp_inQuotes st' \<and> pp_store sg st' = Ok (add_params al (pp_params st))"
  using assms(1,2,6,7)
proof (induction al arbitrary: n st)
  case (Cons kv al)
  obtain k v where kv: "kv = (k, v)" by force
  show ?case
  proof (cases "al = []")
    case True
    have "rest = [] \<or> hd rest = sep \<or> \<not> quoted_value v" using Cons.prems True kv by auto
    from pp_loop_param [OF _ sep(1,2) Cons.prems(3) this, of sg k n] Cons.prems kv
    obtain st' where st': "pp_loop sep end True sg (param_string (k, v) @ rest) n st =
        pp_loop sep end True sg rest (n + length (param_string (k, v))) st'"
      "pp_store sg st' = Ok (params_Add k v (pp_params st))" "\<not> pp_inQuotes st'" by auto
    have "pp_loop sep end True sg rest m st' = Ok (st', m, None)" for m
      using Cons.prems(4) st'(3) by (cases rest) (auto simp: pp_char_def)
    with st' True kv show ?thesis by (intro exI [of _ st']) simp
  next
    case False
    let ?t = "strings_Join (map param_string al) [sep]"
    have J: "strings_Join (param_string (k, v) # map param_string al) [sep] = param_string (k, v) @ sep # ?t"
      using False by (cases al) simp_all
    from pp_loop_param [OF _ sep(1,2) Cons.prems(3), of sg k v "sep # ?t @ rest" n] Cons.prems kv
    obtain st' where st': "pp_loop sep end True sg (param_string (k, v) @ sep # ?t @ rest) n st =
        pp_loop sep end True sg (sep # ?t @ rest) (n + length (param_string (k, v))) st'"
      "pp_store sg st' = Ok (params_Add k v (pp_params st))" "\<not> pp_inQuotes st'" by auto
    define st2 where "st2 = st'\<lparr>pp_params := params_Add k v (pp_params st), pp_buffer := [], pp_parsingKey := True\<rparr>"
    have step: "pp_loop sep end True sg (sep # ?t @ rest) m st' = pp_loop sep end True sg (?t @ rest) (m + 1) st2" for m
      using st' sep(3) by (simp add: pp_char_def st2_def)
    have k2: "at_key st2" using st' by (simp add: at_key_def st2_def)
    from Cons.IH [OF False _ k2, of "n + length (param_string (k, v)) + 1"] Cons.prems(2,4) False
    obtain st3 where "pp_loop sep end True sg (?t @ rest) (n + length (param_string (k, v)) + 1) st2 =
        Ok (st3, n + length (param_string (k, v)) + 1 + length ?t, None)"
      "\<not> pp_inQuotes st3" "pp_store sg st3 = Ok (add_params al (pp_params st2))"
      by auto
    with st'(1) step kv show ?thesis
      by (intro exI [of _ st3]) (simp add: J st2_def del: pp_loop.simps)
  qed
qed simp

lemma params_Add_new:
  "k \<notin> set (paramOrder ps) \<Longrightarrow> map fst (params ps) = paramOrder ps \<Longrightarrow>
   params_Add k v ps = ps\<lparr>params := params ps @ [(k, v)], paramOrder := paramOrder ps @ [k]\<rparr>"
proof -
  have *: "AList.update k v al = al @ [(k, v)]" if "k \<notin> set (map fst al)" for al
    using that by (induction al) auto
  assume "k \<notin> set (paramOrder ps)" and "map fst (params ps) = paramOrder ps"
  then have "k \<notin> set (map fst (params ps))" by simp
  moreover from this have "map_of (params ps) k = None" by (rule map_of_None_key [THEN iffD2])
  ultimately show ?thesis by (simp add: params_Add_def *)
qed

lemma add_params_append:
  "distinct (map fst al) \<Longrightarrow> set (map fst al) \<inter> set (paramOrder ps) = {} \<Longrightarrow>
   map fst (params ps) = paramOrder ps \<Longrightarrow>
   add_params al ps = ps\<lparr>params := params ps @ al, paramOrder := paramOrder ps @ map fst al\<rparr>"
proof (induction al arbitrary: ps)
  case (Cons kv al)
  obtain k v where kv: "kv = (k, v)" by force
  from Cons.prems kv have "k \<notin> set (paramOrder ps)" by auto
  then have "params_Add k v ps = ps\<lparr>params := params ps @ [(k, v)], paramOrder := paramOrder ps @ [k]\<rparr>"
    using Cons.prems by (simp add: params_Add_new)
  with Cons kv show ?case by auto
qed simp

lemma add_params_rebuild: "params_wf ps \<Longrightarrow> add_params (params ps) NewParams = ps"
  by (cases ps) (simp add: add_params_append params_wf_def NewParams_def)

lemma params_to_string_loop_Join:
  "\<forall>(k, v)\<in>set al. params_Get ps k = Some v \<Longrightarrow>
   params_to_string_loop ps sep first (map fst al) =
   (if al = [] then [] else (if first then [] else [sep]) @ strings_Join (map param_string al) [sep])"
proof (induction al arbitrary: first)
  case (Cons kv al)
  then show ?case
    by (cases kv; cases al) (auto simp: param_string_def)
qed simp

lemma params_ToString_Join:
  assumes "params_wf ps"
  shows "params_ToString ps sep = strings_Join (map param_string (params ps)) [sep]"
proof -
  have "\<forall>(k, v)\<in>set (params ps). params_Get ps k = Some v"
    using assms by (auto simp: params_wf_def params_Get_def)
  from params_to_string_loop_Join [OF this, of sep True] assms show ?thesis
    by (simp add: params_ToString_def params_Keys_def params_wf_def)
qed

text \<open>A set of parameters that a section with the given delimiters can hold.\<close>

definition printable_params :: "char \<Rightarrow> bool \<Rightarrow> headerParams \<Rightarrow> bool" where
  "printable_params end singletons ps \<longleftrightarrow> params_wf ps \<and> list_all (printable_param end singletons) (params ps)"

definition ends_quoted :: "headerParams \<Rightarrow> bool" where
  "ends_quoted ps \<longleftrightarrow> params ps \<noteq> [] \<and> quoted_value (snd (last (params ps)))"

lemma ParseParams_print:
  assumes "printable_params end sg ps" and "params ps \<noteq> []"
    and sep: "section_end end" "section_sep sep" "end \<noteq> sep" and "start \<noteq> nul"
    and "rest = [] \<or> hd rest = end \<and> \<not> ends_quoted ps"
  shows "ParseParams (start # params_ToString ps sep @ rest) start sep end True sg =
    Ok (ps, 1 + length (params_ToString ps sep), None)"
proof -
  have wf: "params_wf ps" and all: "list_all (printable_param end sg) (params ps)"
    using assms(1) by (auto simp: printable_params_def)
  have "rest = [] \<or> hd rest = end \<and> \<not> quoted_value (snd (last (params ps)))"
    using assms(2,7) by (auto simp: ends_quoted_def)
  from pp_loop_params [OF assms(2) all sep _ this, of pp_init 1]
  obtain st' where "pp_loop sep end True sg (strings_Join (map param_string (params ps)) [sep] @ rest) 1 pp_init =
      Ok (st', 1 + length (strings_Join (map param_string (params ps)) [sep]), None)"
    "\<not> pp_inQuotes st'" "pp_store sg st' = Ok (add_params (params ps) (pp_params pp_init))"
    by (auto simp: at_key_def pp_init_def)
  then show ?thesis
    using assms(6) by (simp add: ParseParams_def params_ToString_Join [OF wf] pp_finish_def pp_init_def
        add_params_rebuild [OF wf])
qed

lemma params_ToString_chars:
  assumes "printable_params end sg ps" and "c \<in> set (params_ToString ps sep)"
  shows "query_char c \<or> c = quote \<or> c = sep"
proof -
  have v: "query_char c \<or> c = quote" if "printable_param end sg (k, v)" "c \<in> set (param_string (k, v))" for k v
  proof (cases v)
    case None
    with that show ?thesis by (auto simp: param_string_def param_value_string_simps dest: esc_query_char)
  next
    case (Some t)
    have "query_char CHR ''=''" by code_simp
    with Some that show ?thesis
      by (cases "strings_ContainsAny t abnfWs")
         (auto simp: printable_param_def param_string_def param_value_string_simps dest: esc_query_char)
  qed
  have "c \<in> set (strings_Join (map param_string al) [sep]) \<Longrightarrow> list_all (printable_param end sg) al \<Longrightarrow>
      query_char c \<or> c = quote \<or> c = sep" for al
  proof (induction al)
    case (Cons kv al)
    then show ?case by (cases kv; cases al) (auto dest: v)
  qed simp
  with assms show ?thesis by (auto simp: printable_params_def params_ToString_Join)
qed

text \<open>A byte that is not escaped and is no delimiter appears only where a key or value has it.\<close>

definition params_without :: "char \<Rightarrow> headerParams \<Rightarrow> bool" where
  "params_without c ps \<longleftrightarrow>
     list_all (\<lambda>(k, v). c \<notin> set k \<and> (case v of None \<Rightarrow> True | Some t \<Rightarrow> c \<notin> set t)) (params ps)"

lemma params_ToString_without:
  assumes "params_wf ps" and "params_without c ps"
    and c: "c \<notin> set (CHR ''%'' # upperhex)" "c \<noteq> sep" "c \<noteq> CHR ''=''" "c \<noteq> quote" "c \<noteq> CHR 0x5C"
  shows "c \<notin> set (params_ToString ps sep)"
proof -
  have e: "c \<notin> set (esc EncodeQueryComponent t)" if "c \<notin> set t" for t
    using that esc_keeps [OF c(1)] by simp
  have "c \<notin> set (param_string (k, v))"
    if "c \<notin> set k" "case v of None \<Rightarrow> True | Some t \<Rightarrow> c \<notin> set t" for k v
  proof (cases v)
    case None
    with that e show ?thesis by (simp add: param_string_def param_value_string_simps)
  next
    case (Some t)
    have "quote \<notin> set (esc EncodeQueryComponent t)"
      using esc_query_char [of quote t] by (auto simp: query_char_def)
    then have "strings_ReplaceAll (esc EncodeQueryComponent t) [quote] r = esc EncodeQueryComponent t" for r
      by (simp add: strings_ReplaceAll_def Split_single_free)
    with Some that e c show ?thesis by (auto simp: param_string_def param_value_string_def)
  qed
  then have "c \<notin> set (strings_Join (map param_string al) [sep])"
    if "list_all (\<lambda>(k, v). c \<notin> set k \<and> (case v of None \<Rightarrow> True | Some t \<Rightarrow> c \<notin> set t)) al" for al
    using that
  proof (induction al)
    case (Cons kv al)
    then show ?case using c by (cases kv; cases al) auto
  qed simp
  with assms show ?thesis by (simp add: params_ToString_Join params_without_def)
qed

section \<open>Hosts and ports\<close>

definition host_char :: "char \<Rightarrow> bool" where
  "host_char c \<longleftrightarrow> host_byte c \<and> c \<notin> {CHR '';'', CHR ''<'', CHR ''>'', quote}"

definition printable_host :: "bytes \<Rightarrow> port option \<Rightarrow> bool" where
  "printable_host host p \<longleftrightarrow> list_all host_char host \<and> (p = None \<longrightarrow> CHR '':'' \<notin> set host)
     \<and> (host \<noteq> [] \<and> hd host = CHR ''['' \<longrightarrow> list_all (\<lambda>c. byte c < 128 \<and> c \<noteq> CHR ''%'') host)"

lemma Unescape_raw:
  assumes "list_all (\<lambda>c. host_byte c \<and> c \<noteq> CHR ''%'') s"
  shows "Unescape s EncodeHost = Ok s"
proof -
  have "unescape_check EncodeHost s n False = Ok (n, False)" for n
    using assms by (induction s) (auto simp: host_byte_def)
  then show ?thesis by (simp add: Unescape_def)
qed

lemma parse_host_raw:
  assumes "list_all (\<lambda>c. host_byte c \<and> c \<noteq> CHR ''%'') s"
  shows "parse_host s = Ok s"
proof -
  have "CHR ''%'' \<notin> set s" using assms by (auto simp: list_all_iff)
  then have "strings_Index s ''%25'' = None"
    by (induction s) (auto simp: strings_HasPrefix_def split: if_splits)
  with assms show ?thesis by (simp add: parse_host_def Unescape_raw)
qed

lemma esc_host_raw:
  assumes "list_all host_char s" and "list_all (\<lambda>c. byte c < 128 \<and> c \<noteq> CHR ''%'') s"
  shows "esc EncodeHost s = s"
proof (rule esc_id)
  have "\<not> hex_needed EncodeHost c" if "c \<in> set s" for c
  proof -
    from assms that have "host_byte c" "byte c < 128" "c \<noteq> CHR ''%''"
      by (simp_all add: list_all_iff host_char_def)
    then show ?thesis by (simp add: host_byte_def hex_needed_def)
  qed
  then show "filter (hex_needed EncodeHost) s = []" by (simp add: filter_empty_conv)
qed

lemma hd_esc: "s \<noteq> [] \<Longrightarrow> hd (esc mode s) = CHR ''['' \<Longrightarrow> hd s = CHR ''[''"
  by (cases s) (auto simp: esc_char_cases split: if_splits)

lemma parse_host_esc:
  assumes "printable_host host p"
  shows "parse_host (esc EncodeHost host) = Ok host"
proof (cases "strings_HasPrefix (esc EncodeHost host) ''[''")
  case True
  then have ne: "host \<noteq> []" and hd: "hd host = CHR ''[''"
    using hd_esc [of host EncodeHost] by (auto simp: strings_HasPrefix_single)
  then have "list_all (\<lambda>c. byte c < 128 \<and> c \<noteq> CHR ''%'') host" and "list_all host_char host"
    using assms by (auto simp: printable_host_def)
  then show ?thesis
    by (simp add: esc_host_raw parse_host_raw list_all_iff host_char_def)
next
  case False
  have "list_all host_byte host" using assms by (auto simp: printable_host_def host_char_def list_all_iff)
  then have "Unescape (esc EncodeHost host) EncodeHost = Ok host" by (rule Unescape_esc_host [THEN iffD2])
  with False show ?thesis by (simp add: parse_host_def)
qed

definition port_text :: "port option \<Rightarrow> bytes" where
  "port_text p = (case p of Some n \<Rightarrow> '':'' @ fmt_port n | None \<Rightarrow> [])"

lemma digit_neq: "is_digit c \<Longrightarrow> c \<noteq> CHR '':'' \<and> c \<noteq> CHR '';'' \<and> c \<noteq> CHR ''?'' \<and> c \<noteq> CHR ''@''"
  by (auto simp: is_digit_def)

lemma fmt_port_chars: "c \<in> set (fmt_port p) \<Longrightarrow> is_digit c"
  by (auto simp: fmt_port_def dest: fmt_d_digits)

lemma ParseUint_fmt_port: "strconv_ParseUint (fmt_port p) 16 = (unat p, None)"
proof -
  have "unat p < 2 ^ 16" using unsigned_less [of p] by simp
  then show ?thesis unfolding fmt_port_def by (rule ParseUint_fmt_d)
qed

lemma fmt_port_ne [simp]: "fmt_port p \<noteq> []"
  by (simp add: fmt_port_def)

lemma ParseHostPort_print:
  assumes "parse_host h = Ok host" and "p = None \<Longrightarrow> CHR '':'' \<notin> set h"
  shows "ParseHostPort (h @ port_text p) = Ok (host, p)"
proof (cases p)
  case None
  with assms show ?thesis by (simp add: port_text_def ParseHostPort_def LastIndex_single_None [THEN iffD2])
next
  case (Some n)
  have "CHR '':'' \<notin> set (fmt_port n)" using digit_neq fmt_port_chars by blast
  then have "strings_LastIndex (h @ CHR '':'' # fmt_port n) '':'' = Some (length h)"
    by (rule LastIndex_single_append)
  with assms Some show ?thesis
    by (simp add: port_text_def ParseHostPort_def ParseUint_fmt_port)
qed

section \<open>URIs\<close>

definition printable_user :: "maybe_string \<Rightarrow> maybe_string \<Rightarrow> bool" where
  "printable_user user pass \<longleftrightarrow> user \<noteq> Some [] \<and> pass \<noteq> Some [] \<and> (user = None \<longrightarrow> pass = None)"

definition userinfo_text :: "maybe_string \<Rightarrow> maybe_string \<Rightarrow> bytes" where
  "userinfo_text user pass =
     (case user of
        None \<Rightarrow> []
      | Some u \<Rightarrow> esc EncodeUserPassword u
          @ (case pass of None \<Rightarrow> [] | Some p \<Rightarrow> '':'' @ esc EncodeUserPassword p) @ ''@'')"

lemma esc_user_chars:
  assumes "c \<in> set (esc EncodeUserPassword s)"
  shows "c \<noteq> CHR ''@''" and "c \<noteq> CHR '':''"
proof -
  have "CHR ''@'' \<notin> set (CHR ''%'' # upperhex)" "CHR '':'' \<notin> set (CHR ''%'' # upperhex)"
    "hex_needed EncodeUserPassword CHR ''@''" "hex_needed EncodeUserPassword CHR '':''"
    by code_simp+
  then show "c \<noteq> CHR ''@''" and "c \<noteq> CHR '':''"
    using assms esc_keeps [of "CHR ''@''"] esc_keeps [of "CHR '':''"] by auto
qed

lemma parse_userinfo_print:
  assumes "user = None \<Longrightarrow> pass = None \<and> CHR ''@'' \<notin> set rest"
  shows "parse_userinfo (userinfo_text user pass @ rest) = Ok (user, pass, rest)"
proof (cases user)
  case None
  with assms show ?thesis
    by (simp add: userinfo_text_def parse_userinfo_def strings_Index_single_None [THEN iffD2])
next
  case (Some u)
  let ?u = "esc EncodeUserPassword u"
  have u: "CHR ''@'' \<notin> set ?u" "CHR '':'' \<notin> set ?u" using esc_user_chars by auto
  show ?thesis
  proof (cases pass)
    case None
    have at: "strings_Index (?u @ CHR ''@'' # rest) ''@'' = Some (length ?u)"
      using u by (simp add: strings_Index_single_append)
    have "strings_Index (?u @ CHR ''@'' # rest) '':'' =
        map_option (\<lambda>i. length ?u + i) (strings_Index (CHR ''@'' # rest) '':'')"
      using u by (simp add: Index_prefix)
    also have "strings_Index (CHR ''@'' # rest) '':'' = map_option Suc (strings_Index rest '':'')"
      by (simp add: strings_HasPrefix_single)
    finally show ?thesis
      using at Some None
      by (cases "strings_Index rest '':''") (simp_all add: userinfo_text_def parse_userinfo_def Unescape_esc)
  next
    case (Some q)
    let ?q = "esc EncodeUserPassword q"
    have "CHR ''@'' \<notin> set (?u @ CHR '':'' # ?q)" using u esc_user_chars by auto
    from strings_Index_single_append [OF this, of rest]
    have "strings_Index (?u @ CHR '':'' # ?q @ CHR ''@'' # rest) ''@'' = Some (length ?u + Suc (length ?q))"
      by simp
    moreover have "strings_Index (?u @ CHR '':'' # ?q @ CHR ''@'' # rest) '':'' = Some (length ?u)"
      using u by (simp add: strings_Index_single_append)
    ultimately show ?thesis
      using Some \<open>user = Some u\<close>
      by (simp add: userinfo_text_def parse_userinfo_def Unescape_esc slice_def)
  qed
qed

text \<open>The sections after the host.\<close>

lemma section_facts:
  "section_end CHR ''?''" "section_end nul" "section_end CHR '',''" "section_sep CHR '';''" "section_sep CHR ''&''"
  "CHR ''?'' \<noteq> nul" "CHR '';'' \<noteq> nul" "nul \<noteq> CHR ''&''" "nul \<noteq> CHR '';''"
  by code_simp+

lemma params_empty: "params_wf ps \<Longrightarrow> params ps = [] \<Longrightarrow> ps = NewParams"
  by (cases ps) (simp add: params_wf_def NewParams_def)

lemma params_Length_pos [simp]: "0 < params_Length ps \<longleftrightarrow> params ps \<noteq> []"
  by (simp add: params_Length_def)

lemma ParseParams_Nil [simp]: "ParseParams [] start sep end qv sg = Ok (NewParams, 0, None)"
  by (simp add: ParseParams_def)

lemma parse_headers_section:
  assumes "printable_params nul False hs"
  shows "ParseParams (params_section ''?'' (Some hs) CHR ''&'') CHR ''?'' CHR ''&'' nul True False =
    Ok (hs, length (params_section ''?'' (Some hs) CHR ''&''), None)"
proof (cases "params hs = []")
  case True
  with assms params_empty [of hs] show ?thesis by (simp add: params_section_def printable_params_def)
next
  case False
  with ParseParams_print [OF assms False, of "CHR ''&''" "CHR ''?''" "[]"] show ?thesis
    by (simp add: params_section_def section_facts)
qed

lemma parse_uri_sections_print:
  assumes ps: "printable_params CHR ''?'' True ps" and hs: "printable_params nul False hs"
    and q: "params hs \<noteq> [] \<Longrightarrow> \<not> ends_quoted ps"
    and ne: "params_section '';'' (Some ps) CHR '';'' @ params_section ''?'' (Some hs) CHR ''&'' \<noteq> []"
  shows "parse_uri_sections (params_section '';'' (Some ps) CHR '';'' @ params_section ''?'' (Some hs) CHR ''&'') =
    Ok (ps, hs)"
proof (cases "params ps = []")
  case True
  then have "ps = NewParams" using ps by (simp add: printable_params_def params_empty)
  moreover have "params hs \<noteq> []" using ne True by (auto simp: params_section_def split: if_splits)
  ultimately show ?thesis
    using parse_headers_section [OF hs] True by (simp add: params_section_def parse_uri_sections_def params_or_err_def NewParams_def params_Length_def)
next
  case False
  let ?h = "params_section ''?'' (Some hs) CHR ''&''"
  have "?h = [] \<or> hd ?h = CHR ''?'' \<and> \<not> ends_quoted ps" using q by (auto simp: params_section_def)
  from ParseParams_print [OF ps False section_facts(1,4) _ _ this, of "CHR '';''"]
  have "ParseParams (CHR '';'' # params_ToString ps CHR '';'' @ ?h) CHR '';'' CHR '';'' CHR ''?'' True True =
      Ok (ps, 1 + length (params_ToString ps CHR '';''), None)"
    by (simp add: section_facts)
  with False show ?thesis
    using parse_headers_section [OF hs]
    by (simp add: params_section_def parse_uri_sections_def params_or_err_def)
qed

definition printable_uri :: "sip_uri \<Rightarrow> bool" where
  "printable_uri u \<longleftrightarrow> printable_user (FUser u) (FPassword u) \<and> printable_host (FHost u) (FPort u) \<and>
     (case (FUriParams u, FHeaders u) of
        (Some ps, Some hs) \<Rightarrow>
          printable_params CHR ''?'' True ps \<and> printable_params nul False hs
          \<and> (params hs \<noteq> [] \<longrightarrow> \<not> ends_quoted ps)
          \<and> (FUser u = None \<longrightarrow> params_without CHR ''@'' ps \<and> params_without CHR ''@'' hs)
      | _ \<Rightarrow> False)"

lemma SipUri_String_parts:
  assumes "printable_uri u"
  shows "SipUri_String u =
    (if FIsEncrypted u then ''sips:'' else ''sip:'') @ userinfo_text (FUser u) (FPassword u)
    @ (esc EncodeHost (FHost u) @ port_text (FPort u))
    @ params_section '';'' (FUriParams u) CHR '';'' @ params_section ''?'' (FHeaders u) CHR ''&''"
  using assms
  by (cases "FUser u"; cases "FPassword u")
     (auto simp: SipUri_String_def userinfo_text_def port_text_def printable_uri_def printable_user_def
       split: option.splits)

lemma hex_needed_not_ascii: "128 \<le> byte c \<Longrightarrow> hex_needed mode c"
proof -
  assume b: "128 \<le> byte c"
  have "list_all (\<lambda>d. byte d < 128) (''-_.~!*()$&+,/:;=?@[]<> '')" by code_simp
  with b have "c \<notin> set ''-_.~!*()$&+,/:;=?@[]<> ''" by (fastforce simp: list_all_iff)
  with b show ?thesis by (simp add: hex_needed_def shouldEscape_def is_alnum_def)
qed

lemma hex_needed_space: "is_space c \<Longrightarrow> mode \<noteq> EncodeQueryComponent \<Longrightarrow> hex_needed mode c"
proof -
  assume "is_space c" and "mode \<noteq> EncodeQueryComponent"
  moreover have "list_all (\<lambda>m. list_all (hex_needed m) ws_chars) [EncodeUserPassword, EncodeHost, EncodeZone]"
    by code_simp
  ultimately show ?thesis by (cases mode) (simp_all add: is_space_def list_all_iff)
qed

lemma esc_chars:
  assumes "c \<in> set (esc mode s)" and "mode \<noteq> EncodeQueryComponent"
  shows "byte c < 128" and "\<not> is_space c"
proof -
  have *: "list_all (\<lambda>d. byte d < 128 \<and> \<not> is_space d) (CHR ''%'' # upperhex)" by code_simp
  from esc_set [OF assms(1)] have "c \<in> set (CHR ''%'' # upperhex) \<or> \<not> hex_needed mode c" by auto
  then show "byte c < 128"
  proof
    assume "c \<in> set (CHR ''%'' # upperhex)"
    with * show ?thesis by (simp only: list_all_iff)
  next
    assume "\<not> hex_needed mode c"
    with hex_needed_not_ascii show ?thesis by (meson not_less)
  qed
  from \<open>c \<in> set (CHR ''%'' # upperhex) \<or> \<not> hex_needed mode c\<close> show "\<not> is_space c"
  proof
    assume "c \<in> set (CHR ''%'' # upperhex)"
    with * show ?thesis by (simp only: list_all_iff simp_thms)
  next
    assume "\<not> hex_needed mode c"
    with hex_needed_space [OF _ assms(2)] show ?thesis by blast
  qed
qed

definition uri_char :: "char \<Rightarrow> bool" where
  "uri_char c \<longleftrightarrow> byte c < 128 \<and> c \<noteq> CHR ''<'' \<and> c \<noteq> CHR ''>'' \<and> (is_space c \<longrightarrow> c = CHR '' '')"

lemma not_esc:
  assumes "hex_needed mode c" and "c \<notin> set (CHR ''%'' # upperhex)"
  shows "c \<notin> set (esc mode s)"
  using assms esc_keeps by blast

lemma host_chars_print:
  assumes "printable_host host p" and "c \<in> set (esc EncodeHost host @ port_text p)"
  shows "c \<notin> {CHR '';'', CHR ''?'', CHR ''@'', CHR ''<'', CHR ''>'', quote} \<and> \<not> is_space c \<and> byte c < 128"
proof (cases "c \<in> set (esc EncodeHost host)")
  case True
  have h: "list_all (\<lambda>d. hex_needed EncodeHost d \<and> d \<notin> set (CHR ''%'' # upperhex)) [CHR ''?'', CHR ''@'']"
    and g: "list_all (\<lambda>d. d \<notin> set (CHR ''%'' # upperhex)) [CHR '';'', CHR ''<'', CHR ''>'', quote]"
    by code_simp+
  have "c \<noteq> CHR ''?''" "c \<noteq> CHR ''@''" using True h not_esc by auto
  moreover have "c \<noteq> d" if "d \<in> set [CHR '';'', CHR ''<'', CHR ''>'', quote]" for d
  proof
    assume "c = d"
    with True g that have "c \<in> set host" using esc_keeps [of d EncodeHost host] by (auto simp only: list_all_iff)
    with assms(1) that \<open>c = d\<close> show False by (auto simp: printable_host_def list_all_iff host_char_def)
  qed
  ultimately show ?thesis using esc_chars [OF True] by simp
next
  case False
  then have "is_digit c \<or> c = CHR '':''"
    using assms(2) by (auto simp: port_text_def split: option.splits dest!: fmt_port_chars)
  then show ?thesis
    by (auto simp: is_digit_def quote_CHR is_space_def ws_chars_CHR)
qed

lemma Index_none_append: "c \<notin> set s \<Longrightarrow> strings_Index s [c] = None"
  by (simp add: strings_Index_single_None)

lemma end_of_uri_print:
  assumes h: "CHR '';'' \<notin> set h" "CHR ''?'' \<notin> set h"
    and hs: "printable_params nul False hs"
  shows "end_of_uri (h @ params_section '';'' (Some ps) CHR '';'' @ params_section ''?'' (Some hs) CHR ''&'') = length h"
proof (cases "params ps = []")
  case False
  with h show ?thesis
    by (simp add: end_of_uri_def params_section_def strings_Index_single_append)
next
  case True
  let ?t = "params_section ''?'' (Some hs) CHR ''&''"
  have "\<not> (query_char CHR '';'' \<or> CHR '';'' = quote \<or> CHR '';'' = CHR ''&'')"
    by (simp add: query_char_def quote_CHR)
  with params_ToString_chars [OF hs, of "CHR '';''" "CHR ''&''"]
  have "CHR '';'' \<notin> set (params_ToString hs CHR ''&'')" by blast
  then have "CHR '';'' \<notin> set ?t" by (simp add: params_section_def)
  with h(1) have "CHR '';'' \<notin> set (h @ ?t)" by simp
  then have n: "strings_Index (h @ ?t) '';'' = None" by (rule Index_none_append)
  show ?thesis
  proof (cases "params hs = []")
    case True
    with h n \<open>params ps = []\<close> show ?thesis
      by (simp add: end_of_uri_def params_section_def Index_none_append)
  next
    case False
    with h n \<open>params ps = []\<close> show ?thesis
      by (simp add: end_of_uri_def params_section_def strings_Index_single_append)
  qed
qed

lemma take_append_length: "take (length xs) (xs @ ys) = xs"
  and drop_append_length: "drop (length xs) (xs @ ys) = ys"
  by simp_all

lemma parse_after_scheme_print:
  assumes "printable_uri u" and "FUriParams u = Some ps" and "FHeaders u = Some hs"
  shows "parse_after_scheme e (userinfo_text (FUser u) (FPassword u)
      @ (esc EncodeHost (FHost u) @ port_text (FPort u))
      @ params_section '';'' (Some ps) CHR '';'' @ params_section ''?'' (Some hs) CHR ''&'') =
    Ok (u\<lparr>FIsEncrypted := e\<rparr>)"
proof -
  let ?hp = "esc EncodeHost (FHost u) @ port_text (FPort u)"
  let ?t = "params_section '';'' (Some ps) CHR '';'' @ params_section ''?'' (Some hs) CHR ''&''"
  from assms have ps: "printable_params CHR ''?'' True ps" and hs: "printable_params nul False hs"
    and q: "params hs \<noteq> [] \<Longrightarrow> \<not> ends_quoted ps" and host: "printable_host (FHost u) (FPort u)"
    and user: "printable_user (FUser u) (FPassword u)"
    and at: "FUser u = None \<Longrightarrow> params_without CHR ''@'' ps \<and> params_without CHR ''@'' hs"
    by (simp_all add: printable_uri_def)
  have hc: "c \<in> set ?hp \<Longrightarrow> c \<notin> {CHR '';'', CHR ''?'', CHR ''@''}" for c
    using host_chars_print [OF host, of c] by simp
  have atc: "CHR ''@'' \<notin> set (CHR ''%'' # upperhex)" "CHR ''@'' \<noteq> quote" by code_simp+
  have "CHR ''@'' \<notin> set (?hp @ ?t)" if "FUser u = None"
  proof -
    have "CHR ''@'' \<notin> set ?hp" using hc by blast
    moreover have "CHR ''@'' \<notin> set (params_ToString ps CHR '';'')"
      by (rule params_ToString_without) (use at [OF that] ps atc in \<open>simp_all add: printable_params_def\<close>)
    moreover have "CHR ''@'' \<notin> set (params_ToString hs CHR ''&'')"
      by (rule params_ToString_without) (use at [OF that] hs atc in \<open>simp_all add: printable_params_def\<close>)
    ultimately show ?thesis by (auto simp: params_section_def)
  qed
  then have ui: "parse_userinfo (userinfo_text (FUser u) (FPassword u) @ ?hp @ ?t) =
      Ok (FUser u, FPassword u, ?hp @ ?t)"
    using user by (intro parse_userinfo_print) (simp add: printable_user_def)
  have e: "end_of_uri (?hp @ ?t) = length ?hp"
    by (rule end_of_uri_print [OF _ _ hs]) (use hc in blast)+
  have "ParseHostPort ?hp = Ok (FHost u, FPort u)"
  proof (rule ParseHostPort_print [OF parse_host_esc [OF host]])
    assume "FPort u = None"
    have "CHR '':'' \<notin> set (CHR ''%'' # upperhex)" by code_simp
    with host \<open>FPort u = None\<close> show "CHR '':'' \<notin> set (esc EncodeHost (FHost u))"
      using esc_keeps by (auto simp: printable_host_def)
  qed
  moreover have "res_bind (if ?t = [] then Ok (NewParams, NewParams) else parse_uri_sections ?t) f = f (ps, hs)"
    for f :: "headerParams \<times> headerParams \<Rightarrow> (parse_error, sip_uri) res"
  proof (cases "?t = []")
    case True
    then have "params ps = []" "params hs = []" by (auto simp: params_section_def split: if_splits)
    with True ps hs params_empty [of ps] params_empty [of hs] show ?thesis by (simp add: printable_params_def)
  next
    case False
    with parse_uri_sections_print [OF ps hs q] show ?thesis by auto
  qed
  moreover have "u\<lparr>FIsEncrypted := e\<rparr> = \<lparr>FIsEncrypted = e, FUser = FUser u, FPassword = FPassword u,
      FHost = FHost u, FPort = FPort u, FUriParams = Some ps, FHeaders = Some hs\<rparr>"
    using assms(2,3) by (cases u) simp
  ultimately show ?thesis
    unfolding parse_after_scheme_def ui
    by (simp only: res_bind.simps prod.case e Let_def take_append_length drop_append_length)
qed

lemma TrimSpace_hd: "\<not> is_space c \<Longrightarrow> \<exists>t. strings_TrimSpace (c # s) = c # t"
proof -
  assume "\<not> is_space c"
  then have "strings_TrimSpace (c # s) = rev (dropWhile is_space (rev s @ [c]))"
    by (simp add: strings_TrimSpace_def)
  also have "\<dots> = c # rev (dropWhile is_space (rev s))"
    using \<open>\<not> is_space c\<close> by (cases "\<forall>x\<in>set (rev s). is_space x") (auto simp: dropWhile_append dropWhile_eq_Nil_conv)
  finally show ?thesis by blast
qed

lemma ParseSipUri_scheme:
  "ParseSipUri (''sip:'' @ s) = parse_after_scheme False s"
  "ParseSipUri (''sips:'' @ s) = parse_after_scheme True s"
  by (simp_all add: ParseSipUri_def strings_ToLower_def lower_char_def)

lemma hd_star: "CHR ''s'' \<noteq> hd ''*''"
  by simp

lemma ParseUri_scheme:
  "ParseUri (''sip:'' @ s) = res_bind (parse_after_scheme False s) (\<lambda>u. Ok (SipUri u))"
  "ParseUri (''sips:'' @ s) = res_bind (parse_after_scheme True s) (\<lambda>u. Ok (SipUri u))"
proof -
  have "\<not> is_space CHR ''s''" by code_simp
  from TrimSpace_hd [OF this] have n: "strings_TrimSpace (CHR ''s'' # s) \<noteq> ''*''" for s
    by (metis hd_star list.sel(1))
  have i: "strings_Index (''sip:'' @ s) '':'' = Some 3" "strings_Index (''sips:'' @ s) '':'' = Some 4"
    by (simp_all add: strings_HasPrefix_single)
  have l: "strings_ToLower ''sip'' = ''sip''" "strings_ToLower ''sips'' = ''sips''" by code_simp+
  show "ParseUri (''sip:'' @ s) = res_bind (parse_after_scheme False s) (\<lambda>u. Ok (SipUri u))"
    using n [of "''ip:'' @ s"] i(1) l(1) ParseSipUri_scheme(1) [of s] by (simp add: ParseUri_def)
  show "ParseUri (''sips:'' @ s) = res_bind (parse_after_scheme True s) (\<lambda>u. Ok (SipUri u))"
    using n [of "''ips:'' @ s"] i(2) l(2) ParseSipUri_scheme(2) [of s] by (simp add: ParseUri_def)
qed

lemma ParseUri_print:
  assumes "printable_uri u"
  shows "ParseUri (SipUri_String u) = Ok (SipUri u)"
proof -
  obtain ps hs where p: "FUriParams u = Some ps" "FHeaders u = Some hs"
    using assms by (auto simp: printable_uri_def split: option.splits)
  have "u\<lparr>FIsEncrypted := FIsEncrypted u\<rparr> = u" by simp
  with parse_after_scheme_print [OF assms p, of "FIsEncrypted u"] p show ?thesis
    unfolding SipUri_String_parts [OF assms]
    by (cases "FIsEncrypted u") (simp_all only: ParseUri_scheme if_True if_False res_bind.simps)
qed

section \<open>No panic, and well-formed results\<close>

lemma map_err_Crash [simp]: "map_err f r = Crash \<longleftrightarrow> r = Crash"
  by (cases r) simp_all

lemma map_err_Ok [simp]: "map_err f r = Ok a \<longleftrightarrow> r = Ok a"
  by (cases r) simp_all

lemma pp_store_no_crash: "pp_store sg st \<noteq> Crash"
  by (auto simp: pp_store_def res_bind_Crash_iff Unescape_no_crash)

lemma pp_store_wf: "pp_store sg st = Ok ps \<Longrightarrow> params_wf (pp_params st) \<Longrightarrow> params_wf ps"
  by (auto simp: pp_store_def params_wf_Add split: if_splits)

lemma pp_char_no_panic: "pp_char sep end qv sg c cs st \<noteq> PP_panic"
  by (auto simp: pp_char_def pp_store_no_crash split: res.splits)

lemma pp_char_wf:
  "pp_char sep end qv sg c cs st = PP_next st' \<Longrightarrow> params_wf (pp_params st) \<Longrightarrow> params_wf (pp_params st')"
  by (auto simp: pp_char_def pp_store_wf split: if_splits res.splits)

lemma pp_loop_Ok:
  assumes "params_wf (pp_params st)"
  shows "\<exists>st' m e. pp_loop sep end qv sg s n st = Ok (st', m, e) \<and> params_wf (pp_params st') \<and> m \<le> n + length s"
  using assms
proof (induction s arbitrary: n st)
  case (Cons c s)
  show ?case
  proof (cases "pp_char sep end qv sg c s st")
    case (PP_next st')
    with Cons.IH [of st' "n + 1"] pp_char_wf [OF PP_next Cons.prems] show ?thesis by auto
  qed (use Cons.prems pp_char_no_panic in auto)
qed simp

lemma ParseParams_Ok:
  "\<exists>ps n e. ParseParams s start sep end qv sg = Ok (ps, n, e) \<and> params_wf ps \<and> n \<le> length s"
proof -
  define k where "k = (if start \<noteq> nul then 1 else 0 :: nat)"
  have wf: "params_wf (pp_params pp_init)" by (simp add: pp_init_def)
  obtain st m e where l: "pp_loop sep end qv sg (drop k s) k pp_init = Ok (st, m, e)"
    "params_wf (pp_params st)" "m \<le> k + length (drop k s)"
    using pp_loop_Ok [OF wf, of sep "end" qv sg "drop k s" k] by blast
  have "s \<noteq> [] \<Longrightarrow> k + length (drop k s) = length s" by (cases s) (auto simp: k_def)
  with l show ?thesis
    by (auto simp: ParseParams_def pp_finish_def pp_store_no_crash k_def [symmetric]
        dest: pp_store_wf split: option.splits res.splits)
qed

lemma params_or_err_no_crash: "params_or_err (ParseParams s start sep end qv sg) \<noteq> Crash"
  using ParseParams_Ok [of s start sep "end" qv sg]
  by (auto simp: params_or_err_def split: option.splits)

lemma params_or_err_wf: "params_or_err (ParseParams s start sep end qv sg) = Ok (ps, n) \<Longrightarrow> params_wf ps"
  using ParseParams_Ok [of s start sep "end" qv sg]
  by (auto simp: params_or_err_def split: option.splits)

lemma host_zone_no_crash: "strings_Index h ''%25'' = Some z \<Longrightarrow> host_zone h z \<noteq> Crash"
  using strings_Index_less [of h "''%25''" z]
  by (auto simp: host_zone_def Let_def res_bind_Crash_iff Unescape_no_crash)

lemma parse_host_no_crash: "parse_host h \<noteq> Crash"
  by (auto simp: parse_host_def res_bind_Crash_iff Unescape_no_crash host_zone_no_crash
      split: option.splits if_splits)

lemma ParseHostPort_no_crash: "ParseHostPort s \<noteq> Crash"
  by (auto simp: ParseHostPort_def res_bind_Crash_iff parse_host_no_crash
      split: option.splits prod.splits if_splits)

lemma parse_userinfo_no_crash: "parse_userinfo s \<noteq> Crash"
  by (auto simp: parse_userinfo_def Let_def res_bind_Crash_iff Unescape_no_crash
      split: option.splits if_splits)

lemma parse_uri_sections_no_crash: "parse_uri_sections s \<noteq> Crash"
  by (auto simp: parse_uri_sections_def Let_def res_bind_Crash_iff params_or_err_no_crash
      split: if_splits prod.splits)

lemma parse_uri_sections_wf: "parse_uri_sections s = Ok (ps, hs) \<Longrightarrow> params_wf ps \<and> params_wf hs"
  by (auto simp: parse_uri_sections_def Let_def dest: params_or_err_wf split: if_splits)

lemma parse_after_scheme_no_crash: "parse_after_scheme e s \<noteq> Crash"
  by (auto simp: parse_after_scheme_def Let_def res_bind_Crash_iff parse_userinfo_no_crash
      ParseHostPort_no_crash parse_uri_sections_no_crash split: if_splits prod.splits)

lemma parse_after_scheme_wf: "parse_after_scheme e s = Ok u \<Longrightarrow> uri_wf (SipUri u)"
  by (auto simp: parse_after_scheme_def Let_def dest: parse_uri_sections_wf split: if_splits prod.splits)

lemma ParseSipUri_crash: "ParseSipUri s = Crash \<longleftrightarrow> length s < 3"
  by (auto simp: ParseSipUri_def Let_def parse_after_scheme_no_crash)

lemma ParseUri_no_crash: "ParseUri s \<noteq> Crash"
proof
  assume *: "ParseUri s = Crash"
  then obtain i where i: "strings_Index s '':'' = Some i" and c: "ParseSipUri s = Crash"
    and l: "length (take i s) = 3 \<or> length (take i s) = 4"
    by (auto simp: ParseUri_def Let_def res_bind_Crash_iff split: option.splits if_splits
        dest!: arg_cong [of "strings_ToLower _" _ length])
  from c have "length s < 3" by (simp add: ParseSipUri_crash)
  with l show False by auto
qed

lemma ParseUri_wf: "ParseUri s = Ok u \<Longrightarrow> uri_wf u \<and> u \<noteq> WildcardUriPtr"
  by (auto simp: ParseUri_def ParseSipUri_def Let_def simp del: uri_wf.simps(1) dest: parse_after_scheme_wf
      split: option.splits if_splits)

end
