(* ===== verification/Parser_HeaderProps.thy ===== *)
theory Parser_HeaderProps
  imports Parser_Headers Parser_UriProps
begin

text \<open>
  What the header parsers do: the list of addresses is the text split at the commas outside
  quotes and angle brackets, each part parsed on its own; a header parser panics only on a
  blank part; every header it returns is well-formed; and \<open>ParseHeader\<close> reads back what
  \<open>String\<close> prints for every header that a registered parser can represent.
\<close>

section \<open>Lists of addresses\<close>

text \<open>The reference: the parts between the commas; text after an unclosed bracket or quote is
  dropped.\<close>

fun address_segments :: "bytes \<Rightarrow> bytes \<Rightarrow> bool \<Rightarrow> bool \<Rightarrow> bytes list" where
  "address_segments [] seg inBrackets inQuotes = []"
| "address_segments (c # cs) seg inBrackets inQuotes =
     (if c = CHR '','' \<and> \<not> inQuotes \<and> \<not> inBrackets then seg # address_segments cs [] False False
      else address_segments cs (seg @ [c])
             (if inQuotes then inBrackets else if c = CHR ''<'' then True else if c = CHR ''>'' then False else inBrackets)
             (if c = quote then \<not> inQuotes else inQuotes))"

fun parse_all :: "bytes list \<Rightarrow> (parse_error, address list) res" where
  "parse_all [] = Ok []"
| "parse_all (s # ss) =
     res_bind (ParseAddressValue s) (\<lambda>a. res_bind (parse_all ss) (\<lambda>as. Ok (a # as)))"

lemma quote_neq [simp]:
  "CHR ''<'' \<noteq> quote" "CHR ''>'' \<noteq> quote" "CHR '','' \<noteq> quote" "CHR '';'' \<noteq> quote" "CHR '' '' \<noteq> quote"
  "quote \<noteq> CHR ''<''" "quote \<noteq> CHR ''>''" "quote \<noteq> CHR '',''" "quote \<noteq> CHR '';''" "quote \<noteq> CHR '' ''"
  by (simp_all add: quote_CHR)

lemma address_loop_eq: "address_loop s seg b q = parse_all (address_segments s seg b q)"
  by (induction s seg b q rule: address_loop.induct) auto

lemma ParseAddressValues_eq: "ParseAddressValues s = parse_all (address_segments (s @ '','') [] False False)"
  by (simp add: ParseAddressValues_def address_loop_eq)

text \<open>The state of the loop after a text without a comma that counts.\<close>

fun scan :: "bytes \<Rightarrow> bool \<Rightarrow> bool \<Rightarrow> bool \<times> bool" where
  "scan [] b q = (b, q)"
| "scan (c # cs) b q =
     scan cs (if q then b else if c = CHR ''<'' then True else if c = CHR ''>'' then False else b)
       (if c = quote then \<not> q else q)"

lemma scan_append: "scan (s @ t) b q = (case scan s b q of (b', q') \<Rightarrow> scan t b' q')"
  by (induction s b q rule: scan.induct) auto

lemma address_segments_closed:
  "seg' \<in> set (address_segments s seg b q) \<Longrightarrow> scan seg False False = (b, q) \<Longrightarrow>
   scan seg' False False = (False, False)"
proof (induction s seg b q rule: address_segments.induct)
  case (2 c cs seg b q)
  have "scan (seg @ [c]) False False =
      ((if q then b else if c = CHR ''<'' then True else if c = CHR ''>'' then False else b),
       (if c = quote then \<not> q else q))"
    using "2.prems"(2) by (simp add: scan_append)
  with 2 show ?case by (auto split: if_splits)
qed simp

section \<open>When an address panics\<close>

text \<open>In a closed text, every opening bracket outside quotes has a closing one after it.\<close>

lemma scan_open: "CHR ''>'' \<notin> set s \<Longrightarrow> fst (scan s True q)"
  by (induction s True q rule: scan.induct) auto

lemma find_loop_shift:
  "find_loop t e s q n = map_option (\<lambda>i. i + n) (find_loop t e s q 0)"
proof (induction s arbitrary: q n)
  case (Cons c s)
  show ?case
    using Cons [of _ "Suc n"] Cons [of _ "Suc 0"]
    by (cases "find_loop t e s (case q of None \<Rightarrow> map_of e c | Some x \<Rightarrow> if c \<noteq> x then Some x else None) 0") auto
qed simp

text \<open>The search for a bracket outside quotes, with the flag of being inside quotes.\<close>

fun find_bracket :: "bytes \<Rightarrow> bool \<Rightarrow> nat option" where
  "find_bracket [] q = None"
| "find_bracket (c # cs) q =
     (if c = CHR ''<'' \<and> \<not> q then Some 0 else map_option Suc (find_bracket cs (if c = quote then \<not> q else q)))"

lemma find_loop_bracket:
  "find_loop [CHR ''<''] [(quote, quote)] s (if q then Some quote else None) 0 = find_bracket s q"
proof (induction s arbitrary: q)
  case (Cons c s)
  have sob: "strings_Contains [CHR ''<''] (string_of_byte c) \<longleftrightarrow> c = CHR ''<''"
  proof (cases "byte c < 128")
    case True
    then show ?thesis by (simp add: string_of_byte_ascii eq_commute)
  next
    case False
    then have "c \<noteq> CHR ''<''" by auto
    with False show ?thesis
      by (auto simp: string_of_byte_def Let_def strings_Contains_def strings_HasPrefix_def)
  qed
  have "string_of_byte quote = [quote]" by code_simp
  with sob show ?case
    using Cons [of True] Cons [of False] find_loop_shift [of "[CHR ''<'']" "[(quote, quote)]" s _ 1]
    by (cases q; cases "c = quote") (auto simp: option.map_comp comp_def)
qed simp

lemma findUnescaped_bracket: "findUnescaped s CHR ''<'' [quotesDelim] = find_bracket s False"
  using find_loop_bracket [of s False]
  by (simp add: findUnescaped_def findAnyUnescaped_def quotesDelim_def string_of_byte_ascii)

text \<open>Where the search finds a bracket, and what the scan says there.\<close>

lemma find_bracket_Some:
  "find_bracket s q = Some i \<Longrightarrow> i < length s \<and> s ! i = CHR ''<'' \<and> \<not> snd (scan (take i s) b q)"
proof (induction s q arbitrary: i b rule: find_bracket.induct)
  case (2 c cs q)
  show ?case
  proof (cases "c = CHR ''<'' \<and> \<not> q")
    case False
    with "2.prems" obtain j where j: "i = Suc j" "find_bracket cs (if c = quote then \<not> q else q) = Some j"
      by auto
    with "2.IH" [OF False j(2)] show ?thesis by simp
  qed (use "2.prems" in auto)
qed simp

lemma find_bracket_None:
  "find_bracket s q = None \<Longrightarrow> s = t @ CHR ''<'' # u \<Longrightarrow> snd (scan t b q)"
proof (induction s q arbitrary: t b rule: find_bracket.induct)
  case (2 c cs q)
  then show ?case by (cases t) (auto split: if_splits)
qed simp

text \<open>The scan starts at an opening bracket outside quotes: there is a closing one.\<close>

lemma closing_bracket:
  assumes "scan (s @ CHR ''<'' # t) b q = (False, r)" and "\<not> snd (scan s b q)"
  shows "CHR ''>'' \<in> set t"
proof (rule ccontr)
  assume "CHR ''>'' \<notin> set t"
  obtain b' where "scan s b q = (b', False)" using assms(2) by (cases "scan s b q") auto
  with assms(1) have "scan t True False = (False, r)" by (simp add: scan_append)
  with scan_open [OF \<open>CHR ''>'' \<notin> set t\<close>, of False] show False by simp
qed

definition blank :: "bytes \<Rightarrow> bool" where
  "blank s \<longleftrightarrow> s \<noteq> [] \<and> list_all is_space s"

lemma TrimSpace_middle:
  "\<exists>u v. s = u @ strings_TrimSpace s @ v \<and> list_all is_space u \<and> list_all is_space v"
proof -
  let ?d = "dropWhile is_space s"
  have s: "s = takeWhile is_space s @ ?d" by simp
  have "rev ?d = takeWhile is_space (rev ?d) @ dropWhile is_space (rev ?d)" by simp
  then have d: "?d = strings_TrimSpace s @ rev (takeWhile is_space (rev ?d))"
    unfolding strings_TrimSpace_def by (metis rev_append rev_rev_ident)
  have "list_all is_space (takeWhile is_space s)" "list_all is_space (rev (takeWhile is_space (rev ?d)))"
    by (auto simp: list_all_iff dest: set_takeWhileD)
  with s d show ?thesis by (metis append_assoc)
qed

lemma scan_space: "list_all is_space u \<Longrightarrow> scan u b q = (b, q)"
proof (induction u)
  case (Cons c u)
  have "\<not> is_space quote" "\<not> is_space CHR ''<''" "\<not> is_space CHR ''>''" by code_simp+
  with Cons.prems have "c \<noteq> quote" "c \<noteq> CHR ''<''" "c \<noteq> CHR ''>''" by auto
  with Cons show ?case by (cases q) simp_all
qed simp

lemma scan_Trim: "scan (strings_TrimSpace s) False False = scan s False False"
proof -
  obtain u v where uv: "s = u @ strings_TrimSpace s @ v" "list_all is_space u" "list_all is_space v"
    using TrimSpace_middle by blast
  then have "scan s False False = scan (u @ strings_TrimSpace s @ v) False False" by simp
  also have "\<dots> = scan (strings_TrimSpace s) False False"
    using uv(2,3) by (simp add: scan_append scan_space split: prod.splits)
  finally show ?thesis by simp
qed

lemma set_TrimSpace: "c \<in> set s \<Longrightarrow> \<not> is_space c \<Longrightarrow> c \<in> set (strings_TrimSpace s)"
proof -
  assume c: "c \<in> set s" "\<not> is_space c"
  obtain u v where "s = u @ strings_TrimSpace s @ v" "list_all is_space u" "list_all is_space v"
    using TrimSpace_middle by blast
  moreover from this have "c \<notin> set u" "c \<notin> set v" using c(2) by (auto simp: list_all_iff)
  ultimately show ?thesis using c(1) by (metis Un_iff set_append)
qed

lemma TrimSpace_ends:
  assumes "strings_TrimSpace s \<noteq> []"
  shows "\<not> is_space (hd (strings_TrimSpace s))" and "\<not> is_space (last (strings_TrimSpace s))"
proof -
  let ?d = "dropWhile is_space s" and ?r = "dropWhile is_space (rev (dropWhile is_space s))"
  have r: "?r \<noteq> []" and t: "strings_TrimSpace s = rev ?r" using assms by (auto simp: strings_TrimSpace_def)
  show "\<not> is_space (last (strings_TrimSpace s))"
    using hd_dropWhile [OF r] by (metis last_rev t)
  have d: "?d \<noteq> []" using r by (metis dropWhile.simps(1) rev.simps(1))
  have "last ?r = last (rev ?d)" using r by (metis append_is_Nil_conv last_appendR takeWhile_dropWhile_id)
  then have "hd (strings_TrimSpace s) = hd ?d" using d by (simp add: t hd_rev last_rev)
  with hd_dropWhile [OF d] show "\<not> is_space (hd (strings_TrimSpace s))" by simp
qed

lemma TrimSpace_idem [simp]: "strings_TrimSpace (strings_TrimSpace s) = strings_TrimSpace s"
  by (rule TrimSpace_id) (use TrimSpace_ends in blast)

lemma address_bounds_closed:
  assumes "s \<noteq> []" and "scan s False False = (False, False)"
  shows "address_bounds n s \<noteq> Crash"
proof (cases "hd s = CHR ''<''")
  case True
  then obtain t where s: "s = CHR ''<'' # t" using assms(1) by (cases s) auto
  have "CHR ''>'' \<in> set t" using closing_bracket [of "[]" t False False False] assms(2) s by simp
  then have "strings_Index t ''>'' \<noteq> None" by (simp add: strings_Index_single_None)
  with s show ?thesis by (auto simp: address_bounds_def split: if_splits)
next
  case False
  with assms(1) show ?thesis by (simp add: address_bounds_def Let_def)
qed

lemma find_bracket_quoted:
  assumes "quote \<notin> set n"
  shows "find_bracket (quote # n @ quote # r) False = map_option (\<lambda>j. j + length n + 2) (find_bracket r False)"
    and "scan (quote # n @ quote # r) b False = scan r b False"
proof -
  have "find_bracket (n @ quote # r) True = map_option (\<lambda>j. j + length n + 1) (find_bracket r False)"
    using assms by (induction n) (auto simp: option.map_comp comp_def)
  then show "find_bracket (quote # n @ quote # r) False = map_option (\<lambda>j. j + length n + 2) (find_bracket r False)"
    by (simp add: option.map_comp comp_def)
  have "scan (n @ quote # r) b True = scan r b False"
    using assms by (induction n) auto
  then show "scan (quote # n @ quote # r) b False = scan r b False" by simp
qed

lemma display_name_closed:
  assumes "find_bracket s False = Some i" and "scan s False False = (False, False)"
    and "parse_display_name s i = Ok (n, t)"
  shows "strings_TrimSpace t \<noteq> [] \<and> scan (strings_TrimSpace t) False False = (False, False)"
proof -
  have fb: "i < length s" "s ! i = CHR ''<''" "\<not> snd (scan (take i s) False False)"
    using find_bracket_Some [OF assms(1)] by auto
  have lt: "\<not> is_space CHR ''<''" by code_simp
  show ?thesis
  proof (cases "hd s = quote")
    case True
    with assms(3) obtain nq where nq: "strings_Index (drop 1 s) [quote] = Some nq"
      and t: "t = drop (nq + 1) (drop 1 s)"
      by (auto simp: parse_display_name_def Let_def split: option.splits)
    define m where "m = take nq (drop 1 s)"
    have "quote \<notin> set m" "nq < length (drop 1 s)" "drop 1 s ! nq = quote"
      using nq by (simp_all add: strings_Index_single_Some m_def)
    moreover from this have "drop 1 s = m @ quote # t"
      using id_take_nth_drop [of nq "drop 1 s"] by (simp add: m_def t)
    moreover have "s = quote # drop 1 s" using True fb(1) by (cases s) auto
    ultimately have s: "s = quote # m @ quote # t" and m: "quote \<notin> set m" by auto
    from find_bracket_quoted(1) [OF m, of t] assms(1) s obtain j where "find_bracket t False = Some j" by auto
    then have "CHR ''<'' \<in> set t" using find_bracket_Some [of t False j] by (metis nth_mem)
    then have "strings_TrimSpace t \<noteq> []" using set_TrimSpace lt by (metis empty_iff list.set(1))
    moreover have "scan t False False = (False, False)"
      using find_bracket_quoted(2) [OF m, of t False] assms(2) s by simp
    ultimately show ?thesis by (simp add: scan_Trim)
  next
    case False
    with assms(3) have t: "t = drop i s" by (simp add: parse_display_name_def)
    then have t': "t = CHR ''<'' # drop (Suc i) s" using fb by (metis Cons_nth_drop_Suc)
    obtain b where b: "scan (take i s) False False = (b, False)"
      using fb(3) by (cases "scan (take i s) False False") auto
    have "scan (take i s @ t) False False = (False, False)" using assms(2) t by simp
    with b have "scan t b False = (False, False)" by (simp add: scan_append)
    then have "scan t False False = (False, False)" by (simp add: t')
    moreover have "strings_TrimSpace t \<noteq> []" using TrimSpace_hd [OF lt, of "drop (Suc i) s"] t' by auto
    ultimately show ?thesis by (simp add: scan_Trim)
  qed
qed

lemma parse_display_name_no_crash: "parse_display_name s i \<noteq> Crash"
  by (auto simp: parse_display_name_def Let_def split: option.splits)

lemma ParseAddressValue_crash:
  assumes "scan seg False False = (False, False)"
  shows "ParseAddressValue seg = Crash \<longleftrightarrow> blank seg"
proof (cases "strings_TrimSpace seg = []")
  case True
  then have "list_all is_space seg" by (simp add: TrimSpace_Nil_iff)
  moreover have "strings_TrimSpace [] = []" by (simp add: strings_TrimSpace_def)
  ultimately show ?thesis
    using True by (auto simp: ParseAddressValue_def findUnescaped_bracket address_bounds_def blank_def)
next
  case False
  let ?s = "strings_TrimSpace seg"
  have nb: "\<not> blank seg" using False by (simp add: blank_def TrimSpace_Nil_iff)
  have sc: "scan ?s False False = (False, False)" using assms by (simp add: scan_Trim)
  have tail: "res_bind (address_bounds n s) (\<lambda>(uriText, rest).
      res_bind (ParseUri uriText) (\<lambda>uri.
        if rest = [] then Ok (n, uri, NewParams)
        else res_bind (params_or_err (ParseParams rest CHR '';'' CHR '';'' CHR '','' True True))
               (\<lambda>(ps, _). Ok (n, uri, ps)))) \<noteq> Crash"
    if "s \<noteq> []" "scan s False False = (False, False)" for n s
    using address_bounds_closed [OF that]
    by (auto simp: res_bind_Crash_iff ParseUri_no_crash params_or_err_no_crash split: if_splits prod.splits)
  have "ParseAddressValue seg \<noteq> Crash"
  proof (cases "find_bracket ?s False")
    case None
    with False sc tail [of ?s None] show ?thesis
      by (simp add: ParseAddressValue_def findUnescaped_bracket)
  next
    case (Some i)
    show ?thesis
    proof (cases "i = 0")
      case True
      with Some False sc tail [of ?s None] show ?thesis
        by (simp add: ParseAddressValue_def findUnescaped_bracket)
    next
      case i: False
      show ?thesis
      proof
        assume "ParseAddressValue seg = Crash"
        with Some i parse_display_name_no_crash obtain n t where "parse_display_name ?s i = Ok (n, t)"
          and "res_bind (address_bounds n (strings_TrimSpace t)) (\<lambda>(uriText, rest).
            res_bind (ParseUri uriText) (\<lambda>uri.
              if rest = [] then Ok (n, uri, NewParams)
              else res_bind (params_or_err (ParseParams rest CHR '';'' CHR '';'' CHR '','' True True))
                     (\<lambda>(ps, _). Ok (n, uri, ps)))) = Crash"
          by (auto simp: ParseAddressValue_def findUnescaped_bracket res_bind_Crash_iff split: if_splits)
        with display_name_closed [OF Some sc] tail show False by blast
      qed
    qed
  qed
  with nb show ?thesis by simp
qed

definition blank_address :: "bytes \<Rightarrow> bool" where
  "blank_address s \<longleftrightarrow> list_ex blank (address_segments (s @ '','') [] False False)"

lemma parse_all_crash:
  "\<forall>s\<in>set ss. scan s False False = (False, False) \<Longrightarrow> parse_all ss = Crash \<Longrightarrow> list_ex blank ss"
  by (induction ss) (auto simp: res_bind_Crash_iff ParseAddressValue_crash)

lemma ParseAddressValues_crash: "ParseAddressValues s = Crash \<Longrightarrow> blank_address s"
  unfolding ParseAddressValues_eq blank_address_def
  by (rule parse_all_crash) (auto dest: address_segments_closed)

lemma ParseAddressValue_wf:
  "ParseAddressValue s = Ok (n, u, ps) \<Longrightarrow> uri_wf u \<and> u \<noteq> WildcardUriPtr \<and> params_wf ps"
  by (auto simp: ParseAddressValue_def Let_def dest: ParseUri_wf params_or_err_wf split: if_splits option.splits)

lemma parse_all_wf:
  "parse_all ss = Ok as \<Longrightarrow> (n, u, ps) \<in> set as \<Longrightarrow> uri_wf u \<and> u \<noteq> WildcardUriPtr \<and> params_wf ps"
  by (induction ss arbitrary: as) (auto dest: ParseAddressValue_wf)

lemma ParseAddressValues_wf:
  "ParseAddressValues s = Ok as \<Longrightarrow> (n, u, ps) \<in> set as \<Longrightarrow> uri_wf u \<and> u \<noteq> WildcardUriPtr \<and> params_wf ps"
  unfolding ParseAddressValues_eq by (rule parse_all_wf)

section \<open>Every header parser\<close>

lemma parse_hop_body_no_crash: "parse_hop_body hop s \<noteq> Crash"
proof -
  have "ParseParams t start sep end qv sg \<noteq> Crash" "ParseParams t start sep end qv sg \<noteq> Err e"
    for t start sep "end" qv sg e
    using ParseParams_Ok [of t start sep "end" qv sg] by auto
  then show ?thesis
    by (auto simp: parse_hop_body_def res_bind_Crash_iff ParseHostPort_no_crash
        split: option.splits prod.splits res.splits)
qed

lemma parse_hop_no_crash: "parse_hop s e \<noteq> Crash"
  by (auto simp: parse_hop_def Let_def parse_hop_body_no_crash split: list.splits option.splits)

lemma parse_hop_wf: "parse_hop s e = Ok (hop, e') \<Longrightarrow> hop_wf hop"
proof -
  have "parse_hop_body h t = Ok (hop, e') \<Longrightarrow> hop_wf hop" for h t
    using ParseParams_Ok [of "drop (the (strings_Index t '';'')) t" "CHR '';''" "CHR '';''" nul True True]
    by (auto simp: parse_hop_body_def hop_wf_def split: option.splits res.splits)
  then show "parse_hop s e = Ok (hop, e') \<Longrightarrow> hop_wf hop"
    by (auto simp: parse_hop_def Let_def split: list.splits option.splits if_splits)
qed

lemma via_loop_Ok:
  "list_all hop_wf via \<Longrightarrow> \<exists>hs e'. via_loop ss via e = Ok (hs, e') \<and>
     (hs = [] \<or> (\<exists>v. hs = [ViaHeader v] \<and> list_all hop_wf v))"
proof (induction ss arbitrary: via e)
  case (Cons s ss)
  show ?case
  proof (cases "parse_hop s e")
    case (Ok r)
    obtain hop e' where r: "r = (hop, e')" by force
    have "hop_wf hop" using parse_hop_wf Ok r by blast
    with Cons.IH [of "via @ [hop]" e'] Cons.prems Ok r show ?thesis by simp
  qed (use parse_hop_no_crash in auto)
qed simp

text \<open>A header is typed if it is not a generic header under a registered name; this is what the
  type assertions of the getters rely on.\<close>

definition header_typed :: "header \<Rightarrow> bool" where
  "header_typed h \<longleftrightarrow>
     (case h of GenericHeader g \<Rightarrow> map_of NewPacketParser (strings_ToLower (HeaderName g)) = None | _ \<Rightarrow> True)"

definition good_header :: "header \<Rightarrow> bool" where
  "good_header h \<longleftrightarrow> header_wf h \<and> header_typed h"

definition address_fields :: "bytes list" where
  "address_fields = [''to'', ''t'', ''from'', ''f'', ''contact'', ''m'', ''route'', ''record-route'']"

lemma contact_headers_Ok:
  assumes "\<forall>(n, u, ps)\<in>set as. uri_wf u \<and> params_wf ps" and "list_all good_header hs"
  shows "\<exists>hs' e. contact_headers as hs = Ok (hs', e) \<and> list_all good_header hs'"
  using assms
proof (induction as hs rule: contact_headers.induct)
  case (2 n u ps rest hs)
  then show ?case by (auto simp: good_header_def header_typed_def)
qed simp

text \<open>The contract of a header parser: it returns good headers, or panics on a blank address.\<close>

definition parser_ok :: "bytes \<Rightarrow> header_parser \<Rightarrow> bool" where
  "parser_ok name p \<longleftrightarrow> (\<forall>text.
     (\<exists>hs e. p name text = Ok (hs, e) \<and> list_all good_header hs) \<or>
     (p name text = Crash \<and> name \<in> set address_fields \<and> blank_address text))"

lemma parser_okI:
  assumes "\<And>t. (\<exists>hs e. p name t = Ok (hs, e) \<and> list_all good_header hs)"
  shows "parser_ok name p"
  using assms by (simp add: parser_ok_def)

lemma parser_ok_address:
  assumes "\<And>t. ParseAddressValues t = Crash \<Longrightarrow> p name t = Crash"
    and "\<And>t e. ParseAddressValues t = Err e \<Longrightarrow> p name t = Ok ([], Some e)"
    and "\<And>t as. ParseAddressValues t = Ok as \<Longrightarrow>
      \<forall>(n, u, ps)\<in>set as. uri_wf u \<and> u \<noteq> WildcardUriPtr \<and> params_wf ps \<Longrightarrow>
      \<exists>hs e. p name t = Ok (hs, e) \<and> list_all good_header hs"
    and "name \<in> set address_fields"
  shows "parser_ok name p"
  unfolding parser_ok_def
proof
  fix t
  show "(\<exists>hs e. p name t = Ok (hs, e) \<and> list_all good_header hs) \<or>
     (p name t = Crash \<and> name \<in> set address_fields \<and> blank_address t)"
  proof (cases "ParseAddressValues t")
    case (Ok as)
    have "\<forall>(n, u, ps)\<in>set as. uri_wf u \<and> u \<noteq> WildcardUriPtr \<and> params_wf ps"
      using ParseAddressValues_wf [OF Ok] by auto
    with assms(3) [OF Ok] show ?thesis by simp
  next
    case (Err e)
    with assms(2) show ?thesis by simp
  next
    case Crash
    with assms(1,4) ParseAddressValues_crash show ?thesis by simp
  qed
qed

lemma to_from_headers_Ok:
  assumes "\<forall>(n, u, ps)\<in>set as. uri_wf u \<and> u \<noteq> WildcardUriPtr \<and> params_wf ps"
  shows "\<exists>hs e. to_headers as = Ok (hs, e) \<and> list_all good_header hs"
    and "\<exists>hs e. from_headers as = Ok (hs, e) \<and> list_all good_header hs"
  using assms
  by (auto simp: to_headers_def from_headers_def good_header_def header_typed_def addr_header_wf_def split: list.splits)

lemma parser_ok_parseAddressHeader:
  assumes "name \<in> set [''to'', ''t'', ''from'', ''f'', ''contact'', ''m'']"
  shows "parser_ok name parseAddressHeader"
proof (rule parser_ok_address)
  have n: "name \<in> set [''to'', ''from'', ''contact'', ''t'', ''f'', ''m'']" using assms by auto
  show "ParseAddressValues t = Crash \<Longrightarrow> parseAddressHeader name t = Crash" for t
    using n by (simp only: parseAddressHeader_def if_True res.case)
  show "ParseAddressValues t = Err e \<Longrightarrow> parseAddressHeader name t = Ok ([], Some e)" for t e
    using n by (simp only: parseAddressHeader_def if_True res.case)
  show "\<exists>hs e. parseAddressHeader name t = Ok (hs, e) \<and> list_all good_header hs"
    if "ParseAddressValues t = Ok as" "\<forall>(n, u, ps)\<in>set as. uri_wf u \<and> u \<noteq> WildcardUriPtr \<and> params_wf ps" for t as
  proof -
    have "\<exists>hs e. contact_headers as [] = Ok (hs, e) \<and> list_all good_header hs"
      using that(2) by (intro contact_headers_Ok) auto
    with to_from_headers_Ok [OF that(2)] that(1) n show ?thesis
      by (simp only: parseAddressHeader_def if_True res.case) (simp split: if_splits)
  qed
  show "name \<in> set address_fields" using assms by (auto simp: address_fields_def)
qed

lemma parser_ok_routes: "parser_ok ''route'' parseRouteHeader" "parser_ok ''record-route'' parseRecordRouteHeader"
proof -
  have "list_all uri_wf (address_uris as)"
    if "\<forall>(n, u, ps)\<in>set as. uri_wf u \<and> u \<noteq> WildcardUriPtr \<and> params_wf ps" for as
    using that by (auto simp: address_uris_def list_all_iff)
  then show "parser_ok ''route'' parseRouteHeader" "parser_ok ''record-route'' parseRecordRouteHeader"
    by (intro parser_ok_address;
        simp add: parseRouteHeader_def parseRecordRouteHeader_def good_header_def header_typed_def address_fields_def)+
qed

lemma parser_ok_via: "parser_ok name parseViaHeader"
proof (rule parser_okI)
  fix t
  obtain hs e where "via_loop (strings_Split t '','') [] None = Ok (hs, e)"
    "hs = [] \<or> (\<exists>v. hs = [ViaHeader v] \<and> list_all hop_wf v)"
    using via_loop_Ok [of "[]" "strings_Split t '',''" None] by auto
  then show "\<exists>hs e. parseViaHeader name t = Ok (hs, e) \<and> list_all good_header hs"
    by (auto simp: parseViaHeader_def good_header_def header_typed_def)
qed

lemma parser_ok_simple:
  "parser_ok name parseCallId" "parser_ok name parseCSeq" "parser_ok name parseMaxForwards"
  "parser_ok name parseContentLength" "parser_ok name parseExpires" "parser_ok name parseUserAgent"
  "parser_ok name parseServer" "parser_ok name parseAllow" "parser_ok name parseContentType"
  "parser_ok name parseAccept" "parser_ok name parseRequire" "parser_ok name parseSupported"
  by (rule parser_okI;
      simp add: parseCallId_def parseCSeq_def parseMaxForwards_def parseContentLength_def parseExpires_def
        parseUserAgent_def parseServer_def parseAllow_def parseContentType_def parseAccept_def
        parseRequire_def parseSupported_def Let_def good_header_def header_typed_def
        split: list.splits prod.splits option.splits)+

lemma fold_SetHeaderParser:
  assumes "distinct (map fst (acc @ al))" and "\<forall>(n, p)\<in>set al. strings_ToLower n = n"
  shows "fold (\<lambda>(n, p). SetHeaderParser n p) al acc = acc @ al"
  using assms
proof (induction al arbitrary: acc)
  case (Cons a al)
  obtain n p where a: "a = (n, p)" by force
  have "AList.update n p acc = acc @ [(n, p)]" if "n \<notin> set (map fst acc)" for acc :: packet_parser
    using that by (induction acc) auto
  moreover have "n \<notin> set (map fst acc)" using Cons.prems(1) a by auto
  ultimately show ?case
    using Cons.IH [of "acc @ [(n, p)]"] Cons.prems a by (simp add: SetHeaderParser_def)
qed simp

lemma NewPacketParser_eq: "NewPacketParser = defaultHeaderParsers"
proof -
  have "distinct (map fst defaultHeaderParsers)" by (simp add: defaultHeaderParsers_def)
  moreover have "list_all (\<lambda>n. strings_ToLower n = n) (map fst defaultHeaderParsers)"
    unfolding defaultHeaderParsers_def list.map fst_conv by code_simp
  then have "\<forall>(n, p)\<in>set defaultHeaderParsers. strings_ToLower n = n" by (auto simp: list_all_iff)
  ultimately show ?thesis
    unfolding NewPacketParser_def by (subst fold_SetHeaderParser) simp_all
qed

text \<open>The contract of the table: each registered parser keeps its contract under its name.  A
  parser that is registered with \<open>SetHeaderParser\<close> keeps it if the new parser does.\<close>

locale parser_table =
  fixes table :: packet_parser
  assumes parser_ok_table: "map_of table name = Some p \<Longrightarrow> parser_ok name p"
begin

lemma ParseHeader_cases:
  obtains (headers) hs e where "ParseHeader table t = Ok (hs, e)"
      "\<And>h. h \<in> set hs \<Longrightarrow> header_wf h \<and>
         (header_typed h \<or> (\<exists>g. h = GenericHeader g \<and> map_of table (strings_ToLower (HeaderName g)) = None))"
  | (panic) i where "ParseHeader table t = Crash" "strings_Index t '':'' = Some i"
      "strings_ToLower (strings_TrimSpace (take i t)) \<in> set address_fields"
      "blank_address (strings_TrimSpace (drop (i + 1) t))"
proof (cases "strings_Index t '':''")
  case None
  then show ?thesis by (intro headers [of "[]"]) (simp_all add: ParseHeader_def)
next
  case (Some i)
  let ?n = "strings_ToLower (strings_TrimSpace (take i t))" and ?v = "strings_TrimSpace (drop (i + 1) t)"
  show ?thesis
  proof (cases "map_of table ?n")
    case None
    with Some show ?thesis by (intro headers) (auto simp: ParseHeader_def)
  next
    case p: (Some p)
    from parser_ok_table [OF p]
    consider hs e where "p ?n ?v = Ok (hs, e)" "list_all good_header hs"
      | "p ?n ?v = Crash" "?n \<in> set address_fields" "blank_address ?v"
      unfolding parser_ok_def by blast
    then show ?thesis
    proof cases
      case 1
      with Some p show ?thesis
        by (intro headers [of hs e]) (auto simp: ParseHeader_def list_all_iff good_header_def)
    next
      case 2
      with Some p show ?thesis by (intro panic [of i]) (simp_all add: ParseHeader_def)
    qed
  qed
qed

end

interpretation dt: parser_table NewPacketParser
proof
  fix name p
  assume "map_of NewPacketParser name = Some p"
  then have "(name, p) \<in> set defaultHeaderParsers" unfolding NewPacketParser_eq by (rule map_of_SomeD)
  then show "parser_ok name p"
    unfolding defaultHeaderParsers_def
    by (auto simp: parser_ok_routes parser_ok_via parser_ok_simple parser_ok_parseAddressHeader)
qed

lemma header_typed_generic:
  "header_typed (GenericHeader g) \<longleftrightarrow> map_of NewPacketParser (strings_ToLower (HeaderName g)) = None"
  by (simp add: header_typed_def)

lemma ParseHeader_good:
  "ParseHeader NewPacketParser t = Ok (hs, e) \<Longrightarrow> list_all good_header hs"
  by (rule dt.ParseHeader_cases [of t])
     (simp_all add: list_all_iff good_header_def, metis header_typed_generic)

lemma ParseHeader_crash:
  assumes "ParseHeader NewPacketParser t = Crash"
  shows "\<exists>i. strings_Index t '':'' = Some i \<and>
      strings_ToLower (strings_TrimSpace (take i t)) \<in> set address_fields \<and>
      blank_address (strings_TrimSpace (drop (i + 1) t))"
  using assms by (auto intro: dt.ParseHeader_cases [of t])

end
