(* ===== verification/Parser_RoundTrip.thy ===== *)
theory Parser_RoundTrip
  imports Parser_HeaderProps
begin

text \<open>
  Round trips of headers: \<open>ParseHeader\<close> reads back what \<open>String\<close> prints, for every
  header that satisfies \<open>printable_header\<close>.
\<close>

section \<open>Quotes and brackets in printed text\<close>

text \<open>The number of quotes decides whether the loop over addresses is inside quotes.\<close>

lemma scan_quotes: "snd (scan s b q) \<longleftrightarrow> (odd (count_list s quote) \<noteq> q)"
  by (induction s b q rule: scan.induct) auto

lemma scan_no_brackets:
  "CHR ''<'' \<notin> set s \<Longrightarrow> CHR ''>'' \<notin> set s \<Longrightarrow> fst (scan s b q) = b"
  by (induction s b q rule: scan.induct) auto

lemma segments_no_comma:
  "CHR '','' \<notin> set s \<Longrightarrow>
   address_segments (s @ t) seg b q = (case scan s b q of (b', q') \<Rightarrow> address_segments t (seg @ s) b' q')"
  by (induction s arbitrary: seg b q) auto

lemma segments_in_brackets:
  "CHR ''>'' \<notin> set s \<Longrightarrow>
   address_segments (s @ t) seg True q = address_segments t (seg @ s) True (snd (scan s True q))"
  by (induction s arbitrary: seg q) auto

lemma segments_in_quotes:
  "quote \<notin> set s \<Longrightarrow> address_segments (s @ t) seg b True = address_segments t (seg @ s) b True"
  by (induction s arbitrary: seg) auto

lemma count_param_string: "printable_param end sg kv \<Longrightarrow> even (count_list (param_string kv) quote)"
proof -
  have e: "count_list (esc EncodeQueryComponent t) quote = 0" for t
    using esc_query_char [of quote t] by (intro count_notin) (auto simp: query_char_def)
  assume "printable_param end sg kv"
  then show ?thesis
    using e by (cases kv; cases "snd kv"; cases "strings_ContainsAny (the (snd kv)) abnfWs")
      (auto simp: param_string_def printable_param_def param_value_string_simps quote_CHR)
qed

lemma count_params:
  assumes "printable_params end sg ps" and "sep \<noteq> quote"
  shows "even (count_list (params_ToString ps sep) quote)"
proof -
  have "even (count_list (strings_Join (map param_string al) [sep]) quote)"
    if "list_all (printable_param end sg) al" for al
    using that
  proof (induction al)
    case (Cons kv al)
    then show ?case using assms(2) count_param_string [of "end" sg kv] by (cases al) auto
  qed simp
  with assms show ?thesis by (simp add: printable_params_def params_ToString_Join)
qed

lemma last_params:
  assumes "printable_params end sg ps" and "section_sep sep" and "\<not> is_space c"
  shows "\<not> is_space (last (c # params_ToString ps sep))"
proof -
  have sp: "\<not> is_space CHR ''=''" "\<not> is_space quote" "\<not> is_space CHR '';''" "\<not> is_space CHR ''&''" by code_simp+
  then have sep: "\<not> is_space sep" using assms(2) by (auto simp: section_sep_def)
  have e: "\<not> is_space (last (d # esc EncodeQueryComponent t))" if "CHR '' '' \<notin> set t" "\<not> is_space d" for t d
  proof (cases "esc EncodeQueryComponent t = []")
    case False
    then have l: "last (esc EncodeQueryComponent t) \<in> set (esc EncodeQueryComponent t)" by simp
    have "CHR '' '' \<notin> set (CHR ''%'' # upperhex)" by code_simp
    then have "last (esc EncodeQueryComponent t) \<noteq> CHR '' ''" using that esc_keeps l by metis
    with esc_query_char [OF l] False show ?thesis by (auto simp: query_char_def)
  qed (use that in simp)
  have v: "\<not> is_space (last (d # param_string kv))" if "printable_param end sg kv" "\<not> is_space d" for kv d
  proof -
    obtain k w where kv: "kv = (k, w)" by force
    show ?thesis
    proof (cases w)
      case None
      with that kv e [of k d] show ?thesis by (simp add: param_string_def printable_param_def param_value_string_simps)
    next
      case (Some t)
      show ?thesis
      proof (cases "strings_ContainsAny t abnfWs")
        case True
        with Some kv that sp show ?thesis by (auto simp: param_string_def printable_param_def param_value_string_simps)
      next
        case False
        with e [OF not_ContainsAny_space [OF False] sp(1)] Some kv that show ?thesis
          by (auto simp: param_string_def printable_param_def param_value_string_simps split: if_splits)
      qed
    qed
  qed
  have "\<not> is_space (last (c # strings_Join (map param_string al) [sep]))"
    if "list_all (printable_param end sg) al" "\<not> is_space c" for al c
    using that
  proof (induction al arbitrary: c)
    case (Cons kv al)
    show ?case
    proof (cases "al = []")
      case True
      with Cons.prems v [of kv c] show ?thesis by simp
    next
      case False
      with Cons.IH [of sep] Cons.prems sep show ?thesis by (cases al) auto
    qed
  qed simp
  with assms show ?thesis by (simp add: printable_params_def params_ToString_Join)
qed

section \<open>Addresses\<close>

fun printable_address :: "uri \<Rightarrow> bool" where
  "printable_address (SipUri u) \<longleftrightarrow> printable_uri u"
| "printable_address WildcardUri \<longleftrightarrow> True"
| "printable_address WildcardUriPtr \<longleftrightarrow> False"

text \<open>Text that fits between angle brackets on one line.\<close>

definition bracket_text :: "bytes \<Rightarrow> bool" where
  "bracket_text s \<longleftrightarrow> CHR ''<'' \<notin> set s \<and> CHR ''>'' \<notin> set s \<and> even (count_list s quote)
     \<and> (\<forall>c\<in>set s. byte c < 128 \<and> (is_space c \<longrightarrow> c = CHR '' ''))"

lemma bracket_text_append [simp]: "bracket_text s \<Longrightarrow> bracket_text t \<Longrightarrow> bracket_text (s @ t)"
  by (auto simp: bracket_text_def)

lemma bracket_text_plain:
  assumes "\<And>c. c \<in> set s \<Longrightarrow> c \<noteq> CHR ''<'' \<and> c \<noteq> CHR ''>'' \<and> c \<noteq> quote \<and> \<not> is_space c \<and> byte c < 128"
  shows "bracket_text s"
proof -
  have "CHR ''<'' \<notin> set s" "CHR ''>'' \<notin> set s" "quote \<notin> set s" using assms by blast+
  with assms show ?thesis by (simp add: bracket_text_def)
qed

lemma bracket_text_const [simp]:
  "bracket_text ''sip:''" "bracket_text ''sips:''" "bracket_text '':''" "bracket_text ''@''" "bracket_text ''*''"
  "bracket_text '';''" "bracket_text ''?''" "bracket_text []"
  by (simp_all add: bracket_text_def is_space_def ws_chars_CHR quote_CHR)

lemma esc_bracket_text: "bracket_text (esc EncodeUserPassword s)"
proof (rule bracket_text_plain)
  fix c
  assume c: "c \<in> set (esc EncodeUserPassword s)"
  have "list_all (\<lambda>d. hex_needed EncodeUserPassword d \<and> d \<notin> set (CHR ''%'' # upperhex)) [CHR ''<'', CHR ''>'', quote]"
    by code_simp
  then have "d \<notin> set (esc EncodeUserPassword s)" if "d \<in> set [CHR ''<'', CHR ''>'', quote]" for d
    using that not_esc [of EncodeUserPassword d s] by (auto simp: list_all_iff)
  with c have "c \<noteq> CHR ''<''" "c \<noteq> CHR ''>''" "c \<noteq> quote" by auto
  with esc_chars [OF c] show "c \<noteq> CHR ''<'' \<and> c \<noteq> CHR ''>'' \<and> c \<noteq> quote \<and> \<not> is_space c \<and> byte c < 128"
    by simp
qed

lemma userinfo_bracket_text: "bracket_text (userinfo_text user pass)"
  using bracket_text_const by (auto simp: userinfo_text_def esc_bracket_text
      simp flip: append.simps(2) split: option.splits intro!: bracket_text_append simp del: append_Cons)

lemma host_bracket_text:
  assumes "printable_host host p"
  shows "bracket_text (esc EncodeHost host @ port_text p)"
  by (rule bracket_text_plain) (use host_chars_print [OF assms] in simp)

lemma params_bracket_text:
  assumes "printable_params end sg ps" and "section_sep sep" and "intro \<in> {'';'', ''?''}"
  shows "bracket_text (params_section intro (Some ps) sep)"
proof -
  have sep: "sep \<noteq> quote" using assms(2) by (auto simp: section_sep_def quote_CHR)
  have "c \<in> set (params_ToString ps sep) \<Longrightarrow> byte c < 128 \<and> c \<noteq> CHR ''<'' \<and> c \<noteq> CHR ''>'' \<and> (is_space c \<longrightarrow> c = CHR '' '')" for c
  proof -
    have "list_all (\<lambda>d. byte d < 128 \<and> d \<noteq> CHR ''<'' \<and> d \<noteq> CHR ''>'' \<and> \<not> is_space d) [quote, CHR '';'', CHR ''&'']"
      by code_simp
    then show "c \<in> set (params_ToString ps sep) \<Longrightarrow> ?thesis"
      using params_ToString_chars [OF assms(1), of c sep] assms(2) by (auto simp: query_char_def section_sep_def)
  qed
  with count_params [OF assms(1) sep] have "bracket_text (params_ToString ps sep)"
    unfolding bracket_text_def by blast
  with assms(3) show ?thesis by (auto simp: params_section_def simp flip: append.simps(2) simp del: append_Cons
        intro!: bracket_text_append)
qed

lemma uri_bracket_text:
  assumes "printable_address a"
  shows "bracket_text (uri_String a)" and "uri_String a \<noteq> []"
proof -
  have "bracket_text (uri_String a) \<and> uri_String a \<noteq> []"
  proof (cases a)
    case (SipUri u)
    with assms have u: "printable_uri u" by simp
    then obtain ps hs where p: "FUriParams u = Some ps" "FHeaders u = Some hs"
      and ps: "printable_params CHR ''?'' True ps" and hs: "printable_params nul False hs"
      and host: "printable_host (FHost u) (FPort u)"
      by (auto simp: printable_uri_def split: option.splits)
    have b: "bracket_text (if FIsEncrypted u then ''sips:'' else ''sip:'')" by simp
    have "bracket_text (SipUri_String u)"
      unfolding SipUri_String_parts [OF u] p
      by (intro bracket_text_append b userinfo_bracket_text host_bracket_text [OF host]
          params_bracket_text [OF ps section_facts(4)] params_bracket_text [OF hs section_facts(5)]) simp_all
    moreover have "SipUri_String u \<noteq> []" by (simp add: SipUri_String_def)
    ultimately show ?thesis using SipUri by simp
  qed (use assms in auto)
  then show "bracket_text (uri_String a)" and "uri_String a \<noteq> []" by simp_all
qed

lemma ParseUri_address:
  assumes "printable_address a"
  shows "ParseUri (uri_String a) = Ok a"
proof (cases a)
  case WildcardUri
  have "strings_TrimSpace ''*'' = ''*''" by code_simp
  with WildcardUri show ?thesis by (simp add: ParseUri_def)
qed (use assms ParseUri_print in auto)

definition one_line :: "bytes \<Rightarrow> bool" where
  "one_line s \<longleftrightarrow> CHR 0x0D \<notin> set s \<and> CHR 0x0A \<notin> set s"

definition printable_name :: "maybe_string \<Rightarrow> bool" where
  "printable_name n \<longleftrightarrow> (case n of None \<Rightarrow> True | Some s \<Rightarrow> s \<noteq> [] \<and> quote \<notin> set s \<and> one_line s)"

definition address_text :: "maybe_string \<Rightarrow> uri \<Rightarrow> headerParams \<Rightarrow> bytes" where
  "address_text n a ps =
     display_prefix n @ CHR ''<'' # uri_String a @ CHR ''>'' # params_section '';'' (Some ps) CHR '';''"

definition printable_triple :: "address \<Rightarrow> bool" where
  "printable_triple = (\<lambda>(n, a, ps).
     printable_name n \<and> printable_address a \<and> printable_params CHR '','' True ps)"

lemma display_prefix_simps:
  "display_prefix None = []"
  "s \<noteq> [] \<Longrightarrow> display_prefix (Some s) = quote # s @ quote # '' ''"
  by (simp_all add: display_prefix_def)

lemma params_no_comma:
  assumes "printable_params CHR '','' True ps"
  shows "CHR '','' \<notin> set (params_section '';'' (Some ps) CHR '';'')"
proof -
  have c: "CHR '','' \<notin> set (CHR ''%'' # upperhex)" by code_simp
  have "params_without CHR '','' ps"
    using assms by (auto simp: printable_params_def params_without_def list_all_iff printable_param_def
        printable_text_def split: option.splits)
  then have "CHR '','' \<notin> set (params_ToString ps CHR '';'')"
    using assms c by (intro params_ToString_without) (simp_all add: printable_params_def)
  then show ?thesis by (simp add: params_section_def)
qed

lemma address_segments_text:
  assumes "printable_triple (n, a, ps)"
  shows "address_segments (address_text n a ps @ CHR '','' # rest) seg False False =
    (seg @ address_text n a ps) # address_segments rest [] False False"
proof -
  have a: "bracket_text (uri_String a)" and ps: "printable_params CHR '','' True ps" and n: "printable_name n"
    using assms uri_bracket_text by (auto simp: printable_triple_def)
  let ?P = "params_section '';'' (Some ps) CHR '';''"
  have P: "bracket_text ?P" by (rule params_bracket_text [OF ps section_facts(4)]) simp
  have p1: "address_segments (?P @ CHR '','' # rest) sg False False = (sg @ ?P) # address_segments rest [] False False" for sg
  proof -
    have "scan ?P False False = (False, False)"
      using P scan_quotes [of ?P False False] scan_no_brackets [of ?P False False]
      by (cases "scan ?P False False") (simp add: bracket_text_def)
    then show ?thesis using params_no_comma [OF ps] by (simp add: segments_no_comma)
  qed
  have p2: "address_segments (CHR ''<'' # uri_String a @ CHR ''>'' # ?P @ CHR '','' # rest) sg False False =
      (sg @ CHR ''<'' # uri_String a @ CHR ''>'' # ?P) # address_segments rest [] False False" for sg
    using a scan_quotes [of "uri_String a" True False] p1 [of "sg @ CHR ''<'' # uri_String a @ [CHR ''>'']"]
    by (simp add: segments_in_brackets bracket_text_def)
  show ?thesis
  proof (cases n)
    case None
    with p2 show ?thesis by (simp add: address_text_def display_prefix_simps)
  next
    case (Some s)
    with n have s: "s \<noteq> []" "quote \<notin> set s" by (auto simp: printable_name_def)
    show ?thesis
      using p2 [of "seg @ quote # s @ quote # '' ''"] s
      by (simp add: Some address_text_def display_prefix_simps segments_in_quotes)
  qed
qed

lemma last_address:
  assumes "printable_params CHR '','' True ps"
  shows "\<not> is_space (last (CHR ''>'' # params_section '';'' (Some ps) CHR '';''))"
proof -
  have g: "\<not> is_space CHR ''>''" "\<not> is_space CHR '';''" by code_simp+
  with last_params [OF assms section_facts(4) g(2)] show ?thesis by (simp add: params_section_def)
qed

lemma bracket_part_trim:
  assumes "printable_params CHR '','' True ps"
  shows "strings_TrimSpace (CHR ''<'' # u @ CHR ''>'' # params_section '';'' (Some ps) CHR '';'') =
    CHR ''<'' # u @ CHR ''>'' # params_section '';'' (Some ps) CHR '';''"
proof (rule TrimSpace_id)
  have "\<not> is_space CHR ''<''" by code_simp
  with last_address [OF assms]
  show "CHR ''<'' # u @ CHR ''>'' # params_section '';'' (Some ps) CHR '';'' = [] \<or>
      \<not> is_space (hd (CHR ''<'' # u @ CHR ''>'' # params_section '';'' (Some ps) CHR '';'')) \<and>
      \<not> is_space (last (CHR ''<'' # u @ CHR ''>'' # params_section '';'' (Some ps) CHR '';''))"
    by simp
qed

lemma address_text_trim:
  assumes "printable_triple (n, a, ps)"
  shows "strings_TrimSpace (address_text n a ps) = address_text n a ps"
proof (cases n)
  case None
  with assms show ?thesis by (simp add: address_text_def display_prefix_simps bracket_part_trim printable_triple_def)
next
  case (Some s)
  with assms have "s \<noteq> []" and ps: "printable_params CHR '','' True ps"
    by (auto simp: printable_triple_def printable_name_def)
  then have t: "address_text n a ps =
      (quote # s @ quote # '' '' @ CHR ''<'' # uri_String a) @ CHR ''>'' # params_section '';'' (Some ps) CHR '';''"
    by (simp add: Some address_text_def display_prefix_simps)
  have "\<not> is_space quote" by code_simp
  with last_address [OF ps] show ?thesis unfolding t by (intro TrimSpace_id) simp
qed

lemma ParseAddressValue_text:
  assumes "printable_triple (n, a, ps)" and "list_all is_space sp"
  shows "ParseAddressValue (sp @ address_text n a ps) = Ok (n, a, ps)"
proof -
  have a: "bracket_text (uri_String a)" "uri_String a \<noteq> []" "ParseUri (uri_String a) = Ok a"
    and ps: "printable_params CHR '','' True ps" and n: "printable_name n"
    using assms(1) uri_bracket_text ParseUri_address by (auto simp: printable_triple_def)
  let ?P = "params_section '';'' (Some ps) CHR '';''"
  let ?b = "CHR ''<'' # uri_String a @ CHR ''>'' # ?P"
  have trim: "strings_TrimSpace (sp @ address_text n a ps) = address_text n a ps"
    using assms(2) address_text_trim [OF assms(1)] by (induction sp) (simp_all add: TrimSpace_Cons)
  have params: "?P = [] \<longrightarrow> ps = NewParams"
    "?P \<noteq> [] \<longrightarrow> params_or_err (ParseParams ?P CHR '';'' CHR '';'' CHR '','' True True) = Ok (ps, length ?P)"
  proof -
    show "?P = [] \<longrightarrow> ps = NewParams"
      using ps params_empty [of ps] by (auto simp: params_section_def printable_params_def split: if_splits)
    show "?P \<noteq> [] \<longrightarrow> params_or_err (ParseParams ?P CHR '';'' CHR '';'' CHR '','' True True) = Ok (ps, length ?P)"
      using ParseParams_print [OF ps _ section_facts(3,4), of "CHR '';''" "[]"] section_facts
      by (auto simp: params_section_def params_or_err_def split: if_splits)
  qed
  have "strings_Index (uri_String a @ CHR ''>'' # ?P) ''>'' = Some (length (uri_String a))"
    using a by (simp add: bracket_text_def strings_Index_single_append)
  then have bounds: "address_bounds m ?b = Ok (uri_String a, ?P)" for m
    using a by (simp add: address_bounds_def)
  have bt: "strings_TrimSpace ?b = ?b" by (rule bracket_part_trim [OF ps])
  have tail: "res_bind (address_bounds m ?b) (\<lambda>(uriText, rest).
      res_bind (ParseUri uriText) (\<lambda>uri.
        if rest = [] then Ok (m, uri, NewParams)
        else res_bind (params_or_err (ParseParams rest CHR '';'' CHR '';'' CHR '','' True True))
               (\<lambda>(ps, _). Ok (m, uri, ps)))) = Ok (m, a, ps)" for m
    unfolding bounds using params a(3) by (cases "?P = []") simp_all
  have ne: "sp @ address_text n a ps \<noteq> []" by (simp add: address_text_def)
  show ?thesis
  proof (cases n)
    case None
    then have "address_text n a ps = ?b" by (simp add: address_text_def display_prefix_simps)
    with ne trim bt tail [of None] None show ?thesis
      by (simp add: ParseAddressValue_def findUnescaped_bracket)
  next
    case (Some s)
    with n have s: "s \<noteq> []" "quote \<notin> set s" by (auto simp: printable_name_def)
    have t: "address_text n a ps = quote # s @ quote # '' '' @ ?b"
      using s by (simp add: Some address_text_def display_prefix_simps)
    have "find_bracket (address_text n a ps) False = Some (length s + 3)"
      unfolding t find_bracket_quoted(1) [OF s(2)] by simp
    moreover have "parse_display_name (address_text n a ps) i = Ok (Some s, '' '' @ ?b)" for i
      using s by (simp add: t parse_display_name_def strings_Index_single_append)
    moreover have "strings_TrimSpace ('' '' @ ?b) = ?b"
    proof -
      have "is_space CHR '' ''" by code_simp
      with bt show ?thesis by (simp add: TrimSpace_Cons)
    qed
    ultimately show ?thesis
      using ne trim tail [of "Some s"] Some by (simp add: ParseAddressValue_def findUnescaped_bracket)
  qed
qed

definition address_list_text :: "address list \<Rightarrow> bytes" where
  "address_list_text as = strings_Join (map (\<lambda>(n, a, ps). address_text n a ps) as) '', ''"

lemma parse_all_list:
  assumes "as \<noteq> []" and "list_all printable_triple as" and "list_all is_space sp"
  shows "parse_all (address_segments (address_list_text as @ '','') sp False False) = Ok as"
  using assms
proof (induction as arbitrary: sp)
  case (Cons x as)
  obtain n a ps where x: "x = (n, a, ps)" by (cases x)
  have sp: "is_space CHR '' ''" by code_simp
  show ?case
  proof (cases "as = []")
    case True
    have "address_segments (address_text n a ps @ '','') sp False False = [sp @ address_text n a ps]"
      using address_segments_text [of n a ps "[]" sp] Cons.prems x by simp
    with True x Cons.prems ParseAddressValue_text [of n a ps sp] show ?thesis
      by (simp add: address_list_text_def)
  next
    case False
    then have t: "address_list_text (x # as) = address_text n a ps @ '', '' @ address_list_text as"
      using x by (cases as) (simp_all add: address_list_text_def)
    have "address_segments (address_list_text (x # as) @ '','') sp False False =
        (sp @ address_text n a ps) # address_segments (CHR '' '' # address_list_text as @ '','') [] False False"
      using address_segments_text [of n a ps "CHR '' '' # address_list_text as @ '',''" sp] Cons.prems x t by simp
    also have "address_segments (CHR '' '' # address_list_text as @ '','') [] False False =
        address_segments (address_list_text as @ '','') '' '' False False" by simp
    finally show ?thesis
      using Cons.IH [OF False, of "'' ''"] ParseAddressValue_text [of n a ps sp] Cons.prems x sp by simp
  qed
qed simp

lemma ParseAddressValues_list:
  "as \<noteq> [] \<Longrightarrow> list_all printable_triple as \<Longrightarrow> ParseAddressValues (address_list_text as) = Ok as"
  unfolding ParseAddressValues_eq by (rule parse_all_list) simp_all

lemma address_list_single: "address_list_text [(n, a, ps)] = address_text n a ps"
  by (simp add: address_list_text_def)

section \<open>Lists that are split at commas\<close>

lemma Join_Cons_head: "strings_Join ((c # a) # ss) sep = c # strings_Join (a # ss) sep"
  by (cases ss) simp_all

lemma Join_comma_space:
  "strings_Join (s # ss) '', '' = strings_Join (s # map ((#) CHR '' '') ss) '',''"
  by (induction ss arbitrary: s) (simp_all add: Join_Cons_head)

lemma Split_comma_space:
  assumes "CHR '','' \<notin> set s" and "\<forall>t\<in>set ss. CHR '','' \<notin> set t"
  shows "strings_Split (strings_Join (s # ss) '', '') '','' = s # map ((#) CHR '' '') ss"
  unfolding Join_comma_space by (rule Split_Join_single) (use assms in auto)

definition printable_option :: "bytes \<Rightarrow> bool" where
  "printable_option s \<longleftrightarrow> s \<noteq> [] \<and> strings_TrimSpace s = s \<and> CHR '','' \<notin> set s \<and> one_line s"

lemma options_print:
  assumes "opts \<noteq> []" and "list_all printable_option opts"
  shows "map strings_TrimSpace (strings_Split (strings_Join opts '', '') '','') = opts"
proof -
  obtain s ss where o: "opts = s # ss" using assms(1) by (cases opts) auto
  have "is_space CHR '' ''" by code_simp
  then have "map (strings_TrimSpace \<circ> (#) CHR '' '') ss = ss"
    using assms(2) o by (intro map_idI) (auto simp: TrimSpace_Cons printable_option_def list_all_iff)
  with assms(2) o Split_comma_space [of s ss] show ?thesis
    by (auto simp: printable_option_def list_all_iff)
qed

lemma options_trim:
  assumes "opts \<noteq> []" and "list_all printable_option opts"
  shows "strings_TrimSpace (strings_Join opts '', '') = strings_Join opts '', ''"
proof -
  have e: "o1 \<noteq> [] \<and> \<not> is_space (hd o1) \<and> \<not> is_space (last o1)" if "printable_option o1" for o1
    using that TrimSpace_ends [of o1] by (simp add: printable_option_def)
  have "strings_Join opts '', '' \<noteq> [] \<and> \<not> is_space (hd (strings_Join opts '', '')) \<and> \<not> is_space (last (strings_Join opts '', ''))"
    using assms
  proof (induction opts)
    case (Cons x xs)
    then show ?case using e [of x] by (cases xs) auto
  qed simp
  then show ?thesis by (intro TrimSpace_id) simp
qed

section \<open>Via\<close>

definition token :: "bytes \<Rightarrow> bool" where
  "token s \<longleftrightarrow> s \<noteq> [] \<and> list_all (\<lambda>c. \<not> is_space c \<and> c \<noteq> CHR ''/'' \<and> c \<noteq> CHR '','') s"

definition printable_hop :: "via_hop \<Rightarrow> bool" where
  "printable_hop hop \<longleftrightarrow> token (ProtocolName hop) \<and> token (ProtocolVersion hop) \<and> token (Transport hop)
     \<and> Host hop \<noteq> [] \<and> list_all (\<lambda>c. host_byte c \<and> c \<noteq> CHR ''%'' \<and> c \<noteq> CHR '';'' \<and> c \<noteq> CHR '','') (Host hop)
     \<and> (Port hop = None \<longrightarrow> CHR '':'' \<notin> set (Host hop))
     \<and> (case HParams hop of
          Some ps \<Rightarrow> printable_params nul True ps \<and> params_without CHR '','' ps
        | None \<Rightarrow> False)"

lemma IndexAny_append:
  "\<forall>c\<in>set s. c \<notin> set chars \<Longrightarrow> d \<in> set chars \<Longrightarrow> strings_IndexAny (s @ d # t) chars = Some (length s)"
  by (induction s) auto

lemma abnfWs_space: "c \<in> set abnfWs \<Longrightarrow> is_space c"
proof -
  have "list_all is_space abnfWs" by code_simp
  then show "c \<in> set abnfWs \<Longrightarrow> is_space c" by (simp add: list_all_iff)
qed

lemma parse_hop_body_print:
  assumes "printable_hop hop"
  shows "parse_hop_body (hop\<lparr>Host := h, Port := p, HParams := q\<rparr>)
      (Host hop @ port_text (Port hop) @ params_section '';'' (HParams hop) CHR '';'') = Ok (hop, None)"
proof -
  obtain ps where ps: "HParams hop = Some ps" "printable_params nul True ps"
    using assms by (auto simp: printable_hop_def split: option.splits)
  have host: "list_all (\<lambda>c. host_byte c \<and> c \<noteq> CHR ''%'') (Host hop)" "CHR '';'' \<notin> set (Host hop)"
    "Port hop = None \<Longrightarrow> CHR '':'' \<notin> set (Host hop)"
    using assms by (auto simp: printable_hop_def list_all_iff)
  let ?hp = "Host hop @ port_text (Port hop)"
  have hp: "ParseHostPort ?hp = Ok (Host hop, Port hop)"
    using host by (intro ParseHostPort_print parse_host_raw) auto
  have "CHR '';'' \<notin> set (port_text (Port hop))"
    using fmt_port_chars digit_neq by (fastforce simp: port_text_def split: option.splits)
  with host have semi: "CHR '';'' \<notin> set ?hp" by simp
  show ?thesis
  proof (cases "params ps = []")
    case True
    then have "ps = NewParams" using ps params_empty by (simp add: printable_params_def)
    with True ps hp semi show ?thesis
      by (simp add: parse_hop_body_def params_section_def strings_Index_single_None [THEN iffD2])
  next
    case False
    let ?P = "CHR '';'' # params_ToString ps CHR '';''"
    have i: "strings_Index (?hp @ ?P) '';'' = Some (length ?hp)" by (rule strings_Index_single_append [OF semi])
    have "ParseParams ?P CHR '';'' CHR '';'' nul True True = Ok (ps, length ?P, None)"
      using ParseParams_print [OF ps(2) False section_facts(2,4), of "CHR '';''" "[]"] section_facts by simp
    with i hp ps(1) False show ?thesis
      unfolding parse_hop_body_def
      by (simp add: params_section_def)
  qed
qed

lemma token_trim: "token s \<Longrightarrow> strings_TrimSpace s = s"
  by (rule TrimSpace_no_space) (simp add: token_def list_all_iff)

lemma TrimSpace_prefix: "list_all is_space sp \<Longrightarrow> strings_TrimSpace (sp @ s) = strings_TrimSpace s"
  by (induction sp) (simp_all add: TrimSpace_Cons)

lemma parse_hop_print:
  assumes "printable_hop hop" and "list_all is_space sp"
  shows "parse_hop (sp @ ViaHop_String hop) None = Ok (hop, None)"
proof -
  define p2 where "p2 = Transport hop @ CHR '' '' # Host hop @ port_text (Port hop) @ params_section '';'' (HParams hop) CHR '';''"
  have tok: "token (ProtocolName hop)" "token (ProtocolVersion hop)" "token (Transport hop)"
    using assms(1) by (simp_all add: printable_hop_def)
  have slash: "CHR ''/'' \<notin> set (sp @ ProtocolName hop)" "CHR ''/'' \<notin> set (ProtocolVersion hop)"
  proof -
    have "\<not> is_space CHR ''/''" by code_simp
    with tok assms(2) show "CHR ''/'' \<notin> set (sp @ ProtocolName hop)" "CHR ''/'' \<notin> set (ProtocolVersion hop)"
      by (auto simp: token_def list_all_iff)
  qed
  have t: "sp @ ViaHop_String hop = (sp @ ProtocolName hop) @ CHR ''/'' # ProtocolVersion hop @ CHR ''/'' # p2"
    by (simp add: ViaHop_String_def p2_def port_text_def split: option.splits)
  have split: "strings_Split (sp @ ViaHop_String hop) ''/'' =
      (sp @ ProtocolName hop) # ProtocolVersion hop # strings_Split p2 ''/''"
    unfolding t using slash by (simp add: strings_Split_single del: append_assoc)
  have ws: "\<forall>c\<in>set (Transport hop). c \<notin> set abnfWs" "CHR '' '' \<in> set abnfWs"
    using tok(3) abnfWs_space by (auto simp: token_def list_all_iff abnfWs_def)
  have "strings_TrimLeft p2 abnfWs = p2"
    using tok(3) ws by (cases "Transport hop") (auto simp: strings_TrimLeft_def p2_def token_def)
  moreover have "strings_IndexAny p2 abnfWs = Some (length (Transport hop))"
    unfolding p2_def by (rule IndexAny_append [OF ws])
  moreover have "0 < length (Transport hop)" using tok(3) by (simp add: token_def)
  moreover have "strings_Join (strings_Split p2 ''/'') ''/'' = p2" by (rule strings_Join_Split) simp
  moreover have "strings_Split p2 ''/'' \<noteq> []" by (rule strings_Split_nonempty) simp
  moreover have "take (length (Transport hop)) p2 = Transport hop"
    "drop (Suc (length (Transport hop))) p2 = Host hop @ port_text (Port hop) @ params_section '';'' (HParams hop) CHR '';''"
    by (simp_all add: p2_def)
  moreover have "strings_TrimSpace (sp @ ProtocolName hop) = ProtocolName hop"
    using assms(2) tok(1) by (simp add: TrimSpace_prefix token_trim)
  moreover have "parse_hop_body \<lparr>ProtocolName = ProtocolName hop, ProtocolVersion = ProtocolVersion hop,
      Transport = Transport hop, Host = [], Port = None, HParams = None\<rparr>
      (Host hop @ port_text (Port hop) @ params_section '';'' (HParams hop) CHR '';'') = Ok (hop, None)"
    using parse_hop_body_print [OF assms(1), where h = "[]" and p = None and q = None] by (cases hop) simp
  moreover have "ProtocolName hop \<noteq> []" "ProtocolVersion hop \<noteq> []" "Transport hop \<noteq> []"
    using tok by (simp_all add: token_def)
  ultimately show ?thesis
    using tok by (simp add: parse_hop_def split token_trim)
qed

lemma token_no_comma: "token s \<Longrightarrow> CHR '','' \<notin> set s"
  by (auto simp: token_def list_all_iff)

lemma hop_no_comma:
  assumes "printable_hop hop"
  shows "CHR '','' \<notin> set (ViaHop_String hop)"
proof -
  obtain ps where ps: "HParams hop = Some ps" "printable_params nul True ps" "params_without CHR '','' ps"
    using assms by (auto simp: printable_hop_def split: option.splits)
  have c: "CHR '','' \<notin> set (CHR ''%'' # upperhex)" by code_simp
  have "CHR '','' \<notin> set (params_ToString ps CHR '';'')"
    using ps c by (intro params_ToString_without) (simp_all add: printable_params_def)
  moreover have "\<not> is_digit CHR '',''" by code_simp
  then have "CHR '','' \<notin> set (fmt_port p)" for p using fmt_port_chars by blast
  moreover have "CHR '','' \<notin> set (ProtocolName hop)" "CHR '','' \<notin> set (ProtocolVersion hop)"
    "CHR '','' \<notin> set (Transport hop)" "CHR '','' \<notin> set (Host hop)"
    using assms by (auto simp: printable_hop_def list_all_iff dest: token_no_comma)
  ultimately show ?thesis
    by (simp add: ViaHop_String_def ps(1) params_section_def split: option.splits)
qed

lemma via_loop_print:
  assumes "list_all printable_hop hops" and "length sps = length hops" and "list_all (list_all is_space) sps"
  shows "via_loop (map2 (\<lambda>sp hop. sp @ ViaHop_String hop) sps hops) via None = Ok ([ViaHeader (via @ hops)], None)"
  using assms(2,1,3)
  by (induction sps hops arbitrary: via rule: list_induct2) (simp_all add: parse_hop_print)

lemma ViaHeader_Value_Join: "ViaHeader_Value hops = strings_Join (map ViaHop_String hops) '', ''"
proof (induction hops)
  case (Cons hop hops)
  then show ?case by (cases hops) simp_all
qed simp

lemma parseViaHeader_print:
  assumes "hops \<noteq> []" and "list_all printable_hop hops"
  shows "parseViaHeader name (ViaHeader_Value hops) = Ok ([ViaHeader hops], None)"
proof -
  obtain h hs where hops: "hops = h # hs" using assms(1) by (cases hops) auto
  have "strings_Split (ViaHeader_Value hops) '','' = ViaHop_String h # map ((#) CHR '' '') (map ViaHop_String hs)"
    unfolding ViaHeader_Value_Join hops list.map
    by (rule Split_comma_space) (use assms(2) hops hop_no_comma in \<open>auto simp: list_all_iff\<close>)
  also have "\<dots> = map2 (\<lambda>sp hop. sp @ ViaHop_String hop) ([] # replicate (length hs) '' '') hops"
  proof -
    have "map2 (\<lambda>sp hop. sp @ ViaHop_String hop) (replicate (length hs) '' '') hs = map ((#) CHR '' '' \<circ> ViaHop_String) hs"
      by (induction hs) simp_all
    then show ?thesis by (simp add: hops)
  qed
  finally have s: "strings_Split (ViaHeader_Value hops) '','' =
      map2 (\<lambda>sp hop. sp @ ViaHop_String hop) ([] # replicate (length hs) '' '') hops" .
  have "is_space CHR '' ''" by code_simp
  then show ?thesis
    unfolding parseViaHeader_def s
    by (subst via_loop_print) (use assms(2) hops in \<open>simp_all add: list_all_iff\<close>)
qed

section \<open>CSeq and numbers\<close>

definition word_text :: "bytes \<Rightarrow> bool" where
  "word_text s \<longleftrightarrow> s \<noteq> [] \<and> list_all (\<lambda>c. \<not> is_space c \<and> byte c < 128 \<and> c \<noteq> CHR '';'') s"

lemma split_loop_word:
  assumes "\<forall>c\<in>set s. c \<notin> set abnfWs"
  shows "split_loop (map (\<lambda>c. [c]) s @ ss) b buf r = split_loop ss (b \<or> s \<noteq> []) (buf @ s) r"
  using assms by (induction s arbitrary: b buf) simp_all

lemma SplitByWhitespace_two:
  assumes "ascii a" and "ascii b" and "\<forall>c\<in>set (a @ b). c \<notin> set abnfWs" and "b \<noteq> []"
  shows "SplitByWhitespace (a @ CHR '' '' # b) = [a, b]"
proof -
  have "ascii (a @ CHR '' '' # b)" using assms(1,2) by (simp add: ascii_def)
  then have r: "rune_strings (a @ CHR '' '' # b) = map (\<lambda>c. [c]) a @ [CHR '' ''] # map (\<lambda>c. [c]) b @ []"
    by (simp add: rune_strings_ascii)
  have sp: "CHR '' '' \<in> set abnfWs" by (simp add: abnfWs_def)
  have ab: "\<forall>c\<in>set a. c \<notin> set abnfWs" "\<forall>c\<in>set b. c \<notin> set abnfWs" using assms(3) by auto
  show ?thesis
    unfolding SplitByWhitespace_def r split_loop_word [OF ab(1)]
    using sp assms(4) split_loop_word [OF ab(2), of "[]" False "[]" "[a]"] by simp
qed

lemma digits_plain: "\<forall>c\<in>set s. is_digit c \<Longrightarrow> ascii s \<and> (\<forall>c\<in>set s. \<not> is_space c)"
  by (auto simp: ascii_def list_all_iff is_digit_def is_space_def ws_chars_CHR)

lemma fmt_u32_digits: "\<forall>c\<in>set (fmt_u32 n). is_digit c"
  by (auto simp: fmt_u32_def dest: fmt_d_digits)

lemma ParseUint_fmt_u32: "strconv_ParseUint (fmt_u32 n) 32 = (unat n, None)"
proof -
  have "unat n < 2 ^ 32" using unsigned_less [of n] by simp
  then show ?thesis unfolding fmt_u32_def by (rule ParseUint_fmt_d)
qed

lemma fmt_u32_trim [simp]: "strings_TrimSpace (fmt_u32 n) = fmt_u32 n"
  using fmt_u32_digits [of n] digits_plain by (intro TrimSpace_no_space) blast

lemma parse_u32_print [simp]: "parse_u32 (fmt_u32 n) = (n, None)"
  by (simp add: parse_u32_def ParseUint_fmt_u32)

lemma parseCSeq_print:
  assumes "unat (SeqNo c) \<le> maxCseq" and "word_text (MethodName c)"
  shows "parseCSeq name (CSeq_Value c) = Ok ([CSeq c], None)"
proof -
  have m: "ascii (MethodName c)" "\<forall>x\<in>set (MethodName c). \<not> is_space x" "MethodName c \<noteq> []" "CHR '';'' \<notin> set (MethodName c)"
    using assms(2) by (auto simp: word_text_def ascii_def list_all_iff)
  have d: "ascii (fmt_u32 (SeqNo c))" "\<forall>x\<in>set (fmt_u32 (SeqNo c)). \<not> is_space x"
    using digits_plain [OF fmt_u32_digits] by auto
  have "SplitByWhitespace (CSeq_Value c) = [fmt_u32 (SeqNo c), MethodName c]"
    unfolding CSeq_Value_def append.simps
    by (rule SplitByWhitespace_two) (use m d abnfWs_space in auto)
  moreover have "strings_TrimSpace (MethodName c) = MethodName c" using m(2) by (rule TrimSpace_no_space)
  ultimately show ?thesis
    using assms(1) m by (simp add: parseCSeq_def ParseUint_fmt_u32)
qed

lemma CSeq_Value_trim:
  assumes "word_text (MethodName c)"
  shows "strings_TrimSpace (CSeq_Value c) = CSeq_Value c"
proof (rule TrimSpace_id)
  have "fmt_u32 (SeqNo c) \<noteq> []" by (simp add: fmt_u32_def)
  moreover have "\<forall>x\<in>set (fmt_u32 (SeqNo c)). \<not> is_space x" using digits_plain [OF fmt_u32_digits] by auto
  moreover have "MethodName c \<noteq> []" "\<forall>x\<in>set (MethodName c). \<not> is_space x"
    using assms by (auto simp: word_text_def list_all_iff)
  ultimately show "CSeq_Value c = [] \<or> \<not> is_space (hd (CSeq_Value c)) \<and> \<not> is_space (last (CSeq_Value c))"
    by (simp add: CSeq_Value_def)
qed

section \<open>Headers\<close>

definition printable_value :: "bytes \<Rightarrow> bool" where
  "printable_value s \<longleftrightarrow> strings_TrimSpace s = s \<and> one_line s"

definition printable_call_id :: "bytes \<Rightarrow> bool" where
  "printable_call_id s \<longleftrightarrow> s \<noteq> [] \<and> list_all (\<lambda>c. \<not> is_space c \<and> c \<noteq> CHR '';'') s"

definition printable_addr_header :: "addr_header \<Rightarrow> bool" where
  "printable_addr_header h \<longleftrightarrow>
     (case (Address h, Params h) of
        (Some a, Some ps) \<Rightarrow> a \<noteq> WildcardUri \<and> printable_triple (DisplayName h, a, ps)
      | _ \<Rightarrow> False)"

text \<open>The headers that a registered parser, or the generic one, reads back.  A Proxy-Require,
  Unsupported, WWW-Authenticate or Event header has no parser of its own and comes back as a
  generic header.\<close>

fun printable_header :: "header \<Rightarrow> bool" where
  "printable_header (GenericHeader g) \<longleftrightarrow>
     HeaderName g \<noteq> [] \<and> CHR '':'' \<notin> set (HeaderName g) \<and> printable_value (HeaderName g) \<and> printable_value (Contents g)
     \<and> map_of NewPacketParser (strings_ToLower (HeaderName g)) = None"
| "printable_header (ToHeader h) \<longleftrightarrow> printable_addr_header h"
| "printable_header (FromHeader h) \<longleftrightarrow> printable_addr_header h"
| "printable_header (ContactHeader h) \<longleftrightarrow>
     (case CParams h of
        Some ps \<Rightarrow> printable_triple (CDisplayName h, CAddress h, ps)
          \<and> (CAddress h = WildcardUri \<longrightarrow> CDisplayName h = None \<and> params ps = [])
      | None \<Rightarrow> False)"
| "printable_header (CallID s) \<longleftrightarrow> printable_call_id s"
| "printable_header (CSeq c) \<longleftrightarrow> unat (SeqNo c) \<le> maxCseq \<and> word_text (MethodName c)"
| "printable_header (MaxForwards n) \<longleftrightarrow> True"
| "printable_header (Expires n) \<longleftrightarrow> True"
| "printable_header (ContentLength n) \<longleftrightarrow> True"
| "printable_header (ViaHeader hops) \<longleftrightarrow> hops \<noteq> [] \<and> list_all printable_hop hops"
| "printable_header (RequireHeader opts) \<longleftrightarrow> opts \<noteq> [] \<and> list_all printable_option opts"
| "printable_header (SupportedHeader opts) \<longleftrightarrow> opts \<noteq> [] \<and> list_all printable_option opts"
| "printable_header (AllowHeader opts) \<longleftrightarrow> opts \<noteq> [] \<and> list_all printable_option opts"
| "printable_header (UserAgentHeader s) \<longleftrightarrow> printable_value s"
| "printable_header (ServerHeader s) \<longleftrightarrow> printable_value s"
| "printable_header (ContentType s) \<longleftrightarrow> printable_value s"
| "printable_header (Accept s) \<longleftrightarrow> printable_value s"
| "printable_header (RouteHeader us) \<longleftrightarrow> us \<noteq> [] \<and> list_all printable_address us"
| "printable_header (RecordRouteHeader us) \<longleftrightarrow> us \<noteq> [] \<and> list_all printable_address us"
| "printable_header _ \<longleftrightarrow> False"

lemma ParseHeader_line:
  assumes "CHR '':'' \<notin> set name" and "strings_TrimSpace name = name" and "strings_TrimSpace v = v"
  shows "ParseHeader pp (name @ '': '' @ v) =
    (case map_of pp (strings_ToLower name) of
       Some p \<Rightarrow> p (strings_ToLower name) v
     | None \<Rightarrow> Ok ([GenericHeader \<lparr>HeaderName = name, Contents = v\<rparr>], None))"
proof -
  have "is_space CHR '' ''" by code_simp
  then have "strings_TrimSpace (CHR '' '' # v) = v" using assms(3) by (simp add: TrimSpace_Cons)
  with assms show ?thesis by (simp add: ParseHeader_def Let_def strings_Index_single_append)
qed

lemma addr_header_text:
  assumes "printable_addr_header h"
  obtains a ps where "Address h = Some a" "Params h = Some ps" "a \<noteq> WildcardUri"
    "printable_triple (DisplayName h, a, ps)" "ToHeader_Value h = address_text (DisplayName h) a ps"
    "FromHeader_Value h = address_text (DisplayName h) a ps"
  using assms
  by (auto simp: printable_addr_header_def ToHeader_Value_def FromHeader_Value_def address_text_def fmt_uri_def
      split: option.splits)

lemma contact_text:
  assumes "printable_triple (CDisplayName h, CAddress h, ps)" and "CParams h = Some ps"
  shows "ContactHeader_Value h = address_text (CDisplayName h) (CAddress h) ps"
  using assms
  by (cases "CAddress h") (simp_all add: ContactHeader_Value_def address_text_def printable_triple_def)

lemma route_text:
  assumes "list_all printable_address us"
  shows "strings_Join (map (\<lambda>u. ''<'' @ uri_String u @ ''>'') us) '', '' =
      address_list_text (map (\<lambda>u. (None, u, NewParams)) us)"
    and "list_all printable_triple (map (\<lambda>u. (None, u, NewParams)) us)"
proof -
  have "printable_params CHR '','' True NewParams" by (simp add: printable_params_def) (simp add: NewParams_def)
  with assms show "list_all printable_triple (map (\<lambda>u. (None, u, NewParams)) us)"
    by (simp add: list_all_iff printable_triple_def printable_name_def)
  have "params NewParams = []" by (simp add: NewParams_def)
  then show "strings_Join (map (\<lambda>u. ''<'' @ uri_String u @ ''>'') us) '', '' =
      address_list_text (map (\<lambda>u. (None, u, NewParams)) us)"
    by (simp add: address_list_text_def comp_def address_text_def display_prefix_simps params_section_def params_Length_def)
qed

lemma address_list_trim:
  assumes "as \<noteq> []" and "list_all printable_triple as"
  shows "strings_TrimSpace (address_list_text as) = address_list_text as"
proof (rule TrimSpace_id)
  have ends: "address_text n a ps \<noteq> [] \<and> \<not> is_space (hd (address_text n a ps)) \<and> \<not> is_space (last (address_text n a ps))"
    if "printable_triple (n, a, ps)" for n a ps
  proof -
    have "address_text n a ps \<noteq> []" by (simp add: address_text_def)
    with TrimSpace_ends [of "address_text n a ps"] address_text_trim [OF that] show ?thesis by simp
  qed
  have "address_list_text as \<noteq> [] \<and> \<not> is_space (hd (address_list_text as)) \<and> \<not> is_space (last (address_list_text as))"
    using assms
  proof (induction as)
    case (Cons x xs)
    obtain n a ps where x: "x = (n, a, ps)" by (cases x)
    show ?case
    proof (cases "xs = []")
      case True
      with Cons.prems x ends [of n a ps] show ?thesis by (simp add: address_list_text_def)
    next
      case False
      then have "address_list_text (x # xs) = address_text n a ps @ '', '' @ address_list_text xs"
        using x by (cases xs) (simp_all add: address_list_text_def)
      with False Cons x ends [of n a ps] show ?thesis by simp
    qed
  qed simp
  then show "address_list_text as = [] \<or> \<not> is_space (hd (address_list_text as)) \<and> \<not> is_space (last (address_list_text as))"
    by simp
qed

lemma host_byte_space: "host_byte c \<Longrightarrow> \<not> is_space c"
proof
  assume "host_byte c" and "is_space c"
  then have "hex_needed EncodeHost c" by (intro hex_needed_space) simp_all
  moreover have "list_all (\<lambda>d. byte d < 128 \<and> d \<noteq> CHR ''%'') ws_chars" by code_simp
  with \<open>is_space c\<close> have "byte c < 128" "c \<noteq> CHR ''%''" by (auto simp: is_space_def list_all_iff)
  ultimately show False using \<open>host_byte c\<close> by (auto simp: host_byte_def hex_needed_def)
qed

lemma hop_ends:
  assumes "printable_hop hop"
  shows "ViaHop_String hop \<noteq> [] \<and> \<not> is_space (hd (ViaHop_String hop)) \<and> \<not> is_space (last (ViaHop_String hop))"
proof -
  obtain ps where ps: "HParams hop = Some ps" "printable_params nul True ps"
    using assms by (auto simp: printable_hop_def split: option.splits)
  have n: "ProtocolName hop \<noteq> []" "\<not> is_space (hd (ProtocolName hop))"
    using assms by (auto simp: printable_hop_def token_def list_all_iff)
  let ?P = "params_section '';'' (Some ps) CHR '';''"
  have t: "ViaHop_String hop = (ProtocolName hop @ ''/'' @ ProtocolVersion hop @ ''/'' @ Transport hop @ '' '')
      @ Host hop @ port_text (Port hop) @ ?P"
    by (simp add: ViaHop_String_def port_text_def ps split: option.splits)
  have "\<not> is_space CHR '';''" by code_simp
  then have P: "?P \<noteq> [] \<Longrightarrow> \<not> is_space (last ?P)"
    using last_params [OF ps(2) section_facts(4), of "CHR '';''"] by (auto simp: params_section_def)
  have p: "port_text (Port hop) \<noteq> [] \<Longrightarrow> \<not> is_space (last (port_text (Port hop)))"
  proof (cases "Port hop")
    case (Some n)
    have "\<forall>c\<in>set (fmt_port n). is_digit c" using fmt_port_chars by blast
    with digits_plain have "\<not> is_space (last (fmt_port n))" by (metis fmt_port_ne last_in_set)
    with Some show "\<not> is_space (last (port_text (Port hop)))" by (simp add: port_text_def)
  qed (simp add: port_text_def)
  have "Host hop \<noteq> []" "host_byte (last (Host hop))"
    using assms by (auto simp: printable_hop_def list_all_iff)
  with P p host_byte_space have "\<not> is_space (last (Host hop @ port_text (Port hop) @ ?P))"
    by (metis append_Nil2 append_is_Nil_conv last_append)
  with n \<open>Host hop \<noteq> []\<close> show ?thesis unfolding t by simp
qed

lemma via_trim:
  assumes "hops \<noteq> []" and "list_all printable_hop hops"
  shows "strings_TrimSpace (ViaHeader_Value hops) = ViaHeader_Value hops"
proof -
  have "ViaHeader_Value hops \<noteq> [] \<and> \<not> is_space (hd (ViaHeader_Value hops)) \<and> \<not> is_space (last (ViaHeader_Value hops))"
    using assms
  proof (induction hops)
    case (Cons h hs)
    then show ?case using hop_ends [of h] by (cases "hs = []") auto
  qed simp
  then show ?thesis by (intro TrimSpace_id) simp
qed

lemmas plain_values = MaxForwards_Value_def Expires_Value_def ContentLength_Value_def UserAgentHeader_Value_def
  ServerHeader_Value_def ContentType_Value_def Accept_Value_def AllowHeader_Value_def RequireHeader_Value_def
  SupportedHeader_Value_def

lemma value_trim:
  assumes "printable_header h"
  shows "strings_TrimSpace (header_Value h) = header_Value h"
proof (cases h)
  case (ToHeader x)
  with assms obtain a ps where "printable_triple (DisplayName x, a, ps)" "ToHeader_Value x = address_text (DisplayName x) a ps"
    by (auto elim: addr_header_text)
  with ToHeader show ?thesis by (simp add: address_text_trim)
next
  case (FromHeader x)
  with assms obtain a ps where "printable_triple (DisplayName x, a, ps)" "FromHeader_Value x = address_text (DisplayName x) a ps"
    by (auto elim: addr_header_text)
  with FromHeader show ?thesis by (simp add: address_text_trim)
next
  case (ContactHeader x)
  with assms obtain ps where "printable_triple (CDisplayName x, CAddress x, ps)" "CParams x = Some ps"
    by (auto split: option.splits)
  with ContactHeader show ?thesis by (simp add: contact_text address_text_trim)
next
  case (CallID x)
  with assms show ?thesis
    by (auto simp: CallID_Value_def printable_call_id_def list_all_iff intro!: TrimSpace_no_space)
next
  case (RouteHeader us)
  with assms route_text [of us] show ?thesis by (simp add: RouteHeader_Value_def address_list_trim)
next
  case (RecordRouteHeader us)
  with assms route_text [of us] show ?thesis by (simp add: RecordRouteHeader_Value_def address_list_trim)
qed (use assms in \<open>simp_all add: plain_values CSeq_Value_trim via_trim options_trim printable_value_def\<close>)

lemma header_name_ok:
  assumes "printable_header h"
  shows "CHR '':'' \<notin> set (header_Name h)" and "strings_TrimSpace (header_Name h) = header_Name h"
    and "header_Name h \<noteq> []"
proof -
  have "\<forall>n\<in>set [''To'', ''From'', ''Contact'', ''Call-ID'', ''CSeq'', ''Max-Forwards'', ''Expires'', ''Content-Length'',
       ''Via'', ''Require'', ''Supported'', ''User-Agent'', ''Server'', ''Allow'', ''Content-Type'', ''Accept'',
       ''Route'', ''Record-Route'']. n \<noteq> [] \<and> (\<forall>c\<in>set n. c \<noteq> CHR '':'' \<and> \<not> is_space c)"
    by (simp add: is_space_def ws_chars_CHR)
  moreover have "(\<exists>g. h = GenericHeader g) \<or> header_Name h \<in> set [''To'', ''From'', ''Contact'', ''Call-ID'', ''CSeq'',
       ''Max-Forwards'', ''Expires'', ''Content-Length'', ''Via'', ''Require'', ''Supported'', ''User-Agent'', ''Server'',
       ''Allow'', ''Content-Type'', ''Accept'', ''Route'', ''Record-Route'']"
    using assms by (cases h) simp_all
  ultimately have "(\<exists>g. h = GenericHeader g) \<or> header_Name h \<noteq> [] \<and> (\<forall>c\<in>set (header_Name h). c \<noteq> CHR '':'' \<and> \<not> is_space c)"
    by blast
  then show "CHR '':'' \<notin> set (header_Name h)" and "strings_TrimSpace (header_Name h) = header_Name h"
    and "header_Name h \<noteq> []"
    using assms by (auto simp: printable_value_def intro: TrimSpace_no_space)
qed

text \<open>Which parser a name is registered with.\<close>

lemma lower_names2 [simp]:
  "strings_ToLower ''Expires'' = ''expires''" "strings_ToLower ''Require'' = ''require''"
  "strings_ToLower ''Supported'' = ''supported''" "strings_ToLower ''User-Agent'' = ''user-agent''"
  "strings_ToLower ''Server'' = ''server''" "strings_ToLower ''Allow'' = ''allow''"
  "strings_ToLower ''Content-Type'' = ''content-type''" "strings_ToLower ''Accept'' = ''accept''"
  by code_simp+

lemma registered:
  "map_of NewPacketParser ''to'' = Some parseAddressHeader" "map_of NewPacketParser ''from'' = Some parseAddressHeader"
  "map_of NewPacketParser ''contact'' = Some parseAddressHeader" "map_of NewPacketParser ''call-id'' = Some parseCallId"
  "map_of NewPacketParser ''cseq'' = Some parseCSeq" "map_of NewPacketParser ''via'' = Some parseViaHeader"
  "map_of NewPacketParser ''max-forwards'' = Some parseMaxForwards" "map_of NewPacketParser ''content-length'' = Some parseContentLength"
  "map_of NewPacketParser ''expires'' = Some parseExpires" "map_of NewPacketParser ''user-agent'' = Some parseUserAgent"
  "map_of NewPacketParser ''server'' = Some parseServer" "map_of NewPacketParser ''allow'' = Some parseAllow"
  "map_of NewPacketParser ''content-type'' = Some parseContentType" "map_of NewPacketParser ''accept'' = Some parseAccept"
  "map_of NewPacketParser ''require'' = Some parseRequire" "map_of NewPacketParser ''supported'' = Some parseSupported"
  "map_of NewPacketParser ''route'' = Some parseRouteHeader" "map_of NewPacketParser ''record-route'' = Some parseRecordRouteHeader"
  by (simp_all add: NewPacketParser_eq defaultHeaderParsers_def)

lemma parseCallId_print:
  assumes "printable_call_id s"
  shows "parseCallId name s = Ok ([CallID s], None)"
proof -
  have "strings_TrimSpace s = s" using assms by (intro TrimSpace_no_space) (simp add: printable_call_id_def list_all_iff)
  moreover have "\<not> strings_ContainsAny s abnfWs" "CHR '';'' \<notin> set s"
    using assms abnfWs_space by (auto simp: printable_call_id_def list_all_iff strings_ContainsAny_def)
  ultimately show ?thesis using assms by (simp add: parseCallId_def printable_call_id_def)
qed

lemma printable_not_ptr: "printable_address a \<Longrightarrow> a \<noteq> WildcardUri \<Longrightarrow> \<not> uri_IsWildcard a"
  by (cases a) simp_all

lemma parse_contact_print:
  assumes "printable_triple (n, a, ps)" and "a = WildcardUri \<Longrightarrow> n = None \<and> params ps = []"
  shows "contact_headers [(n, a, ps)] [] = Ok ([ContactHeader \<lparr>CDisplayName = n, CAddress = a, CParams = Some ps\<rparr>], None)"
  using assms by (cases a) (auto simp: printable_triple_def params_Length_def)

text \<open>The round trip of a header.\<close>

lemma ParseHeader_print:
  assumes "printable_header h"
  shows "ParseHeader NewPacketParser (header_String h) = Ok ([h], None)"
proof -
  have line: "ParseHeader NewPacketParser (header_String h) =
      (case map_of NewPacketParser (strings_ToLower (header_Name h)) of
         Some p \<Rightarrow> p (strings_ToLower (header_Name h)) (header_Value h)
       | None \<Rightarrow> Ok ([GenericHeader \<lparr>HeaderName = header_Name h, Contents = header_Value h\<rparr>], None))"
    unfolding header_String_def
    by (rule ParseHeader_line [OF header_name_ok(1,2) [OF assms] value_trim [OF assms]])
  have single: "ParseAddressValues (address_text n a ps) = Ok [(n, a, ps)]" if "printable_triple (n, a, ps)" for n a ps
    using ParseAddressValues_list [of "[(n, a, ps)]"] that by (simp add: address_list_single)
  show ?thesis
  proof (cases h)
    case (GenericHeader g)
    with assms line show ?thesis by simp
  next
    case (ToHeader x)
    with assms obtain a ps where x: "Address x = Some a" "Params x = Some ps" "a \<noteq> WildcardUri"
      "printable_triple (DisplayName x, a, ps)" "ToHeader_Value x = address_text (DisplayName x) a ps"
      by (auto elim: addr_header_text)
    with ToHeader line single [OF x(4)] show ?thesis
      by (cases x) (simp add: registered parseAddressHeader_def to_headers_def)
  next
    case (FromHeader x)
    with assms obtain a ps where x: "Address x = Some a" "Params x = Some ps" "a \<noteq> WildcardUri"
      "printable_triple (DisplayName x, a, ps)" "FromHeader_Value x = address_text (DisplayName x) a ps"
      by (auto elim: addr_header_text)
    with FromHeader line single [OF x(4)] show ?thesis
      by (cases x) (simp add: registered parseAddressHeader_def from_headers_def)
  next
    case (ContactHeader x)
    with assms obtain ps where x: "printable_triple (CDisplayName x, CAddress x, ps)" "CParams x = Some ps"
      and w: "CAddress x = WildcardUri \<Longrightarrow> CDisplayName x = None \<and> params ps = []"
      by (auto split: option.splits)
    have "ContactHeader \<lparr>CDisplayName = CDisplayName x, CAddress = CAddress x, CParams = Some ps\<rparr> = h"
      using ContactHeader x(2) by (cases x) simp
    with ContactHeader line single [OF x(1)] contact_text [OF x] parse_contact_print [OF x(1) w] show ?thesis
      by (simp add: registered parseAddressHeader_def)
  next
    case (CallID x)
    with assms line show ?thesis by (simp add: registered parseCallId_print CallID_Value_def)
  next
    case (CSeq x)
    with assms line show ?thesis by (simp add: registered parseCSeq_print)
  next
    case (ViaHeader x)
    with assms line show ?thesis by (simp add: registered parseViaHeader_print)
  next
    case (RouteHeader us)
    with assms line route_text [of us] ParseAddressValues_list [of "map (\<lambda>u. (None, u, NewParams)) us"] show ?thesis
      by (simp add: registered parseRouteHeader_def RouteHeader_Value_def address_uris_def comp_def)
  next
    case (RecordRouteHeader us)
    with assms line route_text [of us] ParseAddressValues_list [of "map (\<lambda>u. (None, u, NewParams)) us"] show ?thesis
      by (simp add: registered parseRecordRouteHeader_def RecordRouteHeader_Value_def address_uris_def comp_def)
  qed (use assms line in \<open>simp_all add: registered plain_values parseMaxForwards_def parseExpires_def
      parseContentLength_def parseUserAgent_def parseServer_def parseContentType_def parseAccept_def parseAllow_def
      parseRequire_def parseSupported_def options_print printable_value_def\<close>)
qed

end
