(* ===== verification/Parser_MessageProps.thy ===== *)
theory Parser_MessageProps
  imports Parser_Message Parser_RoundTrip
begin

text \<open>
  What the packet parser does: it reads back every printable message, the headers of a parsed
  message are well-formed and have the types that the getters assert, and it panics only on a
  blank address or on a request whose first header line is a continuation line.
\<close>

section \<open>Lines\<close>

lemma crlf_CHR: "crlf = [CHR 0x0D, CHR 0x0A]"
  by code_simp

definition lines_text :: "bytes list \<Rightarrow> bytes" where
  "lines_text ls = concat (map (\<lambda>l. l @ crlf) ls)"

lemma lines_text_simps [simp]:
  "lines_text [] = []" "lines_text (l # ls) = l @ crlf @ lines_text ls"
  by (simp_all add: lines_text_def)

definition line_ok :: "bytes \<Rightarrow> bool" where
  "line_ok l \<longleftrightarrow> l \<noteq> [] \<and> one_line l"

lemma line_ok_hd: "line_ok l \<Longrightarrow> l = hd l # tl l \<and> hd l \<noteq> CHR 0x0D"
  by (cases l) (auto simp: line_ok_def one_line_def)

lemma Index_skip:
  "c \<notin> set l \<Longrightarrow> strings_Index (l @ t) (c # sub) = map_option (\<lambda>i. length l + i) (strings_Index t (c # sub))"
proof (induction l)
  case Nil
  show ?case by (cases "strings_Index t (c # sub)") simp_all
next
  case (Cons a l)
  then show ?case
    by (cases "strings_Index t (c # sub)") (auto simp: strings_HasPrefix_def)
qed

lemma Index_blank_line:
  assumes "ls \<noteq> []" and "list_all line_ok ls"
  shows "strings_Index (lines_text ls @ crlf @ b) (crlf @ crlf) = Some (length (lines_text ls) - 2)"
  using assms
proof (induction ls)
  case (Cons l ls)
  have l: "CHR 0x0D \<notin> set l" using Cons.prems by (simp add: line_ok_def one_line_def)
  show ?case
  proof (cases "ls = []")
    case True
    have "strings_Index (CHR 0x0D # CHR 0x0A # CHR 0x0D # CHR 0x0A # b) [CHR 0x0D, CHR 0x0A, CHR 0x0D, CHR 0x0A] = Some 0"
      by (simp add: strings_HasPrefix_def)
    with True l show ?thesis by (simp add: crlf_CHR Index_skip)
  next
    case False
    then obtain l2 ls2 where ls: "ls = l2 # ls2" by (cases ls) auto
    have "line_ok l2" using Cons.prems ls by simp
    from line_ok_hd [OF this] obtain d t2 where l2: "l2 = d # t2" "d \<noteq> CHR 0x0D" by metis
    let ?t = "lines_text ls @ crlf @ b"
    have t: "?t = d # (t2 @ crlf @ lines_text ls2 @ crlf @ b)" using ls l2 by simp
    have "strings_Index (CHR 0x0D # CHR 0x0A # ?t) (crlf @ crlf) = map_option (\<lambda>i. Suc (Suc i)) (strings_Index ?t (crlf @ crlf))"
      unfolding t using l2(2)
      by (simp add: crlf_CHR strings_HasPrefix_def option.map_comp comp_def del: strings_Index.simps)
         (simp add: strings_HasPrefix_def option.map_comp comp_def)
    moreover have "2 \<le> length (lines_text ls)" using ls by (simp add: crlf_CHR)
    ultimately show ?thesis
      using Cons l False by (simp add: crlf_CHR Index_skip)
  qed
qed simp

section \<open>A printed header is one line\<close>

lemma one_line_simps [simp]:
  "one_line []" "one_line (c # s) \<longleftrightarrow> c \<noteq> CHR 0x0D \<and> c \<noteq> CHR 0x0A \<and> one_line s"
  "one_line (s @ t) \<longleftrightarrow> one_line s \<and> one_line t"
  by (auto simp: one_line_def)

lemma line_breaks: "is_space CHR 0x0D" "is_space CHR 0x0A"
  by code_simp+

lemma one_line_plain: "(\<And>c. c \<in> set s \<Longrightarrow> \<not> is_space c) \<Longrightarrow> one_line s"
  unfolding one_line_def using line_breaks by blast

lemma one_line_bracket: "bracket_text s \<Longrightarrow> one_line s"
  unfolding one_line_def bracket_text_def using line_breaks by fastforce

lemma one_line_Join: "one_line sep \<Longrightarrow> list_all one_line ls \<Longrightarrow> one_line (strings_Join ls sep)"
  by (induction ls sep rule: strings_Join.induct) simp_all

lemma one_line_u32: "one_line (fmt_u32 n)"
  using digits_plain [OF fmt_u32_digits] by (intro one_line_plain) blast

lemma one_line_port: "one_line (port_text p)"
proof (cases p)
  case (Some n)
  have "\<forall>c\<in>set (fmt_port n). is_digit c" using fmt_port_chars by blast
  then have "one_line (fmt_port n)" using digits_plain by (intro one_line_plain) blast
  with Some show ?thesis by (simp add: port_text_def)
qed (simp add: port_text_def)

lemma one_line_address:
  assumes "printable_triple (n, a, ps)"
  shows "one_line (address_text n a ps)"
proof -
  have "one_line (display_prefix n)"
    using assms by (cases n) (auto simp: printable_triple_def printable_name_def display_prefix_simps quote_CHR)
  moreover have "one_line (uri_String a)"
    using assms uri_bracket_text(1) by (auto simp: printable_triple_def intro: one_line_bracket)
  moreover have "one_line (params_section '';'' (Some ps) CHR '';'')"
    using assms by (intro one_line_bracket params_bracket_text) (auto simp: printable_triple_def section_sep_def)
  ultimately show ?thesis by (simp add: address_text_def)
qed

lemma one_line_hop:
  assumes "printable_hop hop"
  shows "one_line (ViaHop_String hop)"
proof -
  obtain ps where ps: "HParams hop = Some ps" "printable_params nul True ps"
    using assms by (auto simp: printable_hop_def split: option.splits)
  have "one_line (params_section '';'' (Some ps) CHR '';'')"
    using ps(2) by (intro one_line_bracket params_bracket_text) (auto simp: section_sep_def)
  moreover have "one_line (ProtocolName hop)" "one_line (ProtocolVersion hop)" "one_line (Transport hop)"
    using assms by (auto simp: printable_hop_def token_def list_all_iff intro!: one_line_plain)
  moreover have "one_line (Host hop)"
    using assms host_byte_space by (auto simp: printable_hop_def list_all_iff intro!: one_line_plain)
  ultimately show ?thesis using one_line_port [of "Port hop"]
    by (simp add: ViaHop_String_def ps port_text_def split: option.splits)
qed

lemma one_line_options: "list_all printable_option opts \<Longrightarrow> one_line (strings_Join opts '', '')"
  by (rule one_line_Join) (auto simp: printable_option_def list_all_iff)

lemma one_line_routes:
  assumes "list_all printable_address us"
  shows "one_line (strings_Join (map (\<lambda>u. ''<'' @ uri_String u @ ''>'') us) '', '')"
  using assms by (intro one_line_Join) (auto simp: list_all_iff intro: one_line_bracket uri_bracket_text(1))

lemma one_line_value:
  assumes "printable_header h"
  shows "one_line (header_Value h)"
proof (cases h)
  case (ToHeader x)
  with assms show ?thesis by (auto elim: addr_header_text simp: one_line_address)
next
  case (FromHeader x)
  with assms show ?thesis by (auto elim: addr_header_text simp: one_line_address)
next
  case (ContactHeader x)
  with assms show ?thesis by (auto simp: contact_text one_line_address split: option.splits)
next
  case (ViaHeader hops)
  with assms show ?thesis
    by (auto simp: ViaHeader_Value_Join list_all_iff one_line_hop intro!: one_line_Join)
next
  case (CallID s)
  with assms show ?thesis
    by (auto simp: CallID_Value_def printable_call_id_def list_all_iff intro!: one_line_plain)
next
  case (CSeq c)
  with assms show ?thesis
    by (auto simp: CSeq_Value_def word_text_def list_all_iff one_line_u32 intro!: one_line_plain)
next
  case (RouteHeader us)
  with assms show ?thesis by (simp add: RouteHeader_Value_def one_line_routes [simplified])
next
  case (RecordRouteHeader us)
  with assms show ?thesis by (simp add: RecordRouteHeader_Value_def one_line_routes [simplified])
qed (use assms in \<open>auto simp: plain_values one_line_u32 one_line_options printable_value_def\<close>)

lemma one_line_name:
  assumes "printable_header h"
  shows "one_line (header_Name h)"
  using assms by (cases h) (simp_all add: printable_value_def)

lemma header_line:
  assumes "printable_header h"
  shows "line_ok (header_String h)" and "hd (header_String h) \<notin> set abnfWs"
proof -
  note n = header_name_ok [OF assms]
  show "line_ok (header_String h)"
    using one_line_name [OF assms] one_line_value [OF assms] by (simp add: line_ok_def header_String_def)
  have "\<not> is_space (hd (header_Name h))" using TrimSpace_ends [of "header_Name h"] n(2,3) by simp
  then show "hd (header_String h) \<notin> set abnfWs"
    using n(3) abnfWs_space by (auto simp: header_String_def)
qed

section \<open>Header lines\<close>

lemma abnfWs_CHR: "abnfWs = [CHR '' '', CHR 0x09]"
  by code_simp

lemma Contains_abnfWs: "strings_Contains abnfWs (string_of_byte c) \<longleftrightarrow> c \<in> set abnfWs"
proof (cases "byte c < 128")
  case True
  then show ?thesis by (simp add: string_of_byte_ascii)
next
  case False
  have "list_all (\<lambda>d. byte d < 128) abnfWs" by code_simp
  with False have "c \<notin> set abnfWs" by (auto simp: list_all_iff)
  moreover have "\<not> strings_Contains abnfWs [a, b]" if "b \<noteq> CHR 0x09" for a b
    using that by (simp add: abnfWs_CHR strings_Contains_def strings_HasPrefix_def)
  moreover have "char_of (128 + byte c mod 64) \<noteq> CHR 0x09"
  proof
    assume "char_of (128 + byte c mod 64) = CHR 0x09"
    then have "of_char (char_of (128 + byte c mod 64) :: char) = (9::nat)" by simp
    moreover have "128 + byte c mod 64 < 256" using mod_less_divisor [of 64 "byte c"] by linarith
    ultimately show False by simp
  qed
  ultimately show ?thesis using False by (simp add: string_of_byte_def Let_def)
qed

lemma Split_line: "one_line l \<Longrightarrow> strings_Split (l @ crlf @ t) crlf = l # strings_Split t crlf"
proof -
  assume "one_line l"
  then have "strings_Index (l @ crlf @ t) crlf = Some (length l)"
    by (simp add: crlf_CHR one_line_def Index_skip strings_HasPrefix_def)
  then show ?thesis by (subst strings_Split.simps) (simp add: crlf_CHR)
qed

lemma Split_lines:
  "list_all one_line ls \<Longrightarrow> strings_Split (lines_text ls @ t) crlf = ls @ strings_Split t crlf"
  by (induction ls) (simp_all add: Split_line)

lemma fill_loop_print:
  assumes "printable_header h" and "list_all printable_header hs"
  shows "fill_loop NewPacketParser msg (map header_String hs) (header_String h) hl = Ok (hl @ h # hs)"
  using assms
proof (induction hs arbitrary: h hl)
  case Nil
  have "header_String h \<noteq> []" by (simp add: header_String_def)
  with Nil show ?case by (simp add: flushBuffer_def ParseHeader_print)
next
  case (Cons x hs)
  have "header_String x \<noteq> []" and "header_String h \<noteq> []" by (simp_all add: header_String_def)
  with Cons header_line(2) [of x] show ?case
    by (simp add: flushBuffer_def ParseHeader_print Contains_abnfWs)
qed

lemma fillHeaders_print:
  assumes "list_all printable_header hs"
  shows "fillHeaders NewPacketParser msg (map header_String hs) = Ok (msg_map_hdrs (fold AppendHeader hs) msg)"
proof (cases hs)
  case Nil
  then show ?thesis by (simp add: fillHeaders_def flushBuffer_def)
next
  case (Cons h hs')
  have "header_String h \<noteq> []" by (simp add: header_String_def)
  with Cons assms header_line(2) [of h] show ?thesis
    by (simp add: fillHeaders_def flushBuffer_def Contains_abnfWs fill_loop_print)
qed

section \<open>Start lines\<close>

definition printable_version :: "bytes \<Rightarrow> bool" where
  "printable_version v \<longleftrightarrow> one_line v \<and> CHR '' '' \<notin> set v \<and> strings_ToUpper (take 3 v) = ''SIP''"

text \<open>The reason phrase of one word must not look like a version, or the status line is taken
  for a request line.\<close>

fun printable_start :: "sip_msg \<Rightarrow> bool" where
  "printable_start (Req r) \<longleftrightarrow>
     one_line (rmethod r) \<and> CHR '' '' \<notin> set (rmethod r) \<and> strings_ToUpper (rmethod r) = rmethod r
     \<and> printable_version (sipVersion r)
     \<and> (case recipient r of Some a \<Rightarrow> printable_address a \<and> CHR '' '' \<notin> set (uri_String a) | None \<Rightarrow> False)"
| "printable_start (Res r) \<longleftrightarrow>
     printable_version (sipVersion r) \<and> one_line (reason r)
     \<and> (CHR '' '' \<in> set (reason r) \<or> strings_ToUpper (take 3 (reason r)) \<noteq> ''SIP'')"

fun msg_StartLine :: "sip_msg \<Rightarrow> bytes" where
  "msg_StartLine (Req r) = request_StartLine r"
| "msg_StartLine (Res r) = response_StartLine r"

text \<open>The message that parsing the printed one gives: a fresh id, the headers added again in the
  order in which they are printed.\<close>

fun reparsed :: "bytes \<Rightarrow> header list \<Rightarrow> bytes \<Rightarrow> sip_msg \<Rightarrow> sip_msg" where
  "reparsed fid hl b (Req r) = Req (NewRequest fid [] (rmethod r) (recipient r) (sipVersion r) hl b)"
| "reparsed fid hl b (Res r) = Res (NewResponse fid [] (sipVersion r) (rstatus r) (reason r) hl b)"

lemma version_length: "strings_ToUpper (take 3 v) = ''SIP'' \<Longrightarrow> 3 \<le> length v"
proof -
  assume "strings_ToUpper (take 3 v) = ''SIP''"
  then have "length (strings_ToUpper (take 3 v)) = 3" by simp
  then show ?thesis by (simp add: strings_ToUpper_def)
qed

lemma Split_three:
  assumes "CHR '' '' \<notin> set a" and "CHR '' '' \<notin> set b"
  shows "strings_Split (a @ '' '' @ b @ '' '' @ c) '' '' = a # b # strings_Split c '' ''"
    and "strings_Count (a @ '' '' @ b @ '' '' @ c) '' '' = 2 + count_list c CHR '' ''"
  using assms by (simp_all add: strings_Split_single Count_single count_notin)

lemma parseStartLine_request:
  assumes "printable_start (Req r)"
  shows "parseStartLine fid (request_StartLine r) = Ok (reparsed fid [] [] (Req r))"
proof -
  obtain a where a: "recipient r = Some a" "printable_address a" "CHR '' '' \<notin> set (uri_String a)"
    using assms by (auto split: option.splits)
  have m: "CHR '' '' \<notin> set (rmethod r)" "strings_ToUpper (rmethod r) = rmethod r"
    and v: "CHR '' '' \<notin> set (sipVersion r)" "strings_ToUpper (take 3 (sipVersion r)) = ''SIP''"
    using assms by (auto simp: printable_version_def)
  have line: "request_StartLine r = rmethod r @ '' '' @ uri_String a @ '' '' @ sipVersion r"
    by (simp add: request_StartLine_def a fmt_uri_def)
  note split = Split_three [OF m(1) a(3), of "sipVersion r"]
  have "isRequest (request_StartLine r)"
    unfolding isRequest_def line split using v version_length [OF v(2)] by (simp add: Split_single_free count_notin)
  moreover have "ParseRequestLine (request_StartLine r) = Ok (rmethod r, a, sipVersion r)"
    unfolding ParseRequestLine_def line split
    using v m a ParseUri_address [OF a(2)] by (cases a) (simp_all add: Split_single_free)
  ultimately show ?thesis by (simp add: parseStartLine_def a)
qed

lemma parseStartLine_response:
  assumes "printable_start (Res r)"
  shows "parseStartLine fid (response_StartLine r) = Ok (reparsed fid [] [] (Res r))"
proof -
  have v: "CHR '' '' \<notin> set (sipVersion r)" "strings_ToUpper (take 3 (sipVersion r)) = ''SIP''"
    and w: "CHR '' '' \<in> set (reason r) \<or> strings_ToUpper (take 3 (reason r)) \<noteq> ''SIP''"
    using assms by (auto simp: printable_version_def)
  let ?code = "fmt_d (unat (rstatus r))"
  have c: "CHR '' '' \<notin> set ?code"
  proof
    assume "CHR '' '' \<in> set ?code"
    then have "is_digit CHR '' ''" by (auto dest: fmt_d_digits)
    then show False by (simp add: is_digit_def)
  qed
  note split = Split_three [OF v(1) c, of "reason r"]
  obtain w1 ws where ws: "strings_Split (reason r) '' '' = w1 # ws"
    using strings_Split_nonempty [of "'' ''" "reason r"] by (cases "strings_Split (reason r) '' ''") auto
  have "\<not> isRequest (response_StartLine r)"
  proof
    assume R: "isRequest (response_StartLine r)"
    then have "count_list (reason r) CHR '' '' = 0"
      unfolding isRequest_def response_StartLine_def split by (auto split: if_splits)
    then have n: "CHR '' '' \<notin> set (reason r)" by (simp add: count_list_0_iff)
    with R w show False
      unfolding isRequest_def response_StartLine_def split by (auto simp: Split_single_free Let_def split: if_splits)
  qed
  moreover have "isResponse (response_StartLine r)"
    unfolding isResponse_def response_StartLine_def split using v version_length [OF v(2)] by (simp add: ws Let_def)
  moreover have "unat (rstatus r) < 2 ^ 16" using unsigned_less [of "rstatus r"] by simp
  then have "strconv_ParseUint ?code 16 = (unat (rstatus r), None)" by (rule ParseUint_fmt_d)
  then have "ParseStatusLine (response_StartLine r) = Ok (sipVersion r, rstatus r, reason r)"
    unfolding ParseStatusLine_def response_StartLine_def split
    using strings_Join_Split [of "'' ''" "reason r"] by (simp add: ws)
  ultimately show ?thesis by (simp add: parseStartLine_def)
qed

lemma parseStartLine_print:
  "printable_start m \<Longrightarrow> parseStartLine fid (msg_StartLine m) = Ok (reparsed fid [] [] m)"
  using parseStartLine_request parseStartLine_response by (cases m) simp_all

section \<open>Whole messages\<close>

definition printable_message :: "sip_msg \<Rightarrow> bool" where
  "printable_message m \<longleftrightarrow> printable_start m \<and> headers_wf (msg_hdrs m)
     \<and> list_all printable_header (Headers_all (msg_hdrs m))
     \<and> (msg_body m = [] \<or> strings_TrimSpace (msg_body m) \<noteq> [])"

lemma start_line_ok: "printable_start m \<Longrightarrow> line_ok (msg_StartLine m)"
proof (cases m)
  case (Req r)
  assume m: "printable_start m"
  with Req obtain a where "recipient r = Some a" "printable_address a" by (auto split: option.splits)
  with m Req show ?thesis
    by (auto simp: line_ok_def request_StartLine_def fmt_uri_def printable_version_def
        intro: one_line_bracket uri_bracket_text(1))
next
  case (Res r)
  assume m: "printable_start m"
  have "one_line (fmt_d (unat (rstatus r)))"
    using digits_plain fmt_d_digits by (intro one_line_plain) blast
  with m Res show ?thesis by (simp add: line_ok_def response_StartLine_def printable_version_def)
qed

lemma msg_String_lines:
  "msg_String m =
     lines_text (msg_StartLine m # map header_String (Headers_all (msg_hdrs m))) @ crlf @ msg_body m"
  by (cases m) (simp_all add: request_String_def response_String_def message_String_def headers_String_def
      lines_text_def comp_def)

lemma lines_body_length:
  assumes "ls \<noteq> []" and "list_all line_ok ls"
  shows "getBodyLength (lines_text ls @ crlf @ b) = Some (length b)"
proof -
  have "2 \<le> length (lines_text ls)" using assms(1) by (cases ls) (simp_all add: crlf_CHR)
  moreover have "length crlf = 2" by (simp add: crlf_CHR)
  ultimately show ?thesis by (simp add: getBodyLength_def Index_blank_line [OF assms])
qed

lemma Split_crlf: "strings_Split crlf crlf = [[], []]"
  by code_simp

lemma lines_split:
  assumes "list_all line_ok ls"
  shows "filter (\<lambda>l. l \<noteq> []) (strings_Split (lines_text ls @ crlf) crlf) = ls"
proof -
  have "list_all one_line ls" "filter (\<lambda>l. l \<noteq> []) ls = ls"
    using assms by (auto simp: list_all_iff line_ok_def intro: filter_True)
  then show ?thesis by (simp add: Split_lines Split_crlf)
qed

lemma reparsed_headers:
  "msg_map_hdrs (fold AppendHeader hl) (reparsed fid [] b m) = reparsed fid hl b m"
  by (cases m) (simp_all add: NewRequest_def NewResponse_def newHeaders_def)

lemma reparsed_body:
  "msg_SetBody b False (reparsed fid hl [] m) = reparsed fid hl b m"
  by (cases m) (simp_all add: NewRequest_def NewResponse_def SetBody_def)

lemma fillBody_print:
  "b = [] \<or> strings_TrimSpace b \<noteq> [] \<Longrightarrow>
     fillBody (reparsed fid hl [] m) b (length b) = Ok (reparsed fid hl b m)"
  by (auto simp: fillBody_def reparsed_body TrimSpace_blank)

lemma ParseMessage_print:
  assumes "printable_message m"
  shows "ParseMessage NewPacketParser fid (msg_String m) =
    Ok (reparsed fid (Headers_all (msg_hdrs m)) (msg_body m) m)"
proof -
  let ?hs = "Headers_all (msg_hdrs m)" and ?b = "msg_body m"
  let ?ls = "msg_StartLine m # map header_String ?hs"
  have start: "printable_start m" and hs: "list_all printable_header ?hs"
    and b: "?b = [] \<or> strings_TrimSpace ?b \<noteq> []"
    using assms by (auto simp: printable_message_def)
  have ok: "list_all line_ok ?ls"
    using start_line_ok [OF start] hs header_line(1) by (auto simp: list_all_iff)
  have ls: "?ls \<noteq> []" by simp
  let ?d = "lines_text ?ls @ crlf @ ?b"
  have at: "length ?d - length ?b = length (lines_text ?ls @ crlf)" by simp
  then have "take (length ?d - length ?b) ?d = lines_text ?ls @ crlf" "drop (length ?d - length ?b) ?d = ?b"
    by (simp_all del: lines_text_simps)
  with lines_split [OF ok] lines_body_length [OF ls ok, of ?b] parseStartLine_print [OF start, of fid]
    fillHeaders_print [OF hs] reparsed_headers fillBody_print [OF b]
  show ?thesis unfolding msg_String_lines ParseMessage_def by (simp add: Let_def del: lines_text_simps)
qed

section \<open>Panics and types\<close>

text \<open>The header texts of a message: its lines with the continuation lines joined.\<close>

fun header_texts :: "bytes list \<Rightarrow> bytes \<Rightarrow> bytes list" where
  "header_texts [] buffer = (if buffer = [] then [] else [buffer])"
| "header_texts (line # lines) buffer =
     (if hd line \<notin> set abnfWs then (if buffer = [] then [] else [buffer]) @ header_texts lines line
      else if buffer \<noteq> [] then header_texts lines (buffer @ '' '' @ line)
      else header_texts lines buffer)"

text \<open>A header text with a blank address where the parser expects an address list.\<close>

definition blank_address_header :: "bytes \<Rightarrow> bool" where
  "blank_address_header t \<longleftrightarrow>
     (case strings_Index t '':'' of
        None \<Rightarrow> False
      | Some i \<Rightarrow> strings_ToLower (strings_TrimSpace (take i t)) \<in> set address_fields
          \<and> blank_address (strings_TrimSpace (drop (i + 1) t)))"

lemma ParseHeader_blank: "ParseHeader NewPacketParser t = Crash \<Longrightarrow> blank_address_header t"
  by (drule ParseHeader_crash) (auto simp: blank_address_header_def)

lemma ParseHeader_no_Err: "ParseHeader NewPacketParser t \<noteq> Err e"
  by (rule dt.ParseHeader_cases [of t]) simp_all

lemma response_Destination_no_Err [simp]: "response_Destination res \<noteq> Err e"
  by (auto simp: response_Destination_def via_received_def split: option.splits)

lemma res_bind_Err_iff: "res_bind r f = Err e \<longleftrightarrow> r = Err e \<or> (\<exists>a. r = Ok a \<and> f a = Err e)"
  by (cases r) auto

lemma msg_Short_no_Err [simp]: "msg_Short msg \<noteq> Err e"
  by (cases msg) (auto simp: res_bind_Err_iff)

lemma flushBuffer_no_Err [simp]: "flushBuffer pp buffer hl \<noteq> Err e"
  by (auto simp: flushBuffer_def split: res.splits option.splits)

lemma fill_loop_no_Err: "fill_loop pp msg ls buffer hl \<noteq> Err e"
  by (induction pp msg ls buffer hl rule: fill_loop.induct) (auto simp: res_bind_Err_iff)

lemma fill_loop_crash:
  assumes "list_all (\<lambda>l. l \<noteq> []) ls" and "fill_loop NewPacketParser msg ls buffer hl = Crash"
  shows "list_ex blank_address_header (header_texts ls buffer) \<or>
    (buffer = [] \<and> ls \<noteq> [] \<and> hd (hd ls) \<in> set abnfWs \<and> msg_Short msg = Crash)"
proof -
  have flush: "blank_address_header b \<and> b \<noteq> []" if "flushBuffer NewPacketParser b h = Crash" for b h
    using that ParseHeader_no_Err by (auto simp: flushBuffer_def split: if_splits res.splits option.splits dest: ParseHeader_blank)
  show ?thesis using assms
  proof (induction ls arbitrary: buffer hl)
    case Nil
    then show ?case using flush by (auto dest: flush)
  next
    case (Cons l ls)
    show ?case
    proof (cases "hd l \<in> set abnfWs")
      case True
      with Cons show ?thesis
        by (cases "buffer = []") (fastforce simp: Contains_abnfWs res_bind_Crash_iff)+
    next
      case False
      with Cons.prems consider "flushBuffer NewPacketParser buffer hl = Crash"
        | hl' where "fill_loop NewPacketParser msg ls l hl' = Crash"
        by (auto simp: Contains_abnfWs res_bind_Crash_iff)
      then show ?thesis
      proof cases
        case 1
        with False show ?thesis by (auto dest: flush)
      next
        case (2 hl')
        with Cons.IH [OF _ this] Cons.prems False show ?thesis by auto
      qed
    qed
  qed
qed

lemma fill_loop_good:
  assumes "fill_loop NewPacketParser msg ls buffer hl = Ok hl'" and "list_all good_header hl"
  shows "list_all good_header hl'"
proof -
  have flush: "list_all good_header b" if "flushBuffer NewPacketParser buf a = Ok b" "list_all good_header a" for buf a b
    using that ParseHeader_good [of buf]
    by (cases "ParseHeader NewPacketParser buf") (auto simp: flushBuffer_def split: if_splits option.splits)
  show ?thesis using assms
    by (induction ls arbitrary: buffer hl) (auto simp: res_bind_Ok_iff split: if_splits intro: flush)
qed

lemma fillHeaders_cases:
  obtains (headers) hl where "fillHeaders NewPacketParser msg ls = Ok (msg_map_hdrs (fold AppendHeader hl) msg)"
      "list_all good_header hl"
  | (panic) "fillHeaders NewPacketParser msg ls = Crash" "fill_loop NewPacketParser msg ls [] [] = Crash"
proof (cases "fill_loop NewPacketParser msg ls [] []")
  case (Ok hl)
  then show ?thesis using fill_loop_good by (intro headers [of hl]) (auto simp: fillHeaders_def)
qed (auto simp: fillHeaders_def fill_loop_no_Err intro: panic)

text \<open>The messages that a start line gives; they have no headers.\<close>

lemma parseStartLine_new:
  assumes "parseStartLine fid l = Ok msg"
  shows "msg_hdrs msg = no_headers"
  using assms by (auto simp: parseStartLine_def NewRequest_def NewResponse_def newHeaders_def res_bind_Ok_iff split: if_splits)

lemma parseStartLine_no_crash: "parseStartLine fid l \<noteq> Crash"
proof -
  have "ParseRequestLine l \<noteq> Crash" for l
    using ParseUri_no_crash by (auto simp: ParseRequestLine_def res_bind_Crash_iff split: list.splits)
  moreover have "ParseStatusLine l \<noteq> Crash" for l
    by (auto simp: ParseStatusLine_def split: list.splits option.splits prod.splits)
  ultimately show ?thesis by (auto simp: parseStartLine_def res_bind_Crash_iff)
qed

text \<open>When the log line of a dropped continuation line panics: the request URI has a
  \<^verbatim>\<open>transport\<close> parameter without a value.\<close>

definition valueless_transport :: "sip_msg \<Rightarrow> bool" where
  "valueless_transport msg \<longleftrightarrow>
     (case msg of
        Req r \<Rightarrow>
          (case Option.bind (recipient r) uri_UriParams of
             Some ps \<Rightarrow> params_Get ps ''transport'' = Some None
           | None \<Rightarrow> False)
      | Res r \<Rightarrow> False)"

lemma new_msg_Short:
  assumes "parseStartLine fid l = Ok msg"
  shows "msg_Short msg = Crash \<longleftrightarrow> valueless_transport msg"
proof (cases msg)
  case (Req r)
  obtain m a v where r: "r = NewRequest fid [] m (Some a) v [] []"
    using assms Req by (auto simp: parseStartLine_def res_bind_Ok_iff split: if_splits)
  have n: "newHeaders [] = no_headers" by (simp add: newHeaders_def)
  have none: "hs_ViaHop no_headers = None" by (simp add: hs_ViaHop_def hs_Via_def)
  have S: "request_Source r = Ok []" by (simp add: r NewRequest_def n request_Source_def none)
  have T: "request_Transport r = Crash \<longleftrightarrow> valueless_transport msg"
    by (auto simp: Req r NewRequest_def n request_Transport_def uri_transport_def valueless_transport_def Let_def
        res_bind_Crash_iff split: option.splits)
  have D: "request_Destination r = Crash \<Longrightarrow> request_Transport r = Crash"
    by (auto simp: r NewRequest_def n request_Destination_def res_bind_Crash_iff split: option.splits uri.splits)
  show ?thesis using T D by (auto simp: Req S res_bind_Crash_iff)
next
  case (Res r)
  have "hs_ViaHop (hdrs r) = None"
    using parseStartLine_new [OF assms] Res by (simp add: hs_ViaHop_def hs_Via_def)
  moreover have "dest r = []"
    using assms Res by (auto simp: parseStartLine_def NewResponse_def res_bind_Ok_iff split: if_splits)
  ultimately show ?thesis by (simp add: Res response_Destination_def valueless_transport_def)
qed

section \<open>Properties\<close>

definition packet_lines :: "bytes \<Rightarrow> bytes list" where
  "packet_lines data =
     (case getBodyLength data of
        None \<Rightarrow> []
      | Some bodyLen \<Rightarrow> filter (\<lambda>l. l \<noteq> []) (strings_Split (take (length data - bodyLen) data) crlf))"

lemma ParseMessage_lines:
  "ParseMessage pp fid data =
     (case packet_lines data of
        [] \<Rightarrow> Err InvalidMessageFormat
      | l # ls \<Rightarrow>
          (case parseStartLine fid l of
             Crash \<Rightarrow> Crash
           | Err e \<Rightarrow> Err (InvalidStartLine e)
           | Ok msg \<Rightarrow>
               (case fillHeaders pp msg ls of
                  Ok msg1 \<Rightarrow> fillBody msg1 (drop (length data - the (getBodyLength data)) data) (the (getBodyLength data))
                | _ \<Rightarrow> Crash)))"
  by (auto simp: ParseMessage_def packet_lines_def Let_def split: option.splits list.splits res.splits)

lemma packet_lines_nonempty: "packet_lines data = l # ls \<Longrightarrow> list_all (\<lambda>l. l \<noteq> []) (l # ls)"
proof -
  assume "packet_lines data = l # ls"
  moreover have "list_all (\<lambda>l. l \<noteq> []) (packet_lines data)"
    by (auto simp: packet_lines_def list_all_iff split: option.splits)
  ultimately show ?thesis by simp
qed

lemma msg_hdrs_map [simp]: "msg_hdrs (msg_map_hdrs f m) = f (msg_hdrs m)"
  by (cases m) simp_all

lemma msg_hdrs_SetBody [simp]: "msg_hdrs (msg_SetBody b False m) = msg_hdrs m"
  by (cases m) (simp_all add: SetBody_def)

lemma fillBody_hdrs: "fillBody m b n = Ok m' \<Longrightarrow> msg_hdrs m' = msg_hdrs m"
  by (auto simp: fillBody_def split: if_splits)

lemma parsed_headers:
  assumes "ParseMessage NewPacketParser fid data = Ok m"
  obtains hl where "msg_hdrs m = newHeaders hl" "list_all good_header hl"
proof -
  obtain l ls msg msg1 b n where s: "parseStartLine fid l = Ok msg" "fillHeaders NewPacketParser msg ls = Ok msg1"
    "fillBody msg1 b n = Ok m"
    using assms by (auto simp: ParseMessage_lines split: list.splits res.splits)
  show ?thesis
  proof (rule fillHeaders_cases [of msg ls])
    fix hl assume "fillHeaders NewPacketParser msg ls = Ok (msg_map_hdrs (fold AppendHeader hl) msg)"
      and "list_all good_header hl"
    with s parseStartLine_new [OF s(1)] fillBody_hdrs [OF s(3)] show ?thesis
      by (intro that [of hl]) (auto simp: newHeaders_def)
  qed (use s in simp)
qed

lemma lower_names3:
  "strings_ToLower ''Proxy-Require'' = ''proxy-require''" "strings_ToLower ''Unsupported'' = ''unsupported''"
  "strings_ToLower ''WWW-Authenticate'' = ''www-authenticate''" "strings_ToLower ''Event'' = ''event''"
  by code_simp+

text \<open>The type that goes with a name.\<close>

lemma named_header:
  assumes "header_typed h"
  shows "header_key h = ''content-length'' \<Longrightarrow> \<exists>v. h = ContentLength v"
    and "header_key h = ''via'' \<Longrightarrow> \<exists>v. h = ViaHeader v"
    and "header_key h = ''cseq'' \<Longrightarrow> \<exists>v. h = CSeq v"
    and "header_key h = ''call-id'' \<Longrightarrow> \<exists>v. h = CallID v"
    and "header_key h = ''from'' \<Longrightarrow> \<exists>v. h = FromHeader v"
    and "header_key h = ''to'' \<Longrightarrow> \<exists>v. h = ToHeader v"
  using assms
  by (cases h; simp add: header_key_def header_typed_def registered lower_names3)+

text \<open>C14: The headers of a parsed message are typed: the collection is well-formed, every header is
  well-formed and stored under its own name, and a header of the generic type is never stored under a
  name that has a parser.  So every header under Content-Length, Via, CSeq, Call-ID, From or To has the
  Go type of that name; of Content-Length the stream parser asserts it without a check.\<close>

theorem ParseMessage_typed:
  assumes "ParseMessage NewPacketParser fid data = Ok m"
  shows "headers_wf (msg_hdrs m) \<and>
    (\<forall>n. \<forall>h\<in>set (GetHeaders n (msg_hdrs m)). header_wf h \<and> header_key h = strings_ToLower n \<and>
       (map_of NewPacketParser (strings_ToLower n) \<noteq> None \<longrightarrow> (\<nexists>g. h = GenericHeader g))) \<and>
    (\<forall>h\<in>set (GetHeaders ''Content-Length'' (msg_hdrs m)). \<exists>v. h = ContentLength v) \<and>
    (\<forall>h\<in>set (GetHeaders ''Via'' (msg_hdrs m)). \<exists>v. h = ViaHeader v) \<and>
    (\<forall>h\<in>set (GetHeaders ''CSeq'' (msg_hdrs m)). \<exists>v. h = CSeq v) \<and>
    (\<forall>h\<in>set (GetHeaders ''Call-ID'' (msg_hdrs m)). \<exists>v. h = CallID v) \<and>
    (\<forall>h\<in>set (GetHeaders ''From'' (msg_hdrs m)). \<exists>v. h = FromHeader v) \<and>
    (\<forall>h\<in>set (GetHeaders ''To'' (msg_hdrs m)). \<exists>v. h = ToHeader v)"
proof -
  obtain hl where hl: "msg_hdrs m = newHeaders hl" "list_all good_header hl"
    using parsed_headers [OF assms] .
  have mem: "good_header h \<and> header_key h = strings_ToLower n" if "h \<in> set (GetHeaders n (msg_hdrs m))" for n h
    using that hl by (auto simp: GetHeaders_newHeaders list_all_iff)
  have generic: "\<nexists>g. h = GenericHeader g"
    if "good_header h" "map_of NewPacketParser (header_key h) \<noteq> None" for h
    using that by (auto simp: good_header_def header_typed_def header_key_def)
  show ?thesis
    using hl(1) mem generic [unfolded not_ex] named_header by (simp add: good_header_def)
qed

definition sample_params :: "(bytes \<times> bytes) list \<Rightarrow> headerParams" where
  "sample_params l = \<lparr>params = map (\<lambda>(k, v). (k, Some v)) l, paramOrder = map fst l\<rparr>"

definition sample_uri :: "bytes \<Rightarrow> bytes \<Rightarrow> uri" where
  "sample_uri user host = SipUri \<lparr>FIsEncrypted = False, FUser = Some user, FPassword = None, FHost = host, FPort = None,
     FUriParams = Some NewParams, FHeaders = Some NewParams\<rparr>"

definition sample_headers :: "header list" where
  "sample_headers =
     [ViaHeader [\<lparr>ProtocolName = ''SIP'', ProtocolVersion = ''2.0'', Transport = ''UDP'', Host = ''a'',
        Port = None, HParams = Some (sample_params [(''branch'', ''z9hG4bK1'')])\<rparr>],
      FromHeader \<lparr>DisplayName = Some ''Al'', Address = Some (sample_uri ''al'' ''a''), Params = Some (sample_params [(''tag'', ''1'')])\<rparr>,
      ToHeader \<lparr>DisplayName = None, Address = Some (sample_uri ''bo'' ''b''), Params = Some NewParams\<rparr>,
      CallID ''1@a'', CSeq \<lparr>SeqNo = 1, MethodName = ''INFO''\<rparr>, ContentLength 2]"

definition sample_message :: sip_msg where
  "sample_message = Req (NewRequest ''7'' [] ''INFO'' (Some (sample_uri ''bo'' ''b'')) ''SIP/2.0'' sample_headers ''hi'')"

lemma sample_headers_printable: "list_all printable_header sample_headers"
proof -
  have "word_text ''INFO''" by code_simp
  moreover have "list_all printable_header (take 4 sample_headers @ drop 5 sample_headers)"
    by code_simp
  ultimately show ?thesis by (simp add: sample_headers_def maxCseq_def)
qed

lemma sample_headers_all: "Headers_all (newHeaders sample_headers) = sample_headers"
  by code_simp

lemma sample_printable: "printable_message sample_message"
proof -
  have "printable_start sample_message" "strings_TrimSpace ''hi'' \<noteq> []" by code_simp+
  then show ?thesis
    by (simp add: printable_message_def sample_message_def NewRequest_def sample_headers_all sample_headers_printable)
qed

theorem ParseMessage_typed_witness:
  "\<exists>m. ParseMessage NewPacketParser ''1'' (msg_String sample_message) = Ok m \<and> map_of NewPacketParser ''via'' \<noteq> None \<and>
     (\<exists>h. GetHeaders ''Via'' (msg_hdrs m) = [h]) \<and>
     (\<forall>h\<in>set (GetHeaders ''Via'' (msg_hdrs m)). \<exists>v. h = ViaHeader v)"
proof -
  let ?m = "reparsed ''1'' sample_headers ''hi'' sample_message"
  have m: "ParseMessage NewPacketParser ''1'' (msg_String sample_message) = Ok ?m"
    using ParseMessage_print [OF sample_printable] by (simp add: sample_message_def NewRequest_def sample_headers_all)
  have "length (GetHeaders ''Via'' (msg_hdrs ?m)) = 1" by code_simp
  with m ParseMessage_typed [OF m] show ?thesis by (auto simp: length_Suc_conv registered)
qed

fun start_fields :: "sip_msg \<Rightarrow> bytes \<times> (bytes \<times> uri option + 16 word \<times> bytes)" where
  "start_fields (Req r) = (sipVersion r, Inl (rmethod r, recipient r))"
| "start_fields (Res r) = (sipVersion r, Inr (rstatus r, reason r))"

lemma reparsed_fields:
  "start_fields (reparsed fid hl b m) = start_fields m" "msg_hdrs (reparsed fid hl b m) = newHeaders hl"
  "msg_body (reparsed fid hl b m) = b" "msg_StartLine (reparsed fid hl b m) = msg_StartLine m"
  by (cases m; simp add: NewRequest_def NewResponse_def request_StartLine_def response_StartLine_def)+

text \<open>C9: Printing and parsing a message are inverse: a message whose start line and headers are
  printable and whose body is empty or not blank is read back with the same start line, the same
  headers under every name, the same order of names and the same body, and prints as before.\<close>

theorem ParseMessage_roundtrip:
  assumes "printable_message m"
  shows "\<exists>m'. ParseMessage NewPacketParser fid (msg_String m) = Ok m' \<and> start_fields m' = start_fields m \<and>
    (\<forall>n. GetHeaders n (msg_hdrs m') = GetHeaders n (msg_hdrs m)) \<and>
    headerOrder (msg_hdrs m') = headerOrder (msg_hdrs m) \<and> msg_body m' = msg_body m \<and>
    msg_String m' = msg_String m"
  using ParseMessage_print [OF assms] rebuild_collection [of "msg_hdrs m"] assms
  by (simp add: reparsed_fields printable_message_def msg_String_lines GetHeaders_at)

theorem ParseMessage_roundtrip_witness:
  "printable_message sample_message \<and>
   (\<exists>m'. ParseMessage NewPacketParser ''1'' (msg_String sample_message) = Ok m' \<and> msg_String m' = msg_String sample_message)"
  using ParseMessage_roundtrip [OF sample_printable] sample_printable by blast

text \<open>C13: When the packet parser panics: a header text of the message has a blank address in an
  address list (\<open>ParseAddressValue\<close> indexes an empty string), or the first header line is a
  continuation line of a request whose URI has a transport parameter without a value (\<open>Short\<close>,
  evaluated for the log, panics).  On every other packet it returns a message or an error.\<close>

theorem ParseMessage_panics:
  assumes "ParseMessage NewPacketParser fid data = Crash"
  shows "\<exists>startLine lines. packet_lines data = startLine # lines \<and>
    (list_ex blank_address_header (header_texts lines []) \<or>
     (\<exists>line rest msg. lines = line # rest \<and> hd line \<in> set abnfWs \<and>
        parseStartLine fid startLine = Ok msg \<and> valueless_transport msg))"
proof -
  obtain l ls msg where p: "packet_lines data = l # ls" "parseStartLine fid l = Ok msg"
    "\<nexists>m. fillHeaders NewPacketParser msg ls = Ok m"
    using assms parseStartLine_no_crash
    by (auto simp: ParseMessage_lines fillBody_def split: list.splits res.splits if_splits)
  have "fill_loop NewPacketParser msg ls [] [] = Crash"
    using p(3) by (auto intro: fillHeaders_cases [of msg ls])
  then have "list_ex blank_address_header (header_texts ls []) \<or>
      (ls \<noteq> [] \<and> hd (hd ls) \<in> set abnfWs \<and> msg_Short msg = Crash)"
    using fill_loop_crash [of ls msg "[]" "[]"] packet_lines_nonempty [OF p(1)] by simp
  with p new_msg_Short [OF p(2)] show ?thesis by (cases ls) auto
qed

definition blank_packet :: bytes where
  "blank_packet = ''A sip:b SIP/2'' @ crlf @ ''m: <sip:a>, ,'' @ crlf @ crlf"

theorem ParseMessage_panics_witness:
  "ParseMessage NewPacketParser ''1'' blank_packet = Crash \<and>
   (\<exists>startLine lines. packet_lines blank_packet = startLine # lines \<and>
      (list_ex blank_address_header (header_texts lines []) \<or>
       (\<exists>line rest msg. lines = line # rest \<and> hd line \<in> set abnfWs \<and>
          parseStartLine ''1'' startLine = Ok msg \<and> valueless_transport msg)))"
proof -
  have "ParseMessage NewPacketParser ''1'' blank_packet = Crash" by code_simp
  then show ?thesis using ParseMessage_panics by blast
qed

end
