(* ===== verification/Parser_StreamProps.thy ===== *)
theory Parser_StreamProps
  imports Parser_Stream Parser_MessageProps
begin

text \<open>
  What the stream parser does: reading ahead changes nothing, so how the bytes are cut into
  writes does not matter; a stream of printed messages comes out as these messages; and on a
  packet of well-formed lines the unstreamed parser and the packet parser agree.
\<close>

section \<open>More input\<close>

lemma next_line_more:
  "next_line buf inp = Some (l, rest) \<Longrightarrow> next_line buf (inp @ bs) = Some (l, rest @ bs)"
  by (induction buf inp rule: next_line.induct) (auto split: if_splits list.splits)

lemma header_lines_more:
  "header_lines False inp = Some (ls, rest) \<Longrightarrow> header_lines False (inp @ bs) = Some (ls, rest @ bs)"
proof (induction False inp arbitrary: ls rest rule: header_lines.induct)
  case (1 inp)
  obtain l r where l: "next_line [] inp = Some (l, r)"
    using 1(2) by (auto simp: header_lines.simps [of _ inp] split: option.splits)
  with 1 show ?case
    by (auto simp: header_lines.simps [of _ inp] header_lines.simps [of _ "inp @ bs"] next_line_more [OF l]
        split: if_splits)
qed

abbreviation more :: "bytes \<Rightarrow> parser \<Rightarrow> parser" where
  "more bs p \<equiv> p\<lparr>p_input := p_input p @ bs\<rparr>"

fun turn_more :: "bytes \<Rightarrow> turn \<Rightarrow> turn" where
  "turn_more bs (Cont q) = Cont (more bs q)"
| "turn_more bs t = t"

text \<open>A turn that does not wait is not changed by the bytes that follow.\<close>

definition steady :: "turn \<Rightarrow> bool" where
  "steady t \<longleftrightarrow> t \<noteq> Wait \<and> t \<noteq> Quit"

lemma send_err_more: "send_err e (more bs p) = more bs (send_err e p)"
  by (simp add: send_err_def)

lemma NextLine_more:
  "NextLine False inp = Got l r \<Longrightarrow> NextLine False (inp @ bs) = Got l (r @ bs)"
  using next_line_more [of "[]" inp l r bs] by (auto simp: NextLine_def split: option.splits)

lemma NextChunk_more:
  "NextChunk False n inp = Got l r \<Longrightarrow> NextChunk False n (inp @ bs) = Got l (r @ bs)"
  by (auto simp: NextChunk_def split: if_splits)

lemma read_body_more:
  assumes "\<not> p_stopped p" and "steady (read_body n msg p)"
  shows "read_body n msg (more bs p) = turn_more bs (read_body n msg p)"
proof (cases "NextChunk False n (p_input p)")
  case (Got b r)
  then show ?thesis using assms NextChunk_more [OF Got]
    by (auto simp: read_body_def Let_def send_err_def split: res.splits)
qed (use assms in \<open>auto simp: read_body_def steady_def NextChunk_def split: if_splits\<close>)

lemma read_rest_more:
  assumes "\<not> p_stopped p" and "steady (read_rest n msg p)"
  shows "read_rest n msg (more bs p) = turn_more bs (read_rest n msg p)"
proof (cases "header_lines False (p_input p)")
  case None
  with assms show ?thesis by (simp add: read_rest_def steady_def)
next
  case (Some a)
  obtain ls r where a: "a = (ls, r)" by (cases a)
  show ?thesis
    using assms header_lines_more [OF Some [unfolded a], of bs] Some a
      read_body_more [of "p\<lparr>p_input := r\<rparr>" _ _ bs]
    by (auto simp: read_rest_def Let_def send_err_def split: res.splits)
qed

lemma bad_start_line_more:
  assumes "\<not> p_stopped p" and "steady (bad_start_line n l e p)"
  shows "bad_start_line n l e (more bs p) = turn_more bs (bad_start_line n l e p)"
  using assms
  by (auto simp: bad_start_line_def send_err_def steady_def NextChunk_def split: if_splits)

lemma read_message_more:
  assumes "\<not> p_stopped p" and "steady (read_message newID b n p)"
  shows "read_message newID b n (more bs p) = turn_more bs (read_message newID b n p)"
proof (cases "NextLine False (p_input p)")
  case (Got l r)
  let ?p = "p\<lparr>p_input := r\<rparr>"
  show ?thesis
    using assms NextLine_more [OF Got, of bs] Got
      bad_start_line_more [of ?p n l _ bs]
      read_rest_more [of "?p\<lparr>p_skipStreamedErr := False, p_ids := p_ids p + 1\<rparr>" b _ bs]
    by (cases p) (auto simp: read_message_def Let_def split: res.splits)
qed (use assms in \<open>auto simp: read_message_def steady_def NextLine_def split: option.splits\<close>)

lemma parse_turn_more:
  assumes "\<not> p_stopped p" and "steady (parse_turn newID p)"
  shows "parse_turn newID (more bs p) = turn_more bs (parse_turn newID p)"
proof (cases "p_streamed p")
  case True
  with assms read_message_more show ?thesis by (simp add: parse_turn_def)
next
  case False
  show ?thesis
  proof (cases "NextLine False (p_input p)")
    case (Got l r)
    then show ?thesis
      using assms False NextLine_more [OF Got, of bs] read_message_more [of "p\<lparr>p_input := r\<rparr>" newID _ _ bs]
      by (auto simp: parse_turn_def Let_def split: option.splits)
  qed (use assms False in \<open>auto simp: parse_turn_def steady_def NextLine_def split: option.splits\<close>)
qed

section \<open>Chunks\<close>

text \<open>What no turn changes.\<close>

abbreviation same_parser :: "parser \<Rightarrow> parser \<Rightarrow> bool" where
  "same_parser p q \<equiv> p_stopped q = p_stopped p \<and> p_streamed q = p_streamed p \<and> p_table q = p_table p
     \<and> p_running q = p_running p"

lemma send_err_same: "same_parser p (send_err e p)"
  by (simp add: send_err_def)

lemma read_rest_same: "read_rest n msg p = Cont q \<Longrightarrow> same_parser p q"
  by (auto simp: read_rest_def read_body_def Let_def send_err_def split: option.splits res.splits read_result.splits)

lemma parse_turn_same:
  assumes "parse_turn newID p = Cont q"
  shows "same_parser p q"
proof -
  have "read_message newID b n p = Cont q \<Longrightarrow> same_parser p q" for b n p
    by (auto simp: read_message_def bad_start_line_def Let_def send_err_def dest!: read_rest_same
        split: read_result.splits res.splits if_splits)
  with assms show ?thesis
    by (fastforce simp: parse_turn_def Let_def split: if_splits read_result.splits option.splits)
qed

lemma parse_turn_running: "\<not> p_stopped p \<Longrightarrow> parse_turn newID p \<noteq> Quit"
proof -
  have rest: "\<not> p_stopped p \<Longrightarrow> read_rest n msg p \<noteq> Quit" for n msg and p :: parser
    by (auto simp: read_rest_def read_body_def Let_def split: option.splits res.splits read_result.splits)
  have "\<not> p_stopped p \<Longrightarrow> read_message newID b n p \<noteq> Quit" for b n p
    using rest by (auto simp: read_message_def bad_start_line_def Let_def NextLine_def
        split: read_result.splits res.splits if_splits option.splits)
  then show "\<not> p_stopped p \<Longrightarrow> ?thesis"
    by (auto simp: parse_turn_def Let_def NextLine_def split: read_result.splits option.splits)
qed

lemma parse_cases:
  assumes "\<not> p_stopped p"
  obtains (wait) "parse_turn newID p = Wait" "parse newID p = Ok p"
  | (cont) q where "parse_turn newID p = Cont q" "parse newID p = parse newID q" "\<not> p_stopped q"
  | (panic) "parse_turn newID p = TurnPanic" "parse newID p = Crash"
proof (cases "parse_turn newID p")
  case (Cont q)
  with parse_turn_same [OF Cont] assms show ?thesis by (intro cont [of q]) (simp_all add: parse.simps [of newID p])
next
  case Wait
  then show ?thesis by (intro wait) (simp_all add: parse.simps [of newID p])
next
  case Quit
  with parse_turn_running [OF assms] show ?thesis by simp
next
  case TurnPanic
  then show ?thesis by (intro panic) (simp_all add: parse.simps [of newID p])
qed

lemma parse_more:
  "\<not> p_stopped p \<Longrightarrow> parse newID (more bs p) = res_bind (parse newID p) (\<lambda>q. parse newID (more bs q))"
proof (induction newID p rule: parse.induct)
  case (1 newID p)
  show ?case
  proof (cases rule: parse_cases [OF 1(2), of newID])
    case 1
    then show ?thesis by simp
  next
    case (2 q)
    then have "parse_turn newID (more bs p) = Cont (more bs q)"
      using parse_turn_more [OF 1(2), of newID bs] by (simp add: steady_def)
    then have "parse newID (more bs p) = parse newID (more bs q)"
      by (simp add: parse.simps [of newID "more bs p"])
    with 2 "1.IH" show ?thesis by simp
  next
    case 3
    then have "parse_turn newID (more bs p) = TurnPanic"
      using parse_turn_more [OF 1(2), of newID bs] by (simp add: steady_def)
    then have "parse newID (more bs p) = Crash"
      by (simp add: parse.simps [of newID "more bs p"])
    with 3 show ?thesis by simp
  qed
qed

lemma parse_same:
  "\<not> p_stopped p \<Longrightarrow> parse newID p = Ok q \<Longrightarrow> same_parser p q"
proof (induction newID p rule: parse.induct)
  case (1 newID p)
  show ?case
  proof (cases rule: parse_cases [OF 1(2), of newID])
    case (2 r)
    with 1 parse_turn_same [OF 2(1)] show ?thesis by simp
  qed (use 1 in auto)
qed

fun write_all :: "(nat \<Rightarrow> bytes) \<Rightarrow> bytes list \<Rightarrow> parser \<Rightarrow> (write_error option \<times> parser) may_panic" where
  "write_all newID [] p = Ok (None, p)"
| "write_all newID [c] p = p_Write newID c p"
| "write_all newID (c # cs) p =
     res_bind (p_Write newID c p) (\<lambda>(e, q). if e = None then write_all newID cs q else Ok (e, q))"

lemma write_all_concat:
  "p_streamed p \<Longrightarrow> cs \<noteq> [] \<Longrightarrow> write_all newID cs p = p_Write newID (concat cs) p"
proof (induction newID cs p rule: write_all.induct)
  case (3 newID c d cs p)
  show ?case
  proof (cases "p_stopped p")
    case True
    then show ?thesis by (simp add: p_Write_def)
  next
    case False
    have "parse newID (more (c @ concat (d # cs)) p) =
        res_bind (parse newID (more c p)) (\<lambda>q. parse newID (more (concat (d # cs)) q))"
      using parse_more [of "more c p" newID "concat (d # cs)"] False by simp
    moreover have "write_all newID (d # cs) q = p_Write newID (concat (d # cs)) q"
      if "parse newID (more c p) = Ok q" for q
      using that parse_same [OF _ that] False "3.prems" "3.IH" by (simp add: p_Write_def)
    moreover have "same_parser p q" if "parse newID (more c p) = Ok q" for q
      using parse_same [OF _ that] False by simp
    ultimately show ?thesis
      using False "3.prems"(1) by (cases "parse newID (more c p)") (simp_all add: p_Write_def)
  qed
qed simp_all

section \<open>Reading a message\<close>

lemma crlf_cr_lf: "crlf = [cr, lf]" "cr = CHR 0x0D" "lf = CHR 0x0A"
  by (simp add: crlf_def cr_def lf_def) code_simp+

lemma next_line_print: "one_line l \<Longrightarrow> next_line buf (l @ crlf @ t) = Some (buf @ l, t)"
  by (induction l arbitrary: buf) (simp_all add: crlf_cr_lf)

lemma NextLine_print: "one_line l \<Longrightarrow> NextLine c (l @ crlf @ t) = Got l t"
  by (simp add: NextLine_def next_line_print)

lemma header_lines_print:
  "list_all line_ok ls \<Longrightarrow> header_lines c (lines_text ls @ crlf @ t) = Some (ls, t)"
proof (induction ls)
  case Nil
  then show ?case using next_line_print [of "[]" "[]" t] by (simp add: header_lines.simps)
next
  case (Cons l ls)
  then show ?case
    using next_line_print [of l "[]" "lines_text ls @ crlf @ t"]
    by (simp add: header_lines.simps [of c "l @ crlf @ lines_text ls @ crlf @ t"] line_ok_def)
qed

lemma NextChunk_print: "NextChunk c (int (length b)) (b @ t) = Got b t"
  by (simp add: NextChunk_def)

lemma Atoi_fmt_d: "n < 2 ^ 63 \<Longrightarrow> strconv_Atoi (fmt_d n) = (int n, None)"
proof -
  assume n: "n < 2 ^ 63"
  then have "n < 2 ^ 64" by simp
  then have "strconv_ParseUint (fmt_d n) 64 = (n, None)" by (rule ParseUint_fmt_d)
  moreover have "is_digit (hd (fmt_d n))" using fmt_d_digits [of "hd (fmt_d n)" n] by simp
  then have "hd (fmt_d n) \<noteq> CHR ''-''" "hd (fmt_d n) \<noteq> CHR ''+''" by (auto simp: is_digit_def)
  ultimately show ?thesis using n by (simp add: strconv_Atoi_def)
qed

definition length_line :: "nat \<Rightarrow> nat \<Rightarrow> bytes" where
  "length_line n m = fmt_d n @ ''|'' @ fmt_d m"

lemma length_line_ok:
  assumes "n < 2 ^ 63" and "m < 2 ^ 63"
  shows "one_line (length_line n m)" and "read_lengths (length_line n m) = Some (int n, int m)"
proof -
  have d: "CHR ''|'' \<notin> set (fmt_d k)" "one_line (fmt_d k)" for k
    using fmt_d_digits [of _ k] digits_plain [of "fmt_d k"]
    by (force simp: is_digit_def, intro one_line_plain) blast
  then show "one_line (length_line n m)" by (simp add: length_line_def)
  have "strings_Split (length_line n m) ''|'' = [fmt_d n, fmt_d m]"
    using d by (simp add: length_line_def strings_Split_single Split_single_free)
  with assms show "read_lengths (length_line n m) = Some (int n, int m)"
    by (simp add: read_lengths_def Atoi_fmt_d)
qed

text \<open>A packet of well-formed lines.\<close>

lemma packet_of_lines:
  assumes "list_all line_ok (l # ls)" and "data = lines_text (l # ls) @ crlf @ b"
  shows "packet_lines data = l # ls" and "getBodyLength data = Some (length b)"
    and "drop (length data - length b) data = b"
proof -
  show len: "getBodyLength data = Some (length b)"
    unfolding assms(2) by (rule lines_body_length) (use assms(1) in simp_all)
  have t: "data = (lines_text (l # ls) @ crlf) @ b" by (simp add: assms(2))
  then have "length data - length b = length (lines_text (l # ls) @ crlf)" by simp
  then have "take (length data - length b) data = lines_text (l # ls) @ crlf" "drop (length data - length b) data = b"
    using t by simp_all
  then show "packet_lines data = l # ls" and "drop (length data - length b) data = b"
    using len lines_split [OF assms(1)] by (simp_all add: packet_lines_def del: lines_text_simps)
qed

lemma ParseMessage_packet:
  assumes "list_all line_ok (l # ls)" and "data = lines_text (l # ls) @ crlf @ b"
  shows "ParseMessage pp fid data =
    (case parseStartLine fid l of
       Crash \<Rightarrow> Crash
     | Err e \<Rightarrow> Err (InvalidStartLine e)
     | Ok msg \<Rightarrow>
         (case fillHeaders pp msg ls of Ok msg1 \<Rightarrow> fillBody msg1 b (length b) | _ \<Rightarrow> Crash))"
  unfolding ParseMessage_lines packet_of_lines(1,2) [OF assms] option.sel packet_of_lines(3) [OF assms]
  by simp

lemma fillBody_total: "fillBody msg b (length b) \<noteq> Err e" "fillBody msg b n \<noteq> Crash"
  by (simp_all add: fillBody_def)

text \<open>A turn on a packet with its line of lengths.\<close>

lemma packet_turn:
  assumes ok: "list_all line_ok (l # ls)" and data: "data = lines_text (l # ls) @ crlf @ b"
    and len: "length data < 2 ^ 63" and p: "\<not> p_streamed p"
    and inp: "p_input p = length_line (length b) (length data) @ crlf @ data"
  shows "parse_turn newID p =
    (case ParseMessage (p_table p) (newID (p_ids p)) data of
       Crash \<Rightarrow> TurnPanic
     | Err e \<Rightarrow> Cont (send_err e (p\<lparr>p_input := []\<rparr>))
     | Ok msg \<Rightarrow> Cont (p\<lparr>p_input := [], p_skipStreamedErr := False, p_ids := p_ids p + 1, p_output := p_output p @ [msg]\<rparr>))"
proof -
  have b: "length b < 2 ^ 63" using data len by simp
  note ll = length_line_ok [OF b len]
  have l: "one_line l" and ls: "list_all line_ok ls" using ok by (simp_all add: line_ok_def)
  have rest: "data = l @ crlf @ (lines_text ls @ crlf @ b)" using data by simp
  let ?p = "p\<lparr>p_input := data\<rparr>"
  have turn: "parse_turn newID p = read_message newID (int (length b)) (int (length data)) ?p"
    using p ll by (simp add: parse_turn_def inp NextLine_print)
  have line: "NextLine (p_stopped ?p) (p_input ?p) = Got l (lines_text ls @ crlf @ b)"
    unfolding rest using l by (simp add: NextLine_print)
  have skip: "int (length data) - int (length l) - 2 = int (length (lines_text ls @ crlf @ b))"
    unfolding rest by (simp add: crlf_CHR)
  show ?thesis
  proof (cases "parseStartLine (newID (p_ids p)) l")
    case (Err e)
    have "NextChunk (p_stopped p) (int (length data) - int (length l) - 2) (lines_text ls @ crlf @ b) = Got (lines_text ls @ crlf @ b) []"
      unfolding skip using NextChunk_print [of _ "lines_text ls @ crlf @ b" "[]"] by simp
    with Err p line show ?thesis
      unfolding turn ParseMessage_packet [OF ok data] by (simp add: read_message_def bad_start_line_def)
  next
    case (Ok msg)
    with p line header_lines_print [OF ls] NextChunk_print [of _ b "[]"] fillBody_total show ?thesis
      unfolding turn ParseMessage_packet [OF ok data]
      by (auto simp: read_message_def read_rest_def body_length_def read_body_def Let_def split: res.splits)
  next
    case Crash
    with line show ?thesis
      unfolding turn ParseMessage_packet [OF ok data] by (simp add: read_message_def)
  qed
qed

text \<open>A turn on a message of a stream, with the bytes that follow it.\<close>

definition framed :: "sip_msg \<Rightarrow> bool" where
  "framed m \<longleftrightarrow> GetHeaders ''Content-Length'' (msg_hdrs m) = [ContentLength (of_nat (length (msg_body m)))]
     \<and> length (msg_body m) < 2 ^ 32"

lemma stream_turn:
  assumes m: "printable_message m" "framed m" and p: "p_streamed p" "p_table p = NewPacketParser"
    and inp: "p_input p = msg_String m @ rest"
  shows "parse_turn newID p =
    Cont (p\<lparr>p_input := rest, p_skipStreamedErr := False, p_ids := p_ids p + 1,
      p_output := p_output p @ [reparsed (newID (p_ids p)) (Headers_all (msg_hdrs m)) (msg_body m) m]\<rparr>)"
proof -
  let ?hs = "Headers_all (msg_hdrs m)" and ?b = "msg_body m"
  have start: "printable_start m" and hs: "list_all printable_header ?hs" and wf: "headers_wf (msg_hdrs m)"
    and b: "?b = [] \<or> strings_TrimSpace ?b \<noteq> []"
    using m(1) by (auto simp: printable_message_def)
  have ok: "one_line (msg_StartLine m)" "list_all line_ok (map header_String ?hs)"
    using start_line_ok [OF start] hs header_line(1) by (auto simp: list_all_iff line_ok_def)
  have inp': "p_input p = msg_StartLine m @ crlf @ (lines_text (map header_String ?hs) @ crlf @ ?b @ rest)"
    by (simp add: inp msg_String_lines)
  let ?q = "reparsed (newID (p_ids p)) ?hs [] m"
  have "GetHeaders ''Content-Length'' (msg_hdrs ?q) = [ContentLength (of_nat (length ?b))]"
    using m(2) rebuild_collection(1) [OF wf] by (simp add: framed_def reparsed_fields GetHeaders_at)
  moreover have "uint (of_nat (length ?b) :: 32 word) = int (length ?b)"
    using m(2) by (simp add: framed_def uint_nat take_bit_nat_eq_self unsigned_of_nat)
  ultimately have "body_length True 0 ?q = Ok (int (length ?b))" by (simp add: body_length_def)
  then show ?thesis
    using p ok header_lines_print [OF ok(2)] parseStartLine_print [OF start]
      fillHeaders_print [OF hs] reparsed_headers NextChunk_print [of _ ?b rest] fillBody_print [OF b]
    by (simp add: parse_turn_def read_message_def read_rest_def read_body_def inp' NextLine_print)
qed

section \<open>Properties\<close>

definition same_content :: "sip_msg \<Rightarrow> sip_msg \<Rightarrow> bool" where
  "same_content m m' \<longleftrightarrow> start_fields m' = start_fields m \<and>
     (\<forall>n. GetHeaders n (msg_hdrs m') = GetHeaders n (msg_hdrs m)) \<and>
     headerOrder (msg_hdrs m') = headerOrder (msg_hdrs m) \<and> msg_body m' = msg_body m"

lemma parse_idle: "\<not> p_stopped p \<Longrightarrow> p_input p = [] \<Longrightarrow> parse newID p = Ok p"
  by (simp add: parse.simps [of newID p] parse_turn_def read_message_def NextLine_def)

lemma parse_step: "parse_turn newID p = Cont q \<Longrightarrow> parse newID p = parse newID q"
  by (simp add: parse.simps [of newID p])

lemma read_back_content:
  assumes "printable_message m"
  shows "same_content m (reparsed fid (Headers_all (msg_hdrs m)) (msg_body m) m)"
  using assms rebuild_collection(1,2) [of "msg_hdrs m"]
  by (simp add: same_content_def reparsed_fields printable_message_def GetHeaders_at)

lemma parse_stream:
  assumes "list_all (\<lambda>m. printable_message m \<and> framed m) ms" and "p_streamed p" "\<not> p_stopped p"
    and "p_table p = NewPacketParser" and "p_input p = concat (map msg_String ms)"
  shows "\<exists>q out. parse newID p = Ok q \<and> p_output q = p_output p @ out \<and> list_all2 same_content ms out \<and>
    p_errs q = p_errs p \<and> p_input q = [] \<and> p_ids q = p_ids p + length ms"
  using assms
proof (induction ms arbitrary: p)
  case Nil
  then show ?case by (auto simp: parse_idle)
next
  case (Cons m ms)
  let ?m = "reparsed (newID (p_ids p)) (Headers_all (msg_hdrs m)) (msg_body m) m"
  let ?p = "p\<lparr>p_input := concat (map msg_String ms), p_skipStreamedErr := False, p_ids := p_ids p + 1,
    p_output := p_output p @ [?m]\<rparr>"
  have turn: "parse_turn newID p = Cont ?p"
    using Cons.prems by (intro stream_turn) simp_all
  obtain q out where "parse newID ?p = Ok q" "p_output q = p_output ?p @ out" "list_all2 same_content ms out"
    "p_errs q = p_errs ?p" "p_input q = []" "p_ids q = p_ids ?p + length ms"
    using Cons.IH [of ?p] Cons.prems by auto
  moreover have "same_content m ?m" using Cons.prems(1) by (simp add: read_back_content)
  ultimately show ?case using parse_step [OF turn] by auto
qed

text \<open>How the bytes of a stream are cut into writes does not matter: writing chunks one after
  the other to a streamed parser has the result of writing them at once, panics and the error after
  \<open>Stop\<close> included.\<close>

theorem stream_chunks:
  assumes "p_streamed p" and "cs \<noteq> []"
  shows "write_all newID cs p = p_Write newID (concat cs) p"
  by (rule write_all_concat [OF assms])

theorem stream_chunks_witness:
  "p_streamed (NewParser True) \<and> write_all (\<lambda>_. ''1'') [''A'', ''B''] (NewParser True) =
     p_Write (\<lambda>_. ''1'') ''AB'' (NewParser True)"
  using stream_chunks [of "NewParser True" "[''A'', ''B'']" "\<lambda>_. ''1''"] by (simp add: NewParser_def)

text \<open>C8: A new streamed parser that is given the printed forms of any messages that are printable
  and framed (one Content-Length header, the length of the body), one after the other and cut into
  any chunks, sends exactly these messages, in this order, reports no error and waits for the next
  byte.\<close>

theorem stream_roundtrip:
  assumes "list_all (\<lambda>m. printable_message m \<and> framed m) ms" and "cs \<noteq> []"
    and "concat cs = concat (map msg_String ms)"
  shows "\<exists>q. write_all newID cs (NewParser True) = Ok (None, q) \<and> list_all2 same_content ms (p_output q) \<and>
    p_errs q = [] \<and> p_input q = [] \<and> parse_turn newID q = Wait"
proof -
  let ?p = "(NewParser True)\<lparr>p_input := concat (map msg_String ms)\<rparr>"
  obtain q where q: "parse newID ?p = Ok q" "list_all2 same_content ms (p_output q)" "p_errs q = []" "p_input q = []"
    using parse_stream [OF assms(1), of ?p newID] by (auto simp: NewParser_def)
  then have "\<not> p_stopped q" "p_streamed q" using parse_same [OF _ q(1)] by (simp_all add: NewParser_def)
  with q(4) have "parse_turn newID q = Wait" by (simp add: parse_turn_def read_message_def NextLine_def)
  moreover have "write_all newID cs (NewParser True) = p_Write newID (concat cs) (NewParser True)"
    using assms(2) by (intro write_all_concat) (simp_all add: NewParser_def)
  ultimately show ?thesis using q assms(3) by (simp add: p_Write_def NewParser_def)
qed

lemma sample_framed: "framed sample_message"
proof -
  have "GetHeaders ''Content-Length'' (msg_hdrs sample_message) = [ContentLength 2]" "msg_body sample_message = ''hi''"
    by code_simp+
  then show ?thesis by (simp add: framed_def)
qed

theorem stream_roundtrip_witness:
  "\<exists>q. write_all (\<lambda>_. ''1'') (map (\<lambda>c. [c]) (msg_String sample_message @ msg_String sample_message)) (NewParser True) =
     Ok (None, q) \<and> list_all2 same_content [sample_message, sample_message] (p_output q) \<and> p_errs q = []"
proof -
  have "msg_String sample_message \<noteq> []" by (simp add: msg_String_lines crlf_CHR)
  then show ?thesis
    using stream_roundtrip [of "[sample_message, sample_message]"
        "map (\<lambda>c. [c]) (msg_String sample_message @ msg_String sample_message)" "\<lambda>_. ''1''"]
    by (auto simp: sample_printable sample_framed)
qed

text \<open>C15: On a packet of well-formed lines the unstreamed parser does what the packet parser does:
  it sends the message that \<open>ParseMessage\<close> returns, or reports its error, or panics with it, and has
  read the whole packet in each case.\<close>

theorem packet_equivalence:
  assumes "list_all line_ok (l # ls)" and "data = lines_text (l # ls) @ crlf @ b" and "length data < 2 ^ 63"
    and "\<not> p_streamed p" "\<not> p_stopped p" "p_input p = []"
  shows "p_Write newID data p =
    (case ParseMessage (p_table p) (newID (p_ids p)) data of
       Crash \<Rightarrow> Crash
     | Err e \<Rightarrow> Ok (None, p\<lparr>p_errs := p_errs p @ [e]\<rparr>)
     | Ok msg \<Rightarrow> Ok (None, p\<lparr>p_skipStreamedErr := False, p_ids := p_ids p + 1, p_output := p_output p @ [msg]\<rparr>))"
proof -
  let ?p = "p\<lparr>p_input := length_line (length b) (length data) @ crlf @ data\<rparr>"
  have "p_Write newID data p = res_bind (parse newID ?p) (\<lambda>q. Ok (None, q))"
    using assms packet_of_lines(2) [OF assms(1,2)] by (simp add: p_Write_def length_line_def)
  moreover note turn = packet_turn [OF assms(1-3), of ?p newID]
  have "parse newID ?p =
    (case ParseMessage (p_table p) (newID (p_ids p)) data of
       Crash \<Rightarrow> Crash
     | Err e \<Rightarrow> Ok (p\<lparr>p_input := [], p_errs := p_errs p @ [e]\<rparr>)
     | Ok msg \<Rightarrow> Ok (p\<lparr>p_input := [], p_skipStreamedErr := False, p_ids := p_ids p + 1, p_output := p_output p @ [msg]\<rparr>))"
    unfolding parse.simps [of newID ?p]
    using turn assms(4,5) by (simp add: parse_idle send_err_def split: res.splits)
  moreover have "p\<lparr>p_input := []\<rparr> = p" using assms(6) by simp
  ultimately show ?thesis by (cases p) (simp split: res.splits)
qed

theorem packet_equivalence_witness:
  "p_Write (\<lambda>_. ''1'') (''X'' @ crlf @ crlf) (NewParser False) =
     Ok (None, (NewParser False)\<lparr>p_errs := [InvalidStartLine (LineError NotSip)]\<rparr>)"
proof -
  have "ParseMessage NewPacketParser ''1'' (''X'' @ crlf @ crlf) = Err (InvalidStartLine (LineError NotSip))"
    by code_simp
  then show ?thesis
    using packet_equivalence [of "''X''" "[]" "''X'' @ crlf @ crlf" "[]" "NewParser False" "\<lambda>_. ''1''"]
    by (simp add: NewParser_def line_ok_def crlf_CHR)
qed

end
