(* ===== verification/Transport_Target.thy ===== *)
theory Transport_Target
  imports Parser_StreamProps
begin

text \<open>
  Addresses and errors of the transport package (\<^verbatim>\<open>transport/transport.go\<close>), with
  \<^verbatim>\<open>net.SplitHostPort\<close> of the standard library.
\<close>

section \<open>Targets\<close>

definition DefaultHost :: bytes where
  "DefaultHost = ''127.0.0.1''"

datatype addr_error = MissingPort | TooManyColons | MissingBracket | UnexpectedBracket | PortNumber num_error

text \<open>\<^verbatim>\<open>net.SplitHostPort\<close>: the port is what follows the last colon; a host in
  brackets may contain colons.\<close>

definition SplitHostPort :: "bytes \<Rightarrow> addr_error + bytes \<times> bytes" where
  "SplitHostPort hostport =
     (case strings_LastIndex hostport '':'' of
        None \<Rightarrow> Inl MissingPort
      | Some i \<Rightarrow>
          (case (if hd hostport = CHR ''['' then
                   (case strings_Index hostport '']'' of
                      None \<Rightarrow> Inl MissingBracket
                    | Some e \<Rightarrow>
                        if e + 1 = length hostport then Inl MissingPort
                        else if e + 1 = i then Inr (drop 1 (take e hostport), 1, e + 1)
                        else if hostport ! (e + 1) = CHR '':'' then Inl TooManyColons
                        else Inl MissingPort)
                 else if CHR '':'' \<in> set (take i hostport) then Inl TooManyColons
                 else Inr (take i hostport, 0, 0)) of
             Inl e \<Rightarrow> Inl e
           | Inr (host, j, k) \<Rightarrow>
               if CHR ''['' \<in> set (drop j hostport) \<or> CHR '']'' \<in> set (drop k hostport) then Inl UnexpectedBracket
               else Inr (host, drop (i + 1) hostport)))"

record target =
  tg_Host :: bytes
  tg_Port :: "port option"

definition Target_Addr :: "target \<Rightarrow> bytes" where
  "Target_Addr trg =
     host_port (if strings_TrimSpace (tg_Host trg) \<noteq> [] then tg_Host trg else DefaultHost)
       (case tg_Port trg of Some p \<Rightarrow> p | None \<Rightarrow> 0)"

text \<open>The conversion to the 16 bits of a port wraps.\<close>

definition NewTarget :: "bytes \<Rightarrow> int \<Rightarrow> target" where
  "NewTarget host p = \<lparr>tg_Host = host, tg_Port = Some (word_of_int p)\<rparr>"

definition NewTargetFromAddr :: "bytes \<Rightarrow> addr_error + target" where
  "NewTargetFromAddr addr =
     (case SplitHostPort addr of
        Inl e \<Rightarrow> Inl e
      | Inr (host, p) \<Rightarrow>
          (case strconv_Atoi p of
             (n, None) \<Rightarrow> Inr (NewTarget host n)
           | (_, Some e) \<Rightarrow> Inl (PortNumber e)))"

definition FillTargetHostAndPort :: "bytes \<Rightarrow> target \<Rightarrow> target" where
  "FillTargetHostAndPort network trg =
     trg\<lparr>tg_Host := (if strings_TrimSpace (tg_Host trg) = [] then DefaultHost else tg_Host trg),
         tg_Port := Some (case tg_Port trg of Some p \<Rightarrow> p | None \<Rightarrow> DefaultPort network)\<rparr>"

section \<open>Errors\<close>

text \<open>
  The errors that travel through the transport package.  \<open>NetErr\<close> stands for an error of the
  standard library that implements \<^verbatim>\<open>net.Error\<close>, with what its methods return; \<open>PlainErr\<close>
  for an error that only has a text; \<open>Wrapped\<close> for \<^verbatim>\<open>fmt.Errorf\<close> with \<^verbatim>\<open>%w\<close>.  What the text
  of an error shows of pointers, addresses and parser details is a field of the constructor, the
  last one, or the first one for the errors of the parser.
\<close>

datatype tp_error =
    NetErr bool bool bytes
  | EOF_err
  | ErrClosedPipe
  | PlainErr bytes
  | Wrapped bytes tp_error
  | ParserErr bytes message_error
  | WriteErr bytes
  | MissingVia bytes
  | ConnectionError tp_error bytes bytes
  | ExpireError bytes
  | ProtocolError tp_error bytes bytes
  | ConnectionHandlerError tp_error bytes bytes
  | ListenerHandlerError tp_error bytes bytes
  | PoolError tp_error bytes bytes
  | UnsupportedProtocolError bytes

fun err_Unwrap :: "tp_error \<Rightarrow> tp_error option" where
  "err_Unwrap (Wrapped _ e) = Some e"
| "err_Unwrap (ConnectionError e _ _) = Some e"
| "err_Unwrap (ProtocolError e _ _) = Some e"
| "err_Unwrap (ConnectionHandlerError e _ _) = Some e"
| "err_Unwrap (ListenerHandlerError e _ _) = Some e"
| "err_Unwrap (PoolError e _ _) = Some e"
| "err_Unwrap _ = None"

text \<open>The errors that \<^verbatim>\<open>errors.As\<close> and \<^verbatim>\<open>errors.Is\<close> look at, the error itself first.\<close>

fun err_chain :: "tp_error \<Rightarrow> tp_error list" where
  "err_chain (Wrapped t e) = Wrapped t e # err_chain e"
| "err_chain (ConnectionError e a b) = ConnectionError e a b # err_chain e"
| "err_chain (ProtocolError e a b) = ProtocolError e a b # err_chain e"
| "err_chain (ConnectionHandlerError e a b) = ConnectionHandlerError e a b # err_chain e"
| "err_chain (ListenerHandlerError e a b) = ListenerHandlerError e a b # err_chain e"
| "err_chain (PoolError e a b) = PoolError e a b # err_chain e"
| "err_chain e = [e]"

text \<open>Which errors have the methods of \<^verbatim>\<open>net.Error\<close>.\<close>

fun is_net_Error :: "tp_error \<Rightarrow> bool" where
  "is_net_Error (NetErr _ _ _) = True"
| "is_net_Error (ConnectionError _ _ _) = True"
| "is_net_Error (ExpireError _) = True"
| "is_net_Error (ProtocolError _ _ _) = True"
| "is_net_Error (ConnectionHandlerError _ _ _) = True"
| "is_net_Error (ListenerHandlerError _ _ _) = True"
| "is_net_Error (PoolError _ _ _) = True"
| "is_net_Error (UnsupportedProtocolError _) = True"
| "is_net_Error _ = False"

definition isNetwork :: "tp_error \<Rightarrow> bool" where
  "isNetwork err \<longleftrightarrow>
     list_ex is_net_Error (err_chain err) \<or> EOF_err \<in> set (err_chain err) \<or> ErrClosedPipe \<in> set (err_chain err)"

text \<open>\<open>isTimeout\<close> asks the first \<^verbatim>\<open>net.Error\<close> of the chain, whose method asks the error it
  wraps in turn; \<open>isTemporary\<close> likewise.\<close>

fun isTimeout :: "tp_error \<Rightarrow> bool" where
  "isTimeout (NetErr timeout _ _) = timeout"
| "isTimeout (ExpireError _) = True"
| "isTimeout (Wrapped _ e) = isTimeout e"
| "isTimeout (ConnectionError e _ _) = isTimeout e"
| "isTimeout (ProtocolError e _ _) = isTimeout e"
| "isTimeout (ConnectionHandlerError e _ _) = isTimeout e"
| "isTimeout (ListenerHandlerError e _ _) = isTimeout e"
| "isTimeout (PoolError e _ _) = isTimeout e"
| "isTimeout _ = False"

fun isTemporary :: "tp_error \<Rightarrow> bool" where
  "isTemporary (NetErr _ temporary _) = temporary"
| "isTemporary (Wrapped _ e) = isTemporary e"
| "isTemporary (ConnectionError e _ _) = isTemporary e"
| "isTemporary (ProtocolError e _ _) = isTemporary e"
| "isTemporary (ConnectionHandlerError e _ _) = isTemporary e"
| "isTemporary (ListenerHandlerError e _ _) = isTemporary e"
| "isTemporary (PoolError e _ _) = isTemporary e"
| "isTemporary _ = False"

text \<open>\<open>isExpired\<close> asks the first error of the chain that has a method \<open>Expired\<close>.\<close>

fun isExpired :: "tp_error \<Rightarrow> bool" where
  "isExpired (ExpireError _) = True"
| "isExpired (Wrapped _ e) = isExpired e"
| "isExpired (ConnectionError e _ _) = isExpired e"
| "isExpired (ProtocolError e _ _) = isExpired e"
| "isExpired (ConnectionHandlerError e _ _) = isExpired e"
| "isExpired (ListenerHandlerError e _ _) = isExpired e"
| "isExpired (PoolError e _ _) = isExpired e"
| "isExpired _ = False"

text \<open>The text of an error.\<close>

definition dump_text :: "bytes \<Rightarrow> bytes" where
  "dump_text msg = (if msg = [] then [] else [char_of (10::nat)] @ ''Message dump:'' @ [char_of (10::nat)] @ msg)"

fun message_error_text :: "bytes \<Rightarrow> message_error \<Rightarrow> bytes" where
  "message_error_text info InvalidMessageFormat = ''parser.InvalidMessageFormat: '' @ info"
| "message_error_text info (InvalidStartLine _) = ''parser.InvalidStartLineError: '' @ info"
| "message_error_text info (MissingContentLength msg) =
     ''MalformedMessageError: missing required '' @ [CHR 0x27] @ ''Content-Length'' @ [CHR 0x27] @ '' header'' @ dump_text msg"
| "message_error_text info (MultipleContentLength msg) = ''MalformedMessageError: '' @ info @ dump_text msg"
| "message_error_text info (BrokenMessage msg) = ''BrokenMessageError: '' @ info @ dump_text msg"

fun err_Error :: "tp_error \<Rightarrow> bytes" where
  "err_Error (NetErr _ _ t) = t"
| "err_Error EOF_err = ''EOF''"
| "err_Error ErrClosedPipe = ''io: read/write on closed pipe''"
| "err_Error (PlainErr t) = t"
| "err_Error (Wrapped t e) = t @ '': '' @ err_Error e"
| "err_Error (ParserErr info e) = message_error_text info e"
| "err_Error (WriteErr info) = ''parser.WriteError: '' @ info"
| "err_Error (MissingVia msg) =
     ''MalformedMessageError: missing required '' @ [CHR 0x27] @ ''Via'' @ [CHR 0x27] @ '' header'' @ dump_text msg"
| "err_Error (ConnectionError e op f) = ''transport.ConnectionError<'' @ f @ ''> '' @ op @ '' failed: '' @ err_Error e"
| "err_Error (ExpireError t) = ''transport.ExpireError: '' @ t"
| "err_Error (ProtocolError e op f) = ''transport.ProtocolError<'' @ f @ ''> '' @ op @ '' failed: '' @ err_Error e"
| "err_Error (ConnectionHandlerError e key f) = ''transport.ConnectionHandlerError<'' @ f @ ''>: '' @ err_Error e"
| "err_Error (ListenerHandlerError e key f) = ''transport.ListenerHandlerError<'' @ f @ ''>: '' @ err_Error e"
| "err_Error (PoolError e op f) = ''transport.PoolError<'' @ f @ ''> '' @ op @ '' failed: '' @ err_Error e"
| "err_Error (UnsupportedProtocolError t) = ''transport.UnsupportedProtocolError: '' @ t"

text \<open>\<open>ConnectionHandlerError.EOF\<close>: the wrapped error is \<^verbatim>\<open>io.EOF\<close>, or its text matches the
  regular expression \<^verbatim>\<open>(?i)eof\<close>.\<close>

definition handler_error_EOF :: "tp_error \<Rightarrow> bool" where
  "handler_error_EOF e \<longleftrightarrow> e = EOF_err \<or> strings_Contains (strings_ToLower (err_Error e)) ''eof''"

text \<open>\<open>isSyntaxError\<close> (\<^verbatim>\<open>transport/connection_pool.go\<close>): the first parser error of the chain is a
  syntax error, or the first message error is a broken message.\<close>

fun has_Syntax :: "tp_error \<Rightarrow> bool option" where
  "has_Syntax (ParserErr _ InvalidMessageFormat) = Some True"
| "has_Syntax (ParserErr _ (InvalidStartLine _)) = Some True"
| "has_Syntax (WriteErr _) = Some False"
| "has_Syntax _ = None"

fun has_Broken :: "tp_error \<Rightarrow> bool option" where
  "has_Broken (ParserErr _ InvalidMessageFormat) = Some True"
| "has_Broken (ParserErr _ (InvalidStartLine _)) = Some True"
| "has_Broken (ParserErr _ (BrokenMessage _)) = Some True"
| "has_Broken (ParserErr _ _) = Some False"
| "has_Broken (MissingVia _) = Some False"
| "has_Broken _ = None"

definition errors_As :: "(tp_error \<Rightarrow> 'a option) \<Rightarrow> tp_error \<Rightarrow> 'a option" where
  "errors_As method err =
     (case List.map_filter method (err_chain err) of [] \<Rightarrow> None | b # _ \<Rightarrow> Some b)"

definition isSyntaxError :: "tp_error \<Rightarrow> bool" where
  "isSyntaxError err \<longleftrightarrow> errors_As has_Syntax err = Some True \<or> errors_As has_Broken err = Some True"

section \<open>Addresses read back\<close>

definition plain_host :: "bytes \<Rightarrow> bool" where
  "plain_host h \<longleftrightarrow> CHR '':'' \<notin> set h \<and> CHR ''['' \<notin> set h \<and> CHR '']'' \<notin> set h"

lemma fmt_port_plain: "plain_host (fmt_port p)"
  by (auto simp: plain_host_def fmt_port_def is_digit_def dest!: fmt_d_digits)

lemma SplitHostPort_host_port:
  assumes "CHR ''['' \<notin> set h" "CHR '']'' \<notin> set h"
  shows "SplitHostPort (host_port h p) = (if CHR '':'' \<in> set h then Inl TooManyColons else Inr (h, fmt_port p))"
proof -
  have "strings_LastIndex (host_port h p) '':'' = Some (length h)"
    using fmt_port_plain [of p] by (simp add: host_port_def plain_host_def LastIndex_single_append)
  moreover have "hd (host_port h p) \<noteq> CHR ''[''" using assms by (cases h) (auto simp: host_port_def)
  ultimately show ?thesis using assms fmt_port_plain [of p]
    by (auto simp: SplitHostPort_def host_port_def plain_host_def)
qed

lemma Atoi_fmt_port: "strconv_Atoi (fmt_port p) = (int (unat p), None)"
proof -
  have "unat p < 2 ^ 16" using unsigned_less [of p, where ?'a = nat] by simp
  then show ?thesis by (simp add: fmt_port_def Atoi_fmt_d)
qed

lemma NewTargetFromAddr_host_port:
  assumes "plain_host h"
  shows "NewTargetFromAddr (host_port h p) = Inr \<lparr>tg_Host = h, tg_Port = Some p\<rparr>"
  using assms by (simp add: NewTargetFromAddr_def SplitHostPort_host_port plain_host_def Atoi_fmt_port NewTarget_def)

text \<open>\<^verbatim>\<open>net.JoinHostPort\<close>, the text of the address of a socket: a host with colons, an IPv6
  address, is written in brackets.  It is read back with and without colons.\<close>

definition JoinHostPort :: "bytes \<Rightarrow> port \<Rightarrow> bytes" where
  "JoinHostPort h p = (if CHR '':'' \<in> set h then ''['' @ h @ '']:'' @ fmt_port p else host_port h p)"

definition bare_host :: "bytes \<Rightarrow> bool" where
  "bare_host h \<longleftrightarrow> CHR ''['' \<notin> set h \<and> CHR '']'' \<notin> set h"

lemma SplitHostPort_Join:
  assumes "bare_host h"
  shows "SplitHostPort (JoinHostPort h p) = Inr (h, fmt_port p)"
proof (cases "CHR '':'' \<in> set h")
  case True
  let ?s = "CHR ''['' # h @ CHR '']'' # CHR '':'' # fmt_port p"
  have "strings_LastIndex ((CHR ''['' # h @ '']'') @ CHR '':'' # fmt_port p) '':'' = Some (length (CHR ''['' # h @ '']''))"
    using fmt_port_plain [of p] by (intro LastIndex_single_append) (simp add: plain_host_def)
  then have "strings_LastIndex ?s '':'' = Some (length h + 2)" by simp
  moreover have "strings_Index ((CHR ''['' # h) @ CHR '']'' # CHR '':'' # fmt_port p) '']'' = Some (length (CHR ''['' # h))"
    using assms by (intro strings_Index_single_append) (simp add: bare_host_def)
  then have "strings_Index ?s '']'' = Some (length h + 1)" by simp
  ultimately show ?thesis
    using True assms fmt_port_plain [of p]
    by (simp add: SplitHostPort_def JoinHostPort_def plain_host_def bare_host_def)
qed (use assms in \<open>simp add: JoinHostPort_def SplitHostPort_host_port bare_host_def\<close>)

lemma NewTargetFromAddr_Split:
  "SplitHostPort addr = Inr (h, fmt_port p) \<Longrightarrow> NewTargetFromAddr addr = Inr \<lparr>tg_Host = h, tg_Port = Some p\<rparr>"
  by (simp add: NewTargetFromAddr_def Atoi_fmt_port NewTarget_def)

text \<open>The address of a target that was made from an address can be read back exactly when its host
  has no colon: the brackets of an IPv6 address are dropped and not printed again, so that such a
  target is never resolved.\<close>

theorem target_roundtrip:
  assumes "NewTargetFromAddr addr = Inr trg" and "strings_TrimSpace (tg_Host trg) \<noteq> []"
  shows "NewTargetFromAddr (Target_Addr trg) = (if CHR '':'' \<in> set (tg_Host trg) then Inl TooManyColons else Inr trg)"
proof -
  obtain h p where s: "SplitHostPort addr = Inr (h, p)"
    using assms(1) by (auto simp: NewTargetFromAddr_def split: sum.splits)
  obtain n e where "strconv_Atoi p = (n, e)" by fastforce
  then have trg: "trg = NewTarget h n"
    using assms(1) s by (cases e) (simp_all add: NewTargetFromAddr_def)
  have "CHR ''['' \<notin> set h"
    using s
    by (auto simp: SplitHostPort_def drop_take split: option.splits if_splits sum.splits dest: in_set_takeD)
  moreover have "CHR '']'' \<notin> set h"
    using s
    by (auto simp: SplitHostPort_def strings_Index_single_Some split: option.splits if_splits sum.splits
        dest: in_set_takeD in_set_dropD)
  ultimately show ?thesis
    using assms(2)
    by (simp add: trg Target_Addr_def NewTarget_def NewTargetFromAddr_def SplitHostPort_host_port Atoi_fmt_port)
qed

theorem target_roundtrip_witness:
  "NewTargetFromAddr (Target_Addr \<lparr>tg_Host = ''10.0.0.1'', tg_Port = Some 80\<rparr>) = Inr \<lparr>tg_Host = ''10.0.0.1'', tg_Port = Some 80\<rparr> \<and>
   NewTargetFromAddr ''[::1]:80'' = Inr \<lparr>tg_Host = ''::1'', tg_Port = Some 80\<rparr> \<and>
   NewTargetFromAddr (Target_Addr \<lparr>tg_Host = ''::1'', tg_Port = Some 80\<rparr>) = Inl TooManyColons"
proof -
  have p: "fmt_port 80 = ''80''" by code_simp
  have "plain_host ''10.0.0.1''" "SplitHostPort ''[::1]:80'' = Inr (''::1'', ''80'')"
    and t: "strings_TrimSpace ''10.0.0.1'' \<noteq> []" "strings_TrimSpace ''::1'' \<noteq> []"
    by code_simp+
  then have a: "NewTargetFromAddr (host_port ''10.0.0.1'' 80) = Inr \<lparr>tg_Host = ''10.0.0.1'', tg_Port = Some 80\<rparr>"
    and b: "NewTargetFromAddr ''[::1]:80'' = Inr \<lparr>tg_Host = ''::1'', tg_Port = Some 80\<rparr>"
    using Atoi_fmt_port [of 80] by (simp add: NewTargetFromAddr_host_port, simp add: NewTargetFromAddr_def NewTarget_def p)
  show ?thesis using target_roundtrip [OF a] target_roundtrip [OF b] b t by simp
qed

end
