(* ===== verification/Transport_Handler.thy ===== *)
theory Transport_Handler
  imports Transport_Target
begin

text \<open>
  A connection and the handler that serves it (\<^verbatim>\<open>transport/connection.go\<close>, the type
  \<open>connectionHandler\<close> of \<^verbatim>\<open>transport/connection_pool.go\<close>): what is read from the connection
  goes through a parser, and each message gets its source, destination and transport before it is
  passed up.  The socket is a parameter: what a read returns is an argument of the operations.
\<close>

section \<open>Connections\<close>

record conn =
  cn_key :: bytes
  cn_network :: bytes
  cn_laddr :: bytes
  cn_raddr :: bytes
  cn_streamed :: bool
  cn_closed :: bool

definition NewConnection :: "bool \<Rightarrow> bytes \<Rightarrow> bytes \<Rightarrow> bytes \<Rightarrow> bytes \<Rightarrow> conn" where
  "NewConnection packet_conn laddr raddr key network =
     \<lparr>cn_key = key, cn_network = network, cn_laddr = laddr, cn_raddr = raddr,
      cn_streamed = (\<not> packet_conn), cn_closed = False\<rparr>"

definition conn_Network :: "conn \<Rightarrow> bytes" where
  "conn_Network c = strings_ToUpper (cn_network c)"

definition conn_Close :: "conn \<Rightarrow> conn" where
  "conn_Close c = c\<lparr>cn_closed := True\<rparr>"

text \<open>\<open>Read\<close> and \<open>ReadFrom\<close> log the bytes read, \<^verbatim>\<open>buf[:num]\<close>, which panics when the socket
  reports more bytes than the buffer has.\<close>

definition bufferSize :: nat where
  "bufferSize = 65535 - 20 - 8"

datatype socket_read = Read_data nat bytes | Read_error tp_error

definition conn_Read :: "bytes \<Rightarrow> socket_read \<Rightarrow> (tp_error, bytes) res" where
  "conn_Read info r =
     (case r of
        Read_error e \<Rightarrow> Err (ConnectionError e ''read'' info)
      | Read_data num b \<Rightarrow> if bufferSize < num then Crash else Ok (take num b))"

text \<open>\<open>wsConn.Read\<close> copies what fits into the buffer and returns the length of the message.\<close>

definition wsConn_Read :: "bytes \<Rightarrow> socket_read" where
  "wsConn_Read msg = Read_data (length msg) (take bufferSize msg)"

section \<open>Handlers\<close>

text \<open>Times are integers; the zero time is \<open>None\<close>.\<close>

record conn_handler =
  ch_conn :: conn
  ch_ttl :: int
  ch_expiry :: "int option"
  ch_timer :: "int option"
  ch_canceled :: bool
  ch_done :: bool

definition NewConnectionHandler :: "int \<Rightarrow> conn \<Rightarrow> int \<Rightarrow> conn_handler" where
  "NewConnectionHandler now c ttl =
     (let t = (if 0 < ttl then Some (now + ttl) else None) in
      \<lparr>ch_conn = c, ch_ttl = ttl, ch_expiry = t, ch_timer = t, ch_canceled = False, ch_done = False\<rparr>)"

definition handler_Key :: "conn_handler \<Rightarrow> bytes" where
  "handler_Key h = cn_key (ch_conn h)"

definition handler_Expired :: "int \<Rightarrow> conn_handler \<Rightarrow> bool" where
  "handler_Expired now h = (case ch_expiry h of None \<Rightarrow> False | Some t \<Rightarrow> t < now)"

definition handler_Cancel :: "conn_handler \<Rightarrow> conn_handler" where
  "handler_Cancel h =
     (if ch_canceled h then h else h\<lparr>ch_canceled := True, ch_conn := conn_Close (ch_conn h)\<rparr>)"

text \<open>The parameters \<open>received\<close> and \<open>rport\<close> of the top Via hop.  \<open>Params\<close> of a hop may be a nil
  interface, on which the code calls a method.\<close>

definition received_params :: "bytes \<Rightarrow> bytes \<Rightarrow> via_hop \<Rightarrow> headerParams \<Rightarrow> headerParams" where
  "received_params rhost rport hop ps =
     (let ps1 = (if rhost \<noteq> [] \<and> rhost \<noteq> Host hop then params_Add ''received'' (Some rhost) ps else ps)
      in if params_Has ps1 ''rport'' then params_Add ''rport'' (Some rport) ps1 else ps1)"

definition split_or_empty :: "bytes \<Rightarrow> bytes \<times> bytes" where
  "split_or_empty addr = (case SplitHostPort addr of Inr hp \<Rightarrow> hp | Inl _ \<Rightarrow> ([], []))"

text \<open>\<open>handleMessage\<close> up to the mapper: a request without Via is ignored.\<close>

definition receive_request :: "conn \<Rightarrow> bytes \<Rightarrow> request \<Rightarrow> request option may_panic" where
  "receive_request c raddr msg =
     (let msg1 = SetDestination (cn_laddr c) msg; (rhost, rport) = split_or_empty raddr in
      case hs_ViaHop (hdrs msg1) of
        None \<Rightarrow> Ok None
      | Some hop \<Rightarrow>
          (case HParams hop of
             None \<Rightarrow> Crash
           | Some ps \<Rightarrow>
               let ps1 = received_params rhost rport hop ps;
                   source = (if \<not> cn_streamed c \<and> \<not> params_Has ps1 ''rport''
                             then host_port rhost (case Port hop of Some p \<Rightarrow> p | None \<Rightarrow> DefaultPort (conn_Network c))
                             else raddr);
                   msg2 = msg1\<lparr>hdrs := map_first_hop (\<lambda>_. hop\<lparr>HParams := Some ps1\<rparr>) (hdrs msg1)\<rparr>
               in Ok (Some (SetSource source (SetTransport (conn_Network c) msg2)))))"

definition receive_response :: "conn \<Rightarrow> bytes \<Rightarrow> response \<Rightarrow> response" where
  "receive_response c raddr msg =
     SetSource raddr (SetTransport (conn_Network c) (SetDestination (cn_laddr c) msg))"

fun receive_message :: "conn \<Rightarrow> bytes \<Rightarrow> sip_msg \<Rightarrow> sip_msg option may_panic" where
  "receive_message c raddr (Req r) =
     res_bind (receive_request c raddr r) (\<lambda>o'. Ok (map_option Req o'))"
| "receive_message c raddr (Res r) = Ok (Some (Res (receive_response c raddr r)))"

text \<open>After a message has been passed up, the expiry of a limited connection starts again.\<close>

definition handler_extend :: "int \<Rightarrow> conn_handler \<Rightarrow> conn_handler" where
  "handler_extend now h =
     (if ch_expiry h = None then h
      else h\<lparr>ch_expiry := Some (now + ch_ttl h), ch_timer := Some (now + ch_ttl h)\<rparr>)"

text \<open>\<open>handleMessage\<close>: the message for the channel of the pool, and the handler after it has been
  sent.\<close>

definition handler_handleMessage ::
  "(sip_msg \<Rightarrow> sip_msg) \<Rightarrow> int \<Rightarrow> sip_msg \<Rightarrow> bytes \<Rightarrow> conn_handler \<Rightarrow> (sip_msg option \<times> conn_handler) may_panic" where
  "handler_handleMessage msgMapper now msg raddr h =
     res_bind (receive_message (ch_conn h) raddr msg) (\<lambda>o'.
       case o' of
         None \<Rightarrow> Ok (None, h)
       | Some m \<Rightarrow> Ok (Some (msgMapper m), handler_extend now h))"

text \<open>\<open>handleError\<close>: the error for the channel of the pool, if it is sent.\<close>

definition handler_handleError :: "bytes \<Rightarrow> tp_error \<Rightarrow> conn_handler \<Rightarrow> tp_error option" where
  "handler_handleError info err h =
     (if isSyntaxError err then None else Some (ConnectionHandlerError err (handler_Key h) info))"

text \<open>What one read from a packet connection leads to.  Datagrams of zero bytes are skipped; a read
  error ends the handler without a report.\<close>

datatype packet_result = P_skip | P_message sip_msg conn_handler | P_ignored | P_error tp_error | P_nothing | P_end

definition readPacket_turn ::
  "(sip_msg \<Rightarrow> sip_msg) \<Rightarrow> int \<Rightarrow> bytes \<Rightarrow> bytes \<Rightarrow> socket_read \<Rightarrow> bytes \<Rightarrow> conn_handler \<Rightarrow> packet_result may_panic" where
  "readPacket_turn msgMapper now freshID info r raddr h =
     (case conn_Read info r of
        Crash \<Rightarrow> Crash
      | Err _ \<Rightarrow> Ok P_end
      | Ok data \<Rightarrow>
          if list_all (\<lambda>c. c = nul) data then Ok P_skip
          else
            (case ParseMessage NewPacketParser freshID data of
               Crash \<Rightarrow> Crash
             | Err e \<Rightarrow>
                 Ok (case handler_handleError info (ParserErr info e) h of
                       None \<Rightarrow> P_nothing
                     | Some herr \<Rightarrow> P_error herr)
             | Ok msg \<Rightarrow>
                 res_bind (handler_handleMessage msgMapper now msg raddr h) (\<lambda>(o', h1).
                   Ok (case o' of None \<Rightarrow> P_ignored | Some m \<Rightarrow> P_message m h1))))"

text \<open>The messages that a stream parser has sent, one after the other.\<close>

fun handle_all ::
  "(sip_msg \<Rightarrow> sip_msg) \<Rightarrow> int \<Rightarrow> bytes \<Rightarrow> sip_msg list \<Rightarrow> conn_handler \<Rightarrow> (sip_msg list \<times> conn_handler) may_panic" where
  "handle_all msgMapper now raddr [] h = Ok ([], h)"
| "handle_all msgMapper now raddr (m # ms) h =
     res_bind (handler_handleMessage msgMapper now m raddr h) (\<lambda>(o', h1).
     res_bind (handle_all msgMapper now raddr ms h1) (\<lambda>(out, h2).
       Ok ((case o' of None \<Rightarrow> out | Some x \<Rightarrow> x # out), h2)))"

text \<open>One chunk of a stream: it is written to the parser, and what the parser sends is handled.
  The result has the messages and the errors for the pool.\<close>

definition readStream_turn ::
  "(sip_msg \<Rightarrow> sip_msg) \<Rightarrow> int \<Rightarrow> (nat \<Rightarrow> bytes) \<Rightarrow> bytes \<Rightarrow> bytes \<Rightarrow> conn_handler \<Rightarrow> parser \<Rightarrow>
   (sip_msg list \<times> tp_error list \<times> conn_handler \<times> parser) may_panic" where
  "readStream_turn msgMapper now newID info data h p =
     res_bind (p_Write newID data p) (\<lambda>(werr, q).
     res_bind (handle_all msgMapper now (cn_raddr (ch_conn h)) (drop (length (p_output p)) (p_output q)) h) (\<lambda>(out, h1).
       let new_errs = map (ParserErr info) (drop (length (p_errs p)) (p_errs q));
           write_errs = (case werr of
               None \<Rightarrow> [] | Some WriteStopped \<Rightarrow> [WriteErr info] | Some WriteFormat \<Rightarrow> [ParserErr info InvalidMessageFormat])
       in Ok (out, List.map_filter (\<lambda>e. handler_handleError info e h) (new_errs @ write_errs), h1, q)))"

text \<open>When the timer fires, the pool is told that the connection has expired; a timer of an
  unlimited connection must not fire.\<close>

definition handler_timer_fires :: "bytes \<Rightarrow> conn_handler \<Rightarrow> tp_error option may_panic" where
  "handler_timer_fires info h =
     (if ch_expiry h = None then Crash
      else Ok (handler_handleError info (ExpireError ''connection expired'') h))"

section \<open>Requests and their responses\<close>

lemma params_Has_Add [simp]: "params_Has (params_Add k v ps) x \<longleftrightarrow> x = k \<or> params_Has ps x"
  by (auto simp: params_Has_def params_Add_def Let_def split: option.split)

lemma received_params_rport [simp]: "params_Has (received_params rhost rport hop ps) ''rport'' \<longleftrightarrow> params_Has ps ''rport''"
  by (simp add: received_params_def Let_def)

text \<open>The address that the answer to a request received on \<open>c\<close> from \<open>h\<close> and \<open>p\<close> has to go to
  (RFC 3261, 18.2.2, and RFC 3581).\<close>

definition reply_to_socket :: "conn \<Rightarrow> via_hop \<Rightarrow> bool" where
  "reply_to_socket c hop \<longleftrightarrow> cn_streamed c \<or> pred_option (\<lambda>ps. params_Has ps ''rport'') (HParams hop)"

definition reply_port :: "conn \<Rightarrow> via_hop \<Rightarrow> port \<Rightarrow> port" where
  "reply_port c hop p =
     (if reply_to_socket c hop then p
      else case Port hop of Some q \<Rightarrow> q | None \<Rightarrow> DefaultPort (conn_Network c))"

definition reply_addr :: "conn \<Rightarrow> via_hop \<Rightarrow> bytes \<Rightarrow> port \<Rightarrow> bytes" where
  "reply_addr c hop h p =
     (if reply_to_socket c hop then JoinHostPort h p else host_port h (reply_port c hop p))"

lemma reply_addr_plain: "plain_host h \<Longrightarrow> reply_addr c hop h p = host_port h (reply_port c hop p)"
  by (simp add: reply_addr_def reply_port_def JoinHostPort_def plain_host_def)

lemma reply_addr_target:
  "bare_host h \<Longrightarrow> NewTargetFromAddr (reply_addr c hop h p) =
     (if reply_to_socket c hop \<or> CHR '':'' \<notin> set h then Inr \<lparr>tg_Host = h, tg_Port = Some (reply_port c hop p)\<rparr>
      else Inl TooManyColons)"
  using NewTargetFromAddr_Split [OF SplitHostPort_Join, of h p] SplitHostPort_host_port [of h "reply_port c hop p"]
    NewTargetFromAddr_host_port [of h "reply_port c hop p"]
  by (auto simp: reply_addr_def reply_port_def bare_host_def plain_host_def NewTargetFromAddr_def)

lemma reply_addr_nonempty [simp]: "reply_addr c hop h p \<noteq> []"
  by (simp add: reply_addr_def JoinHostPort_def host_port_def)

lemma receive_request_Ok:
  assumes "hs_ViaHop (hdrs req) = Some hop" "HParams hop = Some ps" and "bare_host h"
  shows "receive_request c (JoinHostPort h p) req = Ok (Some
    (SetSource (reply_addr c hop h p) (SetTransport (conn_Network c) (SetDestination (cn_laddr c)
      (req\<lparr>hdrs := map_first_hop (\<lambda>_. hop\<lparr>HParams := Some (received_params h (fmt_port p) hop ps)\<rparr>) (hdrs req)\<rparr>)))))"
  using assms
  by (simp add: receive_request_def split_or_empty_def SplitHostPort_Join Let_def reply_addr_def reply_port_def
      reply_to_socket_def SetSource_def SetTransport_def SetDestination_def split: option.split)

lemma response_route:
  assumes "tp req \<noteq> []" "dest req \<noteq> []" "src req \<noteq> []"
  shows "\<exists>res. NewResponseFromRequest fid rid req code why b = Ok res \<and> tp res = strings_ToUpper (tp req) \<and>
    src res = dest req \<and> dest res = src req"
  using assms
  by (simp add: NewResponseFromRequest_def Let_def request_Transport_def request_Destination_def request_Source_def)

text \<open>C28: Where the answer to a received request goes.  The request comes from a socket whose address
  is host \<open>h\<close>, IPv4 or IPv6, and port \<open>p\<close>, over a connection that has a local address and a network,
  and has a Via hop with a parameter set.  The request records the host in this hop where it differs.
  A response made from it names the transport of the connection and has the local address as its
  source, and its destination is read as host \<open>h\<close> with port \<open>p\<close> on a stream or when the request
  asks for it with \<open>rport\<close>, and with the port of the Via (the default port if it has none)
  otherwise.  The exception is an IPv6 sender
  over UDP without \<open>rport\<close>: the handler writes its address without brackets, and the destination
  of the response is rejected.\<close>

theorem response_returns_to_sender:
  assumes hop: "hs_ViaHop (hdrs req) = Some hop" "HParams hop = Some ps"
    and h: "bare_host h" and c: "cn_laddr c \<noteq> []" "cn_network c \<noteq> []"
  shows "\<exists>req' res d. receive_message c (JoinHostPort h p) (Req req) = Ok (Some (Req req')) \<and>
    hs_ViaHop (hdrs req') = Some (hop\<lparr>HParams := Some (received_params h (fmt_port p) hop ps)\<rparr>) \<and>
    NewResponseFromRequest fid rid req' code why b = Ok res \<and>
    response_Transport res = conn_Network c \<and> src res = cn_laddr c \<and> response_Destination res = Ok d \<and>
    NewTargetFromAddr d =
      (if reply_to_socket c hop \<or> CHR '':'' \<notin> set h then Inr \<lparr>tg_Host = h, tg_Port = Some (reply_port c hop p)\<rparr>
       else Inl TooManyColons)"
proof -
  let ?d = "reply_addr c hop h p"
  let ?req = "SetSource ?d (SetTransport (conn_Network c) (SetDestination (cn_laddr c)
      (req\<lparr>hdrs := map_first_hop (\<lambda>_. hop\<lparr>HParams := Some (received_params h (fmt_port p) hop ps)\<rparr>) (hdrs req)\<rparr>)))"
  have "tp ?req = conn_Network c" "dest ?req = cn_laddr c" "src ?req = ?d"
    by (simp_all add: SetSource_def SetTransport_def SetDestination_def conn_Network_def)
  moreover have "conn_Network c \<noteq> []" using c by (auto simp: conn_Network_def strings_ToUpper_def)
  ultimately obtain res where res: "NewResponseFromRequest fid rid ?req code why b = Ok res"
    "tp res = conn_Network c" "src res = cn_laddr c" "dest res = ?d"
    using response_route [of ?req fid rid code why b] c by (auto simp: conn_Network_def)
  moreover have "receive_message c (JoinHostPort h p) (Req req) = Ok (Some (Req ?req))"
    using receive_request_Ok [OF hop h] by simp
  moreover have "hs_ViaHop (hdrs ?req) = Some (hop\<lparr>HParams := Some (received_params h (fmt_port p) hop ps)\<rparr>)"
    using hop by (simp add: SetSource_def SetTransport_def SetDestination_def)
  moreover have "response_Transport res = conn_Network c" "response_Destination res = Ok ?d"
    using c res(2,4) by (auto simp: response_Transport_def response_Destination_def conn_Network_def strings_ToUpper_def)
  ultimately show ?thesis using reply_addr_target [OF h, of c hop p] by blast
qed

definition sample_conn :: "bool \<Rightarrow> conn" where
  "sample_conn packet_conn = NewConnection packet_conn ''10.0.0.2:80'' ''10.0.0.9:80'' ''k'' ''udp''"

theorem response_returns_to_sender_witness:
  "(\<exists>req' res d. receive_message (sample_conn True) (JoinHostPort ''10.0.0.9'' 81) (Req (ex_request ''INFO'')) = Ok (Some (Req req')) \<and>
    NewResponseFromRequest ''1'' ''2'' req' 200 ''OK'' [] = Ok res \<and> response_Destination res = Ok d \<and>
    NewTargetFromAddr d = Inr \<lparr>tg_Host = ''10.0.0.9'', tg_Port = Some 5060\<rparr>) \<and>
   (\<exists>req' res d. receive_message (sample_conn True) (JoinHostPort ''::1'' 81) (Req (ex_request ''INFO'')) = Ok (Some (Req req')) \<and>
    NewResponseFromRequest ''1'' ''2'' req' 200 ''OK'' [] = Ok res \<and> response_Destination res = Ok d \<and>
    NewTargetFromAddr d = Inl TooManyColons)"
proof -
  have hop: "hs_ViaHop (hdrs (ex_request ''INFO'')) = Some ex_hop" by (simp add: ex_request_def NewRequest_def)
  have ps: "HParams ex_hop = Some (params_Add ''branch'' (Some ''z9hG4bK.1'') NewParams)" by (simp add: ex_hop_def)
  have c: "cn_laddr (sample_conn True) \<noteq> []" "cn_network (sample_conn True) \<noteq> []"
    and h: "bare_host ''10.0.0.9''" "bare_host ''::1''" "CHR '':'' \<notin> set ''10.0.0.9''" "CHR '':'' \<in> set ''::1''"
    by code_simp+
  have "\<not> reply_to_socket (sample_conn True) ex_hop"
    by (simp add: reply_to_socket_def ps sample_conn_def NewConnection_def params_Has_def params_Add_def NewParams_def)
  moreover from this have "reply_port (sample_conn True) ex_hop 81 = 5060" by (simp add: reply_port_def ex_hop_def)
  ultimately show ?thesis
    using response_returns_to_sender [OF hop ps h(1) c, of 81 "''1''" "''2''" 200 "''OK''" "[]"]
      response_returns_to_sender [OF hop ps h(2) c, of 81 "''1''" "''2''" 200 "''OK''" "[]"] h(3,4)
    by (metis (no_types))
qed

section \<open>Streams\<close>

text \<open>All chunks of a stream.\<close>

fun readStream ::
  "(sip_msg \<Rightarrow> sip_msg) \<Rightarrow> int \<Rightarrow> (nat \<Rightarrow> bytes) \<Rightarrow> bytes \<Rightarrow> bytes list \<Rightarrow> conn_handler \<Rightarrow> parser \<Rightarrow>
   (sip_msg list \<times> tp_error list \<times> conn_handler \<times> parser) may_panic" where
  "readStream msgMapper now newID info [] h p = Ok ([], [], h, p)"
| "readStream msgMapper now newID info (data # ds) h p =
     res_bind (readStream_turn msgMapper now newID info data h p) (\<lambda>(out, errs, h1, q).
     res_bind (readStream msgMapper now newID info ds h1 q) (\<lambda>(out', errs', h2, r).
       Ok (out @ out', errs @ errs', h2, r)))"

definition grows :: "parser \<Rightarrow> parser \<Rightarrow> bool" where
  "grows p q \<longleftrightarrow> (\<exists>o' e. p_output q = p_output p @ o' \<and> p_errs q = p_errs p @ e)"

lemma parse_turn_grows: "parse_turn newID p = Cont q \<Longrightarrow> grows p q"
proof -
  have rest: "read_rest n msg p = Cont q \<Longrightarrow> grows p q" for n msg p q
    by (auto simp: read_rest_def read_body_def grows_def Let_def send_err_def
        split: option.splits res.splits read_result.splits)
  have msg: "read_message newID b n p = Cont q \<Longrightarrow> grows p q" for b n p
    by (auto simp: read_message_def bad_start_line_def grows_def Let_def send_err_def dest!: rest
        split: read_result.splits res.splits if_splits)
  then show "parse_turn newID p = Cont q \<Longrightarrow> grows p q"
    by (auto simp: parse_turn_def grows_def Let_def dest!: msg split: read_result.splits option.splits if_splits)
qed

lemma parse_grows: "\<not> p_stopped p \<Longrightarrow> parse newID p = Ok q \<Longrightarrow> grows p q \<and> parse newID q = Ok q"
proof (induction newID p rule: parse.induct)
  case (1 newID p)
  show ?case
  proof (cases rule: parse_cases [OF 1(2), of newID])
    case (2 r)
    then have "grows r q \<and> parse newID q = Ok q" using 1 by simp
    with parse_turn_grows [OF 2(1)] show ?thesis by (auto simp: grows_def)
  qed (use 1 in \<open>auto simp: grows_def\<close>)
qed

lemma handle_message_conn:
  "handler_handleMessage f now m raddr h = Ok (o', h') \<Longrightarrow> ch_conn h' = ch_conn h"
  by (auto simp: handler_handleMessage_def handler_extend_def split: option.splits if_splits)

lemma handle_all_conn: "handle_all f now raddr ms h = Ok (out, h') \<Longrightarrow> ch_conn h' = ch_conn h"
  by (induction ms arbitrary: h out) (auto dest: handle_message_conn)

lemma handle_all_append:
  "handle_all f now raddr (ms @ ns) h =
     res_bind (handle_all f now raddr ms h) (\<lambda>(o1, h1).
     res_bind (handle_all f now raddr ns h1) (\<lambda>(o2, h2). Ok (o1 @ o2, h2)))"
proof (induction ms arbitrary: h)
  case Nil
  show ?case by (cases "handle_all f now raddr ns h") auto
next
  case (Cons m ms)
  show ?case
  proof (cases "handler_handleMessage f now m raddr h")
    case (Ok p)
    obtain o1 h1 where p: "p = (o1, h1)" by fastforce
    show ?thesis
    proof (cases "handle_all f now raddr ms h1")
      case (Ok r)
      obtain o2 h2 where r: "r = (o2, h2)" by fastforce
      show ?thesis
        using Cons [of h1] Ok \<open>handler_handleMessage f now m raddr h = Ok p\<close>
        by (cases "handle_all f now raddr ns h2") (auto simp: p r split: option.split)
    qed (use Cons Ok p in auto)
  qed auto
qed

lemma readStream_parse:
  assumes "p_streamed p" "\<not> p_stopped p" "parse newID p = Ok p" "parse newID (p\<lparr>p_input := p_input p @ concat cs\<rparr>) = Ok q"
    and "p_output q = p_output p @ ms" "p_errs q = p_errs p @ es"
    and "handle_all f now (cn_raddr (ch_conn h)) ms h = Ok (out, h')"
  shows "readStream f now newID info cs h p =
    Ok (out, List.map_filter (\<lambda>e. handler_handleError info (ParserErr info e) h) es, h', q)"
  using assms
proof (induction cs arbitrary: p h ms es out)
  case (Cons d ds)
  let ?p = "p\<lparr>p_input := p_input p @ d\<rparr>"
  obtain q1 where q1: "parse newID ?p = Ok q1" "parse newID (q1\<lparr>p_input := p_input q1 @ concat ds\<rparr>) = Ok q"
    using Cons.prems(2,4) parse_more [of ?p newID "concat ds"]
    by (cases "parse newID ?p") simp_all
  have same: "p_streamed q1" "\<not> p_stopped q1"
    using parse_same [OF _ q1(1)] Cons.prems(1,2) by simp_all
  have g: "grows p q1" "parse newID q1 = Ok q1"
    using parse_grows [OF _ q1(1)] Cons.prems(2) by (simp_all add: grows_def)
  have g2: "grows q1 q" using parse_grows [OF _ q1(2)] same by (simp add: grows_def)
  obtain m1 e1 where 1: "p_output q1 = p_output p @ m1" "p_errs q1 = p_errs p @ e1"
    using g(1) by (auto simp: grows_def)
  obtain m2 e2 where 2: "p_output q = p_output q1 @ m2" "p_errs q = p_errs q1 @ e2"
    using g2 by (auto simp: grows_def)
  have ms: "ms = m1 @ m2" "es = e1 @ e2" using 1 2 Cons.prems(5,6) by simp_all
  obtain o1 h1 o2 where h1: "handle_all f now (cn_raddr (ch_conn h)) m1 h = Ok (o1, h1)"
    and h2: "handle_all f now (cn_raddr (ch_conn h)) m2 h1 = Ok (o2, h')" and out: "out = o1 @ o2"
    using Cons.prems(7) by (auto simp: ms handle_all_append)
  have c: "ch_conn h1 = ch_conn h" by (rule handle_all_conn [OF h1])
  then have e: "handler_handleError info e h1 = handler_handleError info e h" for e
    by (simp add: handler_handleError_def handler_Key_def)
  have "readStream f now newID info ds h1 q1 =
      Ok (o2, List.map_filter (\<lambda>e. handler_handleError info (ParserErr info e) h) e2, h', q)"
    using Cons.IH [OF same g(2) q1(2) 2, of h1 o2] h2 by (simp add: c e)
  moreover have "readStream_turn f now newID info d h p =
      Ok (o1, List.map_filter (\<lambda>e. handler_handleError info (ParserErr info e) h) e1, h1, q1)"
    using Cons.prems(1,2) q1(1) h1
    by (simp add: readStream_turn_def p_Write_def 1 List.map_filter_def filter_map comp_def)
  ultimately show ?case by (simp add: out ms List.map_filter_def)
qed (simp add: List.map_filter_simps)

text \<open>Messages that \<open>handleMessage\<close> passes up.\<close>

fun via_ready :: "sip_msg \<Rightarrow> bool" where
  "via_ready (Res _) = True"
| "via_ready (Req r) = (case hs_ViaHop (hdrs r) of None \<Rightarrow> False | Some hop \<Rightarrow> HParams hop \<noteq> None)"

lemma handle_all_ready:
  assumes "list_all via_ready ms"
  shows "\<exists>out h'. handle_all f now raddr ms h = Ok (out, h') \<and> ch_conn h' = ch_conn h \<and>
    list_all2 (\<lambda>m x. \<exists>m'. receive_message (ch_conn h) raddr m = Ok (Some m') \<and> x = f m') ms out"
  using assms
proof (induction ms arbitrary: h)
  case (Cons m ms)
  obtain m' where m': "receive_message (ch_conn h) raddr m = Ok (Some m')"
  proof (cases m)
    case (Req r)
    obtain rh rp where "split_or_empty raddr = (rh, rp)" by fastforce
    with Req Cons.prems that show ?thesis
      by (fastforce simp: receive_request_def Let_def SetDestination_def split: option.splits)
  qed (use that in simp)
  then have h: "handler_handleMessage f now m raddr h = Ok (Some (f m'), handler_extend now h)"
    by (simp add: handler_handleMessage_def)
  have c: "ch_conn (handler_extend now h) = ch_conn h" by (rule handle_message_conn [OF h])
  show ?case using Cons.IH [of "handler_extend now h"] Cons.prems m' by (auto simp: h c)
qed simp

lemma same_content_ready: "same_content m m' \<Longrightarrow> via_ready m' = via_ready m"
  by (cases m; cases m')
     (auto simp: same_content_def hs_ViaHop_def hs_Via_def)

text \<open>C27: What is sent over a stream arrives: when printable and framed messages, the requests with a
  Via hop, are read from a connection in any chunks, the handler passes up exactly these messages in
  this order, each with the addresses and the transport of the connection filled in, and reports no
  error.\<close>

theorem stream_received:
  assumes "list_all (\<lambda>m. printable_message m \<and> framed m \<and> via_ready m) ms"
    and "concat cs = concat (map msg_String ms)"
  shows "\<exists>out h' q. readStream msgMapper now newID info cs h (NewParser True) = Ok (out, [], h', q) \<and>
    list_all2 (\<lambda>m x. \<exists>m' m''. same_content m m' \<and> receive_message (ch_conn h) (cn_raddr (ch_conn h)) m' = Ok (Some m'') \<and>
      x = msgMapper m'') ms out"
proof -
  let ?p = "NewParser True" and ?raddr = "cn_raddr (ch_conn h)"
  have "list_all (\<lambda>m. printable_message m \<and> framed m) ms" using assms(1) by (simp add: list_all_iff)
  then obtain q out where q: "parse newID (?p\<lparr>p_input := p_input ?p @ concat cs\<rparr>) = Ok q" "p_output q = p_output ?p @ out"
    "p_errs q = p_errs ?p @ []" and same: "list_all2 same_content ms out"
    using parse_stream [of ms "?p\<lparr>p_input := concat cs\<rparr>" newID] assms(2) by (auto simp: NewParser_def)
  have "list_all via_ready out"
    using same assms(1) same_content_ready by (auto simp: list_all_length list_all2_conv_all_nth)
  then obtain xs h' where xs: "handle_all msgMapper now ?raddr out h = Ok (xs, h')"
    "list_all2 (\<lambda>m x. \<exists>m'. receive_message (ch_conn h) ?raddr m = Ok (Some m') \<and> x = msgMapper m') out xs"
    using handle_all_ready by blast
  have "readStream msgMapper now newID info cs h ?p = Ok (xs, [], h', q)"
    using readStream_parse [OF _ _ _ q xs(1), of info] parse_idle [of ?p newID]
    by (simp add: NewParser_def List.map_filter_simps)
  moreover have "list_all2 (\<lambda>m x. \<exists>m' m''. same_content m m' \<and>
      receive_message (ch_conn h) ?raddr m' = Ok (Some m'') \<and> x = msgMapper m'') ms xs"
    using same xs(2) by (fastforce simp: list_all2_conv_all_nth)
  ultimately show ?thesis by blast
qed

theorem stream_received_witness:
  "\<exists>m h q. readStream id 0 (\<lambda>_. ''1'') [] [msg_String sample_message]
     (NewConnectionHandler 0 (sample_conn False) 10) (NewParser True) = Ok ([m], [], h, q)"
proof -
  have "via_ready sample_message" by code_simp
  then show ?thesis
    using stream_received [of "[sample_message]" "[msg_String sample_message]" id 0 "\<lambda>_. ''1''" "[]"
        "NewConnectionHandler 0 (sample_conn False) 10"] sample_printable sample_framed
    by (auto simp: list_all2_Cons1)
qed

text \<open>A web socket message that is longer than the buffer makes the process panic.\<close>

lemma wsConn_oversize: "conn_Read info (wsConn_Read msg) = Crash \<longleftrightarrow> bufferSize < length msg"
  by (simp add: conn_Read_def wsConn_Read_def)

end
