(* ===== verification/Transport_Pool.thy ===== *)
theory Transport_Pool
  imports Transport_Handler
begin

text \<open>
  The connection pool (\<^verbatim>\<open>transport/connection_pool.go\<close>): its operations, the loop that takes
  messages and errors from the handlers, and the goroutines around it as a step relation.
\<close>

section \<open>The pool\<close>

text \<open>Handlers are numbered in the order in which they were put; \<open>cp_canceled\<close> is the closed
  channel \<open>cancel\<close>, \<open>cp_closed\<close> the closed channels \<open>hmess\<close> and \<open>herrs\<close>.\<close>

record conn_pool =
  cp_store :: "(bytes \<times> nat) list"
  cp_handlers :: "conn_handler list"
  cp_canceled :: bool
  cp_closed :: bool
  cp_done :: bool
  cp_name :: bytes

definition NewConnectionPool :: "bytes \<Rightarrow> conn_pool" where
  "NewConnectionPool name =
     \<lparr>cp_store = [], cp_handlers = [], cp_canceled = False, cp_closed = False, cp_done = False, cp_name = name\<rparr>"

definition pool_error :: "bytes \<Rightarrow> bytes \<Rightarrow> 'a conn_pool_scheme \<Rightarrow> tp_error" where
  "pool_error t op P = PoolError (PlainErr t) op (cp_name P)"

definition pool_get :: "bytes \<Rightarrow> 'a conn_pool_scheme \<Rightarrow> tp_error + nat" where
  "pool_get key P =
     (case map_of (cp_store P) key of
        Some i \<Rightarrow> Inr i
      | None \<Rightarrow> Inl (pool_error (''connection '' @ key @ '' not found in the pool'') ''get connection'' P))"

definition pool_getConnection :: "bytes \<Rightarrow> 'a conn_pool_scheme \<Rightarrow> tp_error + conn" where
  "pool_getConnection key P = map_sum id (\<lambda>i. ch_conn (cp_handlers P ! i)) (pool_get key P)"

definition pool_put :: "int \<Rightarrow> bytes \<Rightarrow> conn \<Rightarrow> int \<Rightarrow> 'a conn_pool_scheme \<Rightarrow> tp_error option \<times> 'a conn_pool_scheme" where
  "pool_put now key c ttl P =
     (case pool_get key P of
        Inr _ \<Rightarrow> (Some (pool_error (''key '' @ key @ '' already exists in the pool'') ''put connection'' P), P)
      | Inl _ \<Rightarrow>
          let h = NewConnectionHandler now c ttl in
          (None, P\<lparr>cp_store := AList.update (handler_Key h) (length (cp_handlers P)) (cp_store P),
                   cp_handlers := cp_handlers P @ [h]\<rparr>))"

text \<open>The check that \<open>Put\<close> makes before it takes the lock.\<close>

definition pool_Put_check :: "conn \<Rightarrow> 'a conn_pool_scheme \<Rightarrow> tp_error option" where
  "pool_Put_check c P =
     (if cp_canceled P then Some (pool_error ''connection pool closed'' ''get connection'' P)
      else if cn_key c = [] then Some (pool_error ''empty connection key'' ''put connection'' P)
      else None)"

definition pool_Put :: "int \<Rightarrow> conn \<Rightarrow> int \<Rightarrow> 'a conn_pool_scheme \<Rightarrow> tp_error option \<times> 'a conn_pool_scheme" where
  "pool_Put now c ttl P =
     (case pool_Put_check c P of
        Some e \<Rightarrow> (Some e, P)
      | None \<Rightarrow> pool_put now (cn_key c) c ttl P)"

definition pool_drop :: "bytes \<Rightarrow> 'a conn_pool_scheme \<Rightarrow> tp_error option \<times> 'a conn_pool_scheme" where
  "pool_drop key P =
     (case pool_get key P of
        Inr i \<Rightarrow>
          (None, P\<lparr>cp_handlers := (cp_handlers P)[i := handler_Cancel (cp_handlers P ! i)],
                   cp_store := AList.delete key (cp_store P)\<rparr>)
      | Inl e \<Rightarrow> (Some e, P))"

text \<open>\<open>DropAll\<close> goes through the keys in some order.\<close>

definition pool_DropAll :: "bytes list \<Rightarrow> 'a conn_pool_scheme \<Rightarrow> 'a conn_pool_scheme" where
  "pool_DropAll keys P = fold (\<lambda>key Q. snd (pool_drop key Q)) keys P"

definition pool_All :: "'a conn_pool_scheme \<Rightarrow> conn list" where
  "pool_All P = map (\<lambda>(_, i). ch_conn (cp_handlers P ! i)) (cp_store P)"

definition pool_Length :: "'a conn_pool_scheme \<Rightarrow> nat" where
  "pool_Length P = length (cp_store P)"

section \<open>The loop that serves the handlers\<close>

text \<open>What the loop \<open>serveHandlers\<close> is doing: it waits for a handler, or for the receiver of a
  message or of an error, or it has ended.  After an end of file it sends the error without looking
  at \<open>cancel\<close>.\<close>

datatype serving = Serve_idle | Serve_msg sip_msg | Serve_err tp_error | Serve_eof tp_error | Serve_stopped

fun as_ConnectionHandlerError :: "tp_error \<Rightarrow> (tp_error \<times> bytes) option" where
  "as_ConnectionHandlerError (ConnectionHandlerError e key _) = Some (e, key)"
| "as_ConnectionHandlerError _ = None"

fun as_ConnectionError :: "tp_error \<Rightarrow> unit option" where
  "as_ConnectionError (ConnectionError _ _ _) = Some ()"
| "as_ConnectionError _ = None"

definition serve_error :: "int \<Rightarrow> tp_error \<Rightarrow> 'a conn_pool_scheme \<Rightarrow> serving \<times> 'a conn_pool_scheme" where
  "serve_error now err P =
     (case errors_As as_ConnectionHandlerError err of
        None \<Rightarrow> (Serve_idle, P)
      | Some (e, key) \<Rightarrow>
          (case pool_get key P of
             Inr i \<Rightarrow>
               let h = cp_handlers P ! i; dropped = snd (pool_drop (handler_Key h) P) in
               if isExpired e then (Serve_idle, if handler_Expired now h then dropped else P)
               else if handler_error_EOF e then
                 if cp_canceled P then (Serve_stopped, P)
                 else (case errors_As as_ConnectionError e of
                         Some _ \<Rightarrow> (Serve_eof e, dropped)
                       | None \<Rightarrow> (Serve_idle, dropped))
               else if isNetwork e then (Serve_err e, dropped)
               else (Serve_err e, P)
           | Inl _ \<Rightarrow> (Serve_idle, P)))"

section \<open>The goroutines\<close>

text \<open>
  The pool with its goroutines: \<open>pr_serving\<close> the loop above, \<open>pr_reading\<close> the handlers whose
  reading goroutine runs, \<open>pr_sends\<close> the goroutines that wait in a send to the loop, with the handler
  they belong to, \<open>pr_putting\<close> the calls of \<open>Put\<close> between the check and the lock, and \<open>pr_dispose\<close>
  how far the goroutine that waits for \<open>cancel\<close> has come.
\<close>

datatype send = SendMsg sip_msg | SendErr tp_error

datatype dispose = D_waiting | D_dropped | D_over

record pool_run = conn_pool +
  pr_serving :: serving
  pr_reading :: "nat list"
  pr_sends :: "(nat \<times> send) list"
  pr_putting :: "(conn \<times> int) list"
  pr_dispose :: dispose
  pr_output :: "sip_msg list"
  pr_errs :: "tp_error list"
  pr_panicked :: bool

definition pool_start :: "bytes \<Rightarrow> pool_run" where
  "pool_start name = conn_pool.extend (NewConnectionPool name)
     \<lparr>pr_serving = Serve_idle, pr_reading = [], pr_sends = [], pr_putting = [], pr_dispose = D_waiting,
      pr_output = [], pr_errs = [], pr_panicked = False\<rparr>"

definition is_SendMsg :: "send \<Rightarrow> bool" where
  "is_SendMsg s = (case s of SendMsg _ \<Rightarrow> True | SendErr _ \<Rightarrow> False)"

text \<open>\<open>Serve\<close> of a handler returns: on a packet connection when reading has ended, on a stream when
  no message and no error of it waits to be sent either.\<close>

definition serve_returns :: "nat \<Rightarrow> pool_run \<Rightarrow> bool" where
  "serve_returns i S \<longleftrightarrow>
     i < length (cp_handlers S) \<and> i \<notin> set (pr_reading S) \<and>
     (cn_streamed (ch_conn (cp_handlers S ! i)) \<longrightarrow> i \<notin> fst ` set (pr_sends S))"

inductive pool_step :: "pool_run \<Rightarrow> pool_run \<Rightarrow> bool" where
  put_begin: "pool_Put_check c S = None \<Longrightarrow> pool_step S (S\<lparr>pr_putting := (c, ttl) # pr_putting S\<rparr>)"
| put_end: "(c, ttl) \<in> set (pr_putting S) \<Longrightarrow> pool_put now (cn_key c) c ttl S = (None, T) \<Longrightarrow>
    pool_step S (T\<lparr>pr_putting := remove1 (c, ttl) (pr_putting S), pr_reading := length (cp_handlers S) # pr_reading S\<rparr>)"
| put_fails: "(c, ttl) \<in> set (pr_putting S) \<Longrightarrow> pool_put now (cn_key c) c ttl S = (Some e, T) \<Longrightarrow>
    pool_step S (S\<lparr>pr_putting := remove1 (c, ttl) (pr_putting S)\<rparr>)"
| drop: "pool_step S (snd (pool_drop key S))"
| cancel: "pool_step S (S\<lparr>cp_canceled := True\<rparr>)"
| dispose_drop: "cp_canceled S \<Longrightarrow> pr_dispose S = D_waiting \<Longrightarrow> set keys = fst ` set (cp_store S) \<Longrightarrow>
    pool_step S ((pool_DropAll keys S)\<lparr>pr_dispose := D_dropped\<rparr>)"
| dispose_close: "pr_dispose S = D_dropped \<Longrightarrow> \<forall>h\<in>set (cp_handlers S). ch_done h \<Longrightarrow>
    pool_step S (S\<lparr>cp_closed := True, cp_done := True, pr_dispose := D_over,
      pr_panicked := (pr_panicked S \<or> list_ex (\<lambda>(_, s). is_SendMsg s) (pr_sends S))\<rparr>)"
| read_msg: "i \<in> set (pr_reading S) \<Longrightarrow> \<not> cp_closed S \<Longrightarrow> pool_step S (S\<lparr>pr_sends := (i, SendMsg m) # pr_sends S\<rparr>)"
| read_err: "i \<in> set (pr_reading S) \<Longrightarrow> \<not> cp_closed S \<Longrightarrow> handler_handleError info e (cp_handlers S ! i) = Some herr \<Longrightarrow>
    pool_step S (S\<lparr>pr_sends := (i, SendErr herr) # pr_sends S\<rparr>)"
| read_closed: "i \<in> set (pr_reading S) \<Longrightarrow> cp_closed S \<Longrightarrow> pool_step S (S\<lparr>pr_panicked := True\<rparr>)"
| read_end: "i \<in> set (pr_reading S) \<Longrightarrow> pool_step S (S\<lparr>pr_reading := removeAll i (pr_reading S)\<rparr>)"
| give_up: "(i, SendErr e) \<in> set (pr_sends S) \<Longrightarrow> ch_canceled (cp_handlers S ! i) \<Longrightarrow>
    pool_step S (S\<lparr>pr_sends := remove1 (i, SendErr e) (pr_sends S)\<rparr>)"
| handler_done: "serve_returns i S \<Longrightarrow>
    pool_step S (S\<lparr>cp_handlers := (cp_handlers S)[i := (cp_handlers S ! i)\<lparr>ch_done := True\<rparr>]\<rparr>)"
| serve_msg: "pr_serving S = Serve_idle \<Longrightarrow> \<not> cp_closed S \<Longrightarrow> (i, SendMsg m) \<in> set (pr_sends S) \<Longrightarrow>
    pool_step S (S\<lparr>pr_serving := Serve_msg m, pr_sends := remove1 (i, SendMsg m) (pr_sends S),
      cp_handlers := (cp_handlers S)[i := handler_extend now (cp_handlers S ! i)]\<rparr>)"
| serve_err: "pr_serving S = Serve_idle \<Longrightarrow> \<not> cp_closed S \<Longrightarrow> (i, SendErr e) \<in> set (pr_sends S) \<Longrightarrow>
    serve_error now e (S\<lparr>pr_sends := remove1 (i, SendErr e) (pr_sends S)\<rparr>) = (sv, T) \<Longrightarrow>
    pool_step S (T\<lparr>pr_serving := sv\<rparr>)"
| pass_msg: "pr_serving S = Serve_msg m \<Longrightarrow>
    pool_step S (S\<lparr>pr_serving := Serve_idle, pr_output := pr_output S @ [m]\<rparr>)"
| pass_err: "pr_serving S = Serve_err e \<or> pr_serving S = Serve_eof e \<Longrightarrow>
    pool_step S (S\<lparr>pr_serving := Serve_idle, pr_errs := pr_errs S @ [e]\<rparr>)"
| serve_cancel: "pr_serving S = Serve_msg m \<or> pr_serving S = Serve_err e \<Longrightarrow> cp_canceled S \<Longrightarrow>
    pool_step S (S\<lparr>pr_serving := Serve_stopped\<rparr>)"
| serve_closed: "pr_serving S = Serve_idle \<Longrightarrow> cp_closed S \<Longrightarrow> pool_step S (S\<lparr>pr_serving := Serve_stopped\<rparr>)"

abbreviation pool_steps :: "pool_run \<Rightarrow> pool_run \<Rightarrow> bool" where
  "pool_steps \<equiv> pool_step\<^sup>*\<^sup>*"

section \<open>What every pool keeps\<close>

text \<open>
  The contract of a pool of handlers under keys: a key is free after \<open>drop\<close>, and a handler is in the
  pool exactly as long as it is not canceled.
\<close>

locale handler_pool =
  fixes ok :: "'s \<Rightarrow> bool"
    and lookup :: "'s \<Rightarrow> bytes \<Rightarrow> nat option"
    and size_of :: "'s \<Rightarrow> nat"
    and canceled :: "'s \<Rightarrow> nat \<Rightarrow> bool"
    and drop_key :: "bytes \<Rightarrow> 's \<Rightarrow> 's"
  assumes ok_drop: "ok s \<Longrightarrow> ok (drop_key k s)"
    and lookup_drop: "ok s \<Longrightarrow> lookup (drop_key k s) j = (if j = k then None else lookup s j)"
    and size_drop: "ok s \<Longrightarrow> size_of (drop_key k s) = size_of s"
    and live: "ok s \<Longrightarrow> i < size_of s \<Longrightarrow> \<not> canceled s i \<Longrightarrow> \<exists>k. lookup s k = Some i"
begin

lemma drop_all:
  "ok s \<Longrightarrow> ok (fold drop_key ks s) \<and> size_of (fold drop_key ks s) = size_of s \<and>
     lookup (fold drop_key ks s) j = (if j \<in> set ks then None else lookup s j)"
  by (induction ks arbitrary: s) (auto simp: ok_drop lookup_drop size_drop)

lemma drop_all_cancels:
  assumes "ok s" and "{k. lookup s k \<noteq> None} \<subseteq> set ks" and "i < size_of s"
  shows "canceled (fold drop_key ks s) i"
proof (rule ccontr)
  assume "\<not> canceled (fold drop_key ks s) i"
  moreover have "ok (fold drop_key ks s)" "i < size_of (fold drop_key ks s)"
    using drop_all assms by simp_all
  ultimately obtain k where "lookup (fold drop_key ks s) k = Some i" using live by blast
  then show False using drop_all [OF assms(1)] assms(2) by (auto split: if_splits)
qed

end

definition pool_ok :: "'a conn_pool_scheme \<Rightarrow> bool" where
  "pool_ok P \<longleftrightarrow>
     (\<forall>k i. map_of (cp_store P) k = Some i \<longleftrightarrow>
        i < length (cp_handlers P) \<and> handler_Key (cp_handlers P ! i) = k \<and> \<not> ch_canceled (cp_handlers P ! i))
     \<and> (\<forall>i<length (cp_handlers P). ch_canceled (cp_handlers P ! i) \<longrightarrow> cn_closed (ch_conn (cp_handlers P ! i)))"

lemma pool_ok_lookup:
  "pool_ok P \<Longrightarrow> map_of (cp_store P) k = Some i \<longleftrightarrow>
     i < length (cp_handlers P) \<and> handler_Key (cp_handlers P ! i) = k \<and> \<not> ch_canceled (cp_handlers P ! i)"
  by (simp add: pool_ok_def)

lemma pool_ok_closed:
  "pool_ok P \<Longrightarrow> i < length (cp_handlers P) \<Longrightarrow> ch_canceled (cp_handlers P ! i) \<Longrightarrow> cn_closed (ch_conn (cp_handlers P ! i))"
  by (simp add: pool_ok_def)

lemma nth_update: "xs[i := x] ! j = (if j = i \<and> i < length xs then x else xs ! j)"
  by (cases "i < length xs") (auto simp: nth_list_update list_update_beyond)

lemma handler_Cancel_fields [simp]:
  "handler_Key (handler_Cancel h) = handler_Key h" "ch_canceled (handler_Cancel h)"
  "ch_done (handler_Cancel h) = ch_done h"
  "cn_streamed (ch_conn (handler_Cancel h)) = cn_streamed (ch_conn h)"
  by (simp_all add: handler_Cancel_def handler_Key_def conn_Close_def)

lemma handler_Cancel_closed: "(ch_canceled h \<longrightarrow> cn_closed (ch_conn h)) \<Longrightarrow> cn_closed (ch_conn (handler_Cancel h))"
  by (simp add: handler_Cancel_def conn_Close_def)

lemma pool_get_Inr: "pool_get key P = Inr i \<longleftrightarrow> map_of (cp_store P) key = Some i"
  by (simp add: pool_get_def split: option.split)

lemma pool_drop_Some:
  "map_of (cp_store P) key = Some i \<Longrightarrow>
   snd (pool_drop key P) = P\<lparr>cp_handlers := (cp_handlers P)[i := handler_Cancel (cp_handlers P ! i)],
     cp_store := AList.delete key (cp_store P)\<rparr>"
  by (simp add: pool_drop_def pool_get_def)

lemma pool_drop_None: "map_of (cp_store P) key = None \<Longrightarrow> snd (pool_drop key P) = P"
  by (simp add: pool_drop_def pool_get_def)

lemma pool_drop_ok:
  assumes "pool_ok P"
  shows "pool_ok (snd (pool_drop key P))"
proof (cases "map_of (cp_store P) key")
  case (Some i)
  note look = pool_ok_lookup [OF assms] and closed = pool_ok_closed [OF assms]
  have i: "i < length (cp_handlers P)" "handler_Key (cp_handlers P ! i) = key" "\<not> ch_canceled (cp_handlers P ! i)"
    using Some by (simp_all add: look)
  have one: "j = i" if "j < length (cp_handlers P)" "handler_Key (cp_handlers P ! j) = key" "\<not> ch_canceled (cp_handlers P ! j)" for j
    using that Some look [of key j] by simp
  have "cn_closed (ch_conn (handler_Cancel (cp_handlers P ! i)))"
    using i by (intro handler_Cancel_closed) simp
  moreover have "map_of (AList.delete key (cp_store P)) k = Some j \<longleftrightarrow>
      j < length (cp_handlers P) \<and> handler_Key (cp_handlers P ! j) = k \<and> \<not> ch_canceled (cp_handlers P ! j) \<and> j \<noteq> i" for k j
    using i one [of j] by (cases "k = key") (auto simp: look)
  ultimately show ?thesis
    unfolding pool_ok_def pool_drop_Some [OF Some] using i(1,2) closed
    by (auto simp: nth_update)
qed (use assms in \<open>simp add: pool_drop_None\<close>)

lemma pool_drop_lookup:
  "map_of (cp_store (snd (pool_drop key P))) k = (if k = key then None else map_of (cp_store P) k)"
  by (cases "map_of (cp_store P) key") (simp_all add: pool_drop_None pool_drop_Some)

lemma pool_drop_size [simp]: "length (cp_handlers (snd (pool_drop key P))) = length (cp_handlers P)"
  by (simp add: pool_drop_def split: sum.split)

interpretation conn_pool: handler_pool "pool_ok :: 'a conn_pool_scheme \<Rightarrow> bool" "\<lambda>P. map_of (cp_store P)"
  "\<lambda>P. length (cp_handlers P)" "\<lambda>P i. ch_canceled (cp_handlers P ! i)" "\<lambda>key P. snd (pool_drop key P)"
  by unfold_locales (simp_all add: pool_drop_ok pool_drop_lookup pool_ok_lookup)

lemma pool_put_ok:
  assumes "pool_ok P" and "pool_put now (cn_key c) c ttl P = (None, Q)"
  shows "pool_ok Q \<and> length (cp_handlers Q) = Suc (length (cp_handlers P))"
proof -
  let ?h = "NewConnectionHandler now c ttl"
  note look = pool_ok_lookup [OF assms(1)] and closed = pool_ok_closed [OF assms(1)]
  have key: "handler_Key ?h = cn_key c" "\<not> ch_canceled ?h"
    by (simp_all add: NewConnectionHandler_def handler_Key_def Let_def)
  have none: "map_of (cp_store P) (cn_key c) = None"
    and Q: "Q = P\<lparr>cp_store := AList.update (cn_key c) (length (cp_handlers P)) (cp_store P), cp_handlers := cp_handlers P @ [?h]\<rparr>"
    using assms(2) key by (auto simp: pool_put_def pool_get_def Let_def split: option.splits)
  have free: "ch_canceled (cp_handlers P ! i)" if "i < length (cp_handlers P)" "handler_Key (cp_handlers P ! i) = cn_key c" for i
    using that none look [of "cn_key c" i] by auto
  show ?thesis
    unfolding Q pool_ok_def using key free closed by (auto simp: nth_append less_Suc_eq look)
qed

lemma pool_ok_handler:
  assumes "pool_ok P" and "handler_Key h = handler_Key (cp_handlers P ! i)"
    and "ch_canceled h = ch_canceled (cp_handlers P ! i)" and "ch_conn h = ch_conn (cp_handlers P ! i)"
  shows "pool_ok (P\<lparr>cp_handlers := (cp_handlers P)[i := h]\<rparr>)"
  unfolding pool_ok_def
  using assms(2-) pool_ok_closed [OF assms(1)] by (auto simp: nth_update pool_ok_lookup [OF assms(1)])

lemma pool_ok_fields [simp]:
  "pool_ok (S\<lparr>cp_canceled := b\<rparr>) = pool_ok S" "pool_ok (S\<lparr>cp_closed := b, cp_done := c\<rparr>) = pool_ok S"
  by (simp_all add: pool_ok_def)

lemma pool_ok_run [simp]:
  fixes S :: pool_run
  shows "pool_ok (S\<lparr>pr_serving := a\<rparr>) = pool_ok S" "pool_ok (S\<lparr>pr_reading := b\<rparr>) = pool_ok S"
    "pool_ok (S\<lparr>pr_sends := c\<rparr>) = pool_ok S" "pool_ok (S\<lparr>pr_putting := d\<rparr>) = pool_ok S"
    "pool_ok (S\<lparr>pr_dispose := e\<rparr>) = pool_ok S" "pool_ok (S\<lparr>pr_output := f\<rparr>) = pool_ok S"
    "pool_ok (S\<lparr>pr_errs := g\<rparr>) = pool_ok S" "pool_ok (S\<lparr>pr_panicked := p\<rparr>) = pool_ok S"
  by (simp_all add: pool_ok_def)

lemma serve_error_ok: "pool_ok P \<Longrightarrow> serve_error now e P = (sv, Q) \<Longrightarrow> pool_ok Q"
  using pool_drop_ok [of P]
  by (auto simp: serve_error_def Let_def split: option.splits sum.splits if_splits)

lemma pool_step_ok: "pool_step S T \<Longrightarrow> pool_ok S \<Longrightarrow> pool_ok T"
proof (induction rule: pool_step.induct)
  case (put_end c ttl S now T)
  then show ?case using pool_put_ok [of S] by simp
next
  case (dispose_drop S keys)
  then show ?case using conn_pool.drop_all [of S keys] by (simp add: pool_DropAll_def)
next
  case (handler_done i S)
  then show ?case by (intro pool_ok_handler) (simp_all add: handler_Key_def)
next
  case (serve_msg S i m now)
  have "pool_ok (S\<lparr>cp_handlers := (cp_handlers S)[i := handler_extend now (cp_handlers S ! i)]\<rparr>)"
    using serve_msg by (intro pool_ok_handler) (simp_all add: handler_Key_def handler_extend_def)
  then show ?case by (simp add: pool_ok_def)
next
  case (serve_err S i e now sv T)
  then show ?case using serve_error_ok [OF _ serve_err(4)] by simp
next
  case (dispose_close S)
  then show ?case by (simp add: pool_ok_def)
qed (auto simp: pool_drop_ok)

lemma pool_reachable_ok: "pool_steps (pool_start name) S \<Longrightarrow> pool_ok S"
proof (induction rule: rtranclp_induct)
  case base
  show ?case by (simp add: pool_ok_def pool_start_def NewConnectionPool_def conn_pool.defs)
qed (rule pool_step_ok)

text \<open>C29: No connection is lost: in every interleaving of the goroutines, each connection that was
  ever put into the pool either is closed and its handler canceled, or is the one that \<open>Get\<close> returns
  for its key.  While it is, every \<open>Put\<close> with its key is refused and changes nothing, also a \<open>Put\<close> of
  the same connection with another TTL, which the comment of \<open>Put\<close> says updates the TTL.\<close>

theorem pool_invariant:
  assumes "pool_steps (pool_start name) S" and "i < length (cp_handlers S)" and "cp_handlers S ! i = h"
  shows "if ch_canceled h then cn_closed (ch_conn h) \<and> pool_get (handler_Key h) S \<noteq> Inr i
    else pool_getConnection (handler_Key h) S = Inr (ch_conn h) \<and>
      (\<forall>now c ttl. cn_key c = handler_Key h \<longrightarrow> (\<exists>e. pool_Put now c ttl S = (Some e, S)))"
proof (cases "ch_canceled h")
  case False
  note ok = pool_reachable_ok [OF assms(1)]
  have "pool_get (handler_Key h) S = Inr i"
    using False assms(2,3) by (simp add: pool_get_Inr pool_ok_lookup [OF ok])
  with False assms(3) show ?thesis
    by (simp add: pool_getConnection_def pool_Put_def pool_put_def split: option.split)
next
  case True
  note ok = pool_reachable_ok [OF assms(1)]
  show ?thesis
    using True assms(2,3) pool_ok_closed [OF ok, of i] by (simp add: pool_get_Inr pool_ok_lookup [OF ok])
qed

section \<open>Shutdown\<close>

definition run_ok :: "pool_run \<Rightarrow> bool" where
  "run_ok S \<longleftrightarrow> pool_ok S \<and> (\<forall>i\<in>set (pr_reading S) \<union> fst ` set (pr_sends S). i < length (cp_handlers S))"

lemma pool_drop_run [simp]:
  fixes S :: pool_run
  shows "pr_reading (snd (pool_drop key S)) = pr_reading S" "pr_sends (snd (pool_drop key S)) = pr_sends S"
    "pr_dispose (snd (pool_drop key S)) = pr_dispose S" "pr_panicked (snd (pool_drop key S)) = pr_panicked S"
    "pr_serving (snd (pool_drop key S)) = pr_serving S" "cp_done (snd (pool_drop key S)) = cp_done S"
    "pr_putting (snd (pool_drop key S)) = pr_putting S"
  by (simp_all add: pool_drop_def split: sum.split)

lemma pool_DropAll_run [simp]:
  fixes S :: pool_run
  shows "pr_reading (pool_DropAll ks S) = pr_reading S" "pr_sends (pool_DropAll ks S) = pr_sends S"
    "pr_dispose (pool_DropAll ks S) = pr_dispose S" "pr_panicked (pool_DropAll ks S) = pr_panicked S"
    "pr_serving (pool_DropAll ks S) = pr_serving S" "cp_done (pool_DropAll ks S) = cp_done S"
    "length (cp_handlers (pool_DropAll ks S)) = length (cp_handlers S)"
  by (induction ks arbitrary: S) (simp_all add: pool_DropAll_def)

lemma serve_error_run:
  fixes S :: pool_run
  assumes "serve_error now e S = (sv, T)"
  shows "pr_reading T = pr_reading S" "pr_sends T = pr_sends S" "cp_done T = cp_done S"
    "length (cp_handlers T) = length (cp_handlers S)" "pr_serving T = pr_serving S"
  using assms
  by (auto simp: serve_error_def Let_def split: option.splits sum.splits if_splits)

lemma pool_put_run:
  fixes S :: pool_run
  assumes "pool_put now key c ttl S = (None, T)"
  shows "pr_sends T = pr_sends S" "cp_done T = cp_done S" "pr_serving T = pr_serving S"
    "\<exists>h. cp_handlers T = cp_handlers S @ [h]"
  using assms by (auto simp: pool_put_def Let_def split: sum.splits)

lemma run_step_ok: "pool_step S T \<Longrightarrow> run_ok S \<Longrightarrow> run_ok T"
proof -
  assume "pool_step S T" and ok: "run_ok S"
  then have "pool_ok T" using pool_step_ok by (auto simp: run_ok_def)
  moreover from \<open>pool_step S T\<close> ok
  have "\<forall>i\<in>set (pr_reading T) \<union> fst ` set (pr_sends T). i < length (cp_handlers T)"
  proof (induction rule: pool_step.induct)
    case (put_end c ttl S now T)
    obtain h where "cp_handlers T = cp_handlers S @ [h]" using pool_put_run(4) [OF put_end(2)] by blast
    with put_end pool_put_run(1) [OF put_end(2)] show ?case
      by (auto simp: run_ok_def ball_Un intro: less_SucI)
  next
    case (serve_err S i e now sv T)
    with serve_error_run [OF serve_err(4)] show ?case
      by (auto simp: run_ok_def dest: notin_set_remove1 in_set_remove1 [THEN iffD1] set_remove1_subset [THEN subsetD])
  next
    case (give_up i e S)
    then show ?case by (auto simp: run_ok_def dest: set_remove1_subset [THEN subsetD])
  next
    case (serve_msg S i m now)
    then show ?case by (auto simp: run_ok_def dest: set_remove1_subset [THEN subsetD])
  qed (auto simp: run_ok_def)
  ultimately show "run_ok T" by (simp add: run_ok_def)
qed

lemma run_reachable_ok: "pool_steps (pool_start name) S \<Longrightarrow> run_ok S"
proof (induction rule: rtranclp_induct)
  case base
  show ?case by (simp add: run_ok_def pool_ok_def pool_start_def NewConnectionPool_def conn_pool.defs)
qed (rule run_step_ok)

text \<open>A pool that has dropped everything and has no message on the way.\<close>

definition draining :: "pool_run \<Rightarrow> bool" where
  "draining S \<longleftrightarrow> run_ok S \<and> pr_dispose S = D_dropped \<and> (\<forall>h\<in>set (cp_handlers S). ch_canceled h)
     \<and> list_all (\<lambda>(_, s). \<not> is_SendMsg s) (pr_sends S)"

definition work_left :: "pool_run \<Rightarrow> nat" where
  "work_left S = length (pr_reading S) + length (pr_sends S) + length (filter (\<lambda>h. \<not> ch_done h) (cp_handlers S))"

lemma filter_update_less:
  "i < length xs \<Longrightarrow> P (xs ! i) \<Longrightarrow> \<not> P x \<Longrightarrow> length (filter P (xs[i := x])) < length (filter P xs)"
proof (induction xs arbitrary: i)
  case (Cons a xs)
  then show ?case by (cases i) auto
qed simp

lemma drain_step:
  assumes "draining S" and "pr_reading S \<noteq> [] \<or> pr_sends S \<noteq> [] \<or> \<not> (\<forall>h\<in>set (cp_handlers S). ch_done h)"
  shows "\<exists>T. pool_step S T \<and> draining T \<and> work_left T < work_left S \<and> pr_panicked T = pr_panicked S"
proof (cases "pr_reading S = [] \<and> pr_sends S = []")
  case False
  show ?thesis
  proof (cases "pr_reading S")
    case (Cons i l)
    let ?T = "S\<lparr>pr_reading := removeAll i (pr_reading S)\<rparr>"
    have step: "pool_step S ?T" using Cons by (intro read_end) simp
    have "draining ?T" using assms(1) run_step_ok [OF step] by (simp add: draining_def)
    moreover have "work_left ?T < work_left S"
      using Cons length_filter_le [of "\<lambda>x. i \<noteq> x" l] by (simp add: work_left_def removeAll_filter_not_eq less_Suc_eq_le)
    ultimately show ?thesis using step by (intro exI [of _ ?T]) simp
  next
    case Nil
    with False obtain i x l where l: "pr_sends S = (i, x) # l" by (cases "pr_sends S") auto
    with assms(1) obtain e where e: "x = SendErr e" by (cases x) (auto simp: draining_def is_SendMsg_def)
    let ?T = "S\<lparr>pr_sends := remove1 (i, SendErr e) (pr_sends S)\<rparr>"
    have "i < length (cp_handlers S)" using assms(1) l by (auto simp: draining_def run_ok_def)
    then have step: "pool_step S ?T" using assms(1) l e by (intro give_up) (simp_all add: draining_def)
    have "draining ?T" using assms(1) run_step_ok [OF step] l e by (simp add: draining_def)
    moreover have "work_left ?T < work_left S" using l e by (simp add: work_left_def)
    ultimately show ?thesis using step by (intro exI [of _ ?T]) simp
  qed
next
  case True
  then obtain i where i: "i < length (cp_handlers S)" "\<not> ch_done (cp_handlers S ! i)"
    using assms(2) by (auto simp: in_set_conv_nth)
  let ?h = "(cp_handlers S ! i)\<lparr>ch_done := True\<rparr>"
  let ?T = "S\<lparr>cp_handlers := (cp_handlers S)[i := ?h]\<rparr>"
  have step: "pool_step S ?T" using True i by (intro handler_done) (simp add: serve_returns_def)
  have "ch_canceled ?h" using assms(1) i by (simp add: draining_def)
  then have "draining ?T"
    using assms(1) run_step_ok [OF step] by (auto simp: draining_def dest!: set_update_subset_insert [THEN subsetD])
  moreover have "work_left ?T < work_left S"
    using i filter_update_less [of i "cp_handlers S" "\<lambda>h. \<not> ch_done h" ?h] by (simp add: work_left_def)
  ultimately show ?thesis using step by (intro exI [of _ ?T]) simp
qed

lemma drain_ends:
  "draining S \<Longrightarrow> \<exists>T. pool_steps S T \<and> cp_done T \<and> (\<forall>h\<in>set (cp_handlers T). ch_done h \<and> ch_canceled h) \<and>
     run_ok T \<and> pr_panicked T = pr_panicked S"
proof (induction "work_left S" arbitrary: S rule: less_induct)
  case less
  show ?case
  proof (cases "pr_reading S \<noteq> [] \<or> pr_sends S \<noteq> [] \<or> \<not> (\<forall>h\<in>set (cp_handlers S). ch_done h)")
    case True
    then obtain T where "pool_step S T" "draining T" "work_left T < work_left S" "pr_panicked T = pr_panicked S"
      using drain_step [OF less(2)] by blast
    with less(1) [of T] show ?thesis by (metis converse_rtranclp_into_rtranclp)
  next
    case False
    let ?T = "S\<lparr>cp_closed := True, cp_done := True, pr_dispose := D_over,
      pr_panicked := (pr_panicked S \<or> list_ex (\<lambda>(_, s). is_SendMsg s) (pr_sends S))\<rparr>"
    have step: "pool_step S ?T"
      using less(2) False by (intro dispose_close) (simp_all add: draining_def)
    have "run_ok ?T" using less(2) by (intro run_step_ok [OF step]) (simp add: draining_def)
    with False less(2) r_into_rtranclp [of pool_step, OF step] show ?thesis
      by (intro exI [of _ ?T]) (simp add: draining_def)
  qed
qed

text \<open>C30: The pool can shut down: once it is canceled, with no \<open>Put\<close> and no message on the way to
  the loop, the goroutines can finish, and when the pool reports that it is done, every handler it
  ever had has returned and every connection is closed; nothing panics on the way.\<close>

theorem pool_shutdown:
  assumes "pool_steps (pool_start name) S" and "cp_canceled S" and "pr_dispose S = D_waiting"
    and "list_all (\<lambda>(_, s). \<not> is_SendMsg s) (pr_sends S)"
  shows "\<exists>T. pool_steps S T \<and> cp_done T \<and> pr_panicked T = pr_panicked S \<and>
    (\<forall>h\<in>set (cp_handlers T). ch_done h \<and> cn_closed (ch_conn h))"
proof -
  let ?keys = "map fst (cp_store S)"
  let ?D = "(pool_DropAll ?keys S)\<lparr>pr_dispose := D_dropped\<rparr>"
  have ok: "run_ok S" by (rule run_reachable_ok [OF assms(1)])
  have step: "pool_step S ?D" using assms(2,3) by (intro dispose_drop) simp_all
  have "{k. map_of (cp_store S) k \<noteq> None} \<subseteq> set ?keys" by (auto dest: map_of_Some_key)
  then have "ch_canceled (cp_handlers ?D ! i)" if "i < length (cp_handlers S)" for i
    using conn_pool.drop_all_cancels [of S ?keys i] ok that by (simp add: run_ok_def pool_DropAll_def)
  then have "draining ?D"
    using run_step_ok [OF step ok] assms(4) by (auto simp: draining_def in_set_conv_nth)
  then obtain T where T: "pool_steps ?D T" "cp_done T" "\<forall>h\<in>set (cp_handlers T). ch_done h \<and> ch_canceled h"
    "run_ok T" "pr_panicked T = pr_panicked ?D"
    using drain_ends by blast
  have "pool_steps S T" using step T(1) by (rule converse_rtranclp_into_rtranclp)
  moreover have "\<forall>h\<in>set (cp_handlers T). cn_closed (ch_conn h)"
    using T(3,4) pool_ok_closed [of T] by (metis in_set_conv_nth run_ok_def)
  ultimately show ?thesis using T by auto
qed

text \<open>The pool does not always shut down: when its loop has seen the cancellation while a
  stream handler waits to hand over a message, that handler never returns and the pool never reports
  that it is done, whatever happens later.\<close>

theorem pool_shutdown_blocks:
  assumes "pr_serving S = Serve_stopped" and "(i, SendMsg m) \<in> set (pr_sends S)" and "i < length (cp_handlers S)"
    and "cn_streamed (ch_conn (cp_handlers S ! i))" and "\<not> ch_done (cp_handlers S ! i)" and "\<not> cp_done S"
    and "pool_steps S T"
  shows "\<not> cp_done T \<and> \<not> ch_done (cp_handlers T ! i)"
proof -
  let ?stuck = "\<lambda>S. pr_serving S = Serve_stopped \<and> (i, SendMsg m) \<in> set (pr_sends S) \<and> i < length (cp_handlers S) \<and>
    cn_streamed (ch_conn (cp_handlers S ! i)) \<and> \<not> ch_done (cp_handlers S ! i) \<and> \<not> cp_done S"
  have drop: "?stuck (snd (pool_drop key U))" if "?stuck U" for key U
    using that by (auto simp: pool_drop_def nth_update split: sum.split)
  have all: "?stuck (fold (\<lambda>key P. snd (pool_drop key P)) ks U)" if "?stuck U" for ks U
    using that
  proof (induction ks arbitrary: U)
    case (Cons k ks)
    show ?case using Cons.IH [OF drop [OF Cons.prems]] by simp
  qed simp
  have step: "?stuck V" if "pool_step U V" "?stuck U" for U V
    using that
  proof (induction rule: pool_step.induct)
    case (put_end c ttl U now V)
    obtain h where "cp_handlers V = cp_handlers U @ [h]" using pool_put_run(4) [OF put_end(2)] by blast
    with put_end pool_put_run [OF put_end(2)] show ?case by (simp add: nth_append)
  next
    case (dispose_drop U keys)
    then show ?case using all [of U keys] by (simp add: pool_DropAll_def)
  next
    case (dispose_close U)
    then show ?case by auto
  next
    case (handler_done j U)
    then show ?case by (auto simp: serve_returns_def nth_update image_iff)
  next
    case (drop U key)
    then show ?case using \<open>\<And>key U. ?stuck U \<Longrightarrow> ?stuck (snd (pool_drop key U))\<close> by blast
  qed (auto simp: in_set_remove1)
  have "?stuck T" using assms(7) by (induction rule: rtranclp_induct) (use assms(1-6) step in auto)
  then show ?thesis by simp
qed

section \<open>A run\<close>

text \<open>One stream connection in the pool, with one message handed over and one waiting.\<close>

definition sample_pool :: pool_run where
  "sample_pool = (pool_start [])\<lparr>cp_store := [(''k'', 0)], cp_handlers := [NewConnectionHandler 0 (sample_conn False) 10],
     pr_reading := [0]\<rparr>"

definition sample_busy :: pool_run where
  "sample_busy = sample_pool\<lparr>cp_handlers := [handler_extend 0 (NewConnectionHandler 0 (sample_conn False) 10)],
     cp_canceled := True, pr_sends := [(0, SendMsg sample_message)], pr_serving := Serve_stopped\<rparr>"

lemmas sample_pool_defs = sample_pool_def pool_start_def NewConnectionPool_def conn_pool.defs sample_conn_def
  NewConnection_def

lemma sample_pool_reached: "pool_steps (pool_start []) sample_pool"
proof -
  let ?c = "sample_conn False"
  let ?S = "(pool_start [])\<lparr>pr_putting := [(?c, 10)]\<rparr>"
  let ?T = "?S\<lparr>cp_store := [(''k'', 0)], cp_handlers := [NewConnectionHandler 0 ?c 10]\<rparr>"
  have "pool_step (pool_start []) (pool_start []\<lparr>pr_putting := (?c, 10) # pr_putting (pool_start [])\<rparr>)"
    by (rule put_begin) (simp add: pool_Put_check_def sample_pool_defs)
  then have 1: "pool_step (pool_start []) ?S" by (simp add: sample_pool_defs)
  have "pool_step ?S (?T\<lparr>pr_putting := remove1 (?c, 10) (pr_putting ?S),
      pr_reading := length (cp_handlers ?S) # pr_reading ?S\<rparr>)"
    by (rule put_end [of _ _ _ 0])
       (simp_all add: pool_put_def pool_get_def sample_pool_defs NewConnectionHandler_def handler_Key_def Let_def)
  then have "pool_step ?S sample_pool" by (simp add: sample_pool_defs)
  with 1 show ?thesis by (meson rtranclp.rtrancl_refl rtranclp.rtrancl_into_rtrancl)
qed

lemma sample_busy_reached: "pool_steps sample_pool sample_busy"
proof -
  let ?m = "SendMsg sample_message"
  let ?A = "sample_pool\<lparr>pr_sends := [(0, ?m)]\<rparr>" and ?B = "sample_pool\<lparr>pr_sends := [(0, ?m), (0, ?m)]\<rparr>"
  let ?H = "[handler_extend 0 (NewConnectionHandler 0 (sample_conn False) 10)]"
  let ?C = "sample_pool\<lparr>cp_handlers := ?H, pr_sends := [(0, ?m)], pr_serving := Serve_msg sample_message\<rparr>"
  let ?D = "?C\<lparr>cp_canceled := True\<rparr>"
  have "pool_step sample_pool (sample_pool\<lparr>pr_sends := (0, ?m) # pr_sends sample_pool\<rparr>)"
    by (rule read_msg) (simp_all add: sample_pool_defs)
  then have 1: "pool_step sample_pool ?A" by (simp add: sample_pool_defs)
  have "pool_step ?A (?A\<lparr>pr_sends := (0, ?m) # pr_sends ?A\<rparr>)"
    by (rule read_msg) (simp_all add: sample_pool_defs)
  then have 2: "pool_step ?A ?B" by simp
  have "pool_step ?B (?B\<lparr>pr_serving := Serve_msg sample_message, pr_sends := remove1 (0, ?m) (pr_sends ?B),
      cp_handlers := (cp_handlers ?B)[0 := handler_extend 0 (cp_handlers ?B ! 0)]\<rparr>)"
    by (rule serve_msg) (simp_all add: sample_pool_defs)
  then have 3: "pool_step ?B ?C" by (simp add: sample_pool_defs)
  have 4: "pool_step ?C ?D" by (rule pool_step.cancel)
  have "pool_step ?D (?D\<lparr>pr_serving := Serve_stopped\<rparr>)"
    by (rule serve_cancel) (simp_all add: sample_pool_defs)
  then have 5: "pool_step ?D sample_busy" by (simp add: sample_busy_def sample_pool_defs)
  from 1 2 3 4 5 show ?thesis by (meson rtranclp.rtrancl_refl rtranclp.rtrancl_into_rtrancl)
qed

theorem pool_invariant_witness:
  "pool_steps (pool_start []) sample_pool \<and> (\<exists>h. cp_handlers sample_pool = [h] \<and> pool_getConnection ''k'' sample_pool = Inr (ch_conn h))"
proof -
  have "cp_handlers sample_pool ! 0 = NewConnectionHandler 0 (sample_conn False) 10" "0 < length (cp_handlers sample_pool)"
    by (simp_all add: sample_pool_def)
  with pool_invariant [OF sample_pool_reached, of 0] sample_pool_reached show ?thesis
    by (simp add: sample_pool_defs NewConnectionHandler_def handler_Key_def Let_def)
qed

theorem pool_shutdown_witness:
  "\<exists>T. pool_steps (sample_pool\<lparr>cp_canceled := True\<rparr>) T \<and> cp_done T \<and> \<not> pr_panicked T"
proof -
  have "pool_steps (pool_start []) (sample_pool\<lparr>cp_canceled := True\<rparr>)"
    using sample_pool_reached pool_step.cancel by (rule rtranclp.rtrancl_into_rtrancl)
  from pool_shutdown [OF this] show ?thesis by (auto simp: sample_pool_defs)
qed

theorem pool_shutdown_blocks_witness:
  "pool_steps (pool_start []) sample_busy \<and> (\<forall>T. pool_steps sample_busy T \<longrightarrow> \<not> cp_done T)"
proof -
  have "pool_steps (pool_start []) sample_busy" using sample_pool_reached sample_busy_reached by (rule rtranclp_trans)
  moreover have "\<not> cp_done T" if "pool_steps sample_busy T" for T
    using pool_shutdown_blocks [OF _ _ _ _ _ _ that, of 0 sample_message]
    by (simp add: sample_busy_def sample_pool_defs handler_extend_def NewConnectionHandler_def Let_def)
  ultimately show ?thesis by blast
qed

section \<open>Malformed messages\<close>

lemma HasPrefix_separator:
  "c \<notin> set sub \<Longrightarrow> strings_HasPrefix (p @ c # m) sub \<longleftrightarrow> strings_HasPrefix p sub"
proof (induction p arbitrary: sub)
  case Nil
  then show ?case by (cases sub) (auto simp: strings_HasPrefix_def)
next
  case (Cons a p)
  then show ?case by (cases sub) (auto simp: strings_HasPrefix_def)
qed

lemma Contains_separator:
  "sub \<noteq> [] \<Longrightarrow> c \<notin> set sub \<Longrightarrow> strings_Contains (p @ c # m) sub \<longleftrightarrow> strings_Contains p sub \<or> strings_Contains m sub"
proof (induction p)
  case Nil
  have "\<not> strings_HasPrefix (c # m) sub" using HasPrefix_separator [of c sub "[]" m] Nil by (simp add: strings_HasPrefix_def)
  with Nil show ?case by (simp add: strings_Contains_def)
next
  case (Cons a p)
  with HasPrefix_separator [of c sub "a # p" m] show ?case by (simp add: strings_Contains_def)
qed

lemma missing_length_EOF:
  "handler_error_EOF (ParserErr info (MissingContentLength msg)) \<longleftrightarrow> strings_Contains (strings_ToLower msg) ''eof''"
proof -
  let ?nl = "char_of (10::nat) :: char"
  let ?pre = "''MalformedMessageError: missing required '' @ [CHR 0x27] @ ''Content-Length'' @ [CHR 0x27] @ '' header''"
  have nl: "?nl = CHR 0x0A" "lower_char (CHR 0x0A) = CHR 0x0A" by code_simp+
  have pre: "\<not> strings_Contains (strings_ToLower ?pre) ''eof''"
    "\<not> strings_Contains (strings_ToLower ''Message dump:'') ''eof''" by code_simp+
  have split: "strings_ToLower (a @ b) = strings_ToLower a @ strings_ToLower b"
    "strings_ToLower (CHR 0x0A # a) = CHR 0x0A # strings_ToLower a" for a b
    by (simp_all add: strings_ToLower_def nl)
  show ?thesis
  proof (cases "msg = []")
    case True
    have "\<not> strings_Contains [] ''eof''" by (simp add: strings_Contains_def)
    with True pre(1) show ?thesis by (simp add: handler_error_EOF_def dump_text_def strings_ToLower_def)
  next
    case False
    have "err_Error (ParserErr info (MissingContentLength msg)) = ?pre @ CHR 0x0A # ''Message dump:'' @ CHR 0x0A # msg"
      using False by (simp add: dump_text_def nl)
    then have "strings_ToLower (err_Error (ParserErr info (MissingContentLength msg))) =
        strings_ToLower ?pre @ CHR 0x0A # strings_ToLower ''Message dump:'' @ CHR 0x0A # strings_ToLower msg"
      by (simp only: split)
    then show ?thesis
      using pre Contains_separator [of "''eof''" "CHR 0x0A"] by (simp add: handler_error_EOF_def del: err_Error.simps)
  qed
qed

text \<open>A message without Content-Length on a stream is reported and the connection is kept, as
  the comment of the loop says of malformed messages, if the text of the message does not contain
  the letters \<open>eof\<close>, in any case; if it does, the connection is closed without a report.\<close>

theorem malformed_message_kept:
  assumes "pool_steps (pool_start name) S" and "\<not> cp_canceled S" and "i < length (cp_handlers S)"
    and "cp_handlers S ! i = h" and "\<not> ch_canceled h"
    and "handler_handleError info (ParserErr pinfo (MissingContentLength msg)) h = Some herr"
  shows "serve_error now herr S =
    (if strings_Contains (strings_ToLower msg) ''eof'' then (Serve_idle, snd (pool_drop (handler_Key h) S))
     else (Serve_err (ParserErr pinfo (MissingContentLength msg)), S))"
proof -
  let ?e = "ParserErr pinfo (MissingContentLength msg)"
  have "herr = ConnectionHandlerError ?e (handler_Key h) info"
    using assms(6) by (simp add: handler_handleError_def split: if_splits)
  moreover have "pool_get (handler_Key h) S = Inr i"
    using assms pool_reachable_ok [OF assms(1)] by (simp add: pool_get_Inr pool_ok_lookup)
  moreover have "\<not> isExpired ?e" "\<not> isNetwork ?e" "errors_As as_ConnectionError ?e = None"
    by (simp_all add: isNetwork_def errors_As_def List.map_filter_simps)
  ultimately show ?thesis
    using assms(2,4) missing_length_EOF [of pinfo msg]
    by (simp add: serve_error_def errors_As_def List.map_filter_simps)
qed

theorem malformed_message_kept_witness:
  "\<exists>herr. handler_handleError [] (ParserErr [] (MissingContentLength ''From: Geoff'')) (cp_handlers sample_pool ! 0) = Some herr \<and>
     serve_error 0 herr sample_pool = (Serve_idle, snd (pool_drop ''k'' sample_pool))"
proof -
  let ?h = "NewConnectionHandler 0 (sample_conn False) 10"
  let ?e = "ParserErr [] (MissingContentLength ''From: Geoff'')"
  have h: "cp_handlers sample_pool ! 0 = ?h" "0 < length (cp_handlers sample_pool)" "\<not> cp_canceled sample_pool"
    "\<not> ch_canceled ?h" "handler_Key ?h = ''k''"
    by (simp_all add: sample_pool_defs NewConnectionHandler_def handler_Key_def Let_def)
  have "strings_Contains (strings_ToLower ''From: Geoff'') ''eof''" "\<not> isSyntaxError ?e" by code_simp+
  moreover from this have "handler_handleError [] ?e ?h = Some (ConnectionHandlerError ?e ''k'' [])"
    using h by (simp add: handler_handleError_def)
  ultimately show ?thesis
    using malformed_message_kept [OF sample_pool_reached h(3,2,1,4)] h by simp
qed

end
