(* ===== verification/Transport_Listener.thy ===== *)
theory Transport_Listener
  imports Transport_Pool
begin

text \<open>
  The listener pool (\<^verbatim>\<open>transport/listener_pool.go\<close>): the operations of the pool, one turn of its
  loop, and one turn of the loop in which a handler accepts connections.
\<close>

section \<open>Listeners and their handlers\<close>

text \<open>The socket of a listener is a parameter; \<open>ln_network\<close> is what \<open>listenerNetwork\<close> returns.\<close>

record listener =
  ln_addr :: bytes
  ln_network :: bytes
  ln_closed :: bool

record listener_handler =
  lh_key :: bytes
  lh_listener :: listener
  lh_canceled :: bool
  lh_done :: bool

definition NewListenerHandler :: "bytes \<Rightarrow> listener \<Rightarrow> listener_handler" where
  "NewListenerHandler key l = \<lparr>lh_key = key, lh_listener = l, lh_canceled = False, lh_done = False\<rparr>"

definition listener_Close :: "listener \<Rightarrow> listener" where
  "listener_Close l = l\<lparr>ln_closed := True\<rparr>"

definition lh_Cancel :: "listener_handler \<Rightarrow> listener_handler" where
  "lh_Cancel h =
     (if lh_canceled h then h else h\<lparr>lh_canceled := True, lh_listener := listener_Close (lh_listener h)\<rparr>)"

text \<open>What \<open>Accept\<close> returns: an error, or a connection of one of the types the handler
  distinguishes, with its addresses and the name of its network.\<close>

datatype base_conn = Tls_conn | Ws_conn bool | Other_conn bytes

datatype accepted = Accept_error tp_error | Accepted base_conn bytes bytes

definition accepted_network :: "base_conn \<Rightarrow> bytes" where
  "accepted_network b =
     (case b of
        Tls_conn \<Rightarrow> ''tls''
      | Ws_conn over_tls \<Rightarrow> if over_tls then ''wss'' else ''ws''
      | Other_conn network \<Rightarrow> strings_ToLower network)"

text \<open>One turn of \<open>acceptConnections\<close>: a connection for the pool, or an error, after which the
  listener is closed and the handler ends.\<close>

datatype accept_turn = New_conn conn | Accept_ends tp_error listener_handler

definition acceptConnections_turn :: "bytes \<Rightarrow> accepted \<Rightarrow> listener_handler \<Rightarrow> accept_turn" where
  "acceptConnections_turn info a h =
     (case a of
        Accept_error e \<Rightarrow>
          Accept_ends (ListenerHandlerError e (lh_key h) info)
            (h\<lparr>lh_listener := listener_Close (lh_listener h), lh_done := True\<rparr>)
      | Accepted b laddr raddr \<Rightarrow>
          let network = accepted_network b in
          New_conn (NewConnection False laddr raddr (network @ '':'' @ raddr) network))"

section \<open>The pool\<close>

record listener_pool =
  lp_store :: "(bytes \<times> nat) list"
  lp_handlers :: "listener_handler list"
  lp_canceled :: bool
  lp_name :: bytes

definition NewListenerPool :: "bytes \<Rightarrow> listener_pool" where
  "NewListenerPool name = \<lparr>lp_store = [], lp_handlers = [], lp_canceled = False, lp_name = name\<rparr>"

definition lpool_error :: "bytes \<Rightarrow> bytes \<Rightarrow> listener_pool \<Rightarrow> tp_error" where
  "lpool_error t op P = PoolError (PlainErr t) op (lp_name P)"

definition lpool_get :: "bytes \<Rightarrow> listener_pool \<Rightarrow> tp_error + nat" where
  "lpool_get key P =
     (case map_of (lp_store P) key of
        Some i \<Rightarrow> Inr i
      | None \<Rightarrow> Inl (lpool_error (''listenr '' @ key @ '' not found in the pool'') ''get listener'' P))"

definition lpool_getListener :: "bytes \<Rightarrow> listener_pool \<Rightarrow> tp_error + listener" where
  "lpool_getListener key P = map_sum id (\<lambda>i. lh_listener (lp_handlers P ! i)) (lpool_get key P)"

definition lpool_put :: "bytes \<Rightarrow> listener \<Rightarrow> listener_pool \<Rightarrow> tp_error option \<times> listener_pool" where
  "lpool_put key l P =
     (case lpool_get key P of
        Inr _ \<Rightarrow> (Some (lpool_error (''key '' @ key @ '' already exists in the pool'') ''put listener'' P), P)
      | Inl _ \<Rightarrow>
          let h = NewListenerHandler key l in
          (None, P\<lparr>lp_store := AList.update (lh_key h) (length (lp_handlers P)) (lp_store P),
                   lp_handlers := lp_handlers P @ [h]\<rparr>))"

definition lpool_Put :: "bytes \<Rightarrow> listener \<Rightarrow> listener_pool \<Rightarrow> tp_error option \<times> listener_pool" where
  "lpool_Put key l P =
     (if lp_canceled P then (Some (lpool_error ''listener pool closed'' ''put listener'' P), P)
      else if key = [] then (Some (lpool_error ''empty listener key'' ''put listener'' P), P)
      else lpool_put key l P)"

definition lpool_drop :: "bytes \<Rightarrow> listener_pool \<Rightarrow> tp_error option \<times> listener_pool" where
  "lpool_drop key P =
     (case lpool_get key P of
        Inr i \<Rightarrow>
          (None, P\<lparr>lp_handlers := (lp_handlers P)[i := lh_Cancel (lp_handlers P ! i)],
                   lp_store := AList.delete key (lp_store P)\<rparr>)
      | Inl e \<Rightarrow> (Some e, P))"

definition lpool_DropAll :: "bytes list \<Rightarrow> listener_pool \<Rightarrow> listener_pool" where
  "lpool_DropAll keys P = fold (\<lambda>key Q. snd (lpool_drop key Q)) keys P"

definition lpool_All :: "listener_pool \<Rightarrow> listener list" where
  "lpool_All P = map (\<lambda>(_, i). lh_listener (lp_handlers P ! i)) (lp_store P)"

definition lpool_Length :: "listener_pool \<Rightarrow> nat" where
  "lpool_Length P = length (lp_store P)"

text \<open>An error that a handler has sent: the error that is passed up, if any, and the pool.  A
  connection that a handler has sent is passed up as it is.\<close>

fun as_ListenerHandlerError :: "tp_error \<Rightarrow> (tp_error \<times> bytes) option" where
  "as_ListenerHandlerError (ListenerHandlerError e key _) = Some (e, key)"
| "as_ListenerHandlerError _ = None"

definition lpool_serve_error :: "tp_error \<Rightarrow> listener_pool \<Rightarrow> tp_error option \<times> listener_pool" where
  "lpool_serve_error err P =
     (case errors_As as_ListenerHandlerError err of
        None \<Rightarrow> (None, P)
      | Some (e, key) \<Rightarrow>
          (case lpool_get key P of
             Inr i \<Rightarrow> (Some err, if isNetwork e then snd (lpool_drop (lh_key (lp_handlers P ! i)) P) else P)
           | Inl _ \<Rightarrow> (None, P)))"

section \<open>What the pool keeps\<close>

definition lpool_ok :: "listener_pool \<Rightarrow> bool" where
  "lpool_ok P \<longleftrightarrow>
     (\<forall>k i. map_of (lp_store P) k = Some i \<longleftrightarrow>
        i < length (lp_handlers P) \<and> lh_key (lp_handlers P ! i) = k \<and> \<not> lh_canceled (lp_handlers P ! i))
     \<and> (\<forall>i<length (lp_handlers P). lh_canceled (lp_handlers P ! i) \<longrightarrow> ln_closed (lh_listener (lp_handlers P ! i)))"

lemma lpool_ok_lookup:
  "lpool_ok P \<Longrightarrow> map_of (lp_store P) k = Some i \<longleftrightarrow>
     i < length (lp_handlers P) \<and> lh_key (lp_handlers P ! i) = k \<and> \<not> lh_canceled (lp_handlers P ! i)"
  by (simp add: lpool_ok_def)

lemma lpool_ok_closed:
  "lpool_ok P \<Longrightarrow> i < length (lp_handlers P) \<Longrightarrow> lh_canceled (lp_handlers P ! i) \<Longrightarrow> ln_closed (lh_listener (lp_handlers P ! i))"
  by (simp add: lpool_ok_def)

lemma lh_Cancel_fields [simp]: "lh_key (lh_Cancel h) = lh_key h" "lh_canceled (lh_Cancel h)"
  by (simp_all add: lh_Cancel_def)

lemma lpool_drop_Some:
  "map_of (lp_store P) key = Some i \<Longrightarrow>
   snd (lpool_drop key P) = P\<lparr>lp_handlers := (lp_handlers P)[i := lh_Cancel (lp_handlers P ! i)],
     lp_store := AList.delete key (lp_store P)\<rparr>"
  by (simp add: lpool_drop_def lpool_get_def)

lemma lpool_drop_None: "map_of (lp_store P) key = None \<Longrightarrow> snd (lpool_drop key P) = P"
  by (simp add: lpool_drop_def lpool_get_def)

lemma lpool_drop_ok:
  assumes "lpool_ok P"
  shows "lpool_ok (snd (lpool_drop key P))"
proof (cases "map_of (lp_store P) key")
  case (Some i)
  note look = lpool_ok_lookup [OF assms] and closed = lpool_ok_closed [OF assms]
  have i: "i < length (lp_handlers P)" "lh_key (lp_handlers P ! i) = key" "\<not> lh_canceled (lp_handlers P ! i)"
    using Some by (simp_all add: look)
  have one: "j = i" if "j < length (lp_handlers P)" "lh_key (lp_handlers P ! j) = key" "\<not> lh_canceled (lp_handlers P ! j)" for j
    using that Some look [of key j] by simp
  have "ln_closed (lh_listener (lh_Cancel (lp_handlers P ! i)))"
    using i by (simp add: lh_Cancel_def listener_Close_def)
  moreover have "map_of (AList.delete key (lp_store P)) k = Some j \<longleftrightarrow>
      j < length (lp_handlers P) \<and> lh_key (lp_handlers P ! j) = k \<and> \<not> lh_canceled (lp_handlers P ! j) \<and> j \<noteq> i" for k j
    using i one [of j] by (cases "k = key") (auto simp: look)
  ultimately show ?thesis
    unfolding lpool_ok_def lpool_drop_Some [OF Some] using i(1,2) closed
    by (auto simp: nth_update)
qed (use assms in \<open>simp add: lpool_drop_None\<close>)

interpretation listener_pool: handler_pool lpool_ok "\<lambda>P. map_of (lp_store P)"
  "\<lambda>P. length (lp_handlers P)" "\<lambda>P i. lh_canceled (lp_handlers P ! i)" "\<lambda>key P. snd (lpool_drop key P)"
proof
  fix P k j
  show "map_of (lp_store (snd (lpool_drop k P))) j = (if j = k then None else map_of (lp_store P) j)"
    by (cases "map_of (lp_store P) k") (simp_all add: lpool_drop_None lpool_drop_Some)
  show "length (lp_handlers (snd (lpool_drop k P))) = length (lp_handlers P)"
    by (simp add: lpool_drop_def split: sum.split)
qed (simp_all add: lpool_drop_ok lpool_ok_lookup)

lemma lpool_put_ok:
  assumes "lpool_ok P"
  shows "lpool_ok (snd (lpool_put key l P))"
proof (cases "map_of (lp_store P) key")
  case None
  note look = lpool_ok_lookup [OF assms] and closed = lpool_ok_closed [OF assms]
  have free: "lh_canceled (lp_handlers P ! i)" if "i < length (lp_handlers P)" "lh_key (lp_handlers P ! i) = key" for i
    using that None look [of key i] by auto
  show ?thesis
    using None free closed
    unfolding lpool_ok_def lpool_put_def
    by (auto simp: lpool_get_def NewListenerHandler_def Let_def nth_append less_Suc_eq look)
next
  case (Some i)
  with assms show ?thesis by (simp add: lpool_put_def lpool_get_def)
qed

lemma lpool_serve_error_ok: "lpool_ok P \<Longrightarrow> lpool_ok (snd (lpool_serve_error e P))"
  by (simp add: lpool_serve_error_def lpool_drop_ok split: option.split sum.split)

text \<open>After \<open>DropAll\<close> every listener that the pool ever had is closed.\<close>

lemma lpool_DropAll_closes:
  assumes "lpool_ok P" and "set keys = fst ` set (lp_store P)" and "i < length (lp_handlers P)"
  shows "ln_closed (lh_listener (lp_handlers (lpool_DropAll keys P) ! i))"
proof -
  have "{k. map_of (lp_store P) k \<noteq> None} \<subseteq> set keys"
    using assms(2) by (auto dest: map_of_Some_key)
  then have "lh_canceled (lp_handlers (lpool_DropAll keys P) ! i)"
    using listener_pool.drop_all_cancels [OF assms(1) _ assms(3)] by (simp add: lpool_DropAll_def)
  then show ?thesis
    using listener_pool.drop_all [OF assms(1), of keys] assms(3)
    by (intro lpool_ok_closed) (simp_all add: lpool_DropAll_def)
qed

end
