(* ===== verification/Transport_Layer.thy ===== *)
theory Transport_Layer
  imports Transport_Listener
begin

text \<open>
  The protocols (\<^verbatim>\<open>transport/udp.go\<close>, \<^verbatim>\<open>tcp.go\<close>, \<^verbatim>\<open>tls.go\<close>, \<^verbatim>\<open>ws.go\<close>, \<^verbatim>\<open>wss.go\<close>) and the
  transport layer (\<^verbatim>\<open>transport/layer.go\<close>).  The network is a parameter: what resolving, listening,
  dialling, writing and the lookups of the name service return are fields of \<open>net_env\<close>.
\<close>

section \<open>The network\<close>

record net_addr =
  na_ip :: bytes
  na_v4 :: bool
  na_port :: nat

definition net_addr_String :: "net_addr \<Rightarrow> bytes" where
  "net_addr_String a =
     (if na_v4 a then na_ip a else ''['' @ na_ip a @ '']'') @ '':'' @ fmt_d (na_port a)"

text \<open>\<open>ne_listenUDP\<close> gives the local address of the socket, \<open>ne_dial\<close> the local and the remote
  address of the connection; \<open>ne_port_ptr\<close> is the address of the field \<open>Port\<close> of a target, and
  \<open>ne_rand\<close> what \<^verbatim>\<open>rand.Intn\<close> returns for a positive argument.\<close>

record net_env =
  ne_resolve :: "bytes \<Rightarrow> bytes \<Rightarrow> tp_error + net_addr"
  ne_listenUDP :: "net_addr \<Rightarrow> tp_error + bytes"
  ne_listenTCP :: "bytes \<Rightarrow> net_addr \<Rightarrow> tp_error + listener"
  ne_dial :: "bytes \<Rightarrow> net_addr \<Rightarrow> tp_error + bytes \<times> bytes"
  ne_write :: "conn \<Rightarrow> net_addr \<Rightarrow> bytes \<Rightarrow> tp_error option"
  ne_ParseIP :: "bytes \<Rightarrow> bool"
  ne_LookupSRV :: "bytes \<Rightarrow> bytes \<Rightarrow> (bytes \<times> nat) option"
  ne_rand :: "nat \<Rightarrow> nat"
  ne_port_ptr :: nat
  ne_now :: int
  ne_info :: bytes

section \<open>Protocols\<close>

record protocol =
  pt_network :: bytes
  pt_reliable :: bool
  pt_streamed :: bool
  pt_connections :: conn_pool
  pt_listeners :: listener_pool

definition new_protocol :: "bytes \<Rightarrow> bool \<Rightarrow> protocol" where
  "new_protocol network stream =
     \<lparr>pt_network = network, pt_reliable = stream, pt_streamed = stream,
      pt_connections = NewConnectionPool [], pt_listeners = NewListenerPool []\<rparr>"

definition NewUdpProtocol :: protocol where "NewUdpProtocol = new_protocol ''udp'' False"
definition NewTcpProtocol :: protocol where "NewTcpProtocol = new_protocol ''tcp'' True"
definition NewTlsProtocol :: protocol where "NewTlsProtocol = new_protocol ''tls'' True"
definition NewWsProtocol :: protocol where "NewWsProtocol = new_protocol ''ws'' True"
definition NewWssProtocol :: protocol where "NewWssProtocol = new_protocol ''wss'' True"

definition protocol_Network :: "protocol \<Rightarrow> bytes" where
  "protocol_Network p = strings_ToUpper (pt_network p)"

definition sockTTL :: int where
  "sockTTL = 3600"

definition protocol_error :: "net_env \<Rightarrow> bytes \<Rightarrow> tp_error \<Rightarrow> tp_error" where
  "protocol_error N op e = ProtocolError e op (ne_info N)"

subsection \<open>UDP\<close>

definition udp_key :: "protocol \<Rightarrow> nat \<Rightarrow> bytes" where
  "udp_key p port_no = pt_network p @ '':0.0.0.0:'' @ fmt_d port_no"

definition udp_Listen :: "net_env \<Rightarrow> target \<Rightarrow> protocol \<Rightarrow> tp_error option \<times> protocol" where
  "udp_Listen N trg p =
     (let trg1 = FillTargetHostAndPort (protocol_Network p) trg in
      case ne_resolve N (pt_network p) (Target_Addr trg1) of
        Inr laddr \<Rightarrow>
          (case ne_listenUDP N laddr of
             Inr local \<Rightarrow>
               let c = NewConnection True local [] (udp_key p (na_port laddr)) (pt_network p);
                   (err, pool) = pool_Put (ne_now N) c 0 (pt_connections p)
               in (map_option (protocol_error N (''put '' @ cn_key c @ '' connection to the pool'')) err,
                   p\<lparr>pt_connections := pool\<rparr>)
           | Inl e \<Rightarrow>
               (Some (protocol_error N (''listen on '' @ protocol_Network p @ '' '' @ net_addr_String laddr @ '' address'') e), p))
      | Inl e \<Rightarrow>
          (Some (protocol_error N (''resolve target address '' @ protocol_Network p @ '' '' @ Target_Addr trg1) e), p))"

fun msg_Source :: "sip_msg \<Rightarrow> bytes may_panic" where
  "msg_Source (Req r) = request_Source r"
| "msg_Source (Res r) = Ok (src r)"

text \<open>The search for a socket with the port of the source.\<close>

fun udp_find :: "bytes \<Rightarrow> conn list \<Rightarrow> conn option may_panic" where
  "udp_find p [] = Ok None"
| "udp_find p (c # cs) =
     (let parts = strings_Split (cn_key c) '':'' in
      if length parts \<le> 2 then Crash
      else if parts ! 2 = p then Ok (Some c)
      else udp_find p cs)"

text \<open>What was written, to which address and on which connection.\<close>

type_synonym written = "conn \<times> net_addr \<times> bytes"

definition write_to :: "net_env \<Rightarrow> conn \<Rightarrow> net_addr \<Rightarrow> bytes \<Rightarrow> (tp_error, written) res" where
  "write_to N c raddr data =
     (case ne_write N c raddr data of
        None \<Rightarrow> Ok (c, raddr, data)
      | Some e \<Rightarrow>
          Err (protocol_error N (''write SIP message to the '' @ cn_key c @ '' connection'')
                 (ConnectionError e ''write'' (ne_info N))))"

definition resolve_remote :: "net_env \<Rightarrow> target \<Rightarrow> protocol \<Rightarrow> tp_error + net_addr" where
  "resolve_remote N trg p =
     (let trg1 = FillTargetHostAndPort (protocol_Network p) trg in
      if tg_Host trg1 = [] then
        Inl (protocol_error N (''send SIP message to '' @ protocol_Network p @ '' '' @ Target_Addr trg1)
               (PlainErr ''empty remote target host''))
      else map_sum (protocol_error N (''resolve target address '' @ protocol_Network p @ '' '' @ Target_Addr trg1)) id
             (ne_resolve N (pt_network p) (Target_Addr trg1)))"

text \<open>The text of the error about the source leaves out the reason that \<open>SplitHostPort\<close> gives.\<close>

definition udp_Send :: "net_env \<Rightarrow> target \<Rightarrow> sip_msg \<Rightarrow> protocol \<Rightarrow> (tp_error, written) res" where
  "udp_Send N trg msg p =
     (case resolve_remote N trg p of
        Inl e \<Rightarrow> Err e
      | Inr raddr \<Rightarrow> case msg_Source msg of
         Ok source \<Rightarrow>
           (case SplitHostPort source of
              Inr (_, port_no) \<Rightarrow>
                (case udp_find port_no (pool_All (pt_connections p)) of
                   Ok (Some c) \<Rightarrow> write_to N c raddr (msg_String msg)
                 | Ok None \<Rightarrow>
                     Err (protocol_error N ''search connection'' (PlainErr (''connection on port '' @ port_no @ '' not found'')))
                 | _ \<Rightarrow> Crash)
            | Inl _ \<Rightarrow> Err (protocol_error N ''resolve source port'' (NetErr False False (''address '' @ source))))
       | _ \<Rightarrow> Crash)"

subsection \<open>Streams\<close>

text \<open>The key of a listener is made from the pointer to the port, not from the port.\<close>

definition tcp_Listen :: "net_env \<Rightarrow> target \<Rightarrow> protocol \<Rightarrow> tp_error option \<times> protocol" where
  "tcp_Listen N trg p =
     (let trg1 = FillTargetHostAndPort (protocol_Network p) trg in
      case ne_resolve N (pt_network p) (Target_Addr trg1) of
        Inr laddr \<Rightarrow>
          (case ne_listenTCP N (pt_network p) laddr of
             Inr l \<Rightarrow>
               let key = pt_network p @ '':0.0.0.0:'' @ fmt_d (ne_port_ptr N);
                   (err, pool) = lpool_Put key (l\<lparr>ln_network := protocol_Network p\<rparr>) (pt_listeners p)
               in (map_option (protocol_error N (''put '' @ key @ '' listener to the pool'')) err, p\<lparr>pt_listeners := pool\<rparr>)
           | Inl e \<Rightarrow>
               (Some (protocol_error N (''listen on '' @ protocol_Network p @ '' '' @ Target_Addr trg1 @ '' address'') e), p))
      | Inl e \<Rightarrow>
          (Some (protocol_error N (''resolve target address '' @ protocol_Network p @ '' '' @ Target_Addr trg1) e), p))"

text \<open>\<open>pipePools\<close>: an accepted connection goes into the pool or is closed.\<close>

definition pipePools_turn :: "int \<Rightarrow> conn \<Rightarrow> protocol \<Rightarrow> conn option \<times> protocol" where
  "pipePools_turn now c p =
     (case pool_Put now c sockTTL (pt_connections p) of
        (None, pool) \<Rightarrow> (None, p\<lparr>pt_connections := pool\<rparr>)
      | (Some _, pool) \<Rightarrow> (Some (conn_Close c), p\<lparr>pt_connections := pool\<rparr>))"

definition conn_key :: "protocol \<Rightarrow> net_addr \<Rightarrow> bytes" where
  "conn_key p raddr = pt_network p @ '':'' @ net_addr_String raddr"

definition getOrCreateConnection :: "net_env \<Rightarrow> net_addr \<Rightarrow> protocol \<Rightarrow> (tp_error + conn) \<times> protocol" where
  "getOrCreateConnection N raddr p =
     (let key = conn_key p raddr in
      case pool_getConnection key (pt_connections p) of
        Inr c \<Rightarrow> (Inr c, p)
      | Inl _ \<Rightarrow>
          (case ne_dial N (pt_network p) raddr of
             Inr (local, remote) \<Rightarrow>
               let c = NewConnection False local remote key (pt_network p) in
               (case pool_Put (ne_now N) c sockTTL (pt_connections p) of
                  (None, pool) \<Rightarrow> (Inr c, p\<lparr>pt_connections := pool\<rparr>)
                | (Some e, pool) \<Rightarrow> (Inl (Wrapped (''put '' @ cn_key c @ '' connection to the pool'') e), p\<lparr>pt_connections := pool\<rparr>))
           | Inl e \<Rightarrow> (Inl (Wrapped (''dial to '' @ protocol_Network p @ '' '' @ net_addr_String raddr) e), p)))"

definition tcp_Send :: "net_env \<Rightarrow> target \<Rightarrow> sip_msg \<Rightarrow> protocol \<Rightarrow> (tp_error, written) res \<times> protocol" where
  "tcp_Send N trg msg p =
     (case resolve_remote N trg p of
        Inr raddr \<Rightarrow>
          (case getOrCreateConnection N raddr p of
             (Inr c, p1) \<Rightarrow> (write_to N c raddr (msg_String msg), p1)
           | (Inl e, p1) \<Rightarrow> (Err (protocol_error N (''get or create '' @ protocol_Network p @ '' connection'') e), p1))
      | Inl e \<Rightarrow> (Err e, p))"

subsection \<open>The methods of the interface\<close>

definition protocol_Listen :: "net_env \<Rightarrow> target \<Rightarrow> protocol \<Rightarrow> tp_error option \<times> protocol" where
  "protocol_Listen N trg p = (if pt_network p = ''udp'' then udp_Listen N trg p else tcp_Listen N trg p)"

definition protocol_Send :: "net_env \<Rightarrow> target \<Rightarrow> sip_msg \<Rightarrow> protocol \<Rightarrow> (tp_error, written) res \<times> protocol" where
  "protocol_Send N trg msg p = (if pt_network p = ''udp'' then (udp_Send N trg msg p, p) else tcp_Send N trg msg p)"

section \<open>The layer\<close>

record tp_layer =
  ly_protocols :: "(bytes \<times> protocol) list"
  ly_listenPorts :: "(bytes \<times> port list) list"
  ly_ip :: bytes
  ly_canceled :: bool
  ly_done :: bool

definition NewTransportLayer :: "bytes \<Rightarrow> tp_layer" where
  "NewTransportLayer ip =
     \<lparr>ly_protocols = [], ly_listenPorts = [], ly_ip = ip, ly_canceled = False, ly_done = False\<rparr>"

definition protocolFactory :: "bytes \<Rightarrow> tp_error + protocol" where
  "protocolFactory network =
     (let n = strings_ToLower network in
      if n = ''udp'' then Inr NewUdpProtocol
      else if n = ''tcp'' then Inr NewTcpProtocol
      else if n = ''tls'' then Inr NewTlsProtocol
      else if n = ''ws'' then Inr NewWsProtocol
      else if n = ''wss'' then Inr NewWssProtocol
      else Inl (UnsupportedProtocolError (''protocol '' @ network @ '' is not supported'')))"

text \<open>The protocol store.\<close>

definition protocols_getOrPutNew ::
  "bytes \<Rightarrow> tp_error + protocol \<Rightarrow> (bytes \<times> protocol) list \<Rightarrow> (tp_error + protocol) \<times> (bytes \<times> protocol) list" where
  "protocols_getOrPutNew key factory store =
     (case map_of store key of
        Some p \<Rightarrow> (Inr p, store)
      | None \<Rightarrow>
          (case factory of
             Inl e \<Rightarrow> (Inl e, store)
           | Inr p \<Rightarrow> (Inr p, AList.update key p store)))"

definition protocols_drop :: "bytes \<Rightarrow> (bytes \<times> protocol) list \<Rightarrow> bool \<times> (bytes \<times> protocol) list" where
  "protocols_drop key store =
     (if map_of store key = None then (False, store) else (True, AList.delete key store))"

definition getProtocol :: "bytes \<Rightarrow> tp_layer \<Rightarrow> (tp_error + protocol) \<times> tp_layer" where
  "getProtocol network L =
     (let n = strings_ToLower network;
          (r, store) = protocols_getOrPutNew n (protocolFactory n) (ly_protocols L)
      in (r, L\<lparr>ly_protocols := store\<rparr>))"

text \<open>A protocol is an object of the store; an operation on it updates it there.\<close>

definition set_protocol :: "bytes \<Rightarrow> protocol \<Rightarrow> tp_layer \<Rightarrow> tp_layer" where
  "set_protocol network p L = L\<lparr>ly_protocols := AList.update (strings_ToLower network) p (ly_protocols L)\<rparr>"

definition layer_IsReliable :: "bytes \<Rightarrow> tp_layer \<Rightarrow> bool" where
  "layer_IsReliable network L =
     (case map_of (ly_protocols L) network of Some p \<Rightarrow> pt_reliable p | None \<Rightarrow> False)"

definition layer_IsStreamed :: "bytes \<Rightarrow> tp_layer \<Rightarrow> bool" where
  "layer_IsStreamed network L =
     (case map_of (ly_protocols L) network of Some p \<Rightarrow> pt_streamed p | None \<Rightarrow> False)"

definition layer_Cancel :: "tp_layer \<Rightarrow> tp_layer" where
  "layer_Cancel L = L\<lparr>ly_canceled := True\<rparr>"

text \<open>\<open>dispose\<close>: the store is asked to drop the protocols under their networks.\<close>

definition layer_dispose :: "tp_layer \<Rightarrow> tp_layer" where
  "layer_dispose L =
     L\<lparr>ly_protocols := fold (\<lambda>p st. snd (protocols_drop (protocol_Network p) st)) (map snd (ly_protocols L)) (ly_protocols L),
       ly_listenPorts := [], ly_done := True\<rparr>"

datatype listen_error = ListenCanceled | ListenAddr addr_error | ListenProtocol tp_error

definition layer_Listen :: "net_env \<Rightarrow> bytes \<Rightarrow> bytes \<Rightarrow> tp_layer \<Rightarrow> listen_error option \<times> tp_layer" where
  "layer_Listen N network addr L =
     (if ly_canceled L then (Some ListenCanceled, L)
      else case getProtocol network L of
        (Inl e, L1) \<Rightarrow> (Some (ListenProtocol e), L1)
      | (Inr p, L1) \<Rightarrow>
          (case NewTargetFromAddr addr of
             Inr trg \<Rightarrow>
               let trg1 = FillTargetHostAndPort (protocol_Network p) trg;
                   (err, p1) = protocol_Listen N trg1 p;
                   L2 = set_protocol network p1 L1
               in (map_option ListenProtocol err,
                   if err = None \<and> map_of (ly_listenPorts L2) (protocol_Network p) = None
                   then L2\<lparr>ly_listenPorts := AList.update (protocol_Network p) [the (tg_Port trg1)] (ly_listenPorts L2)\<rparr>
                   else L2)
           | Inl e \<Rightarrow> (Some (ListenAddr e), L1)))"

subsection \<open>Sending\<close>

definition rewrite_via :: "net_env \<Rightarrow> bytes \<Rightarrow> tp_layer \<Rightarrow> via_hop \<Rightarrow> via_hop" where
  "rewrite_via N network L hop =
     hop\<lparr>Transport := strings_ToUpper network, Host := ly_ip L,
         Port := Some (case Port hop of
             Some q \<Rightarrow> q
           | None \<Rightarrow>
               (case map_of (ly_listenPorts L) network of
                  Some ports \<Rightarrow> ports ! ne_rand N (length ports)
                | None \<Rightarrow> DefaultPort network))\<rparr>"

text \<open>The lookup of the host of a target in the name service, and the address of its first
  answer, whose name ends with a dot.\<close>

definition srv_target :: "net_env \<Rightarrow> bytes \<Rightarrow> target \<Rightarrow> target may_panic" where
  "srv_target N network trg =
     (if ne_ParseIP N (tg_Host trg) then Ok trg
      else case ne_LookupSRV N (strings_ToLower network) (tg_Host trg) of
        None \<Rightarrow> Ok trg
      | Some (name, port_no) \<Rightarrow>
          if name = [] then Crash
          else
            let addr = butlast name @ '':'' @ fmt_d port_no;
                proto = (if network = ''UDP'' then Some ''udp''
                         else if network \<in> {''TLS'', ''WS'', ''WSS'', ''TCP''} then Some ''tcp'' else None)
            in Ok (case proto of
                 None \<Rightarrow> trg
               | Some pr \<Rightarrow>
                   (case ne_resolve N pr addr of
                      Inl _ \<Rightarrow> trg
                    | Inr a \<Rightarrow>
                        \<lparr>tg_Host = (if na_v4 a then na_ip a else ''['' @ na_ip a @ '']''),
                         tg_Port = Some (of_nat (na_port a))\<rparr>)))"

definition remove_transport :: "request \<Rightarrow> request may_panic" where
  "remove_transport req =
     (case recipient req of
        Some (SipUri u) \<Rightarrow>
          (case FUriParams u of
             Some ps \<Rightarrow> Ok (req\<lparr>recipient := Some (SipUri (u\<lparr>FUriParams := Some (params_Remove ''transport'' ps)\<rparr>))\<rparr>)
           | None \<Rightarrow> Crash)
      | _ \<Rightarrow> Crash)"

datatype send_error = SendCanceled | SendMissingVia bytes | SendProtocol tp_error | SendAddr addr_error | SendTo bytes tp_error

text \<open>The last step: the protocol of the network sends the message to the target.\<close>

definition layer_deliver :: "net_env \<Rightarrow> bytes \<Rightarrow> target \<Rightarrow> sip_msg \<Rightarrow> protocol \<Rightarrow> tp_layer \<Rightarrow> (send_error, written) res \<times> tp_layer" where
  "layer_deliver N network trg msg p L =
     (case protocol_Send N trg msg p of
        (r, p1) \<Rightarrow> (map_err (SendTo (Target_Addr trg)) r, set_protocol network p1 L))"

text \<open>A request: the top Via hop is rewritten, the target is made from the destination and looked
  up, and the parameter \<open>transport\<close> is taken off the URI.  The result has the message as it is
  afterwards.\<close>

definition layer_Send_request ::
  "net_env \<Rightarrow> request \<Rightarrow> tp_layer \<Rightarrow> (send_error, written) res \<times> request \<times> tp_layer" where
  "layer_Send_request N msg L =
     (case request_Transport msg of
        Ok network \<Rightarrow>
          (case getProtocol network L of
             (Inl e, L1) \<Rightarrow>
               (Err (SendProtocol e),
                msg\<lparr>hdrs := map_first_hop (\<lambda>h. h\<lparr>Transport := strings_ToUpper network, Host := ly_ip L\<rparr>) (hdrs msg)\<rparr>, L1)
           | (Inr p, L1) \<Rightarrow>
               let msg1 = msg\<lparr>hdrs := map_first_hop (rewrite_via N network L1) (hdrs msg)\<rparr> in
               (case request_Destination msg1 of
                  Ok d \<Rightarrow>
                    (case NewTargetFromAddr d of
                       Inr trg \<Rightarrow>
                         (case srv_target N network trg of
                            Ok trg1 \<Rightarrow>
                              (case remove_transport msg1 of
                                 Ok msg2 \<Rightarrow> (case layer_deliver N network trg1 (Req msg2) p L1 of (r, L2) \<Rightarrow> (r, msg2, L2))
                               | _ \<Rightarrow> (Crash, msg1, L1))
                          | _ \<Rightarrow> (Crash, msg1, L1))
                     | Inl e \<Rightarrow> (Err (SendAddr e), msg1, L1))
                | _ \<Rightarrow> (Crash, msg1, L1)))
      | _ \<Rightarrow> (Crash, msg, L))"

definition layer_Send_response :: "net_env \<Rightarrow> response \<Rightarrow> tp_layer \<Rightarrow> (send_error, written) res \<times> tp_layer" where
  "layer_Send_response N msg L =
     (let network = response_Transport msg in
      case getProtocol network L of
        (Inl e, L1) \<Rightarrow> (Err (SendProtocol e), L1)
      | (Inr p, L1) \<Rightarrow>
          (case response_Destination msg of
             Ok d \<Rightarrow>
               (case NewTargetFromAddr d of
                  Inr trg \<Rightarrow> layer_deliver N network trg (Res msg) p L1
                | Inl e \<Rightarrow> (Err (SendAddr e), L1))
           | _ \<Rightarrow> (Crash, L1)))"

definition layer_Send :: "net_env \<Rightarrow> sip_msg \<Rightarrow> tp_layer \<Rightarrow> (send_error, written) res \<times> sip_msg \<times> tp_layer" where
  "layer_Send N msg L =
     (if ly_canceled L then (Err SendCanceled, msg, L)
      else case hs_ViaHop (msg_hdrs msg) of
        None \<Rightarrow> (Err (SendMissingVia (msg_String msg)), msg, L)
      | Some _ \<Rightarrow>
          (case msg of
             Req r \<Rightarrow> (case layer_Send_request N r L of (res', r1, L1) \<Rightarrow> (res', Req r1, L1))
           | Res r \<Rightarrow> (case layer_Send_response N r L of (res', L1) \<Rightarrow> (res', Res r, L1))))"

end
