(* ===== verification/Transport_LayerProps.thy ===== *)
theory Transport_LayerProps
  imports Transport_Layer ClientProps
begin

text \<open>
  What holds of every transport layer that the operations of the package can make, and the way of a
  response through the layer.
\<close>

section \<open>Reachable layers\<close>

text \<open>Between calls of \<open>Listen\<close> and \<open>Send\<close> connections are dropped from the pools and accepted
  connections are put into the pools of the stream protocols.\<close>

inductive tp_reach :: "tp_layer \<Rightarrow> bool" where
  start: "tp_reach (NewTransportLayer ip)"
| listen: "tp_reach L \<Longrightarrow> tp_reach (snd (layer_Listen N network addr L))"
| send: "tp_reach L \<Longrightarrow> tp_reach (snd (snd (layer_Send N msg L)))"
| cancel: "tp_reach L \<Longrightarrow> tp_reach (layer_Cancel L)"
| dropped: "tp_reach L \<Longrightarrow> map_of (ly_protocols L) k = Some p \<Longrightarrow>
    tp_reach (set_protocol k (p\<lparr>pt_connections := snd (pool_drop key (pt_connections p))\<rparr>) L)"
| accepted: "tp_reach L \<Longrightarrow> map_of (ly_protocols L) k = Some p \<Longrightarrow> pt_network p \<noteq> ''udp'' \<Longrightarrow>
    tp_reach (set_protocol k (snd (pipePools_turn now c p)) L)"

definition stream_networks :: "bytes list" where
  "stream_networks = [''tcp'', ''tls'', ''ws'', ''wss'']"

lemma network_lower: "k \<in> set (''udp'' # stream_networks) \<Longrightarrow> strings_ToLower k = k"
proof -
  have "list_all (\<lambda>k. strings_ToLower k = k) (''udp'' # stream_networks)" by code_simp
  then show "k \<in> set (''udp'' # stream_networks) \<Longrightarrow> strings_ToLower k = k" by (simp only: list_all_iff)
qed

definition udp_keys :: "protocol \<Rightarrow> bool" where
  "udp_keys p \<longleftrightarrow> (\<forall>k i. (k, i) \<in> set (cp_store (pt_connections p)) \<longrightarrow> (\<exists>n. k = udp_key p n))"

definition protocol_ok :: "bytes \<Rightarrow> protocol \<Rightarrow> bool" where
  "protocol_ok k p \<longleftrightarrow> pt_network p = k \<and> k \<in> set (''udp'' # stream_networks)
     \<and> pt_reliable p = (k \<noteq> ''udp'') \<and> pt_streamed p = (k \<noteq> ''udp'')
     \<and> pool_ok (pt_connections p) \<and> distinct (map fst (cp_store (pt_connections p)))
     \<and> (k = ''udp'' \<longrightarrow> udp_keys p)"

definition tp_layer_ok :: "tp_layer \<Rightarrow> bool" where
  "tp_layer_ok L \<longleftrightarrow> (\<forall>k p. map_of (ly_protocols L) k = Some p \<longrightarrow> protocol_ok k p)"

lemma new_pool_ok: "pool_ok (NewConnectionPool name)"
  by (simp add: pool_ok_def NewConnectionPool_def)

lemma protocolFactory_ok: "protocolFactory n = Inr p \<Longrightarrow> protocol_ok (strings_ToLower n) p"
  by (auto simp: protocolFactory_def Let_def protocol_ok_def new_protocol_def stream_networks_def udp_keys_def
      NewUdpProtocol_def NewTcpProtocol_def NewTlsProtocol_def NewWsProtocol_def NewWssProtocol_def
      new_pool_ok split: if_splits)
     (simp_all add: NewConnectionPool_def)

lemma getProtocol_ok:
  assumes "tp_layer_ok L" and "getProtocol network L = (r, L1)"
  shows "tp_layer_ok L1" and "r = Inr p \<Longrightarrow> protocol_ok (strings_ToLower network) p \<and> map_of (ly_protocols L1) (strings_ToLower network) = Some p"
  using assms protocolFactory_ok [of "strings_ToLower network"]
  by (auto simp: getProtocol_def protocols_getOrPutNew_def Let_def tp_layer_ok_def split: option.splits sum.splits if_splits)

lemma getProtocol_known:
  "map_of (ly_protocols L) (strings_ToLower network) = Some p \<Longrightarrow> getProtocol network L = (Inr p, L)"
  by (simp add: getProtocol_def protocols_getOrPutNew_def Let_def)

lemma set_protocol_ok: "tp_layer_ok L \<Longrightarrow> protocol_ok (strings_ToLower k) p \<Longrightarrow> tp_layer_ok (set_protocol k p L)"
  by (auto simp: tp_layer_ok_def set_protocol_def)

lemma pool_put_cases:
  obtains (old) e where "pool_put now (cn_key c) c ttl P = (Some e, P)"
  | (new) "pool_put now (cn_key c) c ttl P = (None, P\<lparr>cp_store := AList.update (cn_key c) (length (cp_handlers P)) (cp_store P),
      cp_handlers := cp_handlers P @ [NewConnectionHandler now c ttl]\<rparr>)"
proof (cases "map_of (cp_store P) (cn_key c)")
  case None
  show ?thesis by (rule new) (simp add: pool_put_def pool_get_def None Let_def handler_Key_def NewConnectionHandler_def)
next
  case (Some i)
  show ?thesis by (rule old) (simp add: pool_put_def pool_get_def Some)
qed

lemma pool_Put_cases:
  obtains (failed) e where "pool_Put now c ttl P = (Some e, P)"
  | (new) Q where "pool_Put now c ttl P = (None, Q)" "pool_put now (cn_key c) c ttl P = (None, Q)"
      "cp_store Q = AList.update (cn_key c) (length (cp_handlers P)) (cp_store P)"
      "cp_handlers Q = cp_handlers P @ [NewConnectionHandler now c ttl]"
proof (cases "pool_Put_check c P")
  case None
  then have put: "pool_Put now c ttl P = pool_put now (cn_key c) c ttl P" by (simp add: pool_Put_def)
  show ?thesis by (rule pool_put_cases [of now c ttl P]) (use put failed new in auto)
next
  case (Some e)
  show ?thesis by (rule failed) (simp add: pool_Put_def Some)
qed

lemma set_update_subset: "set (AList.update k v al) \<subseteq> insert (k, v) (set al)"
  by (induction al) auto

lemma pool_Put_keeps:
  assumes "pool_ok P" and "distinct (map fst (cp_store P))" and "pool_Put now c ttl P = (err, Q)"
  shows "pool_ok Q \<and> distinct (map fst (cp_store Q)) \<and>
    (\<forall>k i. (k, i) \<in> set (cp_store Q) \<longrightarrow> (k, i) \<in> set (cp_store P) \<or> k = cn_key c)"
proof (cases rule: pool_Put_cases [of now c ttl P])
  case (new R)
  have "set (cp_store R) \<subseteq> insert (cn_key c, length (cp_handlers P)) (set (cp_store P))"
    unfolding new(3) by (rule set_update_subset)
  moreover have "pool_ok R" using pool_put_ok [OF assms(1) new(2)] by simp
  moreover have "distinct (map fst (cp_store R))" unfolding new(3) by (rule distinct_update [OF assms(2)])
  ultimately show ?thesis using new(1) assms(3) by auto
qed (use assms in auto)

lemma protocol_Put_ok:
  assumes "protocol_ok k p" and "k = ''udp'' \<longrightarrow> (\<exists>n. cn_key c = udp_key p n)"
    and "pool_Put now c ttl (pt_connections p) = (e, Q)"
  shows "protocol_ok k (p\<lparr>pt_connections := Q\<rparr>)"
  using assms(1,2) pool_Put_keeps [OF _ _ assms(3)]
  by (fastforce simp: protocol_ok_def udp_keys_def udp_key_def)

lemma protocol_drop_ok:
  assumes "protocol_ok k p"
  shows "protocol_ok k (p\<lparr>pt_connections := snd (pool_drop key (pt_connections p))\<rparr>)"
proof -
  let ?P = "pt_connections p"
  have "cp_store (snd (pool_drop key ?P)) = AList.delete key (cp_store ?P)"
    by (cases "map_of (cp_store ?P) key") (simp_all add: pool_drop_None pool_drop_Some delete_id map_of_None_key)
  moreover have "distinct (map fst (AList.delete key (cp_store ?P)))"
    using assms by (intro distinct_delete) (simp add: protocol_ok_def)
  moreover have "set (AList.delete key (cp_store ?P)) \<subseteq> set (cp_store ?P)" by (auto simp: AList.delete_eq)
  ultimately show ?thesis
    using assms pool_drop_ok [of ?P key] by (fastforce simp: protocol_ok_def udp_keys_def udp_key_def)
qed

lemma protocol_listeners_ok: "protocol_ok k (p\<lparr>pt_listeners := l\<rparr>) = protocol_ok k p"
  by (simp add: protocol_ok_def udp_keys_def udp_key_def)

lemma udp_Listen_ok: "protocol_ok k p \<Longrightarrow> protocol_ok k (snd (udp_Listen N trg p))"
proof -
  assume ok: "protocol_ok k p"
  have put: "protocol_ok k (p\<lparr>pt_connections := snd (pool_Put now c ttl (pt_connections p))\<rparr>)"
    if "cn_key c = udp_key p n" for now c ttl n
    using protocol_Put_ok [OF ok] that by (metis prod.collapse)
  show ?thesis
    using ok put by (simp add: udp_Listen_def Let_def NewConnection_def case_prod_beta split: sum.split)
qed

lemma tcp_Listen_ok: "protocol_ok k p \<Longrightarrow> protocol_ok k (snd (tcp_Listen N trg p))"
  by (simp add: tcp_Listen_def Let_def case_prod_beta protocol_listeners_ok split: sum.split)

lemma protocol_Listen_ok: "protocol_ok k p \<Longrightarrow> protocol_ok k (snd (protocol_Listen N trg p))"
  by (simp add: protocol_Listen_def udp_Listen_ok tcp_Listen_ok)

lemma getOrCreateConnection_ok:
  assumes "protocol_ok k p" and "k \<noteq> ''udp''"
  shows "protocol_ok k (snd (getOrCreateConnection N raddr p))"
proof -
  have put: "protocol_ok k (p\<lparr>pt_connections := Q\<rparr>)" if "pool_Put now c ttl (pt_connections p) = (e, Q)" for now c ttl e Q
    using protocol_Put_ok [OF assms(1) _ that] assms(2) by simp
  show ?thesis
    using assms(1) put by (auto simp: getOrCreateConnection_def Let_def split: sum.split prod.split option.split)
qed

lemma protocol_Send_ok:
  assumes "protocol_ok k p"
  shows "protocol_ok k (snd (protocol_Send N trg msg p))"
proof (cases "k = ''udp''")
  case True
  with assms show ?thesis by (simp add: protocol_Send_def protocol_ok_def)
next
  case False
  then have "pt_network p \<noteq> ''udp''" using assms by (simp add: protocol_ok_def)
  then have send: "protocol_Send N trg msg p = tcp_Send N trg msg p" by (simp add: protocol_Send_def)
  show ?thesis
  proof (cases "resolve_remote N trg p")
    case (Inr raddr)
    obtain r p1 where g: "getOrCreateConnection N raddr p = (r, p1)" by fastforce
    then have "protocol_ok k p1" using getOrCreateConnection_ok [OF assms False, of N raddr] by simp
    then show ?thesis by (cases r) (simp_all add: send tcp_Send_def Inr g)
  qed (use assms in \<open>simp add: send tcp_Send_def\<close>)
qed

lemma pipePools_ok: "protocol_ok k p \<Longrightarrow> k \<noteq> ''udp'' \<Longrightarrow> protocol_ok k (snd (pipePools_turn now c p))"
  using protocol_Put_ok [of k p c now sockTTL] by (auto simp: pipePools_turn_def split: prod.split option.split)

lemma layer_Listen_ok:
  assumes "tp_layer_ok L"
  shows "tp_layer_ok (snd (layer_Listen N network addr L))"
proof (cases "getProtocol network L")
  case (Pair r L1)
  note g = getProtocol_ok [OF assms Pair]
  have "tp_layer_ok (L\<lparr>ly_listenPorts := x\<rparr>) = tp_layer_ok L" for L x by (simp add: tp_layer_ok_def)
  moreover have "tp_layer_ok (set_protocol network (snd (protocol_Listen N trg p)) L1)" if "r = Inr p" for p trg
    using g that protocol_Listen_ok by (intro set_protocol_ok) auto
  ultimately show ?thesis
    using assms g(1) Pair by (auto simp: layer_Listen_def Let_def case_prod_beta split: sum.split)
qed

lemma layer_deliver_ok:
  assumes "tp_layer_ok L" and "protocol_ok (strings_ToLower network) p"
  shows "tp_layer_ok (snd (layer_deliver N network trg msg p L))"
  using assms protocol_Send_ok [OF assms(2)] by (simp add: layer_deliver_def case_prod_beta set_protocol_ok)

lemma layer_Send_ok:
  assumes "tp_layer_ok L"
  shows "tp_layer_ok (snd (snd (layer_Send N msg L)))"
proof -
  have req: "tp_layer_ok (snd (snd (layer_Send_request N r L)))" for r
  proof (cases "request_Transport r")
    case (Ok network)
    obtain q L1 where g: "getProtocol network L = (q, L1)" by fastforce
    note ok = getProtocol_ok [OF assms g]
    show ?thesis
      using Ok g ok layer_deliver_ok [OF ok(1)]
      by (simp add: layer_Send_request_def Let_def case_prod_beta split: sum.split res.split)
  qed (use assms in \<open>simp_all add: layer_Send_request_def\<close>)
  have res: "tp_layer_ok (snd (layer_Send_response N r L))" for r
  proof -
    obtain q L1 where g: "getProtocol (response_Transport r) L = (q, L1)" by fastforce
    note ok = getProtocol_ok [OF assms g]
    show ?thesis
      using g ok layer_deliver_ok [OF ok(1)]
      by (simp add: layer_Send_response_def Let_def case_prod_beta split: sum.split res.split)
  qed
  show ?thesis
    using assms req res by (simp add: layer_Send_def case_prod_beta split: option.split sip_msg.split)
qed

lemma tp_reach_ok: "tp_reach L \<Longrightarrow> tp_layer_ok L"
proof (induction rule: tp_reach.induct)
  case (start ip)
  show ?case by (simp add: tp_layer_ok_def NewTransportLayer_def)
next
  case (cancel L)
  then show ?case by (simp add: tp_layer_ok_def layer_Cancel_def)
next
  case (dropped L k p key)
  then have "protocol_ok k p" by (simp add: tp_layer_ok_def)
  moreover have "strings_ToLower k = k" using \<open>protocol_ok k p\<close> by (auto simp: protocol_ok_def intro: network_lower)
  ultimately show ?case using dropped protocol_drop_ok by (intro set_protocol_ok) simp_all
next
  case (accepted L k p now c)
  then have "protocol_ok k p" by (simp add: tp_layer_ok_def)
  moreover from this have "strings_ToLower k = k" "k \<noteq> ''udp''"
    using accepted(3) by (auto simp: protocol_ok_def intro: network_lower)
  ultimately show ?case using accepted pipePools_ok by (intro set_protocol_ok) simp_all
qed (simp_all add: layer_Listen_ok layer_Send_ok)

section \<open>Reliable transports\<close>

lemma stream_networks_upper: "strings_ToUpper n \<notin> set stream_networks"
proof
  assume "strings_ToUpper n \<in> set stream_networks"
  moreover have "list_all (\<lambda>k. strings_ToUpper k \<noteq> k) stream_networks" by code_simp
  ultimately show False by (auto simp: list_all_iff)
qed

lemma layer_IsReliable_iff:
  assumes "tp_reach L"
  shows "layer_IsReliable n L \<longleftrightarrow> n \<in> set stream_networks \<and> map_of (ly_protocols L) n \<noteq> None"
    and "layer_IsStreamed n L \<longleftrightarrow> n \<in> set stream_networks \<and> map_of (ly_protocols L) n \<noteq> None"
proof -
  have "protocol_ok n p" if "map_of (ly_protocols L) n = Some p" for p
    using tp_reach_ok [OF assms] that by (simp add: tp_layer_ok_def)
  moreover have "''udp'' \<notin> set stream_networks" by (simp add: stream_networks_def)
  ultimately show "layer_IsReliable n L \<longleftrightarrow> n \<in> set stream_networks \<and> map_of (ly_protocols L) n \<noteq> None"
    "layer_IsStreamed n L \<longleftrightarrow> n \<in> set stream_networks \<and> map_of (ly_protocols L) n \<noteq> None"
    by (auto simp: layer_IsReliable_def layer_IsStreamed_def protocol_ok_def split: option.split)
qed

text \<open>C31: The layer knows reliable transports by their lower-case names only, while a message that
  has a transport names it in upper case: the client transaction of a request over any transport is
  made for an unreliable one, and starts the retransmission timer.\<close>

theorem layer_reliability:
  assumes "tp_reach L"
  shows "(layer_IsReliable n L \<longleftrightarrow> n \<in> {''tcp'', ''tls'', ''ws'', ''wss''} \<and> map_of (ly_protocols L) n \<noteq> None) \<and>
    (tp req \<noteq> [] \<and> NewClientTx rand (\<lambda>n. layer_IsReliable n L) req = Ok tx \<longrightarrow>
      \<not> creliable tx \<and> is_armed (timer_a (c_Init_timers tx)))"
proof (intro conjI impI)
  show "layer_IsReliable n L \<longleftrightarrow> n \<in> {''tcp'', ''tls'', ''ws'', ''wss''} \<and> map_of (ly_protocols L) n \<noteq> None"
    using layer_IsReliable_iff(1) [OF assms, of n] by (simp add: stream_networks_def)
  assume a: "tp req \<noteq> [] \<and> NewClientTx rand (\<lambda>n. layer_IsReliable n L) req = Ok tx"
  then have "request_Transport (prepareClientRequest rand req) = Ok (strings_ToUpper (tp req))"
    by (simp add: prepareClientRequest_def request_Transport_def Let_def split: option.split)
  then have "creliable tx = layer_IsReliable (strings_ToUpper (tp req)) L"
    using a by (auto simp: NewClientTx_def Let_def)
  then show "\<not> creliable tx"
    using layer_IsReliable_iff(1) [OF assms] stream_networks_upper by simp
  then show "is_armed (timer_a (c_Init_timers tx))"
    by (simp add: c_Init_timers_def Let_def AfterFunc_def is_armed_def)
qed

text \<open>\<open>dispose\<close> asks the store for the upper-case names and drops nothing.\<close>

lemma layer_dispose_keeps:
  assumes "tp_reach L"
  shows "ly_protocols (layer_dispose L) = ly_protocols L"
proof -
  have "map_of (ly_protocols L) (protocol_Network p) = None" for p
  proof (rule ccontr)
    assume "map_of (ly_protocols L) (protocol_Network p) \<noteq> None"
    then obtain q where "protocol_ok (protocol_Network p) q"
      using tp_reach_ok [OF assms] by (auto simp: tp_layer_ok_def)
    then have "strings_ToUpper (pt_network p) \<in> set (''udp'' # stream_networks)"
      by (simp add: protocol_ok_def protocol_Network_def)
    moreover have "strings_ToUpper ''udp'' \<noteq> ''udp''" by code_simp
    ultimately show False
      using stream_networks_upper [of "pt_network p"] strings_ToUpper_idem [of "pt_network p"] by auto
  qed
  then have "fold (\<lambda>p st. snd (protocols_drop (protocol_Network p) st)) ps (ly_protocols L) = ly_protocols L" for ps
    by (induction ps) (simp_all add: protocols_drop_def)
  then show ?thesis by (simp add: layer_dispose_def)
qed

section \<open>The way of a response\<close>

lemma udp_key_parts: "pt_network p = ''udp'' \<Longrightarrow> strings_Split (udp_key p n) '':'' = [''udp'', ''0.0.0.0'', fmt_d n]"
proof -
  assume "pt_network p = ''udp''"
  then have "udp_key p n = strings_Join [''udp'', ''0.0.0.0'', fmt_d n] '':''" by (simp add: udp_key_def)
  moreover have "CHR '':'' \<notin> set (fmt_d n)" by (auto simp: is_digit_def dest: fmt_d_digits)
  ultimately show ?thesis using Split_Join_single [of "[''udp'', ''0.0.0.0'', fmt_d n]" "CHR '':''"] by simp
qed

lemma udp_find_key:
  assumes "pt_network p = ''udp''" and "\<forall>c\<in>set cs. \<exists>n. cn_key c = udp_key p n"
    and "c0 \<in> set cs" "cn_key c0 = udp_key p n" and "\<forall>c\<in>set cs. cn_key c = udp_key p n \<longrightarrow> c = c0"
  shows "udp_find (fmt_d n) cs = Ok (Some c0)"
  using assms(2-)
proof (induction cs)
  case (Cons c cs)
  from Cons.prems(1) obtain m where m: "cn_key c = udp_key p m" by (meson list.set_intros(1))
  have parts: "strings_Split (cn_key c) '':'' = [''udp'', ''0.0.0.0'', fmt_d m]"
    unfolding m by (rule udp_key_parts [OF assms(1)])
  show ?case
  proof (cases "m = n")
    case True
    then have "c = c0" using Cons.prems(4) m by simp
    with True parts show ?thesis by simp
  next
    case False
    have "c \<noteq> c0"
    proof
      assume "c = c0"
      then have "udp_key p m = udp_key p n" using m Cons.prems(3) by simp
      then show False using False by (simp add: udp_key_def)
    qed
    have "udp_find (fmt_d n) cs = Ok (Some c0)"
    proof (rule Cons.IH)
      show "\<forall>c\<in>set cs. \<exists>n. cn_key c = udp_key p n" using Cons.prems(1) by (meson list.set_intros(2))
      show "c0 \<in> set cs" using Cons.prems(2) \<open>c \<noteq> c0\<close> by simp
      show "cn_key c0 = udp_key p n" by (rule Cons.prems(3))
      show "\<forall>c\<in>set cs. cn_key c = udp_key p n \<longrightarrow> c = c0" using Cons.prems(4) by (meson list.set_intros(2))
    qed
    with False show ?thesis by (simp add: parts)
  qed
qed simp

lemma udp_pool_find:
  assumes ok: "protocol_ok ''udp'' p" and c: "pool_getConnection (udp_key p n) (pt_connections p) = Inr c"
  shows "udp_find (fmt_d n) (pool_All (pt_connections p)) = Ok (Some c)"
proof -
  let ?P = "pt_connections p"
  have pool: "pool_ok ?P" and keys: "udp_keys p" and d: "distinct (map fst (cp_store ?P))" and net: "pt_network p = ''udp''"
    using ok by (simp_all add: protocol_ok_def)
  have entry: "cn_key (ch_conn (cp_handlers ?P ! i)) = k" if "(k, i) \<in> set (cp_store ?P)" for k i
    using that d pool_ok_lookup [OF pool, of k i] by (simp add: handler_Key_def)
  obtain i where i: "map_of (cp_store ?P) (udp_key p n) = Some i" "c = ch_conn (cp_handlers ?P ! i)"
    using c by (auto simp: pool_getConnection_def pool_get_def split: option.splits)
  show ?thesis
  proof (rule udp_find_key [OF net])
    show "\<forall>c\<in>set (pool_All ?P). \<exists>n. cn_key c = udp_key p n"
      using keys entry by (fastforce simp: pool_All_def udp_keys_def)
    show "c \<in> set (pool_All ?P)" using map_of_SomeD [OF i(1)] i(2) by (force simp: pool_All_def)
    show "cn_key c = udp_key p n" using entry map_of_SomeD [OF i(1)] i(2) by simp
    show "\<forall>c'\<in>set (pool_All ?P). cn_key c' = udp_key p n \<longrightarrow> c' = c"
      using entry i d by (auto simp: pool_All_def dest!: map_of_is_SomeI [OF d])
  qed
qed

lemma host_port_trim: "strings_TrimSpace h \<noteq> [] \<Longrightarrow> Target_Addr (FillTargetHostAndPort n \<lparr>tg_Host = h, tg_Port = Some q\<rparr>) = host_port h q"
  by (simp add: Target_Addr_def FillTargetHostAndPort_def)

text \<open>Sending a response over UDP: what the layer does with the destination, and the socket that is
  found for the source.\<close>

lemma udp_layer_Send:
  assumes "tp_reach L" "\<not> ly_canceled L" "map_of (ly_protocols L) ''udp'' = Some p"
    and "tp res = ''UDP''" "response_Destination res = Ok d" "hs_ViaHop (hdrs res) \<noteq> None"
  shows "layer_Send N (Res res) L = (case NewTargetFromAddr d of
      Inr trg \<Rightarrow> (map_err (SendTo (Target_Addr trg)) (udp_Send N trg (Res res) p), Res res, set_protocol ''UDP'' p L)
    | Inl e \<Rightarrow> (Err (SendAddr e), Res res, L))"
proof -
  have net_name: "response_Transport res = ''UDP''" "strings_ToLower ''UDP'' = ''udp''"
    using assms(4) by (simp_all add: response_Transport_def) code_simp+
  have "protocol_ok ''udp'' p" using tp_reach_ok [OF assms(1)] assms(3) by (simp add: tp_layer_ok_def)
  then have "pt_network p = ''udp''" by (simp add: protocol_ok_def)
  then show ?thesis
    using assms(2,3,5,6) net_name getProtocol_known [of L "''UDP''" p]
    by (auto simp: layer_Send_def layer_Send_response_def layer_deliver_def protocol_Send_def Let_def split: sum.split)
qed

lemma udp_Send_response:
  assumes "tp_reach L" "map_of (ly_protocols L) ''udp'' = Some p"
    and "pool_getConnection (udp_key p n) (pt_connections p) = Inr c" "bare_host lh" "n < 2 ^ 16"
    and "strings_TrimSpace h \<noteq> []" "ne_resolve N ''udp'' (host_port h r) = Inr raddr" "src res = JoinHostPort lh (of_nat n)"
  shows "udp_Send N \<lparr>tg_Host = h, tg_Port = Some r\<rparr> (Res res) p = write_to N c raddr (response_String res)"
proof -
  have p: "protocol_ok ''udp'' p" using tp_reach_ok [OF assms(1)] assms(2) by (simp add: tp_layer_ok_def)
  then have pn: "pt_network p = ''udp''" by (simp add: protocol_ok_def)
  have port: "fmt_port (of_nat n) = fmt_d n" using assms(5) by (simp add: fmt_port_def unat_of_nat)
  have find: "udp_find (fmt_d n) (pool_All (pt_connections p)) = Ok (Some c)" by (rule udp_pool_find [OF p assms(3)])
  have "h \<noteq> []" using assms(6) by (auto simp: strings_TrimSpace_def)
  then show ?thesis
    using assms(6-8) find SplitHostPort_Join [OF assms(4), of "of_nat n"] port
    by (simp add: udp_Send_def resolve_remote_def Let_def FillTargetHostAndPort_def Target_Addr_def pn)
qed

text \<open>C26: The way of a request and its response over UDP, in a layer that has not been canceled.  The
  request has a Via hop with a parameter set and comes from host \<open>h\<close>, which is not blank, and port \<open>q\<close>
  to a socket of the UDP protocol whose key has the port of its local address; the local host can be
  IPv4 or IPv6 (as in \<open>[::]:5060\<close>).  A socket listening on port 0 does not meet this: its key has the
  port 0.  For an IPv4 sender whose address resolves, the layer sends a response made from the request
  through the same socket, to the address that the request came from (its port with \<open>rport\<close>, the
  port of the Via otherwise), and what is written is the printed response.  For an IPv6 sender without
  \<open>rport\<close> the layer sends nothing and returns an error; an IPv6 sender with \<open>rport\<close> is not part of this
  statement.\<close>

theorem udp_response_path:
  assumes L: "tp_reach L" "\<not> ly_canceled L" "map_of (ly_protocols L) ''udp'' = Some p"
    and c: "pool_getConnection (udp_key p n) (pt_connections p) = Inr c"
      "conn_Network c = ''UDP''" "cn_laddr c = JoinHostPort lh (of_nat n)" "bare_host lh" "n < 2 ^ 16"
    and req: "headers_wf (hdrs req)" "hs_ViaHop (hdrs req) = Some hop" "HParams hop = Some ps"
    and h: "bare_host h" "strings_TrimSpace h \<noteq> []"
  shows "\<exists>req' res. receive_message c (JoinHostPort h q) (Req req) = Ok (Some (Req req')) \<and>
    NewResponseFromRequest fid rid req' code why b = Ok res \<and>
    (CHR '':'' \<notin> set h \<longrightarrow> (\<forall>raddr. ne_resolve N ''udp'' (host_port h (reply_port c hop q)) = Inr raddr \<longrightarrow>
      layer_Send N (Res res) L = (case ne_write N c raddr (response_String res) of
         None \<Rightarrow> Ok (c, raddr, response_String res)
       | Some e \<Rightarrow> Err (SendTo (host_port h (reply_port c hop q)) (protocol_error N
           (''write SIP message to the '' @ cn_key c @ '' connection'') (ConnectionError e ''write'' (ne_info N)))),
       Res res, set_protocol ''UDP'' p L))) \<and>
    (CHR '':'' \<in> set h \<and> \<not> reply_to_socket c hop \<longrightarrow>
      layer_Send N (Res res) L = (Err (SendAddr TooManyColons), Res res, L))"
proof -
  let ?hop = "hop\<lparr>HParams := Some (received_params h (fmt_port q) hop ps)\<rparr>"
  let ?d = "reply_addr c hop h q"
  let ?req = "SetSource ?d (SetTransport (conn_Network c) (SetDestination (cn_laddr c)
    (req\<lparr>hdrs := map_first_hop (\<lambda>_. ?hop) (hdrs req)\<rparr>)))"
  have upper: "strings_ToUpper ''UDP'' = ''UDP''" by code_simp
  define req1 where "req1 = ?req"
  have tp: "tp req1 = ''UDP''" and dest: "dest req1 = cn_laddr c" and src: "src req1 = ?d"
    and hdrs: "hdrs req1 = map_first_hop (\<lambda>_. ?hop) (hdrs req)"
    by (simp_all add: req1_def SetSource_def SetTransport_def SetDestination_def c(2) upper)
  have recv: "receive_message c (JoinHostPort h q) (Req req) = Ok (Some (Req req1))"
    using receive_request_Ok [OF req(2,3) h(1)] by (simp add: req1_def)
  have "tp req1 \<noteq> []" "dest req1 \<noteq> []" "src req1 \<noteq> []"
    using tp dest src c(3) by (simp_all add: JoinHostPort_def host_port_def)
  from response_route [OF this, of fid rid code why b]
  obtain res where res: "NewResponseFromRequest fid rid req1 code why b = Ok res"
    and route: "tp res = ''UDP''" "src res = cn_laddr c" "dest res = ?d"
    by (auto simp: tp dest src upper)
  have wf: "headers_wf (hdrs req1)" using req(1) hdrs by simp
  have "GetHeaders ''Via'' (hdrs res) = map header_Clone (GetHeaders ''Via'' (hdrs req1))"
    using NewResponseFromRequest_headers(2) [OF wf res, of "''Via''"] by (simp add: response_names_def)
  from hs_ViaHop_clone [OF this] have via: "hs_ViaHop (hdrs res) \<noteq> None" using req(2) hdrs by simp
  have sends: "layer_Send N (Res res) L = (case NewTargetFromAddr ?d of
      Inr trg \<Rightarrow> (map_err (SendTo (Target_Addr trg)) (udp_Send N trg (Res res) p), Res res, set_protocol ''UDP'' p L)
    | Inl e \<Rightarrow> (Err (SendAddr e), Res res, L))"
    by (rule udp_layer_Send [OF L route(1) _ via]) (use route(3) in \<open>simp add: response_Destination_def\<close>)
  have udp: "udp_Send N \<lparr>tg_Host = h, tg_Port = Some (reply_port c hop q)\<rparr> (Res res) p = write_to N c raddr (response_String res)"
    if "ne_resolve N ''udp'' (host_port h (reply_port c hop q)) = Inr raddr" for raddr
    using udp_Send_response [OF L(1,3) c(1,4,5) h(2) that] route(2) c(3) by simp
  show ?thesis
    using recv res sends reply_addr_target [OF h(1), of c hop q] h(2) udp
    by (fastforce simp: Target_Addr_def write_to_def split: option.split)
qed

section \<open>A layer with one socket\<close>

definition sample_net :: net_env where
  "sample_net = \<lparr>ne_resolve = (\<lambda>_ a. Inr \<lparr>na_ip = ''10.0.0.9'', na_v4 = True, na_port = 80\<rparr>),
     ne_listenUDP = (\<lambda>a. Inr (host_port ''0.0.0.0'' 80)), ne_listenTCP = (\<lambda>_ _. Inl EOF_err),
     ne_dial = (\<lambda>_ _. Inl EOF_err), ne_write = (\<lambda>_ _ _. None), ne_ParseIP = (\<lambda>_. True), ne_LookupSRV = (\<lambda>_ _. None),
     ne_rand = (\<lambda>_. 0), ne_port_ptr = 0, ne_now = 0, ne_info = []\<rparr>"

definition sample_socket :: conn where
  "sample_socket = NewConnection True (host_port ''0.0.0.0'' 80) [] (udp_key NewUdpProtocol 80) ''udp''"

definition sample_udp :: protocol where
  "sample_udp = NewUdpProtocol\<lparr>pt_connections := (NewConnectionPool [])\<lparr>cp_store := [(udp_key NewUdpProtocol 80, 0)],
     cp_handlers := [NewConnectionHandler 0 sample_socket 0]\<rparr>\<rparr>"

definition sample_layer :: tp_layer where
  "sample_layer = (NewTransportLayer ''10.0.0.2'')\<lparr>ly_protocols := [(''udp'', sample_udp)], ly_listenPorts := [(''UDP'', [80])]\<rparr>"

lemma sample_layer_reached: "tp_reach sample_layer"
proof -
  have low: "strings_ToLower ''udp'' = ''udp''" "strings_ToUpper ''udp'' = ''UDP''" and trim: "strings_TrimSpace ''0.0.0.0'' = ''0.0.0.0''"
    and plain: "plain_host ''0.0.0.0''"
    by code_simp+
  let ?trg = "\<lparr>tg_Host = ''0.0.0.0'', tg_Port = Some 80\<rparr>"
  have fill: "FillTargetHostAndPort n ?trg = ?trg" for n by (simp add: FillTargetHostAndPort_def trim)
  have put: "pool_Put 0 sample_socket 0 (NewConnectionPool []) = (None, pt_connections sample_udp)"
    by (simp add: pool_Put_def pool_Put_check_def pool_put_def pool_get_def NewConnectionPool_def sample_socket_def
        NewConnection_def udp_key_def NewUdpProtocol_def new_protocol_def sample_udp_def handler_Key_def
        NewConnectionHandler_def Let_def)
  have listen: "udp_Listen sample_net ?trg NewUdpProtocol = (None, sample_udp)"
    using put
    by (simp add: udp_Listen_def fill Target_Addr_def trim sample_net_def NewUdpProtocol_def new_protocol_def
        flip: sample_socket_def)
       (simp add: sample_socket_def NewUdpProtocol_def new_protocol_def sample_udp_def)
  have "snd (layer_Listen sample_net ''udp'' (host_port ''0.0.0.0'' 80) (NewTransportLayer ''10.0.0.2'')) = sample_layer"
    using listen
    by (simp add: layer_Listen_def NewTransportLayer_def getProtocol_def protocols_getOrPutNew_def low protocolFactory_def
        NewTargetFromAddr_host_port [OF plain] fill protocol_Listen_def NewUdpProtocol_def new_protocol_def Let_def
        set_protocol_def protocol_Network_def sample_layer_def)
  then show ?thesis using tp_reach.listen [OF tp_reach.start] by metis
qed

definition sample_tcp_layer :: tp_layer where
  "sample_tcp_layer = sample_layer\<lparr>ly_protocols := [(''udp'', sample_udp), (''tcp'', NewTcpProtocol)]\<rparr>"

lemma sample_tcp_layer_reached: "tp_reach sample_tcp_layer"
proof -
  have "strings_ToLower ''TCP'' = ''tcp''" "strings_ToLower ''tcp'' = ''tcp''" by code_simp+
  then have "snd (layer_Listen sample_net ''TCP'' [] sample_layer) = sample_tcp_layer"
    by (simp add: layer_Listen_def sample_layer_def NewTransportLayer_def getProtocol_def protocols_getOrPutNew_def
        protocolFactory_def NewTargetFromAddr_def SplitHostPort_def sample_tcp_layer_def Let_def)
  then show ?thesis using tp_reach.listen [OF sample_layer_reached] by metis
qed

theorem layer_reliability_witness:
  "\<exists>tx. NewClientTx [] (\<lambda>n. layer_IsReliable n sample_tcp_layer) ((ex_request INVITE)\<lparr>tp := ''TCP''\<rparr>) = Ok tx \<and>
     layer_IsReliable ''tcp'' sample_tcp_layer \<and> \<not> layer_IsReliable ''TCP'' sample_tcp_layer \<and>
     is_armed (timer_a (c_Init_timers tx))"
proof -
  let ?req = "(ex_request INVITE)\<lparr>tp := ''TCP''\<rparr>" and ?L = sample_tcp_layer
  have "prepareClientRequest [] ?req = (prepareClientRequest [] (ex_request INVITE))\<lparr>tp := ''TCP''\<rparr>"
    by (simp add: prepareClientRequest_def Let_def split: option.split)
  moreover obtain key where "MakeClientTxKey (hdrs (prepareClientRequest [] (ex_request INVITE))) = Ok key"
    using ex_invite_created by (auto simp: NewClientTx_def Let_def)
  ultimately obtain tx where tx: "NewClientTx [] (\<lambda>n. layer_IsReliable n ?L) ?req = Ok tx"
    by (simp add: NewClientTx_def Let_def request_Transport_def)
  have "map_of (ly_protocols ?L) ''tcp'' \<noteq> None" by (simp add: sample_tcp_layer_def)
  with tx layer_reliability [OF sample_tcp_layer_reached, of "''tcp''" ?req "[]" tx]
    layer_reliability [OF sample_tcp_layer_reached, of "''TCP''"]
  show ?thesis by auto
qed

theorem udp_response_path_witness:
  "(\<exists>req' res. receive_message sample_socket (JoinHostPort ''10.0.0.9'' 81) (Req (ex_request ''INFO'')) = Ok (Some (Req req')) \<and>
     NewResponseFromRequest ''1'' ''2'' req' 200 ''OK'' [] = Ok res \<and>
     fst (layer_Send sample_net (Res res) sample_layer) =
       Ok (sample_socket, \<lparr>na_ip = ''10.0.0.9'', na_v4 = True, na_port = 80\<rparr>, response_String res)) \<and>
   (\<exists>req' res. receive_message sample_socket (JoinHostPort ''::1'' 81) (Req (ex_request ''INFO'')) = Ok (Some (Req req')) \<and>
     NewResponseFromRequest ''1'' ''2'' req' 200 ''OK'' [] = Ok res \<and>
     fst (layer_Send sample_net (Res res) sample_layer) = Err (SendAddr TooManyColons))"
proof -
  have wf: "headers_wf (hdrs (ex_request ''INFO''))" and hop: "hs_ViaHop (hdrs (ex_request ''INFO'')) = Some ex_hop"
    by (simp_all add: ex_request_def NewRequest_def)
  have ps: "HParams ex_hop = Some (params_Add ''branch'' (Some ''z9hG4bK.1'') NewParams)" by (simp add: ex_hop_def)
  have c: "pool_getConnection (udp_key sample_udp 80) (pt_connections sample_udp) = Inr sample_socket"
    "cn_laddr sample_socket = JoinHostPort ''0.0.0.0'' (of_nat 80)" "cn_network sample_socket = ''udp''"
    by (simp_all add: pool_getConnection_def pool_get_def sample_udp_def udp_key_def NewUdpProtocol_def new_protocol_def
        NewConnectionHandler_def Let_def sample_socket_def NewConnection_def JoinHostPort_def)
  have u: "strings_ToUpper ''udp'' = ''UDP''" "bare_host ''0.0.0.0''" "bare_host ''10.0.0.9''" "bare_host ''::1''"
    and t: "strings_TrimSpace ''10.0.0.9'' \<noteq> []" "strings_TrimSpace ''::1'' \<noteq> []"
    by code_simp+
  have L: "\<not> ly_canceled sample_layer" "map_of (ly_protocols sample_layer) ''udp'' = Some sample_udp"
    by (simp_all add: sample_layer_def NewTransportLayer_def)
  have net: "ne_resolve sample_net n a = Inr \<lparr>na_ip = ''10.0.0.9'', na_v4 = True, na_port = 80\<rparr>" "ne_write sample_net x y z = None" for n a x y z
    by (simp_all add: sample_net_def)
  have n: "conn_Network sample_socket = ''UDP''" by (simp add: conn_Network_def c(3) u(1))
  have r: "\<not> reply_to_socket sample_socket ex_hop"
    by (simp add: reply_to_socket_def ps sample_socket_def NewConnection_def params_Has_def params_Add_def NewParams_def)
  note path = udp_response_path [OF sample_layer_reached L c(1) n c(2) u(2) _ wf hop ps]
  show ?thesis
    using path [OF _ u(3) t(1), of 81 "''1''" "''2''" 200 "''OK''" "[]" sample_net]
      path [OF _ u(4) t(2), of 81 "''1''" "''2''" 200 "''OK''" "[]" sample_net] r
    by (fastforce simp: net)
qed

end
