(* ===== verification/Transport_Client.thy ===== *)
theory Transport_Client
  imports Transport_LayerProps
begin

text \<open>
  Client transactions over the transport layer.  In the model of a transaction \<open>Send\<close> of the transport
  (\<^verbatim>\<open>transport/layer.go\<close>) is a part of the environment that returns an error or none.  Here it is the
  code of the layer, which can panic: the requests for which it does not, that an INVITE client
  transaction sends no others, and that the layer leaves them so.
\<close>

section \<open>Requests that can be sent\<close>

text \<open>A parameter \<open>transport\<close> has a value where it is present; the URI of a request has a parameter
  set, which \<open>Send\<close> removes the parameter from; the first address of a Route is a SIP URI; and the
  parameter \<open>received\<close> of the top Via hop has a value where it is present.\<close>

definition usable_params :: "headerParams \<Rightarrow> bool" where
  "usable_params ps \<longleftrightarrow> params_wf ps \<and> params_Get ps ''transport'' \<noteq> Some None"

fun route_uri :: "uri \<Rightarrow> bool" where
  "route_uri (SipUri u) \<longleftrightarrow> uri_wf (SipUri u) \<and> pred_option usable_params (FUriParams u)"
| "route_uri _ \<longleftrightarrow> False"

fun target_uri :: "uri \<Rightarrow> bool" where
  "target_uri (SipUri u) \<longleftrightarrow> route_uri (SipUri u) \<and> FUriParams u \<noteq> None"
| "target_uri _ \<longleftrightarrow> False"

definition routes_ok :: "header list \<Rightarrow> bool" where
  "routes_ok hl \<longleftrightarrow> (case hl of RouteHeader (a # _) # _ \<Rightarrow> route_uri a | _ \<Rightarrow> True)"

definition sent_by_ok :: "via_hop \<Rightarrow> bool" where
  "sent_by_ok hop \<longleftrightarrow> (case HParams hop of None \<Rightarrow> False | Some ps \<Rightarrow> params_wf ps \<and> params_Get ps ''received'' \<noteq> Some None)"

definition sendable :: "request \<Rightarrow> bool" where
  "sendable req \<longleftrightarrow> headers_wf (hdrs req) \<and> pred_option target_uri (recipient req) \<and> recipient req \<noteq> None \<and>
     routes_ok (GetHeaders ''Route'' (hdrs req)) \<and>
     hs_ViaHop (hdrs req) \<noteq> None \<and> pred_option sent_by_ok (hs_ViaHop (hdrs req))"

text \<open>A response whose Contact can be the URI of a request and whose Record-Route the route.\<close>

definition response_sendable :: "response \<Rightarrow> bool" where
  "response_sendable res \<longleftrightarrow> headers_wf (hdrs res) \<and> pred_option (\<lambda>c. target_uri (CAddress c)) (hs_Contact (hdrs res)) \<and>
     list_all (\<lambda>h. case h of RecordRouteHeader us \<Rightarrow> list_all route_uri us | _ \<Rightarrow> True) (GetHeaders ''Record-Route'' (hdrs res))"

section \<open>The layer sends them without a panic\<close>

lemma target_route: "target_uri u \<Longrightarrow> route_uri u"
  by (cases u) simp_all

lemma uri_transport_Ok: "route_uri u \<Longrightarrow> \<exists>t'. uri_transport t u = Ok t'"
  by (cases u) (auto simp: uri_transport_def usable_params_def split: option.splits)

lemma request_Transport_Ok:
  assumes "sendable req"
  shows "\<exists>t. request_Transport req = Ok t"
proof -
  let ?u = "case GetHeaders ''Route'' (hdrs req) of RouteHeader (a # _) # _ \<Rightarrow> Some a | _ \<Rightarrow> recipient req"
  have "pred_option route_uri ?u"
    using assms by (auto simp: sendable_def routes_ok_def target_route split: list.splits header.splits
        elim!: option.pred_mono_strong)
  then obtain t where "(case ?u of None \<Rightarrow> Ok (via_transport (hdrs req)) | Some uri \<Rightarrow> uri_transport (via_transport (hdrs req)) uri)
      = (Ok t :: bytes may_panic)"
    using uri_transport_Ok by (cases ?u) auto
  then show ?thesis unfolding request_Transport_def Let_def by simp
qed

lemma request_Destination_Ok:
  assumes "sendable req"
  shows "\<exists>d. request_Destination req = Ok d"
proof -
  obtain t where t: "request_Transport req = Ok t" using request_Transport_Ok [OF assms] by blast
  have *: "\<exists>p. (case FPort v of Some p \<Rightarrow> Ok p | None \<Rightarrow> res_bind (request_Transport req) (\<lambda>t. Ok (DefaultPort t))) = (Ok p :: port may_panic)" for v
    by (cases "FPort v") (simp_all add: t)
  have "\<exists>v. (case GetHeaders ''Route'' (hdrs req) of
      RouteHeader (a # _) # _ \<Rightarrow> (case a of SipUri u \<Rightarrow> Ok (Some u) | _ \<Rightarrow> Crash)
    | _ \<Rightarrow> Ok (case recipient req of Some (SipUri u) \<Rightarrow> Some u | _ \<Rightarrow> None)) = (Ok v :: sip_uri option may_panic)"
    using assms by (auto simp: sendable_def routes_ok_def split: list.splits header.splits uri.splits)
  then obtain v where v: "(case GetHeaders ''Route'' (hdrs req) of
      RouteHeader (a # _) # _ \<Rightarrow> (case a of SipUri u \<Rightarrow> Ok (Some u) | _ \<Rightarrow> Crash)
    | _ \<Rightarrow> Ok (case recipient req of Some (SipUri u) \<Rightarrow> Some u | _ \<Rightarrow> None)) = (Ok v :: sip_uri option may_panic)" ..
  show ?thesis
    unfolding request_Destination_def v using * by (cases v) auto
qed

lemma request_Source_Ok:
  assumes "sendable req"
  shows "\<exists>s. request_Source req = Ok s"
proof -
  obtain t where t: "request_Transport req = Ok t" using request_Transport_Ok [OF assms] by blast
  obtain hop ps where hop: "hs_ViaHop (hdrs req) = Some hop" "HParams hop = Some ps" "params_Get ps ''received'' \<noteq> Some None"
    using assms by (auto simp: sendable_def sent_by_ok_def split: option.splits)
  have "\<exists>hq. via_received (HParams hop) h q = Ok hq" for h q
    using hop(2,3) by (auto simp: via_received_def split: option.splits)
  then have "\<exists>s. res_bind (via_received (HParams hop) (Host hop) q) (\<lambda>(h, q). Ok (host_port h q)) = (Ok s :: bytes may_panic)" for q
    by (force split: prod.splits)
  then show ?thesis
    using hop(1) t by (cases "Port hop") (simp_all add: request_Source_def del: split_paired_Ex)
qed

lemma sendable_rewritten:
  assumes "sendable req" and "\<And>hop. HParams (f hop) = HParams hop"
  shows "sendable (req\<lparr>hdrs := map_first_hop f (hdrs req)\<rparr>)"
proof -
  have "sent_by_ok (f hop) = sent_by_ok hop" for hop by (simp add: sent_by_ok_def assms(2))
  then show ?thesis using assms(1) by (cases "hs_ViaHop (hdrs req)") (auto simp: sendable_def GetHeaders_map_first_hop)
qed

lemma remove_transport_sendable:
  assumes "sendable req"
  shows "\<exists>req'. remove_transport req = Ok req' \<and> sendable req' \<and> hdrs req' = hdrs req"
proof -
  obtain u ps where u: "recipient req = Some (SipUri u)" "FUriParams u = Some ps" "usable_params ps" "uri_wf (SipUri u)"
    using assms by (cases "recipient req"; cases "the (recipient req)") (auto simp: sendable_def)
  have "usable_params (params_Remove ''transport'' ps)" using u(3) by (simp add: usable_params_def pd.get_remove pd.invar_remove)
  then show ?thesis
    using assms u by (auto simp: remove_transport_def sendable_def usable_params_def)
qed

lemma udp_find_no_panic:
  assumes "pt_network p = ''udp''" and "\<forall>c\<in>set cs. \<exists>n. cn_key c = udp_key p n"
  shows "\<exists>c. udp_find x cs = Ok c"
  using assms(2)
proof (induction cs)
  case (Cons c cs)
  then obtain n where "cn_key c = udp_key p n" by auto
  then have "strings_Split (cn_key c) '':'' = [''udp'', ''0.0.0.0'', fmt_d n]" using udp_key_parts [OF assms(1)] by simp
  with Cons show ?case by simp
qed simp

lemma pool_udp_keys:
  assumes "protocol_ok ''udp'' p"
  shows "\<forall>c\<in>set (pool_All (pt_connections p)). \<exists>n. cn_key c = udp_key p n"
proof -
  let ?P = "pt_connections p"
  have pool: "pool_ok ?P" and keys: "udp_keys p" and d: "distinct (map fst (cp_store ?P))"
    using assms by (simp_all add: protocol_ok_def)
  have "cn_key (ch_conn (cp_handlers ?P ! i)) = k" if "(k, i) \<in> set (cp_store ?P)" for k i
    using that d pool_ok_lookup [OF pool, of k i] by (simp add: handler_Key_def)
  then show ?thesis using keys by (fastforce simp: pool_All_def udp_keys_def)
qed

lemma protocol_Send_no_panic:
  assumes "protocol_ok k p" and "sendable req"
  shows "fst (protocol_Send N trg (Req req) p) \<noteq> Crash"
proof (cases "pt_network p = ''udp''")
  case True
  then have p: "protocol_ok ''udp'' p" using assms(1) by (simp add: protocol_ok_def)
  obtain source where source: "request_Source req = Ok source" using request_Source_Ok [OF assms(2)] by blast
  have "udp_find x (pool_All (pt_connections p)) \<noteq> Crash" "udp_find x (pool_All (pt_connections p)) \<noteq> Err e" for x e
    using udp_find_no_panic [OF True pool_udp_keys [OF p], of x] by auto
  then show ?thesis
    using True source by (auto simp: protocol_Send_def udp_Send_def write_to_def split: sum.split res.split option.split)
next
  case False
  then show ?thesis by (auto simp: protocol_Send_def tcp_Send_def write_to_def split: sum.split prod.split option.split)
qed

text \<open>The names that the name service returns are not empty: they end with a dot.\<close>

definition srv_names :: "net_env \<Rightarrow> bool" where
  "srv_names N \<longleftrightarrow> (\<forall>network host name q. ne_LookupSRV N network host = Some (name, q) \<longrightarrow> name \<noteq> [])"

lemma srv_target_Ok:
  assumes "srv_names N"
  shows "\<exists>trg'. srv_target N network trg = Ok trg'"
proof (cases "ne_ParseIP N (tg_Host trg) \<or> ne_LookupSRV N (strings_ToLower network) (tg_Host trg) = None")
  case False
  then obtain name q where srv: "\<not> ne_ParseIP N (tg_Host trg)" "ne_LookupSRV N (strings_ToLower network) (tg_Host trg) = Some (name, q)"
    by auto
  moreover from srv have "name \<noteq> []" using assms unfolding srv_names_def by blast
  ultimately show ?thesis unfolding srv_target_def Let_def by (simp split del: if_split)
next
  case True
  then show ?thesis
    by (cases "ne_ParseIP N (tg_Host trg)") (simp_all add: srv_target_def split del: if_split)
qed

lemma layer_Send_sendable:
  assumes T: "tp_reach T" "srv_names N" and req: "sendable req"
  shows "\<exists>r req' T'. layer_Send N (Req req) T = (r, Req req', T') \<and> r \<noteq> Crash \<and> sendable req' \<and>
    (request_ready req \<longrightarrow> request_ready req')"
proof (cases "ly_canceled T")
  case True
  with req show ?thesis by (simp add: layer_Send_def)
next
  case False
  obtain network where net: "request_Transport req = Ok network" using request_Transport_Ok [OF req] by blast
  obtain hop where hop: "hs_ViaHop (hdrs req) = Some hop" using req by (auto simp: sendable_def)
  have ready: "request_ready req'" if "request_ready req" "sendable req'" "hs_CSeq (hdrs req') = hs_CSeq (hdrs req)" for req'
    using that request_Transport_Ok [of req'] request_Source_Ok [of req'] request_Destination_Ok [of req']
    by (auto simp: request_ready_def sendable_def sent_by_ok_def split: option.splits)
  have cseq: "hs_CSeq (map_first_hop f hs) = hs_CSeq hs" for f hs
    by (rule hs_getters_cong(2)) (simp add: GetHeaders_map_first_hop)
  obtain pr T1 where P: "getProtocol network T = (pr, T1)" by fastforce
  let ?f = "\<lambda>h. h\<lparr>Transport := strings_ToUpper network, Host := ly_ip T\<rparr>"
  let ?g = "rewrite_via N network T1"
  let ?e = "req\<lparr>hdrs := map_first_hop ?f (hdrs req)\<rparr>" and ?req1 = "req\<lparr>hdrs := map_first_hop ?g (hdrs req)\<rparr>"
  have e: "sendable ?e" and s1: "sendable ?req1" using req by (auto intro!: sendable_rewritten simp: rewrite_via_def)
  obtain d where d: "request_Destination ?req1 = Ok d" using request_Destination_Ok [OF s1] by blast
  obtain req2 where req2: "remove_transport ?req1 = Ok req2" "sendable req2" "hdrs req2 = map_first_hop ?g (hdrs req)"
    using remove_transport_sendable [OF s1] by auto
  have send: "layer_Send N (Req req) T = (case layer_Send_request N req T of (res', r1, L1) \<Rightarrow> (res', Req r1, L1))"
    using False hop by (simp add: layer_Send_def)
  show ?thesis
  proof (cases pr)
    case (Inl err)
    have "layer_Send N (Req req) T = (Err (SendProtocol err), Req ?e, T1)"
      unfolding send using Inl net P by (simp add: layer_Send_request_def)
    with e ready [OF _ e] cseq show ?thesis by auto
  next
    case (Inr p)
    have p: "protocol_ok (strings_ToLower network) p"
      using getProtocol_ok(2) [OF tp_reach_ok [OF T(1)] P, of p] Inr by simp
    show ?thesis
    proof (cases "NewTargetFromAddr d")
      case (Inl err)
      have "layer_Send N (Req req) T = (Err (SendAddr err), Req ?req1, T1)"
        unfolding send using Inl Inr net P d by (simp add: layer_Send_request_def Let_def)
      with s1 ready [OF _ s1] cseq show ?thesis by auto
    next
      case trg: (Inr trg)
      obtain trg' where "srv_target N network trg = Ok trg'" using srv_target_Ok [OF T(2)] by blast
      then have "layer_Send N (Req req) T = (map_err (SendTo (Target_Addr trg')) (fst (protocol_Send N trg' (Req req2) p)), Req req2,
          set_protocol network (snd (protocol_Send N trg' (Req req2) p)) T1)"
        unfolding send using Inr trg net P d req2(1) by (simp add: layer_Send_request_def layer_deliver_def Let_def split: prod.split)
      moreover have "map_err (SendTo (Target_Addr trg')) (fst (protocol_Send N trg' (Req req2) p)) \<noteq> Crash"
        using protocol_Send_no_panic [OF p req2(2), of N trg'] by (cases "fst (protocol_Send N trg' (Req req2) p)") auto
      ultimately show ?thesis using req2(2,3) ready [OF _ req2(2)] cseq by auto
    qed
  qed
qed

section \<open>The requests that a transaction sends\<close>

lemma route_uri_Clone: "route_uri u \<Longrightarrow> route_uri (uri_Clone u)"
  by (cases u) (auto simp: SipUri_Clone_def cloneWithNil_def usable_params_def pd.get_empty split: option.splits)

lemma routes_ok_Clone: "routes_ok hl \<Longrightarrow> routes_ok (map header_Clone hl)"
  by (auto simp: routes_ok_def RouteHeader_Clone_def route_uri_Clone split: list.splits header.splits)

lemma sent_by_ok_Clone: "sent_by_ok hop \<Longrightarrow> sent_by_ok (ViaHop_Clone hop)"
  by (auto simp: sent_by_ok_def ViaHop_Clone_def split: option.splits)

lemma sent_by_ok_branch: "sent_by_ok hop \<Longrightarrow> sent_by_ok (set_branch b hop)"
  by (auto simp: sent_by_ok_def set_branch_def pd.get_add pd.invar_add split: option.splits)

lemma NewCancelRequest_sendable:
  assumes "sendable req" and "NewCancelRequest fid cid req = Ok c"
  shows "sendable c"
proof -
  have wf: "headers_wf (hdrs req)" using assms(1) by (simp add: sendable_def)
  note c = NewCancelRequest_headers [OF wf assms(2)]
  have "GetHeaders ''Route'' (hdrs c) = map header_Clone (GetHeaders ''Route'' (hdrs req))" by (rule c(4)) simp
  with c(1,2,6) assms(1) show ?thesis
    by (cases "hs_ViaHop (hdrs req)") (auto simp: sendable_def routes_ok_Clone sent_by_ok_Clone)
qed

lemma record_routes_ok:
  "record_routes hl = Ok l \<Longrightarrow> list_all (\<lambda>h. case h of RecordRouteHeader us \<Rightarrow> list_all route_uri us | _ \<Rightarrow> True) hl \<Longrightarrow>
   list_all (\<lambda>h. case h of RouteHeader us \<Rightarrow> list_all route_uri us | _ \<Rightarrow> True) l"
proof (induction hl arbitrary: l)
  case (Cons h hl)
  then show ?case by (cases h) (auto simp: list_all_iff route_uri_Clone)
qed simp

lemma routes_ok_all: "list_all (\<lambda>h. case h of RouteHeader us \<Rightarrow> list_all route_uri us | _ \<Rightarrow> True) l \<Longrightarrow> routes_ok l"
  by (auto simp: routes_ok_def split: list.splits header.splits)

lemma NewAckRequest_sendable:
  assumes req: "sendable req" and res: "response_sendable res" and ok: "NewAckRequest fid br aid req res b = Ok a"
  shows "sendable a"
proof -
  have wf: "headers_wf (hdrs req)" "headers_wf (hdrs res)" using req res by (simp_all add: sendable_def response_sendable_def)
  note a = NewAckRequest_headers [OF wf ok]
  have "routes_ok (GetHeaders ''Route'' (hdrs a))"
  proof (cases "GetHeaders ''Route'' (hdrs req) = []")
    case True
    then have "record_routes (GetHeaders ''Record-Route'' (hdrs res)) = Ok (GetHeaders ''Route'' (hdrs a))" using a(10) by simp
    from routes_ok_all [OF record_routes_ok [OF this]] res show ?thesis by (simp add: response_sendable_def)
  next
    case False
    then have "GetHeaders ''Route'' (hdrs a) = map header_Clone (GetHeaders ''Route'' (hdrs req))" using a(10) by simp
    then show ?thesis using req by (simp add: sendable_def routes_ok_Clone)
  qed
  moreover obtain u where u: "recipient req = Some u" "target_uri u" using req by (auto simp: sendable_def)
  have "pred_option target_uri (recipient a) \<and> recipient a \<noteq> None"
  proof (cases "hs_Contact (hdrs res)")
    case None
    then have "recipient a = Some u" using a(15) u(1) by (simp add: ack_recipient_def)
    then show ?thesis using u(2) by simp
  next
    case (Some c)
    then have "recipient a \<in> {Some u, Some (CAddress c)}" using a(15) u(1) by (simp add: ack_recipient_def split: if_splits)
    moreover have "target_uri (CAddress c)" using res Some by (simp add: response_sendable_def)
    ultimately show ?thesis using u(2) by auto
  qed
  ultimately show ?thesis
    using a(1,2) req by (cases "hs_ViaHop (hdrs req)") (auto simp: sendable_def sent_by_ok_Clone sent_by_ok_branch)
qed

text \<open>A predicate on the state with which a call ends, also when it waits for ever.\<close>

definition ends_in :: "('s \<Rightarrow> bool) \<Rightarrow> ('a, 's) go \<Rightarrow> bool" where
  "ends_in Q r \<longleftrightarrow> (case r of Ret _ s \<Rightarrow> Q s | Panic s \<Rightarrow> Q s | Block s \<Rightarrow> Q s | Diverge \<Rightarrow> True)"

lemma ends_in_simps [simp]:
  "ends_in Q (Ret a s) = Q s" "ends_in Q (Panic s) = Q s" "ends_in Q (Block s) = Q s" "ends_in Q Diverge"
  by (simp_all add: ends_in_def)

lemma ends_in_bind: "ends_in Q r \<Longrightarrow> (\<And>a t. Q t \<Longrightarrow> ends_in Q (k a t)) \<Longrightarrow> ends_in Q (go_bind r k)"
  by (cases r) auto

lemma ends_in_recover: "ends_in Q r \<Longrightarrow> ends_in Q (go_recover z r)"
  by (cases r) simp_all

lemma ends_in_mono: "ends_in Q r \<Longrightarrow> (\<And>s. Q s \<Longrightarrow> Q' s) \<Longrightarrow> ends_in Q' r"
  by (cases r) simp_all

lemma ends_in_phase: "ends_in Q r \<Longrightarrow> ends_in (\<lambda>(_, t). Q t) (in_phase ph r)"
  by (cases r) simp_all

text \<open>The requests sent, the request of the transaction and its last response.\<close>

definition sends_ok :: "clientTx \<Rightarrow> bool" where
  "sends_ok tx \<longleftrightarrow> sendable (corigin tx) \<and> pred_option response_sendable (clastResp tx) \<and>
     list_all (\<lambda>m. case m of Req r \<Rightarrow> sendable r | Res _ \<Rightarrow> False) (csent tx)"

lemma sends_ok_fields [simp]:
  "sends_ok (tx\<lparr>timer_a := a\<rparr>) = sends_ok tx" "sends_ok (tx\<lparr>timer_b := a\<rparr>) = sends_ok tx" "sends_ok (tx\<lparr>timer_d := a\<rparr>) = sends_ok tx"
  "sends_ok (tx\<lparr>timer_m := a\<rparr>) = sends_ok tx" "sends_ok (tx\<lparr>timer_a_time := d\<rparr>) = sends_ok tx"
  "sends_ok (tx\<lparr>timer_d_time := d\<rparr>) = sends_ok tx" "sends_ok (tx\<lparr>cfsm := f\<rparr>) = sends_ok tx"
  "sends_ok (tx\<lparr>clastErr := x\<rparr>) = sends_ok tx" "sends_ok (tx\<lparr>cspawned := l\<rparr>) = sends_ok tx"
  "sends_ok (tx\<lparr>cresponses := ch\<rparr>) = sends_ok tx" "sends_ok (tx\<lparr>cerrs := ce\<rparr>) = sends_ok tx"
  "sends_ok (tx\<lparr>cdone := x2\<rparr>) = sends_ok tx" "sends_ok (tx\<lparr>ccloseOnce := x2\<rparr>) = sends_ok tx"
  "sends_ok (tx\<lparr>csent := csent tx @ [Req r]\<rparr>) \<longleftrightarrow> sends_ok tx \<and> sendable r"
  by (auto simp: sends_ok_def)

lemma sends_ok_request:
  "sends_ok tx \<Longrightarrow> (\<And>r. mreq = Ok r \<Longrightarrow> sendable r) \<Longrightarrow> ends_in sends_ok (c_send_request E mreq tx)"
  by (cases mreq) (auto simp: c_send_request_def c_Send_def c_spawn_def split: option.split)

lemma sends_ok_cancel: "sends_ok tx \<Longrightarrow> ends_in sends_ok (c_cancel E tx)"
  using NewCancelRequest_sendable by (auto simp: c_cancel_def sends_ok_def [of tx] intro!: sends_ok_request)

lemma sends_ok_ack:
  assumes "sends_ok tx"
  shows "ends_in sends_ok (c_ack E tx)"
proof (cases "clastResp tx")
  case (Some res)
  have "sendable (corigin tx)" "response_sendable res" using assms Some by (simp_all add: sends_ok_def)
  then have "ends_in sends_ok (c_send_request E
      (NewAckRequest (fresh_id E) (GenerateBranch (fresh_branch E)) [] (corigin tx) res []) tx)"
    using NewAckRequest_sendable by (intro sends_ok_request [OF assms])
  with Some show ?thesis by (simp add: c_ack_def)
qed (use assms in \<open>simp add: c_ack_def\<close>)

lemma sends_ok_helpers:
  assumes "sends_ok tx"
  shows "ends_in sends_ok (c_passUp E tx)" "ends_in sends_ok (c_resend E tx)" "ends_in sends_ok (c_send_err E e tx)"
    "ends_in sends_ok (c_reset_a tx)" "ends_in sends_ok (c_close_all tx)"
proof -
  have "sendable (corigin tx)" using assms by (simp add: sends_ok_def)
  then show "ends_in sends_ok (c_resend E tx)" using assms by (simp add: c_resend_def c_Send_def c_spawn_def Let_def)
qed (use assms in \<open>simp_all add: c_passUp_def c_send_err_def c_reset_a_def c_close_all_def Let_def
    split: option.split select_result.split\<close>)

lemma sends_ok_delete: "sends_ok tx \<Longrightarrow> ends_in sends_ok (c_delete tx)"
  by (auto simp: c_delete_def intro!: ends_in_recover ends_in_bind sends_ok_helpers)

lemma sends_ok_run: "sends_ok tx \<Longrightarrow> ends_in sends_ok (run_client E act tx)"
  by (cases act)
     (auto simp: client_act_defs c_transportErr_def c_timeoutErr_def Let_def
       intro!: ends_in_bind ends_in_recover sends_ok_helpers sends_ok_cancel sends_ok_ack sends_ok_delete)

lemma sends_ok_turns: "sends_ok tx \<Longrightarrow> ends_in sends_ok (client_turns tbl E st i tx)"
  by (auto simp: client_turns_def split: option.split intro!: ends_in_bind sends_ok_run)

lemma sends_ok_timers: "sends_ok tx \<Longrightarrow> sends_ok (c_Init_timers tx)"
  by (simp add: c_Init_timers_def Let_def)

lemma sends_ok_fire: "sends_ok tx \<Longrightarrow> sends_ok (c_fire t tx)"
  by (cases t) (simp_all add: c_fire_def c_spawn_def Let_def)

text \<open>Every event but \<open>Terminate\<close>, with responses whose Record-Route headers have their type and that
  lead to requests that can be sent.\<close>

definition answered :: "client_event \<Rightarrow> bool" where
  "answered ev \<longleftrightarrow> regular ev \<and> (\<forall>res. ev = EvReceive (Res res) \<longrightarrow> response_sendable res)"

context client_lib
begin

lemma sends_ok_spin:
  assumes "cfsm tx = Some \<lparr>fsm_states = invite_client_states, fsm_current = st\<rparr>" and "sends_ok tx"
  shows "ends_in sends_ok (c_Spin spin E i tx)"
  unfolding c_Spin_turns [OF assms(1) client_tables_short(1)]
  by (rule ends_in_bind [OF sends_ok_turns [OF assms(2)]]) (simp split: prod.split)

lemma sends_ok_init:
  assumes "IsInvite (corigin tx)" and "sends_ok tx"
  shows "ends_in sends_ok (c_Init_send define_fsm spin E tx)"
proof -
  let ?f = "\<lparr>fsm_states = invite_client_states, fsm_current = client_state_calling\<rparr>"
  let ?tx = "tx\<lparr>cfsm := Some ?f, csent := csent tx @ [Req (corigin tx)]\<rparr>"
  have init: "c_initFSM define_fsm tx = tx\<lparr>cfsm := Some ?f\<rparr>"
    using assms(1) by (simp add: c_initFSM_def c_initInviteFSM_def invite_machine)
  have ok: "sends_ok ?tx" using assms(2) by (simp add: sends_ok_def)
  then have "ends_in sends_ok (c_Spin spin E client_input_transport_err (?tx\<lparr>clastErr := Some e\<rparr>))" for e
    by (intro sends_ok_spin [where st = client_state_calling]) simp_all
  then show ?thesis
    using ok by (auto simp: c_Init_send_def c_Send_def init intro!: ends_in_bind split: option.split)
qed

lemma sends_ok_event:
  assumes new: "new_client tx0" "IsInvite (corigin tx0)" and inv: "invite_inv tx0 (ph, tx)" and ok: "sends_ok tx"
    and ev: "answered ev" "client_enabled ev (ph, tx)"
  shows "ends_in (\<lambda>(_, t). sends_ok t) (client_exec define_fsm spin E ev (ph, tx))"
proof (cases "ph = Created")
  case True
  with inv have tx: "tx = tx0" by (simp add: invite_inv_def)
  have "ev = EvInit"
    using ev new(1) True by (cases ev; cases "case ev of EvFire t \<Rightarrow> t")
      (auto simp: tx new_client_def make_chan_def answered_def regular_def)
  with ends_in_phase [OF sends_ok_init [OF _ ok]] new(2) tx show ?thesis by (simp add: Let_def)
next
  case False
  with inv obtain st where fsm: "cfsm tx = Some \<lparr>fsm_states = invite_client_states, fsm_current = st\<rparr>"
    by (auto simp: invite_inv_def invite_state_def)
  have spin: "ends_in (\<lambda>(_, t). sends_ok t) (in_phase ph (c_Spin spin E i u))" if "cfsm u = cfsm tx" "sends_ok u" for i u
    using that fsm by (intro ends_in_phase sends_ok_spin [where st = st]) simp_all
  show ?thesis
  proof (cases ev)
    case (EvReceive msg)
    show ?thesis
    proof (cases msg)
      case (Res res)
      with ev EvReceive have "response_sendable res" by (simp add: answered_def)
      then have "sends_ok (tx\<lparr>clastResp := Some res\<rparr>)" using ok by (simp add: sends_ok_def)
      with spin ok show ?thesis by (simp add: EvReceive Res c_Receive_def)
    qed (use ok EvReceive in \<open>simp add: c_Receive_def\<close>)
  next
    case (EvRun i)
    with spin ok show ?thesis by (simp add: c_run_spawned_def)
  next
    case EvCancel
    with spin ok show ?thesis by (simp add: c_Cancel_def)
  qed (use ok ev False sends_ok_fire sends_ok_timers in
    \<open>auto simp: c_take_response_def c_take_error_def answered_def regular_def\<close>)
qed

lemma answered_reach:
  assumes "client_reach define_fsm spin answered tx0 s"
    and new: "new_client tx0" "IsInvite (corigin tx0)" "request_ready (corigin tx0)" and "sends_ok tx0"
  shows "invite_inv tx0 s \<and> sends_ok (snd s)"
  using assms(1)
proof (induction rule: client_reach.induct)
  case reach_new
  then show ?case using assms(5) by (simp add: invite_inv_def)
next
  case (reach_step s ev E s')
  have "regular ev" using reach_step.hyps(2) by (simp add: answered_def)
  from invite_event [OF new _ this reach_step.hyps(3), of E] reach_step have "invite_inv tx0 s'" by simp
  moreover have "sends_ok (snd s')"
    using sends_ok_event [OF new(1,2), of "fst s" "snd s" ev E] reach_step by (cases s') auto
  ultimately show ?case ..
qed

end

lemma sends_ok_sent: "sends_ok tx \<Longrightarrow> m \<in> set (csent tx) \<Longrightarrow> \<exists>r. m = Req r \<and> sendable r"
  by (cases m) (auto simp: sends_ok_def list_all_iff)

lemma NewClientTx_sent: "NewClientTx rand rel req = Ok tx \<Longrightarrow> csent tx = []"
  by (cases "MakeClientTxKey (hdrs (prepareClientRequest rand req))"; cases "request_Transport (prepareClientRequest rand req)")
     (auto simp: NewClientTx_def Let_def)

section \<open>Properties\<close>

text \<open>C1: An INVITE client transaction whose request is ready (its Via has parameters, and its CSeq, URI,
  transport and addresses are there) runs in any interleaving of its operations, timers and callbacks
  without a call of \<open>Terminate\<close>, and the Record-Route headers of the responses it receives have their
  type.  Then no operation of the transaction panics or runs for ever, when \<open>Send\<close> of the transport
  returns.  Let moreover the request be one that can be sent (its URI is a SIP URI with a parameter set,
  its first Route is a SIP URI, and the parameters \<open>transport\<close> and \<open>received\<close> have values where they are
  present) and the same hold of the Contact and Record-Route of the responses.  Then every request
  that the transaction has sent can be sent; \<open>Send\<close> of every reachable transport layer, with a
  name service whose answers are not empty, does not panic on such a request; and it leaves a request
  that can be sent and is ready, so that this holds for retransmissions too.\<close>

theorem invite_client_no_panic:
  assumes "fsm_lib define_fsm spin" and "NewClientTx rand rel req = Ok tx0" and "IsInvite (corigin tx0)"
    and "request_ready (corigin tx0)" and "client_reach define_fsm spin regular tx0 s"
    and "regular ev" and "client_enabled ev s"
  shows "client_exec define_fsm spin E ev s \<noteq> Panic s' \<and> client_exec define_fsm spin E ev s \<noteq> Diverge \<and>
    (sendable (corigin tx0) \<and> client_reach define_fsm spin answered tx0 s \<and> answered ev \<longrightarrow>
      ends_in (\<lambda>(_, tx). \<forall>m\<in>set (csent tx). \<exists>r. m = Req r \<and> sendable r) (client_exec define_fsm spin E ev s)) \<and>
    (\<forall>N T r. tp_reach T \<and> srv_names N \<and> sendable r \<longrightarrow>
      (\<exists>res r' T'. layer_Send N (Req r) T = (res, Req r', T') \<and> res \<noteq> Crash \<and> sendable r' \<and>
        (request_ready r \<longrightarrow> request_ready r')))"
proof -
  note lib = client_lib.intro [OF assms(1)] and new = NewClientTx_new [OF assms(2)] assms(3,4)
  have sent: "ends_in (\<lambda>(_, tx). \<forall>m\<in>set (csent tx). \<exists>r. m = Req r \<and> sendable r) (client_exec define_fsm spin E ev s)"
    if "sendable (corigin tx0)" "client_reach define_fsm spin answered tx0 s" "answered ev"
  proof -
    have "sends_ok tx0" using that(1) new(1) NewClientTx_sent [OF assms(2)] by (simp add: sends_ok_def new_client_def)
    from client_lib.answered_reach [OF lib that(2) new this]
    have "invite_inv tx0 (fst s, snd s)" "sends_ok (snd s)" by simp_all
    from client_lib.sends_ok_event [OF lib new(1,2) this that(3), of E] assms(7)
    have "ends_in (\<lambda>(_, t). sends_ok t) (client_exec define_fsm spin E ev s)" by simp
    then show ?thesis by (rule ends_in_mono) (auto intro: sends_ok_sent)
  qed
  show ?thesis
    using invite_client_event_ends [OF assms] sent layer_Send_sendable by simp
qed

text \<open>A call to a URI with a parameter set, answered with a refusal.\<close>

definition ex_call :: request where
  "ex_call = (ex_request INVITE)\<lparr>recipient := Some (SipUri (ex_uri\<lparr>FUriParams := Some NewParams\<rparr>))\<rparr>"

definition ex_calling :: clientTx where
  "ex_calling = (ex_client ex_call)\<lparr>cfsm := Some \<lparr>fsm_states = invite_client_states,
     fsm_current = client_state_calling\<rparr>, csent := [Req ex_call]\<rparr>"

lemma ex_call_ok [simp]: "hdrs ex_call = hdrs (ex_request INVITE)" "IsInvite ex_call" "request_ready ex_call" "sendable ex_call"
proof -
  show h: "hdrs ex_call = hdrs (ex_request INVITE)" by (simp add: ex_call_def)
  show "IsInvite ex_call" using ex_invite(1) by (simp add: IsInvite_def ex_call_def)
  have t: "tp ex_call \<noteq> []" "src ex_call \<noteq> []" "dest ex_call \<noteq> []" "recipient ex_call \<noteq> None"
    by (simp_all add: ex_call_def ex_request_def strings_ToUpper_def)
  have ready: "request_ready (ex_request INVITE)" by (rule ex_ready)
  then show "request_ready ex_call"
    using t by (simp add: request_ready_def h request_Transport_def request_Source_def request_Destination_def)
  have "params_Get (params_Add ''branch'' (Some ''z9hG4bK.1'') NewParams) ''received'' = None"
    "params_wf (params_Add ''branch'' (Some ''z9hG4bK.1'') NewParams)"
    by (simp_all add: pd.get_add pd.get_empty pd.invar_add)
  then have "sent_by_ok ex_hop" by (simp add: sent_by_ok_def ex_hop_def)
  moreover have "GetHeaders ''Route'' (hdrs ex_call) = []"
    by (simp add: h ex_request_def NewRequest_def GetHeaders_newHeaders ex_headers_def)
  ultimately show "sendable ex_call"
    using ready
    by (simp add: sendable_def h request_ready_def routes_ok_def)
       (simp add: ex_call_def ex_uri_def usable_params_def pd.get_empty)
qed

lemma ex_call_created: "NewClientTx [] (\<lambda>_. False) ex_call = Ok (ex_client ex_call)"
proof -
  have "map_first_hop (with_branch []) (hdrs (ex_request INVITE)) = hdrs (ex_request INVITE)"
    using arg_cong [OF ex_prepare [of "[]" INVITE], of hdrs] by (simp add: prepareClientRequest_def)
  then have "prepareClientRequest [] ex_call = ex_call"
    by (simp add: prepareClientRequest_def)
  moreover have "request_Transport ex_call = request_Transport (ex_request INVITE)" "rmethod ex_call = rmethod (ex_request INVITE)"
    by (simp_all add: ex_call_def request_Transport_def ex_request_def strings_ToUpper_def)
  ultimately show ?thesis
    using ex_invite_created
    by (auto simp: NewClientTx_def Let_def ex_prepare ex_client_def split: res.splits)
qed

lemma ex_call_reach:
  assumes "P EvInit"
  shows "client_reach fsm_Define fsm_Spin P (ex_client ex_call) (Sending, ex_calling)"
proof (rule reach_step [OF reach_new, of P EvInit])
  show "client_exec fsm_Define fsm_Spin ex_env EvInit (Created, ex_client ex_call) = Ret () (Sending, ex_calling)"
    by (simp add: c_Init_send_def c_Send_def c_initFSM_def c_initInviteFSM_def cl.invite_machine ex_env_def
        init_phase_def ex_calling_def) (simp add: ex_client_def)
qed (simp_all add: assms)

theorem invite_client_no_panic_witness:
  "(\<forall>s'. client_exec fsm_Define fsm_Spin ex_env (EvReceive (Res (ex_response INVITE 486))) (Sending, ex_calling) \<noteq> Panic s') \<and>
   ends_in (\<lambda>(_, tx). \<forall>m\<in>set (csent tx). \<exists>r. m = Req r \<and> sendable r)
     (client_exec fsm_Define fsm_Spin ex_env (EvReceive (Res (ex_response INVITE 486))) (Sending, ex_calling)) \<and>
   fst (layer_Send sample_net (Req ex_call) sample_layer) \<noteq> Crash"
proof -
  let ?ev = "EvReceive (Res (ex_response INVITE 486))"
  have ev: "regular ?ev" "client_enabled ?ev (Sending, ex_calling)" by (simp_all add: regular_def)
  have "headers_wf (hdrs (ex_response INVITE 486))" using ex_ready(2) by (simp add: response_ready_def)
  then have "response_sendable (ex_response INVITE 486)"
    by (simp add: response_sendable_def hs_Contact_def)
       (simp add: ex_response_def NewResponse_def GetHeaders_newHeaders ex_headers_def)
  with ev have a: "answered ?ev" "answered EvInit" "regular EvInit" by (simp_all add: answered_def regular_def)
  have srv: "srv_names sample_net" by (simp add: srv_names_def sample_net_def)
  have o: "IsInvite (corigin (ex_client ex_call))" "request_ready (corigin (ex_client ex_call))"
    "sendable (corigin (ex_client ex_call))"
    by simp_all
  note main = invite_client_no_panic [OF fl.fsm_lib_axioms ex_call_created o(1,2) ex_call_reach [of regular, OF a(3)] ev, of ex_env]
  have "ends_in (\<lambda>(_, tx). \<forall>m\<in>set (csent tx). \<exists>r. m = Req r \<and> sendable r)
      (client_exec fsm_Define fsm_Spin ex_env ?ev (Sending, ex_calling))"
    using main o(3) ex_call_reach [of answered, OF a(2)] a(1) by blast
  moreover have "fst (layer_Send sample_net (Req ex_call) sample_layer) \<noteq> Crash"
    using main sample_layer_reached srv ex_call_ok(4) by (metis fst_conv)
  moreover have "client_exec fsm_Define fsm_Spin ex_env ?ev (Sending, ex_calling) \<noteq> Panic s'" for s'
    using main [of s'] by blast
  ultimately show ?thesis by blast
qed

end
