(* ===== verification/Auth.thy ===== *)
theory Auth
  imports Request_Response Go_Text
begin

text \<open>
  Digest authorization (\<^verbatim>\<open>sip/auth.go\<close>).  The hash \<open>md5hex\<close>, the hexadecimal form of
  MD5, is an argument of the definitions; every result holds for any hash function.
\<close>

section \<open>Challenges and credentials\<close>

record authorization =
  au_realm :: bytes
  au_nonce :: bytes
  au_algorithm :: bytes
  au_username :: bytes
  au_password :: bytes
  au_uri :: bytes
  au_response :: bytes
  au_method :: bytes
  au_qop :: bytes
  au_nc :: bytes
  au_cnonce :: bytes
  au_other :: "(bytes \<times> bytes) list"

text \<open>The matches of the expression \<^verbatim>\<open>([\w]+)="([^"]+)"\<close>, leftmost first: a run of word
  characters that is not followed by a quoted text of at least one byte matches nowhere.\<close>

definition word_char :: "char \<Rightarrow> bool" where
  "word_char c \<longleftrightarrow>
     (let b = (of_char c :: nat) in
      48 \<le> b \<and> b \<le> 57 \<or> 65 \<le> b \<and> b \<le> 90 \<or> 97 \<le> b \<and> b \<le> 122 \<or> b = 95)"

definition quoted_text :: "bytes \<Rightarrow> (bytes \<times> bytes) option" where
  "quoted_text s =
     (case s of
        e # q # t \<Rightarrow>
          if e = CHR ''='' \<and> q = quote \<and> takeWhile (\<lambda>c. c \<noteq> quote) t \<noteq> [] \<and> dropWhile (\<lambda>c. c \<noteq> quote) t \<noteq> []
          then Some (takeWhile (\<lambda>c. c \<noteq> quote) t, tl (dropWhile (\<lambda>c. c \<noteq> quote) t))
          else None
      | _ \<Rightarrow> None)"

lemma quoted_text_shorter: "quoted_text s = Some (v, t) \<Longrightarrow> length t < length s"
proof -
  assume q: "quoted_text s = Some (v, t)"
  then obtain a b u where "s = a # b # u" "t = tl (dropWhile (\<lambda>c. c \<noteq> quote) u)"
    by (auto simp: quoted_text_def split: list.splits if_splits)
  moreover have "length (dropWhile (\<lambda>c. c \<noteq> quote) u) \<le> length u" by (rule length_dropWhile_le)
  ultimately show ?thesis by simp
qed

function find_pairs :: "bytes \<Rightarrow> (bytes \<times> bytes) list" where
  "find_pairs [] = []"
| "find_pairs (c # cs) =
     (if word_char c then
        let key = takeWhile word_char (c # cs); rest = dropWhile word_char cs in
        case quoted_text rest of
          Some (v, t) \<Rightarrow> (key, v) # find_pairs t
        | None \<Rightarrow> find_pairs rest
      else find_pairs cs)"
  by pat_completeness auto
termination
proof (relation "measure length")
  have le: "length (dropWhile word_char cs) \<le> length cs" for cs by (rule length_dropWhile_le)
  show "\<And>c cs key rest. word_char c \<Longrightarrow> key = takeWhile word_char (c # cs) \<Longrightarrow> rest = dropWhile word_char cs \<Longrightarrow>
      quoted_text rest = None \<Longrightarrow> (rest, c # cs) \<in> measure length"
    using le by (simp add: le_imp_less_Suc)
  show "\<And>c cs key rest a v t. word_char c \<Longrightarrow> key = takeWhile word_char (c # cs) \<Longrightarrow> rest = dropWhile word_char cs \<Longrightarrow>
      quoted_text rest = Some a \<Longrightarrow> (v, t) = a \<Longrightarrow> (t, c # cs) \<in> measure length"
    using le by (fastforce dest: quoted_text_shorter simp: less_Suc_eq_le intro: less_imp_le less_le_trans)
qed simp_all

declare find_pairs.simps(2) [simp del]

definition Trim_blanks :: "bytes \<Rightarrow> bytes" where
  "Trim_blanks s = rev (dropWhile (\<lambda>c. c = CHR '' '') (rev (dropWhile (\<lambda>c. c = CHR '' '') s)))"

definition set_pair :: "bytes \<times> bytes \<Rightarrow> authorization \<Rightarrow> authorization" where
  "set_pair = (\<lambda>(k, v) auth.
     if k = ''realm'' then auth\<lparr>au_realm := v\<rparr>
     else if k = ''algorithm'' then auth\<lparr>au_algorithm := v\<rparr>
     else if k = ''nonce'' then auth\<lparr>au_nonce := v\<rparr>
     else if k = ''username'' then auth\<lparr>au_username := v\<rparr>
     else if k = ''uri'' then auth\<lparr>au_uri := v\<rparr>
     else if k = ''response'' then auth\<lparr>au_response := v\<rparr>
     else if k = ''qop'' then
       (if list_ex (\<lambda>w. Trim_blanks w = ''auth'' \<or> Trim_blanks w = ''auth-int'') (strings_Split v '','')
        then auth\<lparr>au_qop := ''auth''\<rparr> else auth)
     else if k = ''nc'' then auth\<lparr>au_nc := v\<rparr>
     else if k = ''cnonce'' then auth\<lparr>au_cnonce := v\<rparr>
     else auth\<lparr>au_other := AList.update k v (au_other auth)\<rparr>)"

definition no_auth :: authorization where
  "no_auth =
     \<lparr>au_realm = [], au_nonce = [], au_algorithm = ''MD5'', au_username = [], au_password = [], au_uri = [],
      au_response = [], au_method = [], au_qop = [], au_nc = [], au_cnonce = [], au_other = []\<rparr>"

definition AuthFromValue :: "bytes \<Rightarrow> authorization" where
  "AuthFromValue v = fold set_pair (find_pairs v) no_auth"

definition calcResponse ::
  "(bytes \<Rightarrow> bytes) \<Rightarrow> bytes \<Rightarrow> bytes \<Rightarrow> bytes \<Rightarrow> bytes \<Rightarrow> bytes \<Rightarrow> bytes \<Rightarrow> bytes \<Rightarrow> bytes \<Rightarrow> bytes \<Rightarrow> bytes" where
  "calcResponse md5hex username realm password m uri nonce qop cnonce nc =
     (let a1 = md5hex (username @ '':'' @ realm @ '':'' @ password);
          a2 = md5hex (m @ '':'' @ uri)
      in md5hex (a1 @ '':'' @ nonce @ '':''
           @ (if qop \<noteq> [] then nc @ '':'' @ cnonce @ '':'' @ qop @ '':'' else []) @ a2))"

definition CalcResponse :: "(bytes \<Rightarrow> bytes) \<Rightarrow> authorization \<Rightarrow> bytes" where
  "CalcResponse md5hex auth =
     calcResponse md5hex (au_username auth) (au_realm auth) (au_password auth) (au_method auth) (au_uri auth)
       (au_nonce auth) (au_qop auth) (au_cnonce auth) (au_nc auth)"

definition in_quotes :: "bytes \<Rightarrow> bytes" where
  "in_quotes s = quote # s @ [quote]"

definition Authorization_String :: "authorization \<Rightarrow> bytes" where
  "Authorization_String auth =
     ''Digest realm='' @ in_quotes (au_realm auth) @ '',algorithm='' @ au_algorithm auth
     @ '',nonce='' @ in_quotes (au_nonce auth) @ '',username='' @ in_quotes (au_username auth)
     @ '',uri='' @ in_quotes (au_uri auth) @ '',response='' @ in_quotes (au_response auth)
     @ (if au_qop auth = ''auth''
        then '',qop='' @ au_qop auth @ '',nc='' @ au_nc auth @ '',cnonce='' @ in_quotes (au_cnonce auth)
        else [])"

section \<open>Authorizing a request\<close>

datatype auth_error = UserIsNil | AuthenticateNotFound

text \<open>The credentials for a challenge.\<close>

definition make_credentials ::
  "(bytes \<Rightarrow> bytes) \<Rightarrow> bytes \<Rightarrow> bytes \<Rightarrow> bytes \<Rightarrow> bytes \<Rightarrow> maybe_string \<Rightarrow> authorization" where
  "make_credentials md5hex challenge m uri user password =
     (let pw = (case password of None \<Rightarrow> [] | Some p \<Rightarrow> p);
          a0 = (AuthFromValue challenge)\<lparr>au_method := m, au_uri := uri, au_username := user, au_password := pw\<rparr>;
          a1 = (if au_qop a0 = ''auth''
                then a0\<lparr>au_nc := ''00000001'', au_cnonce := md5hex (user @ uri @ pw)\<rparr> else a0)
      in a1\<lparr>au_response := CalcResponse md5hex a1\<rparr>)"

text \<open>The header is replaced under the name it has in the request, or appended.\<close>

definition put_authorization :: "bytes \<Rightarrow> bytes \<Rightarrow> headers \<Rightarrow> headers may_panic" where
  "put_authorization name v hs =
     (case GetHeaders name hs of
        [] \<Rightarrow> Ok (AppendHeader (GenericHeader \<lparr>HeaderName = name, Contents = v\<rparr>) hs)
      | h # _ \<Rightarrow>
          (case header_Clone h of
             GenericHeader g \<Rightarrow> Ok (ReplaceHeaders (HeaderName g) [GenericHeader (g\<lparr>Contents := v\<rparr>)] hs)
           | _ \<Rightarrow> Crash))"

text \<open>A new branch, and the next sequence number in a CSeq header of its own.\<close>

definition next_attempt :: "bytes \<Rightarrow> headers \<Rightarrow> headers may_panic" where
  "next_attempt branch hs =
     res_bind
       (case hs_ViaHop hs of
          None \<Rightarrow> Ok hs
        | Some hop \<Rightarrow> if HParams hop = None then Crash else Ok (map_first_hop (set_branch branch) hs))
       (\<lambda>hs1. Ok (case hs_CSeq hs1 of
                    None \<Rightarrow> hs1
                  | Some c \<Rightarrow> ReplaceHeaders ''CSeq'' [CSeq (c\<lparr>SeqNo := SeqNo c + 1\<rparr>)] hs1))"

definition AuthorizeRequest ::
  "(bytes \<Rightarrow> bytes) \<Rightarrow> bytes \<Rightarrow> request \<Rightarrow> response \<Rightarrow> maybe_string \<Rightarrow> maybe_string \<Rightarrow> (auth_error, request) res" where
  "AuthorizeRequest md5hex rand req res user password =
     (case user of
        None \<Rightarrow> Err UserIsNil
      | Some u \<Rightarrow>
          let (authenticate, authorize) =
                (if rstatus res = 401 then (''WWW-Authenticate'', ''Authorization'')
                 else (''Proxy-Authenticate'', ''Proxy-Authorization''))
          in case GetHeaders authenticate (hdrs res) of
               [] \<Rightarrow> Err AuthenticateNotFound
             | h # _ \<Rightarrow>
                 (case (h, recipient req) of
                    (GenericHeader g, Some r) \<Rightarrow>
                      let auth = make_credentials md5hex (Contents g) (rmethod req) (uri_String r) u password in
                      (case res_bind (put_authorization authorize (Authorization_String auth) (hdrs req))
                              (next_attempt (GenerateBranch rand)) of
                         Ok hs \<Rightarrow> Ok (req\<lparr>hdrs := hs\<rparr>)
                       | _ \<Rightarrow> Crash)
                  | _ \<Rightarrow> Crash))"

end
