(* ===== verification/AuthProps.thy ===== *)
theory AuthProps
  imports Auth
begin

text \<open>
  What the digest code does: reading printed credentials loses the fields that are printed
  without quotes, the credentials of a client pass the check of a server that knows the password
  unless the challenge asked for a quality of protection, and authorizing a request changes its
  authorization header, its branch and its sequence number and nothing else.
\<close>

section \<open>Reading printed pairs\<close>

lemma quote_char: "quote = CHR 0x22"
  by code_simp

lemma quote_not_word: "\<not> word_char quote" "\<not> word_char CHR ''=''" "\<not> word_char CHR '',''" "\<not> word_char CHR '' ''"
  by code_simp+

lemma find_pairs_other [simp]: "\<not> word_char c \<Longrightarrow> find_pairs (c # s) = find_pairs s"
  by (simp add: find_pairs.simps(2))

lemma find_pairs_word:
  assumes "key \<noteq> []" and "list_all word_char key" and "t = [] \<or> \<not> word_char (hd t)"
  shows "find_pairs (key @ t) =
    (case quoted_text t of Some (v, u) \<Rightarrow> (key, v) # find_pairs u | None \<Rightarrow> find_pairs t)"
proof -
  obtain c cs where key: "key = c # cs" using assms(1) by (cases key) auto
  have "takeWhile word_char (key @ t) = key" "dropWhile word_char (cs @ t) = t"
    using assms key by (cases t; auto simp: list_all_iff takeWhile_append dropWhile_append)+
  with assms key show ?thesis by (simp add: find_pairs.simps(2) split: option.split)
qed

lemma find_pairs_pair:
  assumes "key \<noteq> []" and "list_all word_char key" and "quote \<notin> set v"
  shows "find_pairs (key @ CHR ''='' # in_quotes v @ t) = (if v = [] then [] else [(key, v)]) @ find_pairs t"
proof -
  have "takeWhile (\<lambda>c. c \<noteq> quote) (v @ quote # t) = v" "dropWhile (\<lambda>c. c \<noteq> quote) (v @ quote # t) = quote # t"
    using assms(3) by (induction v) auto
  then have "quoted_text (CHR ''='' # in_quotes v @ t) = (if v = [] then None else Some (v, t))"
    by (simp add: quoted_text_def in_quotes_def)
  then show ?thesis
    using find_pairs_word [OF assms(1,2), of "CHR ''='' # in_quotes v @ t"]
    by (simp add: quote_not_word in_quotes_def)
qed

lemma quoted_text_None: "s = [] \<or> hd s \<noteq> CHR ''='' \<Longrightarrow> quoted_text s = None"
  by (auto simp: quoted_text_def split: list.splits)

lemma find_pairs_plain:
  assumes "CHR ''='' \<notin> set w" and "t = [] \<or> hd t = CHR '',''"
  shows "find_pairs (w @ t) = find_pairs t"
  using assms(1)
proof (induction w rule: length_induct)
  case (1 w)
  show ?case
  proof (cases w)
    case (Cons c cs)
    show ?thesis
    proof (cases "word_char c")
      case False
      with Cons 1 show ?thesis by simp
    next
      case True
      let ?k = "takeWhile word_char w" and ?r = "dropWhile word_char w"
      have r: "?r @ t = [] \<or> \<not> word_char (hd (?r @ t)) \<and> hd (?r @ t) \<noteq> CHR ''=''"
      proof (cases "?r = []")
        case True
        then have rt: "?r @ t = t" by simp
        show ?thesis unfolding rt using assms(2) by (auto simp: quote_not_word)
      next
        case False
        then have "\<not> word_char (hd ?r)" by (rule hd_dropWhile)
        moreover have "hd ?r \<in> set w" using False by (metis hd_in_set set_dropWhileD)
        ultimately show ?thesis using False 1(2) by auto
      qed
      then have "quoted_text (?r @ t) = None" by (intro quoted_text_None) blast
      moreover have "?k \<noteq> []" "list_all word_char ?k"
        using Cons True by (auto simp: list_all_iff dest: set_takeWhileD)
      ultimately have "find_pairs (?k @ (?r @ t)) = find_pairs (?r @ t)"
        using r by (subst find_pairs_word) auto
      moreover have "length ?r < length w" using Cons True length_dropWhile_le [of word_char cs] by simp
      moreover have "CHR ''='' \<notin> set ?r" using 1(2) by (meson set_dropWhileD)
      ultimately show ?thesis using 1(1) by (metis append_assoc takeWhile_dropWhile_id)
    qed
  qed simp
qed

lemma find_pairs_unquoted:
  assumes "key \<noteq> []" and "list_all word_char key" and "CHR ''='' \<notin> set w" "quote \<notin> set w" and "t = [] \<or> hd t = CHR '',''"
  shows "find_pairs (key @ CHR ''='' # w @ t) = find_pairs t"
proof -
  have "w @ t = [] \<or> hd (w @ t) \<noteq> quote"
    using assms(4,5) by (cases w) (auto simp: quote_char)
  then have "quoted_text (CHR ''='' # w @ t) = None" by (auto simp: quoted_text_def split: list.splits)
  then have "find_pairs (key @ CHR ''='' # w @ t) = find_pairs (w @ t)"
    using find_pairs_word [OF assms(1,2), of "CHR ''='' # w @ t"] by (simp add: quote_not_word)
  then show ?thesis using find_pairs_plain [OF assms(3,5)] by simp
qed

text \<open>The fields of credentials that can be printed.\<close>

definition printable_auth :: "authorization \<Rightarrow> bool" where
  "printable_auth a \<longleftrightarrow>
     list_all (\<lambda>s. quote \<notin> set s)
       [au_realm a, au_nonce a, au_username a, au_uri a, au_response a, au_cnonce a, au_algorithm a, au_nc a]
     \<and> CHR ''='' \<notin> set (au_algorithm a) \<and> CHR ''='' \<notin> set (au_nc a)"

lemma keys_word:
  "list_all word_char ''realm''" "list_all word_char ''algorithm''" "list_all word_char ''nonce''"
  "list_all word_char ''username''" "list_all word_char ''uri''" "list_all word_char ''response''"
  "list_all word_char ''qop''" "list_all word_char ''nc''" "list_all word_char ''cnonce''"
  by code_simp+

lemma find_pairs_credentials:
  assumes "printable_auth a"
  shows "find_pairs (Authorization_String a) =
    concat (map (\<lambda>(k, v). if v = [] then [] else [(k, v)])
      ([(''realm'', au_realm a), (''nonce'', au_nonce a), (''username'', au_username a), (''uri'', au_uri a),
        (''response'', au_response a)] @ (if au_qop a = ''auth'' then [(''cnonce'', au_cnonce a)] else [])))"
proof -
  note p = find_pairs_pair [where key = "''realm''"] find_pairs_pair [where key = "''nonce''"]
    find_pairs_pair [where key = "''username''"] find_pairs_pair [where key = "''uri''"]
    find_pairs_pair [where key = "''response''"] find_pairs_pair [where key = "''cnonce''" and t = "[]"]
  have d: "find_pairs (''Digest '' @ t) = find_pairs t" for t
  proof -
    have "list_all word_char ''Digest''" by code_simp
    moreover have "quoted_text (CHR '' '' # t) = None" by (auto simp: quoted_text_def split: list.splits)
    ultimately show ?thesis
      using find_pairs_word [of "''Digest''" "CHR '' '' # t"] by (simp add: quote_not_word)
  qed
  have q: "find_pairs (''qop=auth,'' @ t) = find_pairs t" for t
    using find_pairs_unquoted [of "''qop''" "''auth''" "CHR '','' # t"] keys_word(7)
    by (simp add: quote_char quote_not_word)
  show ?thesis
    using assms unfolding printable_auth_def Authorization_String_def
    by (simp add: d [simplified] q [simplified] p [simplified] keys_word [simplified] quote_not_word
        find_pairs_unquoted [where key = "''algorithm''", simplified]
        find_pairs_unquoted [where key = "''nc''", simplified])
qed

section \<open>Digest authentication\<close>

text \<open>The check of a server that knows the password (\<open>OnRegister\<close> of \<^verbatim>\<open>gb28181\<close>): all other
  inputs of the digest come from the credentials themselves.\<close>

definition check_credentials :: "(bytes \<Rightarrow> bytes) \<Rightarrow> bytes \<Rightarrow> bytes \<Rightarrow> bytes \<Rightarrow> bool" where
  "check_credentials md5hex m password authHeader \<longleftrightarrow>
     (let auth = (AuthFromValue authHeader)\<lparr>au_method := m, au_password := password\<rparr>
      in CalcResponse md5hex auth = au_response auth)"

lemma fold_set_pair:
  "fold set_pair (concat (map (\<lambda>(k, v). if v = [] then [] else [(k, v)]) l)) a =
     fold (\<lambda>(k, v) a. if v = [] then a else set_pair (k, v) a) l a"
  by (induction l arbitrary: a) auto

lemma set_pair_fields:
  "au_realm a = [] \<Longrightarrow> (if v = [] then a else set_pair (''realm'', v) a) = a\<lparr>au_realm := v\<rparr>"
  "au_nonce a = [] \<Longrightarrow> (if v = [] then a else set_pair (''nonce'', v) a) = a\<lparr>au_nonce := v\<rparr>"
  "au_username a = [] \<Longrightarrow> (if v = [] then a else set_pair (''username'', v) a) = a\<lparr>au_username := v\<rparr>"
  "au_uri a = [] \<Longrightarrow> (if v = [] then a else set_pair (''uri'', v) a) = a\<lparr>au_uri := v\<rparr>"
  "au_response a = [] \<Longrightarrow> (if v = [] then a else set_pair (''response'', v) a) = a\<lparr>au_response := v\<rparr>"
  "au_cnonce a = [] \<Longrightarrow> (if v = [] then a else set_pair (''cnonce'', v) a) = a\<lparr>au_cnonce := v\<rparr>"
  by (cases "v = []"; simp add: set_pair_def)+

lemma no_auth_fields [simp]:
  "au_realm no_auth = []" "au_nonce no_auth = []" "au_username no_auth = []" "au_uri no_auth = []"
  "au_response no_auth = []" "au_cnonce no_auth = []" "au_qop no_auth = []" "au_nc no_auth = []"
  "au_algorithm no_auth = ''MD5''" "au_method no_auth = []" "au_password no_auth = []"
  by (simp_all add: no_auth_def)

lemma AuthFromValue_print:
  assumes "printable_auth a"
  shows "AuthFromValue (Authorization_String a) =
    no_auth\<lparr>au_realm := au_realm a, au_nonce := au_nonce a, au_username := au_username a, au_uri := au_uri a,
      au_response := au_response a, au_cnonce := (if au_qop a = ''auth'' then au_cnonce a else [])\<rparr>"
proof -
  have "no_auth\<lparr>au_cnonce := []\<rparr> = no_auth" by (simp add: no_auth_def)
  then have "no_auth\<lparr>au_realm := r, au_nonce := n, au_username := u, au_uri := i, au_response := p, au_cnonce := []\<rparr> =
      no_auth\<lparr>au_realm := r, au_nonce := n, au_username := u, au_uri := i, au_response := p\<rparr>" for r n u i p
    by (simp add: no_auth_def)
  then show ?thesis
    unfolding AuthFromValue_def find_pairs_credentials [OF assms] fold_set_pair
    by (simp add: set_pair_fields del: if_split)
qed

lemma find_pairs_values: "(k, v) \<in> set (find_pairs s) \<Longrightarrow> quote \<notin> set v"
proof (induction s rule: find_pairs.induct)
  case (2 c cs)
  have q: "quote \<notin> set w" if "quoted_text t = Some (w, u)" for t w u
    using that by (auto simp: quoted_text_def dest: set_takeWhileD split: list.splits if_splits)
  from 2 show ?case
    by (fastforce simp: find_pairs.simps(2) Let_def dest: q split: if_splits option.splits)
qed simp

lemma AuthFromValue_keeps:
  assumes "P no_auth" and "\<And>k v a. P a \<Longrightarrow> quote \<notin> set v \<Longrightarrow> P (set_pair (k, v) a)"
  shows "P (AuthFromValue s)"
proof -
  have "P a \<Longrightarrow> \<forall>(k, v)\<in>set l. quote \<notin> set v \<Longrightarrow> P (fold set_pair l a)" for l a
    by (induction l arbitrary: a) (use assms(2) in auto)
  then show ?thesis unfolding AuthFromValue_def using assms(1) find_pairs_values by blast
qed

lemma AuthFromValue_plain:
  "quote \<notin> set (au_realm (AuthFromValue s))" "quote \<notin> set (au_nonce (AuthFromValue s))"
  "quote \<notin> set (au_algorithm (AuthFromValue s))" "quote \<notin> set (au_cnonce (AuthFromValue s))"
  "quote \<notin> set (au_nc (AuthFromValue s))"
  by (rule AuthFromValue_keeps; simp add: set_pair_def quote_char)+

lemma AuthFromValue_qop: "au_qop (AuthFromValue s) = [] \<or> au_qop (AuthFromValue s) = ''auth''"
  by (rule AuthFromValue_keeps; simp add: set_pair_def)

lemma make_credentials_printable:
  assumes "\<And>x. quote \<notin> set (md5hex x)" and "quote \<notin> set user" and "quote \<notin> set uri"
    and "CHR ''='' \<notin> set (au_algorithm (AuthFromValue c))" and "CHR ''='' \<notin> set (au_nc (AuthFromValue c))"
  shows "printable_auth (make_credentials md5hex c m uri user pw)"
  using assms AuthFromValue_plain [of c]
  by (auto simp: printable_auth_def make_credentials_def Let_def CalcResponse_def calcResponse_def quote_char)

lemma check_credentials_made:
  assumes "\<And>x. quote \<notin> set (md5hex x)" and "quote \<notin> set user" and "quote \<notin> set uri"
    and "CHR ''='' \<notin> set (au_algorithm (AuthFromValue c))" and "CHR ''='' \<notin> set (au_nc (AuthFromValue c))"
  shows "check_credentials md5hex m pw (Authorization_String (make_credentials md5hex c m uri user (Some pw))) \<longleftrightarrow>
    (let a1 = md5hex (user @ '':'' @ au_realm (AuthFromValue c) @ '':'' @ pw);
         a2 = md5hex (m @ '':'' @ uri); nonce = au_nonce (AuthFromValue c)
     in au_qop (AuthFromValue c) = ''auth'' \<longrightarrow>
          md5hex (a1 @ '':'' @ nonce @ '':'' @ a2) =
          md5hex (a1 @ '':'' @ nonce @ '':'' @ ''00000001:'' @ md5hex (user @ uri @ pw) @ '':auth:'' @ a2))"
proof -
  note p = AuthFromValue_print [OF make_credentials_printable [OF assms, where m = m and pw = "Some pw"]]
  show ?thesis
    using AuthFromValue_qop [of c]
    unfolding check_credentials_def p
    by (auto simp: make_credentials_def CalcResponse_def calcResponse_def no_auth_def Let_def)
qed

text \<open>C12: Credentials that \<open>AuthorizeRequest\<close> makes for a challenge pass the check of a server that
  knows the password, when the challenge has no \<^verbatim>\<open>qop\<close>.  When it asks for \<^verbatim>\<open>qop="auth"\<close> the
  client prints \<^verbatim>\<open>qop\<close> and \<^verbatim>\<open>nc\<close> without quotes, the server does not read them, and the check
  compares two different digests.\<close>

theorem digest_check:
  assumes "\<And>x. quote \<notin> set (md5hex x)" and "quote \<notin> set user" and "quote \<notin> set uri"
    and "CHR ''='' \<notin> set (au_algorithm (AuthFromValue c))" and "CHR ''='' \<notin> set (au_nc (AuthFromValue c))"
  shows "check_credentials md5hex m pw (Authorization_String (make_credentials md5hex c m uri user (Some pw))) \<longleftrightarrow>
    (let a1 = md5hex (user @ '':'' @ au_realm (AuthFromValue c) @ '':'' @ pw);
         a2 = md5hex (m @ '':'' @ uri); nonce = au_nonce (AuthFromValue c)
     in au_qop (AuthFromValue c) = ''auth'' \<longrightarrow>
          md5hex (a1 @ '':'' @ nonce @ '':'' @ a2) =
          md5hex (a1 @ '':'' @ nonce @ '':'' @ ''00000001:'' @ md5hex (user @ uri @ pw) @ '':auth:'' @ a2))"
  using check_credentials_made [OF assms] .

definition sample_challenge :: bytes where
  "sample_challenge = ''Digest realm='' @ in_quotes ''r'' @ '', nonce='' @ in_quotes ''n''"

definition sample_qop_challenge :: bytes where
  "sample_qop_challenge = sample_challenge @ '', qop='' @ in_quotes ''auth''"

theorem digest_check_witness:
  "check_credentials (\<lambda>s. ''h'') ''REGISTER'' ''secret''
     (Authorization_String (make_credentials (\<lambda>s. ''h'') sample_challenge ''REGISTER'' ''sip:a'' ''bob'' (Some ''secret''))) \<and>
   \<not> check_credentials (\<lambda>s. filter (\<lambda>c. c \<noteq> quote) s) ''REGISTER'' ''secret''
     (Authorization_String (make_credentials (\<lambda>s. filter (\<lambda>c. c \<noteq> quote) s) sample_qop_challenge
        ''REGISTER'' ''sip:a'' ''bob'' (Some ''secret'')))"
proof -
  have c: "AuthFromValue sample_challenge = no_auth\<lparr>au_realm := ''r'', au_nonce := ''n''\<rparr>"
    and d: "AuthFromValue sample_qop_challenge = no_auth\<lparr>au_realm := ''r'', au_nonce := ''n'', au_qop := ''auth''\<rparr>"
    by code_simp+
  show ?thesis
    using digest_check [of "\<lambda>s. ''h''" "''bob''" "''sip:a''" sample_challenge "''REGISTER''" "''secret''"]
      digest_check [of "\<lambda>s. filter (\<lambda>c. c \<noteq> quote) s" "''bob''" "''sip:a''" sample_qop_challenge "''REGISTER''" "''secret''"]
    by (simp add: c d quote_char Let_def)
qed

section \<open>Authorizing a request\<close>

lemma GetHeaders_Replace:
  assumes "headers_wf hs"
  shows "GetHeaders n (ReplaceHeaders m l hs) =
    (if strings_ToLower n = strings_ToLower m \<and> GetHeaders m hs \<noteq> [] then l else GetHeaders n hs)"
  using headers_wf_group [OF assms]
  by (auto simp: GetHeaders_def ReplaceHeaders_def Let_def map_of_update split: option.splits)

lemma ReplaceHeaders_wf:
  assumes "headers_wf hs" and "l \<noteq> []" and "\<forall>h\<in>set l. header_key h = strings_ToLower m"
  shows "headers_wf (ReplaceHeaders m l hs)"
  using assms by (auto simp: ReplaceHeaders_def Let_def intro!: headers_wf_update_old split: option.split)

lemma put_authorization_Ok:
  assumes wf: "headers_wf hs" and ok: "\<forall>h\<in>set (GetHeaders name hs). \<exists>g. h = GenericHeader g"
  shows "\<exists>hs' g. put_authorization name v hs = Ok hs' \<and> headers_wf hs' \<and> GetHeaders name hs' = [GenericHeader g] \<and>
    Contents g = v \<and> (\<forall>n. strings_ToLower n \<noteq> strings_ToLower name \<longrightarrow> GetHeaders n hs' = GetHeaders n hs)"
proof (cases "GetHeaders name hs")
  case Nil
  let ?h = "GenericHeader \<lparr>HeaderName = name, Contents = v\<rparr>"
  have "put_authorization name v hs = Ok (AppendHeader ?h hs)" by (simp add: put_authorization_def Nil)
  with Nil wf show ?thesis by (auto simp: GetHeaders_Append header_key_def intro: headers_wf_Append)
next
  case (Cons h l)
  then obtain g where h: "h = GenericHeader g" using ok by auto
  have name: "strings_ToLower (HeaderName g) = strings_ToLower name"
  proof -
    have "h \<in> set (headers_at hs (strings_ToLower name))" using Cons by (simp add: GetHeaders_at)
    then have "header_key h = strings_ToLower name" by (rule hm.get_nm [OF wf])
    then show ?thesis by (simp add: h header_key_def)
  qed
  let ?g = "GenericHeader_Clone g\<lparr>Contents := v\<rparr>"
  let ?hs = "ReplaceHeaders (HeaderName g) [GenericHeader ?g] hs"
  have "put_authorization name v hs = Ok ?hs"
    by (simp add: put_authorization_def Cons h GenericHeader_Clone_def)
  moreover have "headers_wf ?hs"
    using wf by (intro ReplaceHeaders_wf) (simp_all add: header_key_def GenericHeader_Clone_def)
  moreover have "GetHeaders (HeaderName g) hs \<noteq> []" using Cons name by (simp add: GetHeaders_at)
  ultimately show ?thesis using wf name by (auto simp: GetHeaders_Replace GenericHeader_Clone_def)
qed

lemma next_attempt_Ok:
  assumes wf: "headers_wf hs" and hop: "hs_ViaHop hs = Some hop" "HParams hop \<noteq> None" and c: "hs_CSeq hs = Some c"
  shows "\<exists>hs'. next_attempt b hs = Ok hs' \<and> headers_wf hs' \<and> hs_ViaHop hs' = Some (set_branch b hop) \<and>
    GetHeaders ''CSeq'' hs' = [CSeq (c\<lparr>SeqNo := SeqNo c + 1\<rparr>)] \<and>
    (\<forall>n. strings_ToLower n \<notin> {''via'', ''cseq''} \<longrightarrow> GetHeaders n hs' = GetHeaders n hs)"
proof -
  let ?hs = "map_first_hop (set_branch b) hs"
  let ?c = "CSeq (c\<lparr>SeqNo := SeqNo c + 1\<rparr>)"
  have wf1: "headers_wf ?hs" using wf by simp
  have cs: "GetHeaders ''CSeq'' ?hs = GetHeaders ''CSeq'' hs" by (rule GetHeaders_map_first_hop) simp
  then have "hs_CSeq ?hs = Some c" using c by (simp add: hs_CSeq_def)
  then have "next_attempt b hs = Ok (ReplaceHeaders ''CSeq'' [?c] ?hs)" using hop by (simp add: next_attempt_def)
  moreover have "headers_wf (ReplaceHeaders ''CSeq'' [?c] ?hs)"
    by (rule ReplaceHeaders_wf [OF wf1]) (simp_all add: header_key_def)
  moreover have "GetHeaders ''CSeq'' ?hs \<noteq> []" using cs c by (auto simp: hs_CSeq_def)
  moreover have "hs_ViaHop (ReplaceHeaders ''CSeq'' [?c] ?hs) = Some (set_branch b hop)"
    using hop(1) hs_ViaHop_map_first_hop [of "set_branch b" hs]
    by (simp add: hs_ViaHop_def hs_Via_def GetHeaders_Replace [OF wf1])
  ultimately show ?thesis
    using wf1 by (auto simp: GetHeaders_Replace GetHeaders_map_first_hop)
qed

lemma AuthorizeRequest_Ok:
  assumes wf: "headers_wf (hdrs req)" and hop: "hs_ViaHop (hdrs req) = Some hop" "HParams hop \<noteq> None"
    and c: "hs_CSeq (hdrs req) = Some c" and r: "recipient req = Some r"
    and auth: "\<forall>h\<in>set (GetHeaders ''Authorization'' (hdrs req)). \<exists>g. h = GenericHeader g"
    and res: "rstatus res = 401" "GetHeaders ''WWW-Authenticate'' (hdrs res) = GenericHeader ch # l"
  shows "\<exists>req' g. AuthorizeRequest md5hex rand req res (Some user) pw = Ok req' \<and> headers_wf (hdrs req') \<and>
    GetHeaders ''Authorization'' (hdrs req') = [GenericHeader g] \<and>
    Contents g = Authorization_String (make_credentials md5hex (Contents ch) (rmethod req) (uri_String r) user pw) \<and>
    GetHeaders ''CSeq'' (hdrs req') = [CSeq (c\<lparr>SeqNo := SeqNo c + 1\<rparr>)] \<and>
    hs_ViaHop (hdrs req') = Some (set_branch (GenerateBranch rand) hop) \<and>
    (\<forall>n. strings_ToLower n \<notin> {''via'', ''cseq'', ''authorization''} \<longrightarrow> GetHeaders n (hdrs req') = GetHeaders n (hdrs req)) \<and>
    rmethod req' = rmethod req \<and> recipient req' = recipient req \<and> body req' = body req"
proof -
  let ?v = "Authorization_String (make_credentials md5hex (Contents ch) (rmethod req) (uri_String r) user pw)"
  have low: "strings_ToLower ''Authorization'' = ''authorization''" by code_simp
  obtain hs1 g where p: "put_authorization ''Authorization'' ?v (hdrs req) = Ok hs1" "headers_wf hs1"
    "GetHeaders ''Authorization'' hs1 = [GenericHeader g]" "Contents g = ?v"
    and same: "\<And>n. strings_ToLower n \<noteq> ''authorization'' \<Longrightarrow> GetHeaders n hs1 = GetHeaders n (hdrs req)"
    using put_authorization_Ok [OF wf auth, of ?v] low by auto
  have "hs_ViaHop hs1 = Some hop" "hs_CSeq hs1 = Some c"
    using hop c same by (simp_all add: hs_ViaHop_def hs_Via_def hs_CSeq_def)
  from next_attempt_Ok [OF p(2) this(1) hop(2) this(2), of "GenerateBranch rand"]
  obtain hs2 where q: "next_attempt (GenerateBranch rand) hs1 = Ok hs2" "headers_wf hs2"
    "hs_ViaHop hs2 = Some (set_branch (GenerateBranch rand) hop)"
    "GetHeaders ''CSeq'' hs2 = [CSeq (c\<lparr>SeqNo := SeqNo c + 1\<rparr>)]"
    and same2: "\<And>n. strings_ToLower n \<notin> {''via'', ''cseq''} \<Longrightarrow> GetHeaders n hs2 = GetHeaders n hs1"
    by auto
  have "AuthorizeRequest md5hex rand req res (Some user) pw = Ok (req\<lparr>hdrs := hs2\<rparr>)"
    by (simp add: AuthorizeRequest_def res r p(1) q(1))
  with p q same same2 low show ?thesis by simp
qed

text \<open>C11: \<open>AuthorizeRequest\<close> on a request with a URI, a Via hop with parameters and a CSeq, and a 401
  response with a challenge, returns the request with one Authorization header, the credentials for
  the challenge, a new branch and the next sequence number (which wraps at 32 bits); every other
  header, the method, the URI and the body stay as they are.\<close>

theorem AuthorizeRequest_correct:
  assumes wf: "headers_wf (hdrs req)" and hop: "hs_ViaHop (hdrs req) = Some hop" "HParams hop \<noteq> None"
    and c: "hs_CSeq (hdrs req) = Some c" and r: "recipient req = Some r"
    and auth: "\<forall>h\<in>set (GetHeaders ''Authorization'' (hdrs req)). \<exists>g. h = GenericHeader g"
    and res: "rstatus res = 401" "GetHeaders ''WWW-Authenticate'' (hdrs res) = GenericHeader ch # l"
  shows "\<exists>req' g. AuthorizeRequest md5hex rand req res (Some user) pw = Ok req' \<and> headers_wf (hdrs req') \<and>
    GetHeaders ''Authorization'' (hdrs req') = [GenericHeader g] \<and>
    Contents g = Authorization_String (make_credentials md5hex (Contents ch) (rmethod req) (uri_String r) user pw) \<and>
    GetHeaders ''CSeq'' (hdrs req') = [CSeq (c\<lparr>SeqNo := SeqNo c + 1\<rparr>)] \<and>
    hs_ViaHop (hdrs req') = Some (set_branch (GenerateBranch rand) hop) \<and>
    (\<forall>n. strings_ToLower n \<notin> {''via'', ''cseq'', ''authorization''} \<longrightarrow> GetHeaders n (hdrs req') = GetHeaders n (hdrs req)) \<and>
    rmethod req' = rmethod req \<and> recipient req' = recipient req \<and> body req' = body req"
  using AuthorizeRequest_Ok [OF assms] .

definition sample_401 :: response where
  "sample_401 = NewResponse [] ''2'' ''SIP/2.0'' 401 ''Unauthorized''
     [GenericHeader \<lparr>HeaderName = ''WWW-Authenticate'', Contents = sample_challenge\<rparr>] []"

theorem AuthorizeRequest_witness:
  "\<exists>req'. AuthorizeRequest (\<lambda>s. ''h'') ''rand'' (ex_request ''REGISTER'') sample_401 (Some ''bob'') (Some ''secret'') = Ok req' \<and>
     GetHeaders ''CSeq'' (hdrs req') = [CSeq \<lparr>SeqNo = 2, MethodName = ''REGISTER''\<rparr>] \<and>
     hs_ViaHop (hdrs req') = Some (set_branch (GenerateBranch ''rand'') ex_hop)"
proof -
  have low: "strings_ToLower ''Authorization'' = ''authorization''" "strings_ToLower ''WWW-Authenticate'' = ''www-authenticate''"
    by code_simp+
  have r: "hdrs (ex_request ''REGISTER'') = newHeaders (ex_headers ''REGISTER'')"
    "recipient (ex_request ''REGISTER'') = Some (SipUri ex_uri)"
    by (simp_all add: ex_request_def NewRequest_def)
  have "GetHeaders ''Authorization'' (newHeaders (ex_headers ''REGISTER'')) = []"
    by (simp add: GetHeaders_newHeaders ex_headers_def low)
  moreover have "rstatus sample_401 = 401"
    "GetHeaders ''WWW-Authenticate'' (hdrs sample_401) =
      [GenericHeader \<lparr>HeaderName = ''WWW-Authenticate'', Contents = sample_challenge\<rparr>]"
    by (simp_all add: sample_401_def NewResponse_def GetHeaders_newHeaders header_key_def low)
  moreover have "HParams ex_hop \<noteq> None" by (simp add: ex_hop_def)
  ultimately show ?thesis
    using AuthorizeRequest_correct [of "ex_request ''REGISTER''" ex_hop "\<lparr>SeqNo = 1, MethodName = ''REGISTER''\<rparr>"
        "SipUri ex_uri" sample_401 "\<lparr>HeaderName = ''WWW-Authenticate'', Contents = sample_challenge\<rparr>" "[]"
        "\<lambda>s. ''h''" "''rand''" "''bob''" "Some ''secret''"] r
    by fastforce
qed

end
