(* ===== verification/Builder.thy ===== *)
theory Builder
  imports Parser_StreamProps
begin

text \<open>
  Addresses and dialog identifiers (\<^verbatim>\<open>sip/core.go\<close>) and the request builder
  (\<^verbatim>\<open>sip/builder.go\<close>).  A built request whose parts are printable goes through the
  printer and the stream parser unchanged.
\<close>

section \<open>Addresses\<close>

record sip_address =
  a_DisplayName :: maybe_string
  a_Uri :: "uri option"
  a_Params :: "headerParams option"

definition NewAddressFromFromHeader :: "addr_header \<Rightarrow> sip_address" where
  "NewAddressFromFromHeader from =
     \<lparr>a_DisplayName = DisplayName from, a_Uri = map_option uri_Clone (Address from),
      a_Params = map_option params_Clone (Params from)\<rparr>"

definition NewAddressFromToHeader :: "addr_header \<Rightarrow> sip_address" where
  "NewAddressFromToHeader to =
     \<lparr>a_DisplayName = DisplayName to, a_Uri = map_option uri_Clone (Address to),
      a_Params = map_option params_Clone (Params to)\<rparr>"

definition NewAddressFromContactHeader :: "contact_header \<Rightarrow> sip_address" where
  "NewAddressFromContactHeader cnt =
     \<lparr>a_DisplayName = CDisplayName cnt, a_Uri = Some (uri_Clone (CAddress cnt)),
      a_Params = map_option params_Clone (CParams cnt)\<rparr>"

definition Address_String :: "sip_address \<Rightarrow> bytes" where
  "Address_String addr =
     display_prefix (a_DisplayName addr) @ ''<'' @ fmt_uri (a_Uri addr) @ ''>''
     @ params_section '';'' (a_Params addr) CHR '';''"

definition Address_Clone :: "sip_address \<Rightarrow> sip_address" where
  "Address_Clone addr =
     \<lparr>a_DisplayName = a_DisplayName addr, a_Uri = map_option uri_Clone (a_Uri addr),
      a_Params = map_option params_Clone (a_Params addr)\<rparr>"

definition AsToHeader :: "sip_address \<Rightarrow> addr_header" where
  "AsToHeader addr =
     \<lparr>DisplayName = a_DisplayName addr, Address = map_option uri_Clone (a_Uri addr),
      Params = map_option params_Clone (a_Params addr)\<rparr>"

definition AsFromHeader :: "sip_address \<Rightarrow> addr_header" where
  "AsFromHeader addr =
     \<lparr>DisplayName = a_DisplayName addr, Address = map_option uri_Clone (a_Uri addr),
      Params = map_option params_Clone (a_Params addr)\<rparr>"

section \<open>Dialog identifiers\<close>

datatype dialog_error = MissingCallID | MissingTo | MissingToTag | MissingFrom | MissingFromTag

definition MakeDialogID :: "bytes \<Rightarrow> bytes \<Rightarrow> bytes \<Rightarrow> bytes" where
  "MakeDialogID callID innerID externalID = strings_Join [callID, innerID, externalID] ''__''"

text \<open>A tag of a header: its parameters must exist, and so must the value of the tag, which the
  code reads after both tags have been found.\<close>

definition header_tag :: "addr_header \<Rightarrow> maybe_string option may_panic" where
  "header_tag h = (case Params h of None \<Rightarrow> Crash | Some ps \<Rightarrow> Ok (params_Get ps ''tag''))"

definition MakeDialogIDFromMessage :: "headers \<Rightarrow> (dialog_error, bytes) res" where
  "MakeDialogIDFromMessage hs =
     (case hs_CallID hs of
        None \<Rightarrow> Err MissingCallID
      | Some callID \<Rightarrow>
          (case hs_To hs of
             None \<Rightarrow> Err MissingTo
           | Some to \<Rightarrow>
               (case header_tag to of
                  Ok None \<Rightarrow> Err MissingToTag
                | Ok (Some toTag) \<Rightarrow>
                    (case hs_From hs of
                       None \<Rightarrow> Err MissingFrom
                     | Some from \<Rightarrow>
                         (case header_tag from of
                            Ok None \<Rightarrow> Err MissingFromTag
                          | Ok (Some fromTag) \<Rightarrow>
                              (case (toTag, fromTag) of
                                 (Some t, Some f) \<Rightarrow> Ok (MakeDialogID callID t f)
                               | _ \<Rightarrow> Crash)
                          | _ \<Rightarrow> Crash))
                | _ \<Rightarrow> Crash)))"

section \<open>The builder\<close>

record request_builder =
  rb_protocol :: bytes
  rb_protocolVersion :: bytes
  rb_transport :: bytes
  rb_host :: bytes
  rb_method :: bytes
  rb_cseq :: cseq
  rb_recipient :: "uri option"
  rb_body :: bytes
  rb_callID :: bytes
  rb_via :: "via_hop list"
  rb_from :: "addr_header option"
  rb_to :: "addr_header option"
  rb_contact :: "contact_header option"
  rb_expires :: "32 word option"
  rb_userAgent :: "bytes option"
  rb_maxForwards :: "32 word option"
  rb_supported :: "bytes list option"
  rb_require :: "bytes list option"
  rb_allow :: "bytes list option"
  rb_contentType :: "bytes option"
  rb_accept :: "bytes option"
  rb_route :: "uri list option"
  rb_generic :: "(bytes \<times> header) list"

definition NewRequestBuilder :: "bytes \<Rightarrow> request_builder" where
  "NewRequestBuilder rand =
     \<lparr>rb_protocol = ''SIP'', rb_protocolVersion = ''2.0'', rb_transport = ''UDP'', rb_host = ''localhost'',
      rb_method = [], rb_cseq = \<lparr>SeqNo = 1, MethodName = []\<rparr>, rb_recipient = None, rb_body = [],
      rb_callID = rand, rb_via = [], rb_from = None, rb_to = None, rb_contact = None, rb_expires = None,
      rb_userAgent = Some ''GoSIP'', rb_maxForwards = Some 70, rb_supported = None, rb_require = None,
      rb_allow = None, rb_contentType = None, rb_accept = None, rb_route = None, rb_generic = []\<rparr>"

definition rb_SetTransport :: "bytes \<Rightarrow> request_builder \<Rightarrow> request_builder" where
  "rb_SetTransport t rb = rb\<lparr>rb_transport := (if t = [] then ''UDP'' else t)\<rparr>"

definition rb_SetHost :: "bytes \<Rightarrow> request_builder \<Rightarrow> request_builder" where
  "rb_SetHost h rb = rb\<lparr>rb_host := (if h = [] then ''localhost'' else h)\<rparr>"

definition rb_SetMethod :: "bytes \<Rightarrow> request_builder \<Rightarrow> request_builder" where
  "rb_SetMethod m rb = rb\<lparr>rb_method := m, rb_cseq := (rb_cseq rb)\<lparr>MethodName := m\<rparr>\<rparr>"

text \<open>The argument is a \<^verbatim>\<open>uint\<close>, cut to 32 bits.\<close>

definition rb_SetSeqNo :: "64 word \<Rightarrow> request_builder \<Rightarrow> request_builder" where
  "rb_SetSeqNo n rb = rb\<lparr>rb_cseq := (rb_cseq rb)\<lparr>SeqNo := ucast n\<rparr>\<rparr>"

definition rb_SetRecipient :: "uri \<Rightarrow> request_builder \<Rightarrow> request_builder" where
  "rb_SetRecipient u rb = rb\<lparr>rb_recipient := Some (uri_Clone u)\<rparr>"

definition rb_SetBody :: "bytes \<Rightarrow> request_builder \<Rightarrow> request_builder" where
  "rb_SetBody b rb = rb\<lparr>rb_body := b\<rparr>"

definition rb_SetCallID :: "bytes option \<Rightarrow> request_builder \<Rightarrow> request_builder" where
  "rb_SetCallID c rb = (case c of None \<Rightarrow> rb | Some v \<Rightarrow> rb\<lparr>rb_callID := v\<rparr>)"

definition rb_AddVia :: "via_hop \<Rightarrow> request_builder \<Rightarrow> request_builder" where
  "rb_AddVia via rb =
     (let hop = via\<lparr>
            ProtocolName := (if ProtocolName via = [] then rb_protocol rb else ProtocolName via),
            ProtocolVersion := (if ProtocolVersion via = [] then rb_protocolVersion rb else ProtocolVersion via),
            Transport := (if Transport via = [] then rb_transport rb else Transport via),
            Host := (if Host via = [] then rb_host rb else Host via),
            HParams := (case HParams via of None \<Rightarrow> Some NewParams | Some ps \<Rightarrow> Some ps)\<rparr>
      in rb\<lparr>rb_via := rb_via rb @ [hop]\<rparr>)"

fun uri_with_host :: "bytes \<Rightarrow> uri \<Rightarrow> uri" where
  "uri_with_host h (SipUri u) = SipUri (if FHost u = [] then u\<lparr>FHost := h\<rparr> else u)"
| "uri_with_host h u = u"

text \<open>An address for From, To and Contact: a copy, with the host of the builder where it has
  none; the code reads the host of a nil URI and panics.\<close>

definition builder_address :: "request_builder \<Rightarrow> sip_address \<Rightarrow> (maybe_string \<times> uri \<times> headerParams option) may_panic" where
  "builder_address rb addr =
     (let a = Address_Clone addr in
      case a_Uri a of
        None \<Rightarrow> Crash
      | Some u \<Rightarrow> Ok (a_DisplayName a, uri_with_host (rb_host rb) u, a_Params a))"

definition rb_SetFrom :: "sip_address option \<Rightarrow> request_builder \<Rightarrow> request_builder may_panic" where
  "rb_SetFrom addr rb =
     (case addr of
        None \<Rightarrow> Ok (rb\<lparr>rb_from := None\<rparr>)
      | Some a \<Rightarrow> res_bind (builder_address rb a) (\<lambda>(n, u, ps).
          Ok (rb\<lparr>rb_from := Some \<lparr>DisplayName = n, Address = Some u, Params = ps\<rparr>\<rparr>)))"

definition rb_SetTo :: "sip_address option \<Rightarrow> request_builder \<Rightarrow> request_builder may_panic" where
  "rb_SetTo addr rb =
     (case addr of
        None \<Rightarrow> Ok (rb\<lparr>rb_to := None\<rparr>)
      | Some a \<Rightarrow> res_bind (builder_address rb a) (\<lambda>(n, u, ps).
          Ok (rb\<lparr>rb_to := Some \<lparr>DisplayName = n, Address = Some u, Params = ps\<rparr>\<rparr>)))"

definition rb_SetContact :: "sip_address option \<Rightarrow> request_builder \<Rightarrow> request_builder may_panic" where
  "rb_SetContact addr rb =
     (case addr of
        None \<Rightarrow> Ok (rb\<lparr>rb_contact := None\<rparr>)
      | Some a \<Rightarrow> res_bind (builder_address rb a) (\<lambda>(n, u, ps).
          Ok (rb\<lparr>rb_contact := Some \<lparr>CDisplayName = n, CAddress = u, CParams = ps\<rparr>\<rparr>)))"

definition rb_SetExpires :: "32 word option \<Rightarrow> request_builder \<Rightarrow> request_builder" where
  "rb_SetExpires v rb = rb\<lparr>rb_expires := v\<rparr>"

definition rb_SetUserAgent :: "bytes option \<Rightarrow> request_builder \<Rightarrow> request_builder" where
  "rb_SetUserAgent v rb = rb\<lparr>rb_userAgent := v\<rparr>"

definition rb_SetMaxForwards :: "32 word option \<Rightarrow> request_builder \<Rightarrow> request_builder" where
  "rb_SetMaxForwards v rb = rb\<lparr>rb_maxForwards := v\<rparr>"

definition rb_SetAllow :: "bytes list option \<Rightarrow> request_builder \<Rightarrow> request_builder" where
  "rb_SetAllow methods rb = rb\<lparr>rb_allow := methods\<rparr>"

definition rb_SetSupported :: "bytes list \<Rightarrow> request_builder \<Rightarrow> request_builder" where
  "rb_SetSupported options rb = rb\<lparr>rb_supported := (if options = [] then None else Some options)\<rparr>"

definition rb_SetRequire :: "bytes list \<Rightarrow> request_builder \<Rightarrow> request_builder" where
  "rb_SetRequire options rb = rb\<lparr>rb_require := (if options = [] then None else Some options)\<rparr>"

definition rb_SetContentType :: "bytes option \<Rightarrow> request_builder \<Rightarrow> request_builder" where
  "rb_SetContentType v rb = rb\<lparr>rb_contentType := v\<rparr>"

definition rb_SetAccept :: "bytes option \<Rightarrow> request_builder \<Rightarrow> request_builder" where
  "rb_SetAccept v rb = rb\<lparr>rb_accept := v\<rparr>"

definition rb_SetRoutes :: "uri list \<Rightarrow> request_builder \<Rightarrow> request_builder" where
  "rb_SetRoutes routes rb = rb\<lparr>rb_route := (if routes = [] then None else Some routes)\<rparr>"

definition rb_AddHeader :: "header \<Rightarrow> request_builder \<Rightarrow> request_builder" where
  "rb_AddHeader h rb = rb\<lparr>rb_generic := AList.update (header_Name h) h (rb_generic rb)\<rparr>"

definition rb_RemoveHeader :: "bytes \<Rightarrow> request_builder \<Rightarrow> request_builder" where
  "rb_RemoveHeader name rb = rb\<lparr>rb_generic := AList.delete name (rb_generic rb)\<rparr>"

datatype build_error = UndefinedMethod | EmptyRecipient | EmptyFrom | EmptyTo

definition opt_header :: "('a \<Rightarrow> header) \<Rightarrow> 'a option \<Rightarrow> header list" where
  "opt_header f v = (case v of None \<Rightarrow> [] | Some x \<Rightarrow> [f x])"

text \<open>The headers in the order in which they are put together; the generic ones come in the
  order \<open>perm\<close> in which Go ranges over the map.\<close>

definition builder_headers :: "request_builder \<Rightarrow> addr_header \<Rightarrow> addr_header \<Rightarrow> header list \<Rightarrow> header list" where
  "builder_headers rb from to perm =
     opt_header RouteHeader (rb_route rb)
     @ (if rb_via rb \<noteq> [] then [ViaHeader (rb_via rb)] else [])
     @ [CSeq (rb_cseq rb), FromHeader from, ToHeader to, CallID (rb_callID rb)]
     @ opt_header ContactHeader (rb_contact rb) @ opt_header MaxForwards (rb_maxForwards rb)
     @ opt_header Expires (rb_expires rb) @ opt_header SupportedHeader (rb_supported rb)
     @ opt_header AllowHeader (rb_allow rb) @ opt_header ContentType (rb_contentType rb)
     @ opt_header Accept (rb_accept rb) @ opt_header UserAgentHeader (rb_userAgent rb) @ perm"

definition Build :: "bytes \<Rightarrow> header list \<Rightarrow> request_builder \<Rightarrow> (build_error, request) res" where
  "Build freshID perm rb =
     (if rb_method rb = [] then Err UndefinedMethod
      else case rb_recipient rb of
        None \<Rightarrow> Err EmptyRecipient
      | Some r \<Rightarrow>
          (case rb_from rb of
             None \<Rightarrow> Err EmptyFrom
           | Some from \<Rightarrow>
               (case rb_to rb of
                  None \<Rightarrow> Err EmptyTo
                | Some to \<Rightarrow>
                    Ok (SetBody (rb_body rb) True
                      (NewRequest freshID [] (rb_method rb) (Some r) (rb_protocol rb @ ''/'' @ rb_protocolVersion rb)
                        (builder_headers rb from to perm) [])))))"

section \<open>What is built\<close>

lemma Headers_all_mem:
  assumes "h \<in> set (Headers_all (newHeaders hl))"
  shows "h \<in> set hl"
proof -
  have "h \<in> set (filter (\<lambda>x. header_key x = header_key h) (Headers_all (newHeaders hl)))" using assms by simp
  also have "filter (\<lambda>x. header_key x = header_key h) (Headers_all (newHeaders hl)) = GetHeaders (header_Name h) (newHeaders hl)"
    by (simp add: Headers_all_eq hm.filter_all_headers GetHeaders_at flip: header_key_def)
  finally show ?thesis by (simp add: GetHeaders_newHeaders)
qed

text \<open>The request that \<open>Build\<close> returns, in terms of its parts.\<close>

lemma Build_Ok:
  assumes "Build fid perm rb = Ok req"
  obtains r fr to where "rb_method rb \<noteq> []" "rb_recipient rb = Some r" "rb_from rb = Some fr" "rb_to rb = Some to"
    "req = SetBody (rb_body rb) True (NewRequest fid [] (rb_method rb) (Some r)
       (rb_protocol rb @ ''/'' @ rb_protocolVersion rb) (builder_headers rb fr to perm) [])"
  using assms by (auto simp: Build_def split: if_splits option.splits)

definition content_length_free :: "header list \<Rightarrow> bool" where
  "content_length_free perm \<longleftrightarrow> list_all (\<lambda>h. header_key h \<noteq> ''content-length'') perm"

lemma builder_headers_no_length:
  "content_length_free perm \<Longrightarrow>
   filter (\<lambda>h. header_key h = ''content-length'') (builder_headers rb fr to perm) = []"
  by (auto simp: builder_headers_def opt_header_def content_length_free_def list_all_iff filter_empty_conv
      header_key_def split: option.splits)

lemma built_headers:
  assumes "content_length_free perm"
    and "req = SetBody b True (NewRequest fid [] m (Some r) v (builder_headers rb fr to perm) [])"
  shows "hdrs req = newHeaders (builder_headers rb fr to perm @ [ContentLength (of_nat (length b))])"
    and "body req = b" and "rmethod req = m" and "recipient req = Some r" and "sipVersion req = v"
proof -
  have "GetHeaders ''Content-Length'' (newHeaders (builder_headers rb fr to perm)) = []"
    using builder_headers_no_length [OF assms(1)] by (simp add: GetHeaders_newHeaders)
  then show "hdrs req = newHeaders (builder_headers rb fr to perm @ [ContentLength (of_nat (length b))])"
    and "body req = b" and "rmethod req = m" and "recipient req = Some r" and "sipVersion req = v"
    using assms(2) by (simp_all add: SetBody_def NewRequest_def newHeaders_def)
qed

text \<open>A builder whose parts can be printed and read back.\<close>

definition printable_builder :: "header list \<Rightarrow> request_builder \<Rightarrow> bool" where
  "printable_builder perm rb \<longleftrightarrow>
     one_line (rb_method rb) \<and> CHR '' '' \<notin> set (rb_method rb) \<and> strings_ToUpper (rb_method rb) = rb_method rb
     \<and> printable_version (rb_protocol rb @ ''/'' @ rb_protocolVersion rb)
     \<and> (case (rb_recipient rb, rb_from rb, rb_to rb) of
          (Some r, Some fr, Some to) \<Rightarrow>
            printable_address r \<and> CHR '' '' \<notin> set (uri_String r)
            \<and> list_all printable_header (builder_headers rb fr to perm)
        | _ \<Rightarrow> False)
     \<and> content_length_free perm
     \<and> (rb_body rb = [] \<or> strings_TrimSpace (rb_body rb) \<noteq> []) \<and> length (rb_body rb) < 2 ^ 32"

lemma built_printable:
  assumes "Build fid perm rb = Ok req" and "printable_builder perm rb"
  shows "printable_message (Req req) \<and> framed (Req req)"
proof -
  from assms(1) obtain r fr to where p: "rb_recipient rb = Some r" "rb_from rb = Some fr" "rb_to rb = Some to"
    and req: "req = SetBody (rb_body rb) True (NewRequest fid [] (rb_method rb) (Some r)
       (rb_protocol rb @ ''/'' @ rb_protocolVersion rb) (builder_headers rb fr to perm) [])"
    by (rule Build_Ok)
  let ?hl = "builder_headers rb fr to perm" and ?n = "ContentLength (of_nat (length (rb_body rb)))"
  have free: "content_length_free perm" and hl: "list_all printable_header ?hl"
    using assms(2) p by (simp_all add: printable_builder_def)
  note b = built_headers [OF free req]
  have "list_all printable_header (Headers_all (newHeaders (?hl @ [?n])))"
    using hl by (auto simp: list_all_iff dest!: Headers_all_mem)
  moreover have "GetHeaders ''Content-Length'' (newHeaders (?hl @ [?n])) = [?n]"
    using builder_headers_no_length [OF free, of rb fr to] by (simp add: GetHeaders_newHeaders)
  ultimately show ?thesis
    using assms(2) p by (simp add: printable_message_def framed_def b printable_builder_def)
qed

text \<open>C10: A request that is built from printable parts can be written to a connection in any chunks:
  the parser at the other end sends one request, with the same start line, headers and body, and
  reports no error.  (\<open>Build\<close> fails only when the method, the recipient, the From or the To is
  missing.)\<close>

theorem Build_stream_roundtrip:
  assumes "printable_builder perm rb" and "rb_method rb \<noteq> []"
  shows "\<exists>req. Build fid perm rb = Ok req \<and>
    (\<forall>cs. cs \<noteq> [] \<and> concat cs = request_String req \<longrightarrow>
      (\<exists>q m. write_all newID cs (NewParser True) = Ok (None, q) \<and> p_output q = [m] \<and>
         same_content (Req req) m \<and> p_errs q = []))"
proof -
  obtain req where req: "Build fid perm rb = Ok req"
    using assms by (auto simp: Build_def printable_builder_def split: option.splits)
  let ?p = "(NewParser True)\<lparr>p_input := request_String req\<rparr>"
  have "list_all (\<lambda>m. printable_message m \<and> framed m) [Req req]" using built_printable [OF req assms(1)] by simp
  then obtain q out where "parse newID ?p = Ok q" "p_output q = out" "list_all2 same_content [Req req] out" "p_errs q = []"
    using parse_stream [of "[Req req]" ?p newID] by (auto simp: NewParser_def)
  moreover have "write_all newID cs (NewParser True) = p_Write newID (concat cs) (NewParser True)" if "cs \<noteq> []" for cs
    using that by (intro write_all_concat) (simp_all add: NewParser_def)
  ultimately show ?thesis using req by (auto simp: p_Write_def NewParser_def list_all2_Cons1)
qed

definition sample_builder :: request_builder where
  "sample_builder = (NewRequestBuilder ''c1'')
     \<lparr>rb_method := ''INFO'', rb_cseq := \<lparr>SeqNo = 1, MethodName = ''INFO''\<rparr>,
      rb_recipient := Some (sample_uri ''bo'' ''b''), rb_body := ''hi'',
      rb_from := Some \<lparr>DisplayName = None, Address = Some (sample_uri ''al'' ''a''), Params = Some (sample_params [(''tag'', ''1'')])\<rparr>,
      rb_to := Some \<lparr>DisplayName = None, Address = Some (sample_uri ''bo'' ''b''), Params = Some NewParams\<rparr>\<rparr>"

lemma sample_builder_printable: "printable_builder [] sample_builder"
proof -
  have "list_all printable_header [FromHeader (the (rb_from sample_builder)), ToHeader (the (rb_to sample_builder)),
      CallID ''c1'', UserAgentHeader ''GoSIP'']"
    "word_text ''INFO''" "printable_address (sample_uri ''bo'' ''b'')" "CHR '' '' \<notin> set (uri_String (sample_uri ''bo'' ''b''))"
    "printable_version ''SIP/2.0''" "strings_ToUpper ''INFO'' = ''INFO''" "one_line ''INFO''" "strings_TrimSpace ''hi'' \<noteq> []"
    by code_simp+
  then show ?thesis
    by (simp add: printable_builder_def sample_builder_def NewRequestBuilder_def builder_headers_def opt_header_def
        content_length_free_def maxCseq_def)
qed

theorem Build_stream_roundtrip_witness:
  "\<exists>req q m. Build ''1'' [] sample_builder = Ok req \<and>
     write_all (\<lambda>_. ''2'') [request_String req] (NewParser True) = Ok (None, q) \<and> p_output q = [m] \<and> same_content (Req req) m"
proof -
  have "rb_method sample_builder \<noteq> []" by (simp add: sample_builder_def)
  then obtain req where "Build ''1'' [] sample_builder = Ok req \<and>
    (\<forall>cs. cs \<noteq> [] \<and> concat cs = request_String req \<longrightarrow>
      (\<exists>q m. write_all (\<lambda>_. ''2'') cs (NewParser True) = Ok (None, q) \<and> p_output q = [m] \<and>
         same_content (Req req) m \<and> p_errs q = []))"
    by (rule exE [OF Build_stream_roundtrip [OF sample_builder_printable]])
  then show ?thesis by (auto dest!: spec [of _ "[request_String req]"] simp del: write_all.simps)
qed

text \<open>What \<open>SetRequire\<close> sets is never sent.\<close>

lemma Build_ignores_require: "Build fid perm (rb_SetRequire opts rb) = Build fid perm rb"
proof -
  have "builder_headers (rb\<lparr>rb_require := v\<rparr>) fr to perm = builder_headers rb fr to perm" for fr to v
    by (simp add: builder_headers_def)
  then show ?thesis by (auto simp: Build_def rb_SetRequire_def split: option.split)
qed

end
