(* ===== verification/Server.thy ===== *)
theory Server
  imports Transport_LayerProps TxLayerProps AuthProps
begin

text \<open>
  The server (\<^verbatim>\<open>server.go\<close>): the headers it adds to messages, the routing of requests to
  handlers, requests with a context and an authorizer, and shutdown.
\<close>

section \<open>The server and its headers\<close>

text \<open>Handlers are numbers; \<open>sv_hwg\<close> counts the calls of \<open>handleRequest\<close> that run.\<close>

record sip_server =
  sv_running :: bool
  sv_handlers :: "(bytes \<times> nat) list"
  sv_extensions :: "bytes list"
  sv_userAgent :: bytes
  sv_hwg :: nat

definition NewServer :: "bytes list \<Rightarrow> bytes \<Rightarrow> sip_server" where
  "NewServer extensions userAgent =
     \<lparr>sv_running = True, sv_handlers = [], sv_extensions = extensions,
      sv_userAgent = (if userAgent = [] then ''GoSIP'' else userAgent), sv_hwg = 0\<rparr>"

definition OnRequest :: "bytes \<Rightarrow> nat \<Rightarrow> sip_server \<Rightarrow> sip_server" where
  "OnRequest m h srv = srv\<lparr>sv_handlers := AList.update m h (sv_handlers srv)\<rparr>"

text \<open>Go ranges over the map of handlers in any order; \<open>perm\<close> lists its keys in that order.\<close>

definition getAllowedMethods :: "bytes list \<Rightarrow> bytes list" where
  "getAllowedMethods perm = [INVITE, ACK, CANCEL] @ filter (\<lambda>m. m \<notin> {INVITE, ACK, CANCEL}) perm"

definition autoAppendMethods :: "bytes list" where
  "autoAppendMethods = [''INVITE'', ''REGISTER'', ''OPTIONS'', ''REFER'', ''NOTIFY'']"

text \<open>The method that decides about Allow and Supported.\<close>

fun auto_method :: "sip_msg \<Rightarrow> bytes" where
  "auto_method (Req r) = rmethod r"
| "auto_method (Res r) =
     (case hs_CSeq (hdrs r) of Some c \<Rightarrow> if IsProvisional r then [] else MethodName c | None \<Rightarrow> [])"

fun name_header :: "bytes \<Rightarrow> sip_msg \<Rightarrow> header" where
  "name_header ua (Req _) = UserAgentHeader ua"
| "name_header ua (Res _) = ServerHeader ua"

definition append_missing :: "header \<Rightarrow> headers \<Rightarrow> headers" where
  "append_missing h hs = (if GetHeaders (header_Name h) hs = [] then AppendHeader h hs else hs)"

definition appendAutoHeaders :: "bytes list \<Rightarrow> sip_server \<Rightarrow> sip_msg \<Rightarrow> sip_msg" where
  "appendAutoHeaders perm srv msg =
     (let msg1 = msg_map_hdrs (append_missing (name_header (sv_userAgent srv) msg)) msg;
          m = auto_method msg;
          msg2 = (if m \<noteq> [] \<and> m \<in> set autoAppendMethods then
                    msg_map_hdrs (\<lambda>hs.
                      let hs1 = append_missing (AllowHeader (getAllowedMethods perm)) hs in
                      if sv_extensions srv \<noteq> [] then append_missing (SupportedHeader (sv_extensions srv)) hs1 else hs1) msg1
                  else msg1)
      in if GetHeaders ''Content-Length'' (msg_hdrs msg2) = [] then msg_SetBody (msg_body msg2) True msg2 else msg2)"

definition prepareRequest :: "bytes list \<Rightarrow> sip_server \<Rightarrow> request \<Rightarrow> request" where
  "prepareRequest perm srv req = (case appendAutoHeaders perm srv (Req req) of Req r \<Rightarrow> r | Res _ \<Rightarrow> req)"

definition prepareResponse :: "bytes list \<Rightarrow> sip_server \<Rightarrow> response \<Rightarrow> response" where
  "prepareResponse perm srv res = (case appendAutoHeaders perm srv (Res res) of Res r \<Rightarrow> r | Req _ \<Rightarrow> res)"

section \<open>Sending\<close>

datatype srv_error = SrvStopped | TxError layer_error | TpError send_error

text \<open>\<open>Request\<close> and \<open>Respond\<close> go through the transaction layer, \<open>Send\<close> goes to the transport layer
  directly.  What the transaction layer sends comes back through \<open>sipTransport.Send\<close>, which is
  \<open>Send\<close>.\<close>

definition server_Request_send :: "layer_env \<Rightarrow> bytes list \<Rightarrow> sip_server \<Rightarrow> request \<Rightarrow> tx_layer \<Rightarrow> (srv_error + nat, tx_layer) go" where
  "server_Request_send F perm srv req L =
     (if \<not> sv_running srv then Ret (Inl SrvStopped) L
      else go_bind (l_Request_send F (prepareRequest perm srv req) L) (\<lambda>x L1. Ret (map_sum TxError id x) L1))"

definition server_Respond :: "layer_env \<Rightarrow> bytes list \<Rightarrow> sip_server \<Rightarrow> response \<Rightarrow> tx_layer \<Rightarrow> (srv_error + nat, tx_layer) go" where
  "server_Respond F perm srv res L =
     (if \<not> sv_running srv then Ret (Inl SrvStopped) L
      else go_bind (l_Respond F (prepareResponse perm srv res) L) (\<lambda>x L1. Ret (map_sum TxError id x) L1))"

definition RespondOnRequest ::
  "layer_env \<Rightarrow> bytes list \<Rightarrow> bytes \<Rightarrow> sip_server \<Rightarrow> request \<Rightarrow> 16 word \<Rightarrow> bytes \<Rightarrow> bytes \<Rightarrow> header list \<Rightarrow> tx_layer \<Rightarrow>
   (srv_error + nat, tx_layer) go" where
  "RespondOnRequest F perm freshID srv req status why b hl L =
     (case NewResponseFromRequest freshID [] req status why b of
        Ok res \<Rightarrow> server_Respond F perm srv (res\<lparr>hdrs := fold AppendHeader hl (hdrs res)\<rparr>) L
      | _ \<Rightarrow> Panic L)"

definition server_Send ::
  "net_env \<Rightarrow> bytes list \<Rightarrow> sip_server \<Rightarrow> sip_msg \<Rightarrow> tp_layer \<Rightarrow> (srv_error, written) res \<times> sip_msg \<times> tp_layer" where
  "server_Send N perm srv msg T =
     (if \<not> sv_running srv then (Err SrvStopped, msg, T)
      else case layer_Send N (appendAutoHeaders perm srv msg) T of (r, m, T') \<Rightarrow> (map_res TpError id r, m, T'))"

section \<open>Routing\<close>

text \<open>\<open>handleRequest\<close>: the handler of the method, or a response 405.  Handlers are code of the
  application: what is returned is the handler that is called.\<close>

datatype routed = Call_handler nat | Ignored | Refused "srv_error + nat"

definition server_handleRequest ::
  "layer_env \<Rightarrow> bytes list \<Rightarrow> bytes \<Rightarrow> sip_server \<Rightarrow> request \<Rightarrow> tx_layer \<Rightarrow> (routed, tx_layer) go" where
  "server_handleRequest F perm freshID srv req L =
     (case map_of (sv_handlers srv) (rmethod req) of
        Some h \<Rightarrow> Ret (Call_handler h) L
      | None \<Rightarrow>
          if request_IsAck req then Ret Ignored L
          else
            (case NewResponseFromRequest freshID [] req 405 ''Method Not Allowed'' [] of
               Ok res \<Rightarrow> go_bind (server_Respond F perm srv res L) (\<lambda>x L1. Ret (Refused x) L1)
             | _ \<Rightarrow> Panic L))"

text \<open>\<open>serve\<close>: one turn of its loop.  Every request and every ACK is handled by a goroutine of its own,
  counted in \<open>sv_hwg\<close> until it has ended; responses without a transaction and errors are logged; a
  closed channel ends the loop, which shuts the server down.\<close>

datatype serve_input = Serve_tx request | Serve_ack request | Serve_response response | Serve_error | Serve_closed

datatype serve_action = Spawn_handler request bool | Serve_on | Serve_shutdown

definition serve_turn :: "serve_input \<Rightarrow> sip_server \<Rightarrow> serve_action \<times> sip_server" where
  "serve_turn i srv =
     (case i of
        Serve_tx req \<Rightarrow> (Spawn_handler req True, srv\<lparr>sv_hwg := sv_hwg srv + 1\<rparr>)
      | Serve_ack req \<Rightarrow> (Spawn_handler req False, srv\<lparr>sv_hwg := sv_hwg srv + 1\<rparr>)
      | Serve_response _ \<Rightarrow> (Serve_on, srv)
      | Serve_error \<Rightarrow> (Serve_on, srv)
      | Serve_closed \<Rightarrow> (Serve_shutdown, srv))"

definition handler_done :: "sip_server \<Rightarrow> sip_server" where
  "handler_done srv = srv\<lparr>sv_hwg := sv_hwg srv - 1\<rparr>"

text \<open>\<open>Shutdown\<close> cancels the transaction layer and waits for its end, then the transport layer, then it
  waits for the running handlers.\<close>

datatype shutdown_at = Wait_tx | Wait_tp | Wait_handlers | Returned

definition Shutdown_begin :: "sip_server \<Rightarrow> tx_layer \<Rightarrow> shutdown_at \<times> sip_server \<times> tx_layer" where
  "Shutdown_begin srv L =
     (if \<not> sv_running srv then (Returned, srv, L) else (Wait_tx, srv\<lparr>sv_running := False\<rparr>, l_Cancel L))"

definition Shutdown_step :: "shutdown_at \<Rightarrow> sip_server \<Rightarrow> tx_layer \<Rightarrow> tp_layer \<Rightarrow> shutdown_at \<times> tp_layer" where
  "Shutdown_step at srv L T =
     (case at of
        Wait_tx \<Rightarrow> if tl_done L then (Wait_tp, layer_Cancel T) else (Wait_tx, T)
      | Wait_tp \<Rightarrow> if ly_done T then (Wait_handlers, T) else (Wait_tp, T)
      | Wait_handlers \<Rightarrow> if sv_hwg srv = 0 then (Returned, T) else (Wait_handlers, T)
      | Returned \<Rightarrow> (Returned, T))"

section \<open>Requests with a context\<close>

text \<open>What the two channels of a client transaction give, in the order in which the loop receives
  it.  When the context ends the transaction is canceled, and what it then reports follows.\<close>

datatype tx_event = Tx_error bytes | Tx_errors_closed | Tx_response response | Tx_responses_closed

datatype rwc_error =
    Rwc_tx bytes
  | Rwc_terminated "(response \<times> response list) option"
  | Rwc_failed "16 word" bytes response "response list"
  | Rwc_authorize auth_error
  | Rwc_send srv_error

text \<open>\<open>Rwc_waiting\<close>: the transaction reports nothing more, and the call has not returned.\<close>

datatype rwc_result = Rwc_response response "response list" | Rwc_error rwc_error | Rwc_waiting | Rwc_panic

definition status_key :: "response \<Rightarrow> bytes" where
  "status_key res = fmt_d (unat (rstatus res)) @ '' '' @ reason res"

text \<open>A provisional response is remembered once for its status and reason.\<close>

definition remember :: "response \<Rightarrow> response list \<Rightarrow> response list" where
  "remember res prev = (if status_key res \<in> set (map status_key prev) then prev else prev @ [res])"

text \<open>The loop of one attempt: it ends with a result, or with a final response that is no success
  and the responses remembered before it.  The copy that the loop makes of each response has the
  same content.  The handler of responses, code of the application, is not called in the model.\<close>

datatype attempt_end = Ended rwc_result | Refused_with response "response list"

fun attempt_loop :: "response option \<Rightarrow> response list \<Rightarrow> tx_event list \<Rightarrow> attempt_end" where
  "attempt_loop lastResponse prev [] = Ended Rwc_waiting"
| "attempt_loop lastResponse prev (Tx_errors_closed # evs) = attempt_loop lastResponse prev evs"
| "attempt_loop lastResponse prev (Tx_error e # evs) = Ended (Rwc_error (Rwc_tx e))"
| "attempt_loop lastResponse prev (Tx_responses_closed # evs) =
     Ended (Rwc_error (Rwc_terminated (map_option (\<lambda>r. (r, prev)) lastResponse)))"
| "attempt_loop lastResponse prev (Tx_response res # evs) =
     (if IsProvisional res then attempt_loop (Some res) (remember res prev) evs
      else if IsSuccess res then Ended (Rwc_response res prev)
      else Refused_with res prev)"

text \<open>\<open>requestWithContext\<close> with the default authorizer, if there is one.  The environment has the
  server at each attempt, and for the prepared request either why it cannot be sent, or the request as
  the layers below leave it (they share the object) and what its transaction reports.  The second
  component of the result lists the requests given to the transaction layer, which may have sent one
  also when it returns an error.\<close>

record rwc_env =
  rw_server :: "nat \<Rightarrow> sip_server"
  rw_perm :: "nat \<Rightarrow> bytes list"
  rw_request :: "nat \<Rightarrow> request \<Rightarrow> layer_error + request \<times> tx_event list"
  rw_md5hex :: "bytes \<Rightarrow> bytes"
  rw_rand :: bytes

function requestWithContext ::
  "rwc_env \<Rightarrow> (bytes option \<times> bytes option) option \<Rightarrow> nat \<Rightarrow> request \<Rightarrow> rwc_result \<times> request list" where
  "requestWithContext W authorizer attempt req =
     (if \<not> sv_running (rw_server W attempt) then (Rwc_error (Rwc_send SrvStopped), [])
      else
        let req1 = prepareRequest (rw_perm W attempt) (rw_server W attempt) req in
        case rw_request W attempt req1 of
          Inl e \<Rightarrow> (Rwc_error (Rwc_send (TxError e)), [req1])
        | Inr (req2, evs) \<Rightarrow>
            (case attempt_loop None [] evs of
               Ended r \<Rightarrow> (r, [req1])
             | Refused_with res prev \<Rightarrow>
                 if (rstatus res = 401 \<or> rstatus res = 407) \<and> attempt < 2 \<and> authorizer \<noteq> None then
                   (case AuthorizeRequest (rw_md5hex W) (rw_rand W) req2 res (fst (the authorizer)) (snd (the authorizer)) of
                      Ok req3 \<Rightarrow>
                        (case requestWithContext W authorizer (attempt + 1) req3 of (r, sent) \<Rightarrow> (r, req1 # sent))
                    | Err e \<Rightarrow> (Rwc_error (Rwc_authorize e), [req1])
                    | Crash \<Rightarrow> (Rwc_panic, [req1]))
                 else (Rwc_error (Rwc_failed (rstatus res) (reason res) res prev), [req1])))"
  by pat_completeness auto
termination by (relation "measure (\<lambda>(_, _, a, _). 2 - a)") auto

declare requestWithContext.simps [simp del]

text \<open>A handler that calls \<open>Shutdown\<close> is counted while it runs, so its own call never returns.\<close>

lemma Shutdown_waits_for_handlers:
  assumes "at \<noteq> Returned" and "0 < sv_hwg srv"
  shows "fst (Shutdown_step at srv L T) \<noteq> Returned"
  using assms by (cases at) (simp_all add: Shutdown_step_def)

section \<open>The automatic headers\<close>

text \<open>\<open>appendAutoHeaders\<close> as one pass over a list of headers, each added if its name is missing.\<close>

definition auto_headers :: "bytes list \<Rightarrow> sip_server \<Rightarrow> sip_msg \<Rightarrow> header list" where
  "auto_headers perm srv msg =
     name_header (sv_userAgent srv) msg
     # (if auto_method msg \<in> set autoAppendMethods
        then AllowHeader (getAllowedMethods perm) # (if sv_extensions srv = [] then [] else [SupportedHeader (sv_extensions srv)])
        else [])
     @ [ContentLength (of_nat (length (msg_body msg)))]"

lemma server_names [simp]:
  "header_key (AllowHeader l) = ''allow''" "header_key (SupportedHeader l) = ''supported''"
  "header_key (UserAgentHeader u) = ''user-agent''" "header_key (ServerHeader u) = ''server''"
  "strings_ToLower ''Allow'' = ''allow''" "strings_ToLower ''Server'' = ''server''"
  "strings_ToLower ''Supported'' = ''supported''" "strings_ToLower ''User-Agent'' = ''user-agent''"
proof -
  show low: "strings_ToLower ''Allow'' = ''allow''" "strings_ToLower ''Server'' = ''server''"
    "strings_ToLower ''Supported'' = ''supported''" "strings_ToLower ''User-Agent'' = ''user-agent''"
    by code_simp+
  show "header_key (AllowHeader l) = ''allow''" "header_key (SupportedHeader l) = ''supported''"
    "header_key (UserAgentHeader u) = ''user-agent''" "header_key (ServerHeader u) = ''server''"
    by (simp_all add: header_key_def low)
qed

lemma append_missing_wf: "headers_wf hs \<Longrightarrow> headers_wf (append_missing h hs)"
  by (simp add: append_missing_def headers_wf_Append)

lemma GetHeaders_append_missing:
  assumes "headers_wf hs"
  shows "GetHeaders n (append_missing h hs) =
    (if GetHeaders n hs = [] \<and> strings_ToLower n = header_key h then [h] else GetHeaders n hs)"
proof (cases "strings_ToLower n = header_key h")
  case True
  then have "GetHeaders (header_Name h) hs = GetHeaders n hs" by (simp add: GetHeaders_at header_key_def)
  with assms True show ?thesis by (simp add: append_missing_def GetHeaders_Append)
qed (use assms in \<open>simp add: append_missing_def GetHeaders_Append\<close>)

lemma fold_append_missing_wf: "headers_wf hs \<Longrightarrow> headers_wf (fold append_missing hl hs)"
  by (induction hl arbitrary: hs) (simp_all add: append_missing_wf)

lemma GetHeaders_fold_missing:
  assumes "headers_wf hs"
  shows "GetHeaders n (fold append_missing hl hs) =
    (if GetHeaders n hs = [] then take 1 (filter (\<lambda>h. header_key h = strings_ToLower n) hl) else GetHeaders n hs)"
  using assms
proof (induction hl arbitrary: hs)
  case (Cons h hl)
  show ?case
    using Cons.IH [OF append_missing_wf [OF Cons.prems, of h]] GetHeaders_append_missing [OF Cons.prems, of n h] by auto
qed simp

lemma fold_missing_present:
  "\<forall>h\<in>set hl. GetHeaders (header_Name h) hs \<noteq> [] \<Longrightarrow> fold append_missing hl hs = hs"
  by (induction hl) (simp_all add: append_missing_def)

lemma msg_map_hdrs_comp [simp]: "msg_map_hdrs f (msg_map_hdrs g m) = msg_map_hdrs (\<lambda>hs. f (g hs)) m"
  by (cases m) simp_all

lemma msg_body_map [simp]: "msg_body (msg_map_hdrs f m) = msg_body m"
  by (cases m) simp_all

lemma SetBody_missing:
  "GetHeaders ''Content-Length'' (msg_hdrs m) = [] \<Longrightarrow>
   msg_SetBody (msg_body m) True m = msg_map_hdrs (append_missing (ContentLength (of_nat (length (msg_body m))))) m"
  by (cases m) (simp_all add: SetBody_def Let_def append_missing_def)

lemma appendAutoHeaders_fold:
  "appendAutoHeaders perm srv msg = msg_map_hdrs (fold append_missing (auto_headers perm srv msg)) msg"
proof -
  have cl: "(if GetHeaders ''Content-Length'' (msg_hdrs m) = [] then msg_SetBody (msg_body m) True m else m) =
    msg_map_hdrs (append_missing (ContentLength (of_nat (length (msg_body m))))) m" for m
    using SetBody_missing [of m] by (cases m) (auto simp: append_missing_def)
  have "[] \<notin> set autoAppendMethods" by (simp add: autoAppendMethods_def)
  then show ?thesis by (auto simp: appendAutoHeaders_def Let_def cl auto_headers_def comp_def)
qed

lemma auto_method_map:
  assumes "headers_wf (msg_hdrs m)" and "\<forall>h\<in>set hl. header_key h \<noteq> ''cseq''"
  shows "auto_method (msg_map_hdrs (fold append_missing hl) m) = auto_method m"
proof (cases m)
  case (Res r)
  have "filter (\<lambda>h. header_key h = ''cseq'') hl = []" using assms(2) by simp
  then have "hs_CSeq (fold append_missing hl (hdrs r)) = hs_CSeq (hdrs r)"
    using assms(1) Res by (simp add: hs_CSeq_def GetHeaders_fold_missing)
  with Res show ?thesis by (simp add: IsProvisional_def split: option.split)
qed simp

lemma auto_headers_names:
  assumes "h \<in> set (auto_headers perm srv msg)"
  shows "header_key h \<in> {''user-agent'', ''server'', ''allow'', ''supported'', ''content-length''}"
  using assms by (cases msg) (auto simp: auto_headers_def split: if_splits)

lemma auto_headers_again:
  assumes "headers_wf (msg_hdrs msg)"
  shows "map header_key (auto_headers perm' srv (appendAutoHeaders perm srv msg)) = map header_key (auto_headers perm srv msg)"
proof -
  have "auto_method (appendAutoHeaders perm srv msg) = auto_method msg"
    unfolding appendAutoHeaders_fold using auto_headers_names by (intro auto_method_map [OF assms]) fastforce
  moreover have "header_key (name_header u (appendAutoHeaders perm srv msg)) = header_key (name_header u msg)" for u
    by (cases msg) (simp_all add: appendAutoHeaders_fold)
  ultimately show ?thesis by (simp add: auto_headers_def)
qed

text \<open>C22: \<open>appendAutoHeaders\<close> keeps every header that the message has, gives it a Content-Length with the
  length of its body if it had none, adds only the five automatic headers, and is idempotent: a message that
  passes through \<open>Request\<close> or \<open>Respond\<close> and then again through \<open>Send\<close> of the transport
  wrapper is not changed the second time, whatever order the map of handlers has then.\<close>

theorem appendAutoHeaders_correct:
  assumes wf: "headers_wf (msg_hdrs msg)"
  shows "headers_wf (msg_hdrs (appendAutoHeaders perm srv msg)) \<and>
    appendAutoHeaders perm' srv (appendAutoHeaders perm srv msg) = appendAutoHeaders perm srv msg \<and>
    msg_body (appendAutoHeaders perm srv msg) = msg_body msg \<and>
    (\<forall>n. GetHeaders n (msg_hdrs msg) \<noteq> [] \<or>
         strings_ToLower n \<notin> {''user-agent'', ''server'', ''allow'', ''supported'', ''content-length''} \<longrightarrow>
       GetHeaders n (msg_hdrs (appendAutoHeaders perm srv msg)) = GetHeaders n (msg_hdrs msg)) \<and>
    (GetHeaders ''Content-Length'' (msg_hdrs msg) = [] \<longrightarrow>
       GetHeaders ''Content-Length'' (msg_hdrs (appendAutoHeaders perm srv msg)) = [ContentLength (of_nat (length (msg_body msg)))])"
proof (intro conjI allI impI)
  let ?hl = "auto_headers perm srv msg" and ?m = "appendAutoHeaders perm srv msg"
  have get: "GetHeaders n (msg_hdrs ?m) = (if GetHeaders n (msg_hdrs msg) = []
      then take 1 (filter (\<lambda>h. header_key h = strings_ToLower n) ?hl) else GetHeaders n (msg_hdrs msg))" for n
    by (simp add: appendAutoHeaders_fold GetHeaders_fold_missing [OF wf])
  show "headers_wf (msg_hdrs ?m)" by (simp add: appendAutoHeaders_fold fold_append_missing_wf [OF wf])
  show "msg_body ?m = msg_body msg" by (simp add: appendAutoHeaders_fold)
  show "GetHeaders n (msg_hdrs ?m) = GetHeaders n (msg_hdrs msg)"
    if "GetHeaders n (msg_hdrs msg) \<noteq> [] \<or>
      strings_ToLower n \<notin> {''user-agent'', ''server'', ''allow'', ''supported'', ''content-length''}" for n
  proof (cases "GetHeaders n (msg_hdrs msg) = []")
    case True
    with that have "filter (\<lambda>h. header_key h = strings_ToLower n) ?hl = []"
      using auto_headers_names [of _ perm srv msg] by (fastforce simp: filter_empty_conv)
    with True show ?thesis by (simp add: get)
  qed (simp add: get)
  show "GetHeaders ''Content-Length'' (msg_hdrs ?m) = [ContentLength (of_nat (length (msg_body msg)))]"
    if "GetHeaders ''Content-Length'' (msg_hdrs msg) = []"
    using that unfolding get by (cases msg) (simp_all add: auto_headers_def)
  have "GetHeaders (header_Name h) (msg_hdrs ?m) \<noteq> []" if "h \<in> set (auto_headers perm' srv ?m)" for h
  proof -
    from that have "header_key h \<in> header_key ` set ?hl"
      using auto_headers_again [OF wf, of perm' srv perm] by (metis imageI list.set_map)
    then have "filter (\<lambda>h'. header_key h' = header_key h) ?hl \<noteq> []" by (auto simp: filter_empty_conv)
    then show ?thesis by (simp add: get header_key_def)
  qed
  then have "fold append_missing (auto_headers perm' srv ?m) (msg_hdrs ?m) = msg_hdrs ?m"
    by (intro fold_missing_present) blast
  then show "appendAutoHeaders perm' srv ?m = ?m"
    by (subst appendAutoHeaders_fold, cases ?m) simp_all
qed

definition sample_server :: sip_server where
  "sample_server = OnRequest ''OPTIONS'' 0 (NewServer [''timer''] [])"

theorem appendAutoHeaders_correct_witness:
  "appendAutoHeaders [''OPTIONS''] sample_server (appendAutoHeaders [''OPTIONS''] sample_server (Req (ex_request ''OPTIONS''))) =
     appendAutoHeaders [''OPTIONS''] sample_server (Req (ex_request ''OPTIONS'')) \<and>
   GetHeaders ''Content-Length'' (msg_hdrs (appendAutoHeaders [''OPTIONS''] sample_server (Req (ex_request ''OPTIONS'')))) =
     [ContentLength 0]"
proof -
  have hs: "hdrs (ex_request m) = newHeaders (ex_headers m)" "body (ex_request m) = []" for m
    by (simp_all add: ex_request_def NewRequest_def)
  have "GetHeaders ''Content-Length'' (newHeaders (ex_headers m)) = []" for m
    by (simp add: GetHeaders_newHeaders ex_headers_def)
  with appendAutoHeaders_correct [of "Req (ex_request ''OPTIONS'')" "[''OPTIONS'']" sample_server "[''OPTIONS'']"] hs
  show ?thesis by simp
qed

section \<open>Requests without a handler\<close>

lemma prepareResponse_fields:
  "prepareResponse perm srv res = res\<lparr>hdrs := fold append_missing (auto_headers perm srv (Res res)) (hdrs res)\<rparr>"
  by (simp add: prepareResponse_def appendAutoHeaders_fold)

lemma prepareRequest_fields:
  "prepareRequest perm srv req = req\<lparr>hdrs := fold append_missing (auto_headers perm srv (Req req)) (hdrs req)\<rparr>"
  by (simp add: prepareRequest_def appendAutoHeaders_fold)

lemma GetHeaders_auto_keep:
  assumes "headers_wf (msg_hdrs msg)"
    and "strings_ToLower n \<notin> {''user-agent'', ''server'', ''allow'', ''supported'', ''content-length''}"
  shows "GetHeaders n (fold append_missing (auto_headers perm srv msg) (msg_hdrs msg)) = GetHeaders n (msg_hdrs msg)"
proof -
  have "filter (\<lambda>h. header_key h = strings_ToLower n) (auto_headers perm srv msg) = []"
    using assms(2) auto_headers_names [of _ perm srv msg] by (fastforce simp: filter_empty_conv)
  then show ?thesis by (simp add: GetHeaders_fold_missing [OF assms(1)])
qed

lemma auto_key_parts:
  assumes "headers_wf (msg_hdrs msg)"
  shows "key_parts (fold append_missing (auto_headers perm srv msg) (msg_hdrs msg)) = key_parts (msg_hdrs msg)"
  using GetHeaders_auto_keep [OF assms]
  by (simp add: key_parts_def hs_ViaHop_def hs_Via_def hs_CSeq_def hs_From_def hs_CallID_def)

lemma passed_up:
  assumes "\<not> tl_canceled L" and "getServerTx L (hdrs req) = Err (TxNotFound k)" and "\<not> request_IsAck req"
    and "\<not> request_IsCancel req" and "NewServerTx (le_reliable F) req = Ok t"
  obtains L' where "handleMessage F (Req req) L = Ret () L'" "tl_requests L' = tl_requests L @ [length (tl_heap L)]"
    "\<not> tl_canceled L'" "\<forall>hs. MakeServerTxKey hs = MakeServerTxKey (hdrs req) \<longrightarrow> getServerTx L' hs = Ok (length (tl_heap L))"
proof -
  let ?p = "length (tl_heap L)" and ?x = "ServerT (s_Init (le_sdefine F) t)"
  define L' where "L' = L\<lparr>tl_heap := tl_heap L @ [?x], tl_store := AList.update (skey t) ?p (tl_store L),
    tl_serving := tl_serving L @ [?p], tl_requests := tl_requests L @ [?p]\<rparr>"
  have "handleMessage F (Req req) L = Ret () L'"
    using assms by (simp add: L'_def handleMessage_def handleRequest_def newServer_def tl_new_def store_put_def)
  moreover have "MakeServerTxKey (hdrs req) = Ok (skey t)"
    using assms(5) by (cases "request_Transport req"; cases "MakeServerTxKey (hdrs req)") (auto simp: NewServerTx_def)
  moreover have "tl_obj L' ?p = Some ?x" "tl_store L' = AList.update (skey t) ?p (tl_store L)"
    by (simp_all add: L'_def tl_obj_def)
  ultimately show ?thesis
    using that [of L'] assms(1) by (simp add: L'_def getServerTx_def store_get_def)
qed

lemma no_Allow:
  assumes "headers_wf (hdrs req)" and "NewResponseFromRequest fid rid req code why b = Ok res"
  shows "GetHeaders ''Allow'' (hdrs res) = []"
  using assms by (auto simp: NewResponseFromRequest_def Let_def derive_defs)

text \<open>C21: A request for which the application has no handler comes out of the transaction layer as a new
  server transaction, and the server answers it on that transaction with 405 and the headers a response takes
  from its request.  The response has an Allow header exactly for the five methods of
  \<open>autoAppendMethods\<close>; for any other method the Allow header that RFC 3261 asks for in a 405 is missing.\<close>

theorem server_refuses:
  assumes L: "\<not> tl_canceled L" "getServerTx L (hdrs req) = Err (TxNotFound k)" "\<not> request_IsAck req"
      "\<not> request_IsCancel req" "NewServerTx (le_reliable F) req = Ok t"
    and req: "key_wf (hdrs req)" "request_ready req" "hs_CSeq (hdrs req) = Some c" "MethodName c = rmethod req"
    and srv: "sv_running srv" "map_of (sv_handlers srv) (rmethod req) = None"
  shows "\<exists>L' p res. handleMessage F (Req req) L = Ret () L' \<and> tl_requests L' = tl_requests L @ [p] \<and>
    server_handleRequest F perm fid srv req L' =
      go_bind (call_server p (s_Respond (le_sspin F) (le_env F) res) L')
        (\<lambda>e L1. Ret (Refused (case e of Some err \<Rightarrow> Inl (TxError (RespondError err)) | None \<Rightarrow> Inr p)) L1) \<and>
    rstatus res = 405 \<and> body res = [] \<and>
    (\<forall>n\<in>set response_names. GetHeaders n (hdrs res) = map header_Clone (GetHeaders n (hdrs req))) \<and>
    GetHeaders ''Allow'' (hdrs res) =
      (if rmethod req \<in> set autoAppendMethods then [AllowHeader (getAllowedMethods perm)] else [])"
proof -
  obtain L' where L': "handleMessage F (Req req) L = Ret () L'" "tl_requests L' = tl_requests L @ [length (tl_heap L)]"
    "\<not> tl_canceled L'" "\<forall>hs. MakeServerTxKey hs = MakeServerTxKey (hdrs req) \<longrightarrow> getServerTx L' hs = Ok (length (tl_heap L))"
    by (rule passed_up [OF L])
  have wf: "headers_wf (hdrs req)" using req(1) by (simp add: key_wf_def)
  obtain tr s d where "request_Transport req = Ok tr" "request_Source req = Ok s" "request_Destination req = Ok d"
    using req(2) by (rule request_ready_route)
  then obtain res0 where res0: "NewResponseFromRequest fid [] req 405 ''Method Not Allowed'' [] = Ok res0"
    by (simp add: NewResponseFromRequest_def Let_def)
  note new = NewResponseFromRequest_headers [OF wf res0]
  define res where "res = prepareResponse perm srv res0"
  have hs: "hdrs res = fold append_missing (auto_headers perm srv (Res res0)) (hdrs res0)"
    by (simp add: res_def prepareResponse_fields)
  have keep: "GetHeaders n (hdrs res) = GetHeaders n (hdrs res0)"
    if "strings_ToLower n \<notin> {''user-agent'', ''server'', ''allow'', ''supported'', ''content-length''}" for n
    using GetHeaders_auto_keep [of "Res res0" n perm srv] new(1) that by (simp add: hs)
  have "key_parts (hdrs res) = key_parts (hdrs req)"
    using auto_key_parts [of "Res res0" perm srv] new(1) response_key_parts [OF req(1) res0] by (simp add: hs)
  then have get: "getServerTx L' (hdrs res) = Ok (length (tl_heap L))" using L'(4) tx_keys_cong(1) by blast
  have "hs_CSeq (hdrs res0) = Some c"
    using hs_CSeq_clone [OF new(2)] req(3) by (simp add: response_names_def)
  then have "auto_method (Res res0) = rmethod req" using new(4) req(4) by (simp add: IsProvisional_def)
  then have "GetHeaders ''Allow'' (hdrs res) =
      (if rmethod req \<in> set autoAppendMethods then [AllowHeader (getAllowedMethods perm)] else [])"
    unfolding hs GetHeaders_fold_missing [OF new(1)] auto_headers_def using no_Allow [OF wf res0] by simp
  moreover have "\<forall>n\<in>set response_names. GetHeaders n (hdrs res) = map header_Clone (GetHeaders n (hdrs req))"
    using new(2) keep by (simp add: response_names_def)
  moreover have "rstatus res = 405" "body res = []" using new by (simp_all add: res_def prepareResponse_fields)
  moreover have "server_handleRequest F perm fid srv req L' =
      go_bind (call_server (length (tl_heap L)) (s_Respond (le_sspin F) (le_env F) res) L')
        (\<lambda>e L1. Ret (Refused (case e of Some err \<Rightarrow> Inl (TxError (RespondError err)) | None \<Rightarrow> Inr (length (tl_heap L)))) L1)"
    using srv L(3) L'(3) get
    by (cases "call_server (length (tl_heap L)) (s_Respond (le_sspin F) (le_env F) res) L'")
       (auto simp: server_handleRequest_def server_Respond_def res0 l_Respond_def res_def [symmetric] split: option.split)
  ultimately show ?thesis using L'(1,2) by blast
qed

theorem server_refuses_witness:
  "\<exists>L' res. handleMessage ex_F (Req (ex_request ''INFO'')) NewLayer = Ret () L' \<and>
     server_handleRequest ex_F [''OPTIONS''] [] sample_server (ex_request ''INFO'') L' =
       go_bind (call_server 0 (s_Respond fsm_Spin ex_env res) L')
         (\<lambda>e L1. Ret (Refused (case e of Some err \<Rightarrow> Inl (TxError (RespondError err)) | None \<Rightarrow> Inr 0)) L1) \<and>
     rstatus res = 405 \<and> GetHeaders ''Allow'' (hdrs res) = []"
proof -
  obtain k where k: "getServerTx NewLayer (hdrs (ex_request ''INFO'')) = Err (TxNotFound k)" using ex_no_key by blast
  have n: "NewServerTx (le_reliable ex_F) (ex_request ''INFO'') = Ok (ex_server (ex_request ''INFO''))"
    by (simp add: ex_server_created)
  have m: "rmethod (ex_request ''INFO'') = ''INFO''" "hs_CSeq (hdrs (ex_request ''INFO'')) = Some \<lparr>SeqNo = 1, MethodName = ''INFO''\<rparr>"
    by (simp_all add: ex_request_def NewRequest_def)
  have kind: "\<not> request_IsAck (ex_request ''INFO'')" "\<not> request_IsCancel (ex_request ''INFO'')"
    by (simp_all add: request_IsAck_def request_IsCancel_def m ACK_def CANCEL_def)
  have s: "sv_running sample_server" "map_of (sv_handlers sample_server) (rmethod (ex_request ''INFO'')) = None"
    "''INFO'' \<notin> set autoAppendMethods"
    by (simp_all add: sample_server_def OnRequest_def NewServer_def m autoAppendMethods_def)
  have L: "\<not> tl_canceled NewLayer" "tl_requests NewLayer = []" by (simp_all add: NewLayer_def)
  from server_refuses [OF L(1) k kind n ex_key_wf ex_ready(1) m(2) _ s(1,2), of "[''OPTIONS'']" "[]"] m s(3) L(2)
  obtain L' p res where r: "handleMessage ex_F (Req (ex_request ''INFO'')) NewLayer = Ret () L'" "tl_requests L' = [p]"
    "server_handleRequest ex_F [''OPTIONS''] [] sample_server (ex_request ''INFO'') L' =
       go_bind (call_server p (s_Respond (le_sspin ex_F) (le_env ex_F) res) L')
         (\<lambda>e L1. Ret (Refused (case e of Some err \<Rightarrow> Inl (TxError (RespondError err)) | None \<Rightarrow> Inr p)) L1)"
    "rstatus res = 405" "GetHeaders ''Allow'' (hdrs res) = []"
    by auto
  moreover have "p = 0"
    using passed_up [OF L(1) k kind n] r(1,2) L(2) by (metis NewLayer_def go.inject(1) length_0_conv list.inject list.size(3) self_append_conv2 tx_layer.select_convs(1))
  ultimately show ?thesis by (auto simp: ex_F_def)
qed

section \<open>Requests with a context: properties\<close>

lemma remember_keys: "distinct (map status_key prev) \<Longrightarrow> distinct (map status_key (remember res prev))"
  by (simp add: remember_def)

lemma attempt_loop_result:
  assumes "attempt_loop l prev evs = Ended (Rwc_response res prev')"
    and "distinct (map status_key prev)" and "\<forall>p\<in>set prev. IsProvisional p"
  shows "IsSuccess res \<and> Tx_response res \<in> set evs \<and> distinct (map status_key prev') \<and> (\<forall>p\<in>set prev'. IsProvisional p)"
  using assms
proof (induction l prev evs rule: attempt_loop.induct)
  case (5 l prev r evs)
  show ?case
  proof (cases "IsProvisional r")
    case True
    have "\<forall>p\<in>set (remember r prev). IsProvisional p" using True 5(4) by (auto simp: remember_def)
    with True 5 show ?thesis by (auto simp: remember_keys)
  qed (use 5 in \<open>auto split: if_splits\<close>)
qed auto

lemma attempt_loop_final:
  assumes "\<forall>p\<in>set ps. IsProvisional p" and "\<not> IsProvisional res"
  shows "attempt_loop l prev (map Tx_response ps @ Tx_response res # rest) =
    (if IsSuccess res then Ended (Rwc_response res (fold remember ps prev)) else Refused_with res (fold remember ps prev))"
  using assms(1) by (induction ps arbitrary: l prev) (use assms(2) in simp_all)

lemma attempt_loop_start:
  assumes "attempt_loop None [] evs = Ended (Rwc_response res prev)"
  shows "IsSuccess res" "distinct (map status_key prev)" "p \<in> set prev \<Longrightarrow> IsProvisional p"
  using attempt_loop_result [OF assms] by simp_all

lemma second_attempt:
  assumes "requestWithContext W a 2 req = (r, sent)"
  shows "length sent \<le> 1 \<and> (r = Rwc_response res prev \<longrightarrow>
    IsSuccess res \<and> distinct (map status_key prev) \<and> (\<forall>p\<in>set prev. IsProvisional p))"
  using assms
  by (subst (asm) requestWithContext.simps)
     (auto simp: Let_def attempt_loop_start split: if_splits sum.splits attempt_end.splits)

text \<open>C20: A request with a context is sent at most twice, the second time only with an authorizer.  A
  response it returns is a success, with the provisional responses before it, each status and reason once.\<close>

theorem requestWithContext_bounded:
  "length (snd (requestWithContext W authorizer 1 req)) \<le> (if authorizer = None then 1 else 2) \<and>
   (\<forall>res prev. fst (requestWithContext W authorizer 1 req) = Rwc_response res prev \<longrightarrow>
      IsSuccess res \<and> distinct (map status_key prev) \<and> (\<forall>p\<in>set prev. IsProvisional p))"
proof -
  have "length (snd (requestWithContext W authorizer 1 req)) \<le> (if authorizer = None then 1 else 2)"
    by (subst requestWithContext.simps)
       (auto simp: Let_def simp del: One_nat_def split: sum.split attempt_end.split res.split prod.split dest: second_attempt)
  moreover have "IsSuccess res \<and> distinct (map status_key prev) \<and> (\<forall>p\<in>set prev. IsProvisional p)"
    if "fst (requestWithContext W authorizer 1 req) = Rwc_response res prev" for res prev
    using that
    by (subst (asm) requestWithContext.simps)
       (auto simp: Let_def attempt_loop_start simp del: One_nat_def
          split: if_splits sum.splits attempt_end.splits res.splits prod.splits
          dest: second_attempt [where res = res and prev = prev])
  ultimately show ?thesis by blast
qed

text \<open>A server whose first request is answered with \<open>first\<close> and whose second with \<open>second\<close>,
  the layers below leaving the request as it is.\<close>

definition sample_rwc :: "response list \<Rightarrow> response list \<Rightarrow> rwc_env" where
  "sample_rwc first second =
     \<lparr>rw_server = (\<lambda>_. sample_server), rw_perm = (\<lambda>_. [''OPTIONS'']),
      rw_request = (\<lambda>k req. Inr (req, map Tx_response (if k = 1 then first else second))),
      rw_md5hex = (\<lambda>_. ''h''), rw_rand = ''rand''\<rparr>"

lemma sample_rwc_fields [simp]:
  "rw_server (sample_rwc f s) k = sample_server" "rw_perm (sample_rwc f s) k = [''OPTIONS'']"
  "rw_request (sample_rwc f s) k req = Inr (req, map Tx_response (if k = 1 then f else s))"
  "rw_md5hex (sample_rwc f s) = (\<lambda>_. ''h'')" "rw_rand (sample_rwc f s) = ''rand''" "sv_running sample_server"
  by (simp_all add: sample_rwc_def sample_server_def NewServer_def OnRequest_def)

lemma ex_statuses [simp]:
  "IsProvisional (ex_response ''OPTIONS'' 100)" "\<not> IsProvisional (ex_response ''OPTIONS'' 200)" "IsSuccess (ex_response ''OPTIONS'' 200)"
  by (simp_all add: IsProvisional_def IsSuccess_def ex_response_def NewResponse_def)

theorem requestWithContext_bounded_witness:
  "\<exists>prev sent. requestWithContext (sample_rwc [ex_response ''OPTIONS'' 100, ex_response ''OPTIONS'' 200] []) None 1 (ex_request ''OPTIONS'') =
     (Rwc_response (ex_response ''OPTIONS'' 200) prev, sent) \<and> length sent \<le> 1 \<and> distinct (map status_key prev)"
proof -
  let ?W = "sample_rwc [ex_response ''OPTIONS'' 100, ex_response ''OPTIONS'' 200] []"
  have "requestWithContext ?W None 1 (ex_request ''OPTIONS'') =
     (Rwc_response (ex_response ''OPTIONS'' 200) (remember (ex_response ''OPTIONS'' 100) []), [prepareRequest [''OPTIONS''] sample_server (ex_request ''OPTIONS'')])"
    by (subst requestWithContext.simps) (simp add: Let_def)
  with requestWithContext_bounded [of ?W None "ex_request ''OPTIONS''"] show ?thesis by auto
qed

text \<open>What the layers below may do to a request that they send: rewrite its first Via hop, keeping that
  it has parameters (\<open>NewClientTx\<close> sets the branch, \<open>layer.Send\<close> transport, host and port), and
  change its URI (\<open>layer.Send\<close> takes the parameter \<open>transport\<close> off).\<close>

definition rewrites_via :: "(via_hop \<Rightarrow> via_hop) \<Rightarrow> bool" where
  "rewrites_via f \<longleftrightarrow> (\<forall>hop. HParams hop \<noteq> None \<longrightarrow> HParams (f hop) \<noteq> None)"

lemma layer_Send_leaves:
  assumes "layer_Send N (Req req) T = (Ok w, msg, T')"
  obtains f u where "rewrites_via f" "msg = Req (req\<lparr>hdrs := map_first_hop f (hdrs req), recipient := Some u\<rparr>)"
proof -
  have via: "rewrites_via (rewrite_via N network L)" for network L by (simp add: rewrites_via_def rewrite_via_def)
  have "\<exists>network L u. msg = Req (req\<lparr>hdrs := map_first_hop (rewrite_via N network L) (hdrs req), recipient := Some u\<rparr>)"
    using assms
    by (auto simp: layer_Send_def layer_Send_request_def remove_transport_def Let_def
        split: if_splits option.splits res.splits prod.splits sum.splits uri.splits)
  with via that show ?thesis by blast
qed

lemma prepareRequest_keeps:
  assumes "headers_wf (hdrs req)"
  shows "headers_wf (hdrs (prepareRequest perm srv req))" "rmethod (prepareRequest perm srv req) = rmethod req"
    "recipient (prepareRequest perm srv req) = recipient req" "body (prepareRequest perm srv req) = body req"
    "hs_ViaHop (hdrs (prepareRequest perm srv req)) = hs_ViaHop (hdrs req)"
    "GetHeaders ''CSeq'' (hdrs (prepareRequest perm srv req)) = GetHeaders ''CSeq'' (hdrs req)"
    "GetHeaders ''Authorization'' (hdrs (prepareRequest perm srv req)) = GetHeaders ''Authorization'' (hdrs req)"
proof -
  have low: "strings_ToLower ''Authorization'' = ''authorization''" by code_simp
  have get: "GetHeaders n (hdrs (prepareRequest perm srv req)) = GetHeaders n (hdrs req)"
    if "strings_ToLower n \<notin> {''user-agent'', ''server'', ''allow'', ''supported'', ''content-length''}" for n
    using GetHeaders_auto_keep [of "Req req" n perm srv] assms that by (simp add: prepareRequest_fields)
  show "headers_wf (hdrs (prepareRequest perm srv req))" "rmethod (prepareRequest perm srv req) = rmethod req"
    "recipient (prepareRequest perm srv req) = recipient req" "body (prepareRequest perm srv req) = body req"
    by (simp_all add: prepareRequest_fields fold_append_missing_wf assms)
  show "hs_ViaHop (hdrs (prepareRequest perm srv req)) = hs_ViaHop (hdrs req)"
    "GetHeaders ''CSeq'' (hdrs (prepareRequest perm srv req)) = GetHeaders ''CSeq'' (hdrs req)"
    "GetHeaders ''Authorization'' (hdrs (prepareRequest perm srv req)) = GetHeaders ''Authorization'' (hdrs req)"
    by (simp_all add: hs_ViaHop_def hs_Via_def get low)
qed

text \<open>C19: When the first attempt ends with a 401 that has a challenge, the request is sent again once: with one
  Authorization header, the credentials for the challenge, the next sequence number and a new branch.  The
  outcome of the second attempt is the outcome of the call, also if it is another 401.\<close>

theorem requestWithContext_retry:
  assumes wf: "headers_wf (hdrs req)" and hop: "hs_ViaHop (hdrs req) = Some hop" "HParams hop \<noteq> None"
    and c: "hs_CSeq (hdrs req) = Some c"
    and auth: "\<forall>h\<in>set (GetHeaders ''Authorization'' (hdrs req)). \<exists>g. h = GenericHeader g"
    and run: "sv_running (rw_server W 1)" "sv_running (rw_server W 2)"
    and sent1: "req1 = prepareRequest (rw_perm W 1) (rw_server W 1) req"
      "rw_request W 1 req1 = Inr (req1\<lparr>hdrs := map_first_hop f (hdrs req1), recipient := Some u\<rparr>, map Tx_response ps @ Tx_response res # rest)"
    and f: "rewrites_via f"
    and res: "\<forall>p\<in>set ps. IsProvisional p" "rstatus res = 401" "GetHeaders ''WWW-Authenticate'' (hdrs res) = GenericHeader ch # l"
  shows "\<exists>req2 g. GetHeaders ''Authorization'' (hdrs req2) = [GenericHeader g] \<and>
    Contents g = Authorization_String (make_credentials (rw_md5hex W) (Contents ch) (rmethod req) (uri_String u) user pw) \<and>
    GetHeaders ''CSeq'' (hdrs req2) = [CSeq (c\<lparr>SeqNo := SeqNo c + 1\<rparr>)] \<and>
    hs_ViaHop (hdrs req2) = Some (set_branch (GenerateBranch (rw_rand W)) (f hop)) \<and>
    rmethod req2 = rmethod req \<and> recipient req2 = Some u \<and> body req2 = body req \<and>
    (\<forall>req3 ps2 res2 rest2.
       rw_request W 2 req2 = Inr (req3, map Tx_response ps2 @ Tx_response res2 # rest2) \<longrightarrow>
       (\<forall>p\<in>set ps2. IsProvisional p) \<longrightarrow> \<not> IsProvisional res2 \<longrightarrow>
       requestWithContext W (Some (Some user, pw)) 1 req =
         (if IsSuccess res2 then Rwc_response res2 (fold remember ps2 [])
          else Rwc_error (Rwc_failed (rstatus res2) (reason res2) res2 (fold remember ps2 [])), [req1, req2]))"
proof -
  let ?sent = "req1\<lparr>hdrs := map_first_hop f (hdrs req1), recipient := Some u\<rparr>"
  have low: "strings_ToLower ''Authorization'' = ''authorization''" by code_simp
  have req1: "headers_wf (hdrs ?sent)" "hs_ViaHop (hdrs ?sent) = Some (f hop)" "hs_CSeq (hdrs ?sent) = Some c"
    "recipient ?sent = Some u" "rmethod ?sent = rmethod req" "body ?sent = body req"
    "GetHeaders ''Authorization'' (hdrs ?sent) = GetHeaders ''Authorization'' (hdrs req)"
    using prepareRequest_keeps [OF wf, of "rw_perm W 1" "rw_server W 1", folded sent1(1)] hop(1) c low
    by (simp_all add: GetHeaders_map_first_hop hs_CSeq_def)
  have "HParams (f hop) \<noteq> None" using f hop(2) by (simp add: rewrites_via_def)
  from AuthorizeRequest_Ok [OF req1(1,2) this req1(3,4) _ res(2,3), of "rw_md5hex W" "rw_rand W" user pw] auth req1(5-7)
  obtain req' g where a: "AuthorizeRequest (rw_md5hex W) (rw_rand W) ?sent res (Some user) pw = Ok req'" "headers_wf (hdrs req')"
    "GetHeaders ''Authorization'' (hdrs req') = [GenericHeader g]"
    "Contents g = Authorization_String (make_credentials (rw_md5hex W) (Contents ch) (rmethod req) (uri_String u) user pw)"
    "GetHeaders ''CSeq'' (hdrs req') = [CSeq (c\<lparr>SeqNo := SeqNo c + 1\<rparr>)]"
    "hs_ViaHop (hdrs req') = Some (set_branch (GenerateBranch (rw_rand W)) (f hop))"
    "rmethod req' = rmethod req" "recipient req' = recipient ?sent" "body req' = body req"
    by fastforce
  define req2 where "req2 = prepareRequest (rw_perm W 2) (rw_server W 2) req'"
  note p2 = prepareRequest_keeps [OF a(2), of "rw_perm W 2" "rw_server W 2", folded req2_def]
  have nf: "\<not> IsProvisional res" "\<not> IsSuccess res" using res(2) by (simp_all add: IsProvisional_def IsSuccess_def)
  have first: "requestWithContext W (Some (Some user, pw)) 1 req =
      (case requestWithContext W (Some (Some user, pw)) 2 req' of (x, sent) \<Rightarrow> (x, req1 # sent))"
    by (subst requestWithContext.simps)
       (simp add: Let_def run sent1(1) [symmetric] sent1(2) attempt_loop_final [OF res(1) nf(1)] nf(2) res(2) a(1) del: One_nat_def)
  have second: "requestWithContext W (Some (Some user, pw)) 2 req' =
      (if IsSuccess res2 then Rwc_response res2 (fold remember ps2 [])
       else Rwc_error (Rwc_failed (rstatus res2) (reason res2) res2 (fold remember ps2 [])), [req2])"
    if "rw_request W 2 req2 = Inr (req3, map Tx_response ps2 @ Tx_response res2 # rest2)"
      "\<forall>p\<in>set ps2. IsProvisional p" "\<not> IsProvisional res2" for req3 ps2 res2 rest2
    using that by (subst requestWithContext.simps) (simp add: Let_def run req2_def [symmetric] attempt_loop_final)
  show ?thesis
    using a p2 low req1(4) first second
    by (intro exI [where x = req2] exI [where x = g]) simp
qed

theorem requestWithContext_retry_witness:
  "\<exists>req2 g. GetHeaders ''Authorization'' (hdrs req2) = [GenericHeader g] \<and>
     requestWithContext (sample_rwc [ex_response ''OPTIONS'' 100, sample_401] [ex_response ''OPTIONS'' 200]) (Some (Some ''bob'', Some ''secret'')) 1
         (ex_request ''REGISTER'') =
       (Rwc_response (ex_response ''OPTIONS'' 200) [], [prepareRequest [''OPTIONS''] sample_server (ex_request ''REGISTER''), req2])"
proof -
  let ?W = "sample_rwc [ex_response ''OPTIONS'' 100, sample_401] [ex_response ''OPTIONS'' 200]"
  have low: "strings_ToLower ''Authorization'' = ''authorization''" "strings_ToLower ''WWW-Authenticate'' = ''www-authenticate''"
    by code_simp+
  have r: "hdrs (ex_request n) = newHeaders (ex_headers n)" "recipient (ex_request n) = Some (SipUri ex_uri)" for n
    by (simp_all add: ex_request_def NewRequest_def)
  have wf: "headers_wf (hdrs (ex_request n))" "hs_ViaHop (hdrs (ex_request n)) = Some ex_hop"
    "hs_CSeq (hdrs (ex_request n)) = Some \<lparr>SeqNo = 1, MethodName = n\<rparr>" for n
    by (simp_all add: r(1))
  have auth: "\<forall>h\<in>set (GetHeaders ''Authorization'' (hdrs (ex_request n))). \<exists>g. h = GenericHeader g" for n
    by (simp add: r(1) GetHeaders_newHeaders ex_headers_def low)
  have c: "rstatus sample_401 = 401" "GetHeaders ''WWW-Authenticate'' (hdrs sample_401) =
      [GenericHeader \<lparr>HeaderName = ''WWW-Authenticate'', Contents = sample_challenge\<rparr>]"
    by (simp_all add: sample_401_def NewResponse_def GetHeaders_newHeaders header_key_def low)
  have hop: "HParams ex_hop \<noteq> None" by (simp add: ex_hop_def)
  have id: "map_first_hop (\<lambda>hop. hop) hs = hs" for hs
    by (auto simp: map_first_hop_def update_triv split: option.splits list.splits header.splits)
  let ?req1 = "prepareRequest (rw_perm ?W 1) (rw_server ?W 1) (ex_request ''REGISTER'')"
  have "recipient ?req1 = Some (SipUri ex_uri)" by (simp add: prepareRequest_fields r(2))
  then have sent: "rw_request ?W 1 ?req1 = Inr (?req1\<lparr>hdrs := map_first_hop (\<lambda>hop. hop) (hdrs ?req1), recipient := Some (SipUri ex_uri)\<rparr>,
      map Tx_response [ex_response ''OPTIONS'' 100] @ Tx_response sample_401 # [])"
    by (simp add: id)
  from requestWithContext_retry [OF wf(1,2) hop wf(3) auth _ _ refl sent _ _ c, of "''bob''" "Some ''secret''"]
  obtain req2 g where "GetHeaders ''Authorization'' (hdrs req2) = [GenericHeader g]"
    and "\<forall>req3 ps2 res2 rest2.
       rw_request ?W 2 req2 = Inr (req3, map Tx_response ps2 @ Tx_response res2 # rest2) \<longrightarrow>
       (\<forall>p\<in>set ps2. IsProvisional p) \<longrightarrow> \<not> IsProvisional res2 \<longrightarrow>
       requestWithContext ?W (Some (Some ''bob'', Some ''secret'')) 1 (ex_request ''REGISTER'') =
         (if IsSuccess res2 then Rwc_response res2 (fold remember ps2 [])
          else Rwc_error (Rwc_failed (rstatus res2) (reason res2) res2 (fold remember ps2 [])), [?req1, req2])"
    by (auto simp: rewrites_via_def)
  from this(1) this(2) [rule_format, of req2 "[]" "ex_response ''OPTIONS'' 200" "[]"] show ?thesis by auto
qed

end
