(* ===== verification/Gb28181.thy ===== *)
theory Gb28181
  imports Server
begin

text \<open>
  The GB28181 application on top of the server: the session table (\<^verbatim>\<open>gb28181/session.go\<close>) and the
  request handlers (\<^verbatim>\<open>gb28181/gb28181.go\<close>).  Redis, the device service, the XML decoder and the clock
  are outside the repository: the commands sent to redis are logged in \<open>gs_redis\<close>, the answers of the
  others are fields of \<open>gb_env\<close>.  A handler recovers from every panic; its result lists the responses
  that it has given to \<open>srv.Respond\<close>.
\<close>

section \<open>Sessions\<close>

text \<open>Times and durations are nanoseconds.\<close>

record gateway_device =
  gd_DeviceID :: bytes
  gd_From :: bytes
  gd_Addr :: bytes
  gd_RegisterTime :: int
  gd_Expires :: int
  gd_CSeq :: "32 word"
  gd_ChannelMap :: "bytes list option"

datatype redis_cmd = HMSet bytes "bytes list" | RExpire bytes int | RDel bytes

record gb_session =
  gs_session :: "(bytes \<times> gateway_device) list"
  gs_redis :: "redis_cmd list"
  gs_queries :: "bytes list"

record sip_xml =
  sx_name :: bytes
  sx_CmdType :: bytes
  sx_DeviceList :: "bytes list"

text \<open>\<open>ge_since\<close> is the time between the two readings of the clock in
  \<^verbatim>\<open>time.Since(time.Now())\<close>; \<open>ge_token\<close> is the answer of the device service.\<close>

record gb_env =
  ge_now :: int
  ge_since :: int
  ge_outbound :: bytes
  ge_nonce :: bytes
  ge_id :: bytes
  ge_token :: "bytes \<Rightarrow> bytes option"
  ge_md5hex :: "bytes \<Rightarrow> bytes"
  ge_decode :: "bytes \<Rightarrow> sip_xml"

text \<open>\<open>Duration.Milliseconds\<close> truncates towards zero.\<close>

definition Milliseconds :: "int \<Rightarrow> int" where
  "Milliseconds d = (if 0 \<le> d then d div 1000000 else - (- d div 1000000))"

definition FormatInt :: "int \<Rightarrow> bytes" where
  "FormatInt i = (if i < 0 then CHR ''-'' # fmt_d (nat (- i)) else fmt_d (nat i))"

definition device_toHashValues :: "gb_env \<Rightarrow> gateway_device \<Rightarrow> bytes list" where
  "device_toHashValues E d =
     [''from'', gd_From d, ''send'', gd_Addr d, ''rt'', FormatInt (gd_RegisterTime d div 1000000),
      ''exp'', FormatInt (gd_Expires d), ''addr'', ge_outbound E]"

definition redis_Register :: "gb_env \<Rightarrow> gateway_device \<Rightarrow> int \<Rightarrow> gb_session \<Rightarrow> gb_session" where
  "redis_Register E d expire S =
     (let key = ''sips:'' @ gd_DeviceID d
      in S\<lparr>gs_redis := gs_redis S @ [HMSet key (device_toHashValues E d), RExpire key expire]\<rparr>)"

definition RemoveRoute :: "bytes \<Rightarrow> gb_session \<Rightarrow> gb_session" where
  "RemoveRoute cameraID S = S\<lparr>gs_redis := gs_redis S @ [RDel (''sips:'' @ cameraID), RDel (''sipc:'' @ cameraID)]\<rparr>"

definition session_Remove :: "bytes \<Rightarrow> gb_session \<Rightarrow> gb_session" where
  "session_Remove i S = RemoveRoute i (S\<lparr>gs_session := AList.delete i (gs_session S)\<rparr>)"

definition session_Store :: "gb_env \<Rightarrow> gateway_device \<Rightarrow> int \<Rightarrow> gb_session \<Rightarrow> gb_session" where
  "session_Store E d expiration S =
     (let d1 = d\<lparr>gd_Expires := expiration\<rparr>
      in redis_Register E d1 expiration (S\<lparr>gs_session := AList.update (gd_DeviceID d1) d1 (gs_session S)\<rparr>))"

definition session_valid :: "gb_env \<Rightarrow> gateway_device \<Rightarrow> bool" where
  "session_valid E d \<longleftrightarrow>
     Milliseconds (ge_since E) - Milliseconds (ge_now E - gd_RegisterTime d) \<le> Milliseconds (gd_Expires d)"

definition session_Get :: "gb_env \<Rightarrow> bytes \<Rightarrow> gb_session \<Rightarrow> gateway_device option \<times> gb_session" where
  "session_Get E i S =
     (case map_of (gs_session S) i of
        Some d \<Rightarrow> if session_valid E d then (Some d, S) else (None, session_Remove i S)
      | None \<Rightarrow> (None, S))"

text \<open>What \<open>Recover\<close> does with the hash of one key of redis.\<close>

definition checkAndAddSession :: "gb_env \<Rightarrow> bytes \<Rightarrow> (bytes \<times> bytes) list \<Rightarrow> gb_session \<Rightarrow> bool \<times> gb_session" where
  "checkAndAddSession E deviceId value S =
     (case (map_of value ''from'', map_of value ''send'', map_of value ''rt'', map_of value ''exp'') of
        (Some from', Some addr, Some rt, Some expire) \<Rightarrow>
          (case (strconv_Atoi rt, strconv_Atoi expire,
                 case map_of value ''CSeq'' of None \<Rightarrow> (1, None) | Some c \<Rightarrow> strconv_Atoi c) of
             ((r, None), (e, None), (c, None)) \<Rightarrow>
               let d = \<lparr>gd_DeviceID = deviceId, gd_From = from', gd_Addr = addr, gd_RegisterTime = r * 1000000,
                        gd_Expires = e, gd_CSeq = word_of_int c, gd_ChannelMap = Some [deviceId]\<rparr>;
                   S1 = session_Store E d e S
               in (True, S1\<lparr>gs_queries := gs_queries S1 @ [deviceId]\<rparr>)
           | _ \<Rightarrow> (False, S))
      | _ \<Rightarrow> (False, S))"

section \<open>Handlers\<close>

type_synonym handled = "response list \<times> gb_session"

definition gb_reply :: "gb_env \<Rightarrow> request \<Rightarrow> 16 word \<Rightarrow> bytes \<Rightarrow> bytes \<Rightarrow> response may_panic" where
  "gb_reply E req code why b = NewResponseFromRequest (ge_id E) [] req code why b"

text \<open>\<^verbatim>\<open>from.Address.User().String()\<close>: nil on the way is a panic.\<close>

definition from_user :: "request \<Rightarrow> bytes may_panic" where
  "from_user req =
     (case hs_From (hdrs req) of
        Some f \<Rightarrow>
          (case Address f of
             Some (SipUri u) \<Rightarrow> (case FUser u of Some n \<Rightarrow> Ok n | None \<Rightarrow> Crash)
           | _ \<Rightarrow> Crash)
      | None \<Rightarrow> Crash)"

definition from_string :: "request \<Rightarrow> bytes may_panic" where
  "from_string req =
     (case hs_From (hdrs req) of
        Some f \<Rightarrow> (case Address f of Some u \<Rightarrow> Ok (uri_String u) | None \<Rightarrow> Crash)
      | None \<Rightarrow> Crash)"

text \<open>The loop of \<open>getSendAddr\<close> over the Via hops: the last hop with a parameter wins.\<close>

fun send_scan :: "via_hop list \<Rightarrow> bytes \<Rightarrow> bytes \<Rightarrow> via_hop option \<Rightarrow> (bytes \<times> bytes \<times> via_hop option) may_panic" where
  "send_scan [] received rport viaHop = Ok (received, rport, viaHop)"
| "send_scan (hop # hops) received rport viaHop =
     (case HParams hop of
        None \<Rightarrow> Crash
      | Some ps \<Rightarrow>
          (case (params_Get ps ''received'', params_Get ps ''rport'') of
             (Some None, _) \<Rightarrow> Crash
           | (_, Some None) \<Rightarrow> Crash
           | (None, None) \<Rightarrow> send_scan hops received rport viaHop
           | (Some (Some r), None) \<Rightarrow> send_scan hops r rport (Some hop)
           | (None, Some (Some q)) \<Rightarrow> send_scan hops received q (Some hop)
           | (Some (Some r), Some (Some q)) \<Rightarrow> send_scan hops r q (Some hop)))"

definition getSendAddr :: "request \<Rightarrow> bytes may_panic" where
  "getSendAddr req =
     res_bind (send_scan (case hs_Via (hdrs req) of Some v \<Rightarrow> v | None \<Rightarrow> []) [] [] None) (\<lambda>(received, rport, viaHop).
       case viaHop of
         None \<Rightarrow> Crash
       | Some hop \<Rightarrow>
           let p = (if rport \<noteq> [] \<and> rport \<noteq> ''0'' \<and> rport \<noteq> ''-1'' then rport
                    else case Port hop of
                      Some q \<Rightarrow> fmt_d (unat q)
                    | None \<Rightarrow> if strings_ToUpper (Transport hop) = ''UDP'' then ''5060'' else ''5061'');
               h = (if received \<noteq> [] then received else Host hop)
           in Ok (h @ '':'' @ p))"

definition gb_challenge :: "gb_env \<Rightarrow> request \<Rightarrow> response may_panic" where
  "gb_challenge E req =
     res_bind (gb_reply E req 401 ''Unauthorized'' []) (\<lambda>res.
       let value = ''realm='' @ in_quotes ''3402000000'' @ ''nonce='' @ in_quotes (ge_nonce E)
       in Ok (res\<lparr>hdrs := AppendHeader (Authenticate (Authorization_String (AuthFromValue value))) (hdrs res)\<rparr>))"

text \<open>The Expires header, in seconds; one that is no number counts as absent.\<close>

definition register_expires :: "request \<Rightarrow> int" where
  "register_expires req =
     (case find (\<lambda>h. header_Name h = ''Expires'') (Headers_all (hdrs req)) of
        None \<Rightarrow> 3600
      | Some h \<Rightarrow> (case strconv_Atoi (header_Value h) of (n, None) \<Rightarrow> n | _ \<Rightarrow> 3600))"

definition register_accept :: "gb_env \<Rightarrow> request \<Rightarrow> bytes \<Rightarrow> gb_session \<Rightarrow> (response \<times> gb_session) may_panic" where
  "register_accept E req i S =
     res_bind (getSendAddr req) (\<lambda>addr.
     res_bind (gb_reply E req 200 ''OK'' []) (\<lambda>res.
     res_bind (from_string req) (\<lambda>from'.
       let expires = register_expires req in
       if expires = 0 then Ok (res, session_Remove i S)
       else
         let d = \<lparr>gd_DeviceID = i, gd_From = from', gd_Addr = addr, gd_RegisterTime = ge_now E, gd_Expires = expires,
                  gd_CSeq = 1, gd_ChannelMap = Some [i]\<rparr>;
             S1 = session_Store E d (wrap64 (expires * 1000000000)) S
         in Ok (res, S1\<lparr>gs_queries := gs_queries S1 @ [i]\<rparr>))))"

text \<open>Several Authorization headers leave the response nil, and \<open>Respond\<close> panics.  The method of the
  transaction's request is \<^const>\<open>None\<close> for a nil transaction.\<close>

definition OnRegister :: "gb_env \<Rightarrow> request \<Rightarrow> bytes option \<Rightarrow> gb_session \<Rightarrow> handled" where
  "OnRegister E req txMethod S =
     (if rmethod req = ''REGISTER'' \<and> txMethod = Some ''REGISTER'' then
        (case (case GetHeaders ''Authorization'' (hdrs req) of
                 [] \<Rightarrow> res_bind (gb_challenge E req) (\<lambda>res. Ok (res, S))
               | [h] \<Rightarrow>
                   res_bind (from_user req) (\<lambda>i.
                     case ge_token E i of
                       None \<Rightarrow> res_bind (gb_challenge E req) (\<lambda>res. Ok (res, S))
                     | Some pw \<Rightarrow>
                         if check_credentials (ge_md5hex E) (rmethod req) pw (header_Value h)
                         then register_accept E req i S
                         else res_bind (gb_challenge E req) (\<lambda>res. Ok (res, S)))
               | _ \<Rightarrow> Crash) of
           Ok (res, S1) \<Rightarrow> ([res], S1)
         | _ \<Rightarrow> ([], S))
      else ([], S))"

text \<open>The handlers that answer a known device with 200 and any other with 401.\<close>

definition session_answer :: "gb_env \<Rightarrow> bytes \<Rightarrow> bytes \<Rightarrow> request \<Rightarrow> bytes option \<Rightarrow> gb_session \<Rightarrow> handled" where
  "session_answer E m b req txMethod S =
     (if rmethod req = m \<and> txMethod = Some m then
        (case from_user req of
           Ok i \<Rightarrow>
             let (d, S1) = session_Get E i S in
             (case (if d \<noteq> None then gb_reply E req 200 [] b else gb_reply E req 401 ''Unauthorized'' []) of
                Ok res \<Rightarrow> ([res], S1)
              | _ \<Rightarrow> ([], S1))
         | _ \<Rightarrow> ([], S))
      else ([], S))"

definition OnOptions :: "gb_env \<Rightarrow> request \<Rightarrow> bytes option \<Rightarrow> gb_session \<Rightarrow> handled" where
  "OnOptions E req txMethod S = session_answer E ''OPTIONS'' [] req txMethod S"

definition OnBye :: "gb_env \<Rightarrow> request \<Rightarrow> bytes option \<Rightarrow> gb_session \<Rightarrow> handled" where
  "OnBye E req txMethod S = session_answer E ''BYE'' ''ok'' req txMethod S"

text \<open>The server calls the handler of ACK with a nil transaction.\<close>

definition OnAck :: "gb_env \<Rightarrow> request \<Rightarrow> bytes option \<Rightarrow> gb_session \<Rightarrow> handled" where
  "OnAck E req txMethod S = session_answer E ''ACK'' ''ok'' req txMethod S"

definition OnInvite :: "gb_env \<Rightarrow> request \<Rightarrow> bytes option \<Rightarrow> gb_session \<Rightarrow> handled" where
  "OnInvite E req txMethod S =
     (if rmethod req = ''INVITE'' \<and> txMethod = Some ''INVITE'' then
        (case gb_reply E req 405 ''Method Not Allowed'' [] of Ok res \<Rightarrow> ([res], S) | _ \<Rightarrow> ([], S))
      else ([], S))"

text \<open>A message with a catalog adds channels to the device, which panics on a nil map; the answer is always
  yes.  The cache of the calls of the channels is not part of the model.\<close>

definition gb_handleMessage :: "sip_xml \<Rightarrow> gateway_device \<Rightarrow> gb_session \<Rightarrow> gb_session may_panic" where
  "gb_handleMessage msg d S =
     (if sx_name msg = ''Notify'' then
        Ok (if gd_ChannelMap d = None then S\<lparr>gs_queries := gs_queries S @ [gd_DeviceID d]\<rparr> else S)
      else if sx_name msg = ''Response'' \<and> sx_CmdType msg = ''Catalog'' then
        (case gd_ChannelMap d of
           None \<Rightarrow> if sx_DeviceList msg = [] then Ok S else Crash
         | Some l \<Rightarrow>
             let l1 = fold (\<lambda>c l. if c \<in> set l then l else l @ [c]) (sx_DeviceList msg) l
             in Ok (S\<lparr>gs_session := AList.update (gd_DeviceID d) (d\<lparr>gd_ChannelMap := Some l1\<rparr>) (gs_session S)\<rparr>))
      else Ok S)"

definition OnMessage :: "gb_env \<Rightarrow> request \<Rightarrow> bytes option \<Rightarrow> gb_session \<Rightarrow> handled" where
  "OnMessage E req txMethod S =
     (if rmethod req = ''MESSAGE'' \<and> txMethod = Some ''MESSAGE'' then
        (case from_user req of
           Ok i \<Rightarrow>
             (case session_Get E i S of
                (Some d, S1) \<Rightarrow>
                  (case hs_ContentType (hdrs req) of
                     Some ct \<Rightarrow>
                       if ct = ''Application/MANSCDP+xml'' then
                         (case gb_handleMessage (ge_decode E (body req)) d S1 of
                            Ok S2 \<Rightarrow> (case gb_reply E req 200 ''OK'' [] of Ok res \<Rightarrow> ([res, res], S2) | _ \<Rightarrow> ([], S2))
                          | _ \<Rightarrow> ([], S1))
                       else (case gb_reply E req 401 ''not support content type'' [] of Ok res \<Rightarrow> ([res], S1) | _ \<Rightarrow> ([], S1))
                   | None \<Rightarrow> (case gb_reply E req 401 ''Unauthorized'' [] of Ok res \<Rightarrow> ([res], S1) | _ \<Rightarrow> ([], S1)))
              | (None, S1) \<Rightarrow> (case gb_reply E req 401 ''Unauthorized'' [] of Ok res \<Rightarrow> ([res], S1) | _ \<Rightarrow> ([], S1)))
         | _ \<Rightarrow> ([], S))
      else ([], S))"

section \<open>Properties\<close>

lemma session_Remove_fields:
  "map_of (gs_session (session_Remove i S)) j = (if j = i then None else map_of (gs_session S) j)"
  by (simp add: session_Remove_def RemoveRoute_def delete_conv')

lemma session_Store_fields:
  "map_of (gs_session (session_Store E d e S)) j =
     (if j = gd_DeviceID d then Some (d\<lparr>gd_Expires := e\<rparr>) else map_of (gs_session S) j)"
  by (simp add: session_Store_def redis_Register_def Let_def update_conv')

lemma register_accept_effect:
  assumes "register_accept E req i S = Ok (res, S')"
  shows "gb_reply E req 200 ''OK'' [] = Ok res"
    and "\<forall>j. j \<noteq> i \<longrightarrow> map_of (gs_session S') j = map_of (gs_session S) j"
    and "if register_expires req = 0 then map_of (gs_session S') i = None
      else \<exists>d. map_of (gs_session S') i = Some d \<and> gd_DeviceID d = i \<and> getSendAddr req = Ok (gd_Addr d) \<and>
        gd_RegisterTime d = ge_now E \<and> gd_Expires d = wrap64 (register_expires req * 1000000000)"
proof -
  obtain addr from' where p: "getSendAddr req = Ok addr" "gb_reply E req 200 ''OK'' [] = Ok res" "from_string req = Ok from'"
    using assms
    by (cases "getSendAddr req"; cases "gb_reply E req 200 ''OK'' []"; cases "from_string req")
       (auto simp: register_accept_def Let_def split: if_splits)
  from assms p show "gb_reply E req 200 ''OK'' [] = Ok res" "\<forall>j. j \<noteq> i \<longrightarrow> map_of (gs_session S') j = map_of (gs_session S) j"
    "if register_expires req = 0 then map_of (gs_session S') i = None
      else \<exists>d. map_of (gs_session S') i = Some d \<and> gd_DeviceID d = i \<and> getSendAddr req = Ok (gd_Addr d) \<and>
        gd_RegisterTime d = ge_now E \<and> gd_Expires d = wrap64 (register_expires req * 1000000000)"
    by (auto simp: register_accept_def Let_def session_Remove_fields session_Store_fields split: if_splits)
qed

lemma gb_reply_status: "gb_reply E req code why b = Ok res \<Longrightarrow> rstatus res = code"
  by (auto simp: gb_reply_def NewResponseFromRequest_def Let_def NewResponse_def)

text \<open>C23: A REGISTER changes the session table only with the password of its device: the request has one
  Authorization header whose digest is the one for the password that the device service knows.  Then the answer
  is 200, and only the entry of that device changes: it is removed for an expiry of 0 and otherwise holds the
  address of the request, the present time and the expiry.\<close>

theorem registration_needs_password:
  assumes "OnRegister E req txMethod S = (rs, S')" and "S' \<noteq> S"
  shows "\<exists>i h pw. from_user req = Ok i \<and> GetHeaders ''Authorization'' (hdrs req) = [h] \<and> ge_token E i = Some pw \<and>
    check_credentials (ge_md5hex E) ''REGISTER'' pw (header_Value h) \<and> map rstatus rs = [200] \<and>
    (\<forall>j. j \<noteq> i \<longrightarrow> map_of (gs_session S') j = map_of (gs_session S) j) \<and>
    (if register_expires req = 0 then map_of (gs_session S') i = None
     else \<exists>d. map_of (gs_session S') i = Some d \<and> gd_DeviceID d = i \<and> getSendAddr req = Ok (gd_Addr d) \<and>
        gd_RegisterTime d = ge_now E \<and> gd_Expires d = wrap64 (register_expires req * 1000000000))"
proof -
  obtain res i h pw where p: "rmethod req = ''REGISTER''" "GetHeaders ''Authorization'' (hdrs req) = [h]" "from_user req = Ok i"
    "ge_token E i = Some pw" "check_credentials (ge_md5hex E) (rmethod req) pw (header_Value h)"
    "register_accept E req i S = Ok (res, S')" "rs = [res]"
    using assms by (auto simp: OnRegister_def split: if_splits res.splits list.splits option.splits)
  note e = register_accept_effect [OF p(6)]
  show ?thesis using p e gb_reply_status [OF e(1)] by auto
qed

text \<open>C25: A session that is in the table is valid for ever.  The condition of \<open>Get\<close> subtracts the time since
  the registration where it means to compare it with the expiry, so it holds at every later time.\<close>

theorem session_never_expires:
  assumes "map_of (gs_session S) i = Some d" and "0 \<le> gd_Expires d" and "gd_RegisterTime d \<le> ge_now E"
    and "0 \<le> ge_since E" and "ge_since E < 1000000"
  shows "session_Get E i S = (Some d, S)"
proof -
  have "Milliseconds (ge_since E) = 0" "0 \<le> Milliseconds (ge_now E - gd_RegisterTime d)" "0 \<le> Milliseconds (gd_Expires d)"
    using assms by (simp_all add: Milliseconds_def div_pos_pos_trivial pos_imp_zdiv_nonneg_iff)
  then show ?thesis using assms(1) by (simp add: session_Get_def session_valid_def)
qed

section \<open>Registering with the client of this library\<close>

definition challenge_auth :: "bytes \<Rightarrow> authorization" where
  "challenge_auth nonce = AuthFromValue (''realm='' @ in_quotes ''3402000000'' @ ''nonce='' @ in_quotes nonce)"

lemma challenge_auth_fields:
  assumes "quote \<notin> set nonce"
  shows "challenge_auth nonce = no_auth\<lparr>au_realm := ''3402000000'', au_nonce := nonce\<rparr>"
proof -
  have "quote \<notin> set ''3402000000''" by (simp add: quote_char)
  then have "find_pairs (''realm='' @ in_quotes ''3402000000'' @ ''nonce='' @ in_quotes nonce) =
      (''realm'', ''3402000000'') # (if nonce = [] then [] else [(''nonce'', nonce)])"
    using find_pairs_pair [of "''realm''" "''3402000000''" "''nonce='' @ in_quotes nonce"]
      find_pairs_pair [of "''nonce''" nonce "[]"] assms keys_word by simp
  then show ?thesis by (simp add: challenge_auth_def AuthFromValue_def set_pair_def no_auth_def)
qed

lemma challenge_read:
  assumes "quote \<notin> set nonce"
  shows "AuthFromValue (Authorization_String (challenge_auth nonce)) = challenge_auth nonce"
proof -
  have "printable_auth (challenge_auth nonce)"
    using assms by (simp add: challenge_auth_fields printable_auth_def quote_char)
  from AuthFromValue_print [OF this] show ?thesis
    using assms by (simp add: challenge_auth_fields no_auth_def)
qed

lemma gb_reply_exists:
  assumes "request_ready req"
  obtains res where "gb_reply E req code why b = Ok res"
proof -
  obtain t s d where "request_Transport req = Ok t" "request_Source req = Ok s" "request_Destination req = Ok d"
    using assms by (rule request_ready_route)
  then show ?thesis using that by (simp add: gb_reply_def NewResponseFromRequest_def Let_def)
qed

lemma from_user_string: "from_user req = Ok i \<Longrightarrow> \<exists>t. from_string req = Ok t"
  by (auto simp: from_user_def from_string_def split: option.splits uri.splits)

lemma low_auth:
  "strings_ToLower ''WWW-Authenticate'' = ''www-authenticate''" "strings_ToLower ''Authorization'' = ''authorization''"
  by code_simp+

text \<open>The first REGISTER is answered with a challenge.\<close>

lemma OnRegister_challenges:
  assumes "rmethod req = ''REGISTER''" and "request_ready req" and "GetHeaders ''Authorization'' (hdrs req) = []"
  shows "\<exists>res. OnRegister E req (Some ''REGISTER'') S = ([res], S) \<and> rstatus res = 401 \<and>
    GetHeaders ''WWW-Authenticate'' (hdrs res) = [Authenticate (Authorization_String (challenge_auth (ge_nonce E)))]"
proof -
  obtain res where res: "gb_reply E req 401 ''Unauthorized'' [] = Ok res" using gb_reply_exists [OF assms(2)] .
  have wf: "headers_wf (hdrs req)" using assms(2) by (simp add: request_ready_def)
  note new = NewResponseFromRequest_headers(1) [OF wf res [unfolded gb_reply_def]]
  have "GetHeaders ''WWW-Authenticate'' (hdrs res) = []"
    using wf res by (auto simp: gb_reply_def NewResponseFromRequest_def Let_def derive_defs low_auth)
  with assms res new gb_reply_status [OF res] show ?thesis
    by (simp add: OnRegister_def gb_challenge_def Let_def GetHeaders_Append low_auth header_key_def challenge_auth_def)
qed

text \<open>When \<open>getSendAddr\<close> finds an address: every Via hop has parameters, the parameters \<open>received\<close> and
  \<open>rport\<close> have values where they are present, and one hop has one of them.\<close>

definition hop_values :: "via_hop \<Rightarrow> bool" where
  "hop_values hop \<longleftrightarrow> (case HParams hop of None \<Rightarrow> False | Some ps \<Rightarrow>
     params_Get ps ''received'' \<noteq> Some None \<and> params_Get ps ''rport'' \<noteq> Some None)"

definition hop_sender :: "via_hop \<Rightarrow> bool" where
  "hop_sender hop \<longleftrightarrow> (case HParams hop of None \<Rightarrow> False | Some ps \<Rightarrow>
     params_Get ps ''received'' \<noteq> None \<or> params_Get ps ''rport'' \<noteq> None)"

definition sender_recorded :: "request \<Rightarrow> bool" where
  "sender_recorded req \<longleftrightarrow> (case hs_Via (hdrs req) of None \<Rightarrow> False
     | Some hops \<Rightarrow> list_all hop_values hops \<and> list_ex hop_sender hops)"

lemma send_scan_Ok:
  "(\<exists>r p hop. send_scan hops received rport v = Ok (r, p, Some hop)) \<longleftrightarrow>
     list_all hop_values hops \<and> (list_ex hop_sender hops \<or> v \<noteq> None)"
  by (induction hops received rport v rule: send_scan.induct)
     (auto simp: hop_values_def hop_sender_def split: option.splits)

lemma send_scan_no_Err: "send_scan hops received rport v \<noteq> Err e"
  by (induction hops received rport v rule: send_scan.induct) (auto split: option.splits)

lemma getSendAddr_cases:
  "if sender_recorded req then \<exists>addr. getSendAddr req = Ok addr else getSendAddr req = Crash"
proof -
  let ?hops = "case hs_Via (hdrs req) of Some v \<Rightarrow> v | None \<Rightarrow> []"
  have "sender_recorded req \<longleftrightarrow> (\<exists>r p hop. send_scan ?hops [] [] None = Ok (r, p, Some hop))"
    unfolding send_scan_Ok by (auto simp: sender_recorded_def split: option.split)
  then show ?thesis
    using send_scan_no_Err [of ?hops "[]" "[]" None]
    by (cases "send_scan ?hops [] [] None") (auto simp: getSendAddr_def Let_def split: option.splits)
qed

text \<open>What the handler does with a REGISTER with good credentials.\<close>

lemma OnRegister_accepts:
  assumes "rmethod req = ''REGISTER''" and "request_ready req" and "GetHeaders ''Authorization'' (hdrs req) = [h]"
    and "from_user req = Ok i" and "ge_token E i = Some pw" and "getSendAddr req = Ok addr"
    and "check_credentials (ge_md5hex E) ''REGISTER'' pw (header_Value h)"
  shows "\<exists>res S'. OnRegister E req (Some ''REGISTER'') S = ([res], S') \<and> rstatus res = 200 \<and>
    (if register_expires req = 0 then map_of (gs_session S') i = None
     else \<exists>d. map_of (gs_session S') i = Some d \<and> gd_Addr d = addr)"
proof -
  obtain res where res: "gb_reply E req 200 ''OK'' [] = Ok res" using gb_reply_exists [OF assms(2)] .
  obtain t where t: "from_string req = Ok t" using from_user_string [OF assms(4)] by blast
  from res t assms(6) obtain S' where acc: "register_accept E req i S = Ok (res, S')"
    by (cases "register_expires req = 0") (simp_all add: register_accept_def Let_def)
  then have "OnRegister E req (Some ''REGISTER'') S = ([res], S')"
    using assms by (simp add: OnRegister_def)
  with register_accept_effect(3) [OF acc] assms(6) gb_reply_status [OF res] show ?thesis
    by (auto split: if_splits)
qed

lemma OnRegister_drops:
  assumes "rmethod req = ''REGISTER''" and "GetHeaders ''Authorization'' (hdrs req) = [h]" and "from_user req = Ok i"
    and "ge_token E i = Some pw" and "getSendAddr req = Crash" and "check_credentials (ge_md5hex E) ''REGISTER'' pw (header_Value h)"
  shows "OnRegister E req (Some ''REGISTER'') S = ([], S)"
  using assms by (simp add: OnRegister_def register_accept_def)

text \<open>What becomes of every REGISTER of a device with this password and these Authorization headers.\<close>

definition accepted_with :: "(bytes \<Rightarrow> bytes) \<Rightarrow> bytes \<Rightarrow> header list \<Rightarrow> bool" where
  "accepted_with md5hex pw hl \<longleftrightarrow>
     (\<forall>E req i S. ge_md5hex E = md5hex \<longrightarrow> ge_token E i = Some pw \<longrightarrow> rmethod req = ''REGISTER'' \<longrightarrow>
        request_ready req \<longrightarrow> from_user req = Ok i \<longrightarrow> GetHeaders ''Authorization'' (hdrs req) = hl \<longrightarrow>
        (if sender_recorded req
         then \<exists>addr res S'. getSendAddr req = Ok addr \<and>
           OnRegister E req (Some ''REGISTER'') S = ([res], S') \<and> rstatus res = 200 \<and>
           (if register_expires req = 0 then map_of (gs_session S') i = None
            else \<exists>d. map_of (gs_session S') i = Some d \<and> gd_Addr d = addr)
         else OnRegister E req (Some ''REGISTER'') S = ([], S)))"

lemma accepted_withI:
  assumes "check_credentials md5hex ''REGISTER'' pw (header_Value h)"
  shows "accepted_with md5hex pw [h]"
  unfolding accepted_with_def
proof (intro allI impI)
  fix E :: gb_env and req i S
  assume r: "ge_md5hex E = md5hex" "ge_token E i = Some pw" "rmethod req = ''REGISTER''" "request_ready req"
    "from_user req = Ok i" "GetHeaders ''Authorization'' (hdrs req) = [h]"
  show "if sender_recorded req
         then \<exists>addr res S'. getSendAddr req = Ok addr \<and>
           OnRegister E req (Some ''REGISTER'') S = ([res], S') \<and> rstatus res = 200 \<and>
           (if register_expires req = 0 then map_of (gs_session S') i = None
            else \<exists>d. map_of (gs_session S') i = Some d \<and> gd_Addr d = addr)
         else OnRegister E req (Some ''REGISTER'') S = ([], S)"
    using getSendAddr_cases [of req] OnRegister_accepts [OF r(3,4,6,5,2)] OnRegister_drops [OF r(3,6,5,2)] assms r(1)
    by (cases "sender_recorded req") (simp_all, metis)
qed

text \<open>C24: A client of this library registers with the application, when the nonce, the user name, the URI
  and the digests have no quotes.  The first REGISTER, which is ready and has no Authorization header, is
  answered with a challenge, and \<open>AuthorizeRequest\<close> accepts a response with that challenge.  A REGISTER of
  the device that carries the credentials it made and is ready, with whatever the transport did to its Via
  header, is answered with 200 if a Via hop records the sender with \<open>received\<close> or \<open>rport\<close>: its device is then
  in the session table with the address of the request, or removed from it for an expiry of 0.  If no hop
  records the sender, or a parameter has no value, nothing is answered and the table does not change.\<close>

theorem register_handshake:
  assumes req: "rmethod req = ''REGISTER''" "request_ready req" "GetHeaders ''Authorization'' (hdrs req) = []"
      "recipient req = Some u"
    and plain: "quote \<notin> set (ge_nonce E)" "quote \<notin> set user" "quote \<notin> set (uri_String u)" "\<And>x. quote \<notin> set (ge_md5hex E x)"
  shows "\<exists>res c. OnRegister E req (Some ''REGISTER'') S = ([res], S) \<and> rstatus res = 401 \<and>
    GetHeaders ''WWW-Authenticate'' (hdrs res) = [Authenticate c] \<and>
    (\<forall>res' ch l. rstatus res' = 401 \<longrightarrow> GetHeaders ''WWW-Authenticate'' (hdrs res') = GenericHeader ch # l \<longrightarrow> Contents ch = c \<longrightarrow>
      (\<exists>req'. AuthorizeRequest (ge_md5hex E) rand req res' (Some user) (Some pw) = Ok req' \<and> headers_wf (hdrs req') \<and>
        accepted_with (ge_md5hex E) pw (GetHeaders ''Authorization'' (hdrs req'))))"
proof -
  let ?c = "Authorization_String (challenge_auth (ge_nonce E))" and ?md5 = "ge_md5hex E"
  obtain res where res: "OnRegister E req (Some ''REGISTER'') S = ([res], S)" "rstatus res = 401"
    "GetHeaders ''WWW-Authenticate'' (hdrs res) = [Authenticate ?c]"
    using OnRegister_challenges [OF req(1-3)] by blast
  have wf: "headers_wf (hdrs req)" using req(2) by (simp add: request_ready_def)
  obtain hop c where hop: "hs_ViaHop (hdrs req) = Some hop" "HParams hop \<noteq> None" "hs_CSeq (hdrs req) = Some c"
    using req(2) by (auto simp: request_ready_def split: option.splits)
  have auth: "\<forall>h\<in>set (GetHeaders ''Authorization'' (hdrs req)). \<exists>g. h = GenericHeader g" using req(3) by simp
  have read: "AuthFromValue ?c = no_auth\<lparr>au_realm := ''3402000000'', au_nonce := ge_nonce E\<rparr>"
    using challenge_read [OF plain(1)] challenge_auth_fields [OF plain(1)] by simp
  have check: "check_credentials ?md5 ''REGISTER'' pw
      (Authorization_String (make_credentials ?md5 ?c ''REGISTER'' (uri_String u) user (Some pw)))"
    using check_credentials_made [of ?md5 user "uri_String u" ?c "''REGISTER''" pw, OF plain(4,2,3)] by (simp add: read)
  have made: "\<exists>req' g. AuthorizeRequest ?md5 rand req res' (Some user) (Some pw) = Ok req' \<and> headers_wf (hdrs req') \<and>
      GetHeaders ''Authorization'' (hdrs req') = [GenericHeader g] \<and>
      check_credentials ?md5 ''REGISTER'' pw (header_Value (GenericHeader g))"
    if "rstatus res' = 401" "GetHeaders ''WWW-Authenticate'' (hdrs res') = GenericHeader ch # l" "Contents ch = ?c" for res' :: response and ch l
    using AuthorizeRequest_Ok [OF wf hop(1,2,3) req(4) auth that(1,2), of ?md5 rand user "Some pw"] check that(3) req(1)
    by auto
  show ?thesis
  proof (rule exI [of _ res], rule exI [of _ ?c], intro conjI allI impI)
    fix res' :: response and ch l
    assume "rstatus res' = 401" "GetHeaders ''WWW-Authenticate'' (hdrs res') = GenericHeader ch # l" "Contents ch = ?c"
    from made [OF this] obtain req' g where r: "AuthorizeRequest ?md5 rand req res' (Some user) (Some pw) = Ok req'"
      "headers_wf (hdrs req')" "GetHeaders ''Authorization'' (hdrs req') = [GenericHeader g]"
      "check_credentials ?md5 ''REGISTER'' pw (header_Value (GenericHeader g))"
      by blast
    then show "\<exists>req'. AuthorizeRequest ?md5 rand req res' (Some user) (Some pw) = Ok req' \<and> headers_wf (hdrs req') \<and>
        accepted_with ?md5 pw (GetHeaders ''Authorization'' (hdrs req'))"
      using accepted_withI [OF r(4)] by auto
  qed (use res in simp_all)
qed

section \<open>Witnesses\<close>

lemma Headers_all_GetHeaders:
  assumes "headers_wf hs" and "h \<in> set (Headers_all hs)"
  shows "h \<in> set (GetHeaders (header_Name h) hs)"
proof -
  from assms(2) obtain k where k: "h \<in> set (headers_at hs k)" by (auto simp: Headers_all_def)
  then have "header_key h = k"
    using assms(1) by (cases "map_of (hdr_map hs) k") (auto simp: headers_at_def dest: headers_wf_group(2))
  with k show ?thesis by (simp add: GetHeaders_at header_key_def)
qed

lemma register_expires_default:
  assumes "headers_wf (hdrs req)" and "GetHeaders ''Expires'' (hdrs req) = []"
  shows "register_expires req = 3600"
proof -
  have "find (\<lambda>h. header_Name h = ''Expires'') (Headers_all (hdrs req)) = None"
    using Headers_all_GetHeaders [OF assms(1)] assms(2) by (fastforce simp: find_None_iff)
  then show ?thesis by (simp add: register_expires_def)
qed

definition sample_gb_env :: gb_env where
  "sample_gb_env = \<lparr>ge_now = 0, ge_since = 0, ge_outbound = [], ge_nonce = ''n'', ge_id = [], ge_token = (\<lambda>_. Some ''secret''),
     ge_md5hex = (\<lambda>_. ''h''), ge_decode = (\<lambda>_. \<lparr>sx_name = [], sx_CmdType = [], sx_DeviceList = []\<rparr>)\<rparr>"

definition sample_gb_session :: gb_session where
  "sample_gb_session = \<lparr>gs_session = [], gs_redis = [], gs_queries = []\<rparr>"

text \<open>A REGISTER as the transport passes it up, with the credentials \<open>g\<close>.\<close>

definition sample_register :: "generic_header \<Rightarrow> request" where
  "sample_register g = set_route ''UDP'' ''a.example:5060'' ''b.example:5060''
     (NewRequest [] ''1'' ''REGISTER'' (Some (SipUri ex_uri)) ''SIP/2.0''
        [ViaHeader [ex_hop\<lparr>HParams := Some (params_Add ''received'' (Some ''c.example'') NewParams)\<rparr>],
         FromHeader (ex_addr ''1''), ToHeader (ex_addr ''2''), CallID ''c'', CSeq \<lparr>SeqNo = 1, MethodName = ''REGISTER''\<rparr>,
         GenericHeader g] [])"

lemma sample_register_ok:
  assumes "header_key (GenericHeader g) = ''authorization''"
  shows "rmethod (sample_register g) = ''REGISTER''" "request_ready (sample_register g)"
    "GetHeaders ''Authorization'' (hdrs (sample_register g)) = [GenericHeader g]"
    "from_user (sample_register g) = Ok ''bob''" "getSendAddr (sample_register g) = Ok (''c.example:'' @ fmt_d (unat (5060 :: 16 word)))"
    "register_expires (sample_register g) = 3600"
proof -
  have low: "strings_ToLower ''Expires'' = ''expires''" by code_simp
  have hs: "hdrs (sample_register g) = newHeaders
        [ViaHeader [ex_hop\<lparr>HParams := Some (params_Add ''received'' (Some ''c.example'') NewParams)\<rparr>],
         FromHeader (ex_addr ''1''), ToHeader (ex_addr ''2''), CallID ''c'', CSeq \<lparr>SeqNo = 1, MethodName = ''REGISTER''\<rparr>,
         GenericHeader g]"
    by (simp add: sample_register_def NewRequest_def)
  have f: "rmethod (sample_register g) = ''REGISTER''" "tp (sample_register g) = strings_ToUpper ''UDP''"
    "src (sample_register g) = ''a.example:5060''" "dest (sample_register g) = ''b.example:5060''"
    "recipient (sample_register g) = Some (SipUri ex_uri)"
    by (simp_all add: sample_register_def NewRequest_def)
  have via: "hs_Via (hdrs (sample_register g)) =
      Some [ex_hop\<lparr>HParams := Some (params_Add ''received'' (Some ''c.example'') NewParams)\<rparr>]"
    "hs_CSeq (hdrs (sample_register g)) = Some \<lparr>SeqNo = 1, MethodName = ''REGISTER''\<rparr>"
    "hs_From (hdrs (sample_register g)) = Some (ex_addr ''1'')"
    by (simp_all add: hs hs_Via_def hs_CSeq_def hs_From_def GetHeaders_newHeaders assms)
  show "rmethod (sample_register g) = ''REGISTER''" by (fact f)
  show "request_ready (sample_register g)"
    using f via
    by (simp add: request_ready_def hs_ViaHop_def request_Transport_def request_Source_def request_Destination_def strings_ToUpper_def)
       (simp add: hs)
  show "GetHeaders ''Authorization'' (hdrs (sample_register g)) = [GenericHeader g]"
    by (simp add: hs GetHeaders_newHeaders assms low_auth)
  show "from_user (sample_register g) = Ok ''bob''" by (simp add: from_user_def via(3) ex_addr_def ex_uri_def)
  have "params_Get (params_Add ''received'' (Some ''c.example'') NewParams) ''received'' = Some (Some ''c.example'')"
    "params_Get (params_Add ''received'' (Some ''c.example'') NewParams) ''rport'' = None"
    by code_simp+
  then show "getSendAddr (sample_register g) = Ok (''c.example:'' @ fmt_d (unat (5060 :: 16 word)))"
    by (simp add: getSendAddr_def via(1) ex_hop_def del: fmt_d.simps)
  show "register_expires (sample_register g) = 3600"
    by (rule register_expires_default) (simp_all add: hs GetHeaders_newHeaders assms low)
qed

theorem session_never_expires_witness:
  "\<exists>d. session_Get (sample_gb_env\<lparr>ge_now := 10 ^ 30\<rparr>) ''bob''
     (sample_gb_session\<lparr>gs_session := [(''bob'', d)]\<rparr>) = (Some d, sample_gb_session\<lparr>gs_session := [(''bob'', d)]\<rparr>) \<and> gd_Expires d = 1"
proof -
  let ?d = "\<lparr>gd_DeviceID = ''bob'', gd_From = [], gd_Addr = [], gd_RegisterTime = 0, gd_Expires = 1, gd_CSeq = 1, gd_ChannelMap = None\<rparr>"
  have "session_Get (sample_gb_env\<lparr>ge_now := 10 ^ 30\<rparr>) ''bob'' (sample_gb_session\<lparr>gs_session := [(''bob'', ?d)]\<rparr>) =
      (Some ?d, sample_gb_session\<lparr>gs_session := [(''bob'', ?d)]\<rparr>)"
    by (rule session_never_expires) (simp_all add: sample_gb_env_def)
  then show ?thesis by auto
qed

theorem registration_needs_password_witness:
  "\<exists>rs S' d. OnRegister sample_gb_env (sample_register \<lparr>HeaderName = ''Authorization'', Contents = ''response='' @ in_quotes ''h''\<rparr>)
       (Some ''REGISTER'') sample_gb_session = (rs, S') \<and> map rstatus rs = [200] \<and>
     map_of (gs_session S') ''bob'' = Some d \<and> gd_Expires d = 3600000000000"
proof -
  let ?g = "\<lparr>HeaderName = ''Authorization'', Contents = ''response='' @ in_quotes ''h''\<rparr>"
  have key: "header_key (GenericHeader ?g) = ''authorization''" by (simp add: header_key_def low_auth)
  note r = sample_register_ok [OF key]
  have "check_credentials (\<lambda>_. ''h'') ''REGISTER'' ''secret'' (''response='' @ in_quotes ''h'')" by code_simp
  then obtain res S' d where o: "OnRegister sample_gb_env (sample_register ?g) (Some ''REGISTER'') sample_gb_session = ([res], S')"
    "map_of (gs_session S') ''bob'' = Some d"
    using OnRegister_accepts [OF r(1-4) _ r(5), of sample_gb_env "''secret''" sample_gb_session] r(6)
    by (auto simp: sample_gb_env_def)
  then have "S' \<noteq> sample_gb_session" by (auto simp: sample_gb_session_def)
  from registration_needs_password [OF o(1) this] r(4,6) o show ?thesis by (auto simp: wrap64_def)
qed

theorem register_handshake_witness:
  "\<exists>res' req' g res2 S3. rstatus res' = 401 \<and>
     AuthorizeRequest (\<lambda>_. ''h'') ''rand'' (ex_request ''REGISTER'') res' (Some ''bob'') (Some ''secret'') = Ok req' \<and>
     GetHeaders ''Authorization'' (hdrs req') = [GenericHeader g] \<and>
     OnRegister sample_gb_env (sample_register g) (Some ''REGISTER'') sample_gb_session = ([res2], S3) \<and> rstatus res2 = 200"
proof -
  have r: "hdrs (ex_request ''REGISTER'') = newHeaders (ex_headers ''REGISTER'')" "rmethod (ex_request ''REGISTER'') = ''REGISTER''"
    "recipient (ex_request ''REGISTER'') = Some (SipUri ex_uri)"
    by (simp_all add: ex_request_def NewRequest_def)
  have none: "GetHeaders ''Authorization'' (hdrs (ex_request ''REGISTER'')) = []"
    by (simp add: r(1) GetHeaders_newHeaders ex_headers_def low_auth)
  have plain: "quote \<notin> set ''n''" "quote \<notin> set ''bob''" "quote \<notin> set (uri_String (SipUri ex_uri))" "quote \<notin> set ''h''"
    by code_simp+
  from register_handshake [OF r(2) ex_ready(1) none r(3), of sample_gb_env "''bob''" sample_gb_session "''rand''" "''secret''"] plain
  obtain c where c: "\<forall>res' ch l. rstatus res' = 401 \<longrightarrow> GetHeaders ''WWW-Authenticate'' (hdrs res') = GenericHeader ch # l \<longrightarrow> Contents ch = c \<longrightarrow>
      (\<exists>req'. AuthorizeRequest (\<lambda>_. ''h'') ''rand'' (ex_request ''REGISTER'') res' (Some ''bob'') (Some ''secret'') = Ok req' \<and> headers_wf (hdrs req') \<and>
        accepted_with (\<lambda>_. ''h'') ''secret'' (GetHeaders ''Authorization'' (hdrs req')))"
    by (auto simp: sample_gb_env_def)
  define res' where "res' = NewResponse [] ''2'' ''SIP/2.0'' 401 ''Unauthorized''
     [GenericHeader \<lparr>HeaderName = ''WWW-Authenticate'', Contents = c\<rparr>] []"
  have res': "rstatus res' = 401"
    "GetHeaders ''WWW-Authenticate'' (hdrs res') = [GenericHeader \<lparr>HeaderName = ''WWW-Authenticate'', Contents = c\<rparr>]"
    by (simp_all add: res'_def NewResponse_def GetHeaders_newHeaders header_key_def low_auth)
  from c [rule_format, OF this] obtain req'
    where req': "AuthorizeRequest (\<lambda>_. ''h'') ''rand'' (ex_request ''REGISTER'') res' (Some ''bob'') (Some ''secret'') = Ok req'"
      "headers_wf (hdrs req')" "accepted_with (\<lambda>_. ''h'') ''secret'' (GetHeaders ''Authorization'' (hdrs req'))"
    by auto
  have hop: "HParams ex_hop \<noteq> None" "hs_CSeq (hdrs (ex_request ''REGISTER'')) = Some \<lparr>SeqNo = 1, MethodName = ''REGISTER''\<rparr>"
    "headers_wf (hdrs (ex_request ''REGISTER''))"
    by (simp_all add: ex_hop_def r(1))
  have "\<forall>h\<in>set (GetHeaders ''Authorization'' (hdrs (ex_request ''REGISTER''))). \<exists>g. h = GenericHeader g" using none by simp
  from AuthorizeRequest_Ok [OF hop(3) ex_ViaHop hop(1,2) r(3) this res', of "\<lambda>_. ''h''" "''rand''" "''bob''" "Some ''secret''"] req'(1)
  obtain g where g: "GetHeaders ''Authorization'' (hdrs req') = [GenericHeader g]" by auto
  have key: "header_key (GenericHeader g) = ''authorization''"
    using g req'(2) headers_wf_group(2) [of "hdrs req'" "''authorization''"]
    by (auto simp: GetHeaders_def low_auth split: option.splits)
  note s = sample_register_ok [OF key]
  have "\<exists>res2 S3 d. OnRegister sample_gb_env (sample_register g) (Some ''REGISTER'') sample_gb_session = ([res2], S3) \<and> rstatus res2 = 200 \<and>
      map_of (gs_session S3) ''bob'' = Some d \<and> gd_Addr d = ''c.example:'' @ fmt_d (unat (5060 :: 16 word))"
    using req'(3) [unfolded accepted_with_def g, rule_format, OF _ _ s(1,2,4,3), of sample_gb_env] s(5,6)
      getSendAddr_cases [of "sample_register g"]
    by (cases "sender_recorded (sample_register g)") (auto simp: sample_gb_env_def simp del: fmt_d.simps)
  with res'(1) req'(1) g show ?thesis by blast
qed

end
