(* ===== verification/Spec2Isabelle.thy ===== *)
theory Spec2Isabelle
  imports TxLayerProps Transport_Client AuthProps Builder Gb28181
begin

text \<open>
  A model of the SIP library \<^verbatim>\<open>gosip\<close> (Go, under \<^verbatim>\<open>src/\<close>) and of what it guarantees.

  \<^bold>\<open>The program.\<close>  Messages (\<^verbatim>\<open>sip/\<close>) are built, printed and parsed (\<^verbatim>\<open>sip/parser/\<close>).  The
  transport layer (\<^verbatim>\<open>transport/\<close>) reads bytes from connections, gives them to a parser, completes each
  message with its source and destination, and passes it up; it sends messages to the addresses they
  name.  The transaction layer (\<^verbatim>\<open>transaction/\<close>) matches each message to a client or a server
  transaction, which are state machines with timers.  The server (\<^verbatim>\<open>server.go\<close>) gives requests to the
  handlers of the application, adds headers to what is sent, and repeats a request that needs
  credentials.  On top of it, \<^verbatim>\<open>gb28181/\<close> registers cameras.

  \<^bold>\<open>How the code is modelled.\<close>  Strings are byte lists.  A struct is a record, an interface with several
  dynamic types a datatype, a nil pointer \<^const>\<open>None\<close>, a Go map an association list, an integer of a
  fixed width a word.  Code that can fail or panic returns \<open>res\<close> (\<open>Ok\<close>, \<open>Err\<close>, \<open>Crash\<close>);
  code over a shared state returns \<open>go\<close> (\<open>Ret\<close>, \<open>Panic\<close>, \<open>Block\<close>, \<open>Diverge\<close>).  Each operation
  that holds a lock is one step; storing a response or a request in a transaction and the call of
  \<open>Spin\<close> that follows are one step too, and so are storing a new server transaction and passing it
  up, apart from a cancellation in between.  Goroutines, timers and callbacks interleave through runs of events
  (\<open>client_run\<close>, \<open>server_run\<close>, \<open>layer_run\<close>, \<open>pool_run\<close>) and the reachability relations over
  them.  Code outside the repository is an argument: the state machine package (\<open>Define\<close>, \<open>Spin\<close>,
  with the locale \<open>fsm_lib\<close> for its documented behaviour), MD5, random values, sockets, resolvers and
  the name service (\<open>net_env\<close>), and the handlers of the application.

  \<^bold>\<open>Theories.\<close>
  \<^item> \<open>Go_Prelude\<close>, \<open>Go_Text\<close>: what is used of Go and of its packages \<^verbatim>\<open>strings\<close> and \<^verbatim>\<open>strconv\<close>.
  \<^item> \<open>Escape\<close>, \<open>Params\<close>, \<open>Headers\<close>, \<open>Message\<close>, \<open>Request_Response\<close>: \<^verbatim>\<open>sip/escape.go\<close>,
    \<^verbatim>\<open>headers.go\<close>, \<^verbatim>\<open>message.go\<close>, \<^verbatim>\<open>request.go\<close>, \<^verbatim>\<open>response.go\<close>.  Escaping is inverted by unescaping; a
    parameter set is a dictionary with insertion order (locale \<open>ordered_dict\<close>); a header collection is a
    multimap with an order of names (locale \<open>header_multimap\<close>); copies print as their originals, but
    for a wildcard Contact; every header of responses, CANCEL and ACK is given by the request and the
    response they are made from.
  \<^item> \<open>Parser_Uri\<close>, \<open>Parser_Headers\<close>, \<open>Parser_Message\<close>, \<open>Parser_Stream\<close> with
    \<open>Parser_UriProps\<close>, \<open>Parser_HeaderProps\<close>, \<open>Parser_RoundTrip\<close>, \<open>Parser_MessageProps\<close>,
    \<open>Parser_StreamProps\<close>: \<^verbatim>\<open>sip/parser/\<close>.  Printed messages are read back, from a packet and from a
    stream cut anywhere; parsed headers are well-formed and typed; the inputs on which the parser
    panics are characterised; packet and stream parser agree.
  \<^item> \<open>Auth\<close>, \<open>AuthProps\<close>, \<open>Builder\<close>: \<^verbatim>\<open>sip/auth.go\<close>, \<^verbatim>\<open>builder.go\<close>, \<^verbatim>\<open>core.go\<close>.
  \<^item> \<open>TxKey\<close>, \<open>Fsm\<close>, \<open>Tx_Common\<close>, \<open>ClientTx\<close>, \<open>ServerTx\<close>, \<open>TxLayer\<close> with \<open>ClientSafety\<close>,
    \<open>ClientProps\<close>, \<open>ClientRaces\<close>, \<open>ServerSafety\<close>, \<open>ServerProps\<close>, \<open>TxLayerProps\<close>:
    \<^verbatim>\<open>transaction/\<close>.  In every interleaving without \<open>Terminate\<close> no operation panics or runs forever
    (for requests and responses with the headers that the code reads unchecked), the channels are closed exactly in Terminated, and the states that must not last have a timer that
    ends them; the store of the layer is keyed correctly, a request is passed up once while its
    transaction lives, and responses reach their transaction.  The runs that go wrong are proved as such.
  \<^item> \<open>Transport_Target\<close>, \<open>Transport_Handler\<close>, \<open>Transport_Pool\<close>, \<open>Transport_Listener\<close>,
    \<open>Transport_Layer\<close>, \<open>Transport_LayerProps\<close>: \<^verbatim>\<open>transport/\<close>.  Both pools implement one contract
    (locale \<open>handler_pool\<close>); every connection ever put into a pool is served or closed; what arrives on
    a stream comes out in order; a response goes back to the socket that sent the request, but for IPv6
    senders over UDP without \<open>rport\<close>.
  \<^item> \<open>Transport_Client\<close>: client transactions over the transport layer.  In the model of a transaction
    \<open>Send\<close> returns an error or none and does not change the request; this theory shows for which
    requests \<open>layer_Send\<close> returns, that it leaves such requests, and that an INVITE transaction sends
    no others.
  \<^item> \<open>Server\<close>: \<^verbatim>\<open>server.go\<close>, over the transaction layer, the transport layer and the authorizer.
    Automatic headers are added once; a request without a handler is refused on its transaction; a
    request that is challenged is sent again once with credentials.
  \<^item> \<open>Gb28181\<close>: the session table and the handlers of \<^verbatim>\<open>gb28181/\<close>.  Registering needs the password of
    the device, and a client that uses \<open>AuthorizeRequest\<close> gets through if its Via records the sender;
    sessions never expire.

  \<^bold>\<open>Bounds and fuel.\<close>  No definition has fuel.  A call of \<open>Spin\<close> loops over the turns of a machine; the
  library's function is an argument, its instance \<open>fsm_Spin\<close> is a partial function whose value is
  \<open>Diverge\<close> when it does not end, and the lemmas on turns show that client machines need at most two
  turns and server machines at most four.  The loop of the stream parser consumes input in each turn
  and ends for that reason; a turn that needs more input is a suspended state.  A request with a
  context is sent at most twice, which bounds its recursion.  Retransmission intervals are 64-bit
  durations; they do not overflow in the first 34 doublings, many more than timer B allows.

  \<^bold>\<open>Not modelled.\<close>  Logging and log fields, the timer wrapper with its mock mode (\<^verbatim>\<open>timing/\<close>), TLS
  set-up, deadlines of sockets, Unicode case mapping, and the helpers of \<^verbatim>\<open>util/\<close> that nothing calls
  have no influence on the properties.  Of \<^verbatim>\<open>gb28181/\<close> the requests that the application
  sends on its own, its HTTP interface and its scheduler are left out, as is \<^verbatim>\<open>spi/\<close>: they consist of
  calls of services and frameworks outside the repository.
\<close>

end
